(* ===== verification/Prelude.thy ===== *)
theory Prelude
  imports Complex_Main "HOL-Library.Word" "HOL-Library.Signed_Division" "HOL-Library.Sublist"
begin

text \<open>
  Shared vocabulary of the development: the Go base types the model uses, results with
  errors as values, the two collections of rewrite rules the component theories draw on,
  and the generic facts on lists, options and machine integers that several components need.

  Conventions used everywhere:
    \<^item> a \<open>uuid.UUID\<close> is its 16 bytes, a 128-bit word, and \<open>uuid.Nil\<close> is the word 0;
    \<^item> a \<open>time.Time\<close> is the number of nanoseconds since the Unix epoch, an integer;
    \<^item> Go strings and byte slices are byte strings, HOL's \<open>string\<close>;
    \<^item> \<open>int64\<close> values are integers with the wrap-around written out by \<open>wrap64\<close>;
    \<^item> a Go function that returns \<open>(T, error)\<close> returns the sum \<open>'err + 'a\<close>.
\<close>

section \<open>Base types\<close>

type_synonym uuid = "128 word"
type_synonym gotime = int
type_synonym duration = int
type_synonym go_int64 = int

abbreviation uuid_nil :: uuid where "uuid_nil \<equiv> 0"

text \<open>Rewrite rules of the model: definitions that unfold to executable code, and the
  rules that lift a property over one step.\<close>

named_theorems go_simps
named_theorems step_intros

section \<open>Machine integers\<close>

definition is_int64 :: "int \<Rightarrow> bool" where
  "is_int64 x \<longleftrightarrow> - (2 ^ 63) \<le> x \<and> x < 2 ^ 63"

definition wrap64 :: "int \<Rightarrow> int" where
  "wrap64 x = (x + 2 ^ 63) mod 2 ^ 64 - 2 ^ 63"

lemma wrap64_id [simp]: "is_int64 x \<Longrightarrow> wrap64 x = x"
  by (simp add: is_int64_def wrap64_def)

lemma is_int64_wrap64 [simp]: "is_int64 (wrap64 x)"
proof -
  have "0 \<le> (x + 2 ^ 63) mod 2 ^ 64" and "(x + 2 ^ 63) mod 2 ^ 64 < 2 ^ 64"
    by simp_all
  then show ?thesis by (simp add: is_int64_def wrap64_def)
qed

lemma wrap64_small: "0 \<le> x \<Longrightarrow> x < 2 ^ 63 \<Longrightarrow> wrap64 x = x"
  by (simp add: is_int64_def)

text \<open>Go's integer division and remainder truncate towards zero; on nonnegative operands
  they agree with HOL's.\<close>

lemma sdiv_nonneg [simp]: "0 \<le> (a::int) \<Longrightarrow> 0 \<le> b \<Longrightarrow> a sdiv b = a div b"
  by (cases "a = 0"; cases "b = 0") (simp_all add: signed_divide_int_def sgn_if)

lemma smod_nonneg [simp]: "0 \<le> (a::int) \<Longrightarrow> 0 \<le> b \<Longrightarrow> a smod b = a mod b"
  by (cases "a = 0") (simp_all add: signed_modulo_int_def)

section \<open>Results\<close>

text \<open>Sequencing of fallible calls: the first error is the result.\<close>

fun bind_res :: "'e + 'a \<Rightarrow> ('a \<Rightarrow> 'e + 'b) \<Rightarrow> 'e + 'b" where
  "bind_res (Inl e) f = Inl e"
| "bind_res (Inr a) f = f a"

lemma bind_res_Inr_iff: "bind_res r f = Inr b \<longleftrightarrow> (\<exists>a. r = Inr a \<and> f a = Inr b)"
  by (cases r) auto

lemma bind_res_Inl_iff: "bind_res r f = Inl e \<longleftrightarrow> r = Inl e \<or> (\<exists>a. r = Inr a \<and> f a = Inl e)"
  by (cases r) auto

text \<open>Runs of code that may also not return, \<open>None\<close>.\<close>

fun bind_run :: "('e + 'a) option \<Rightarrow> ('a \<Rightarrow> ('e + 'b) option) \<Rightarrow> ('e + 'b) option" where
  "bind_run None f = None"
| "bind_run (Some (Inl e)) f = Some (Inl e)"
| "bind_run (Some (Inr a)) f = f a"

lemma bind_run_Inr_iff:
  "bind_run r f = Some (Inr b) \<longleftrightarrow> (\<exists>a. r = Some (Inr a) \<and> f a = Some (Inr b))"
  by (cases "(r, f)" rule: bind_run.cases) auto

text \<open>An error mapped into the caller's error type.\<close>

fun map_err :: "('e \<Rightarrow> 'f) \<Rightarrow> 'e + 'a \<Rightarrow> 'f + 'a" where
  "map_err g (Inl e) = Inl (g e)"
| "map_err g (Inr a) = Inr a"

lemma map_err_Inr_iff [simp]: "map_err g r = Inr a \<longleftrightarrow> r = Inr a"
  by (cases r) auto

section \<open>Lists\<close>

text \<open>The first row a SQL query returns, if any: \<open>QueryRow\<close> with \<open>pgx.ErrNoRows\<close> as \<open>None\<close>.\<close>

fun first_row :: "'a list \<Rightarrow> 'a option" where
  "first_row [] = None"
| "first_row (x # xs) = Some x"

lemma first_row_None_iff [simp]: "first_row xs = None \<longleftrightarrow> xs = []"
  by (cases xs) auto

lemma first_row_Some_in: "first_row xs = Some x \<Longrightarrow> x \<in> set xs"
  by (cases xs) auto

lemma first_row_filter:
  "first_row (filter P xs) = Some x \<Longrightarrow> x \<in> set xs \<and> P x"
  using first_row_Some_in by fastforce

lemma find_first_row: "first_row (filter P xs) = List.find P xs"
  by (induction xs) auto

text \<open>A key in use.\<close>

lemma list_ex_key: "list_ex (\<lambda>t. g t = k) ts \<longleftrightarrow> k \<in> g ` set ts"
  by (auto simp: list_ex_iff)

text \<open>\<open>ORDER BY key\<close> is HOL's stable \<open>sort_key\<close>; \<open>ORDER BY key DESC\<close> sorts by the negated key.\<close>

definition sort_desc :: "('a \<Rightarrow> int) \<Rightarrow> 'a list \<Rightarrow> 'a list" where
  "sort_desc k xs = sort_key (\<lambda>x. - k x) xs"

lemma sort_desc_Nil [simp]: "sort_desc k [] = []"
  by (simp add: sort_desc_def)

lemma set_sort_desc [simp]: "set (sort_desc k xs) = set xs"
  by (simp add: sort_desc_def)

lemma sort_desc_Nil_iff [simp]: "sort_desc k xs = [] \<longleftrightarrow> xs = []"
  by (metis set_empty set_sort_desc)

lemma distinct_map_sort_desc [simp]: "distinct (map f (sort_desc k xs)) \<longleftrightarrow> distinct (map f xs)"
  by (simp add: distinct_map sort_desc_def)

lemma first_row_sort_desc_max:
  assumes "first_row (sort_desc k xs) = Some x" and "y \<in> set xs"
  shows "k y \<le> k x"
proof -
  from assms(1) obtain zs where zs: "sort_desc k xs = x # zs"
    by (cases "sort_desc k xs") auto
  have "sorted (map (\<lambda>x. - k x) (sort_desc k xs))"
    by (simp add: sort_desc_def)
  moreover have "y \<in> set (sort_desc k xs)"
    using assms(2) by simp
  ultimately show ?thesis using zs by auto
qed

lemma first_row_sort_desc_in: "first_row (sort_desc k xs) = Some x \<Longrightarrow> x \<in> set xs"
  by (metis first_row_Some_in set_sort_desc)

lemma first_row_sort_desc_Some:
  assumes "xs \<noteq> []"
  obtains x where "first_row (sort_desc k xs) = Some x"
  using assms by (cases "sort_desc k xs") auto

text \<open>Where the key rises in table order the newest row is the last one.\<close>

lemma first_row_sort_desc_last:
  assumes "sorted_wrt (\<lambda>a b. k a < k b) xs" "xs \<noteq> []"
  shows "first_row (sort_desc k xs) = Some (last xs)"
proof -
  obtain x where x: "first_row (sort_desc k xs) = Some x" using assms(2) by (rule first_row_sort_desc_Some)
  obtain ys where ys: "xs = ys @ [last xs]" using assms(2) by (metis append_butlast_last_id)
  have "k (last xs) \<le> k x" using first_row_sort_desc_max [OF x] assms(2) by simp
  moreover have "k y < k (last xs)" if "y \<in> set ys" for y using assms(1) ys that by (metis list.set_intros(1) sorted_wrt_append)
  moreover have "x \<in> set ys \<or> x = last xs" using first_row_sort_desc_in [OF x] ys by (metis Un_iff empty_iff insert_iff list.set set_append)
  ultimately show ?thesis using x by force
qed

lemma find_map_same: "(\<And>x. P (f x) = P x) \<Longrightarrow> List.find P (map f xs) = map_option f (List.find P xs)"
  by (induction xs) auto

lemma find_append_first: "List.find P xs = Some x \<Longrightarrow> List.find P (xs @ ys) = Some x"
  by (induction xs) auto

lemma first_row_sort_desc_filter:
  "first_row (sort_desc k (filter P xs)) = Some x \<Longrightarrow> x \<in> set xs \<and> P x"
  using first_row_sort_desc_in by fastforce

lemma first_row_unique_max:
  assumes "x \<in> set xs" and "\<And>y. y \<in> set xs \<Longrightarrow> y \<noteq> x \<Longrightarrow> k y < k x"
  shows "first_row (sort_desc k xs) = Some x"
proof -
  from assms(1) have "xs \<noteq> []" by auto
  then obtain z where z: "first_row (sort_desc k xs) = Some z" by (rule first_row_sort_desc_Some)
  from first_row_sort_desc_in [OF z] first_row_sort_desc_max [OF z assms(1)] assms(2) have "z = x"
    by fastforce
  with z show ?thesis by simp
qed

lemma filter_eq_self: "(\<And>x. x \<in> set xs \<Longrightarrow> P x) \<Longrightarrow> filter P xs = xs"
  by (simp add: filter_id_conv)

section \<open>Round trips\<close>

text \<open>The contract between a renderer and the reader of its output, on the values the program
  renders: every such value has a rendering, and reading it gives the value back.\<close>

locale codec =
  fixes enc :: "'a \<Rightarrow> 'b option"
    and dec :: "'b \<Rightarrow> 'e + 'a"
    and ok :: "'a \<Rightarrow> bool"
  assumes dec_enc: "ok x \<Longrightarrow> \<exists>s. enc x = Some s \<and> dec s = Inr x"
begin

lemma enc_defined: "ok x \<Longrightarrow> \<exists>s. enc x = Some s"
  using dec_enc by blast

lemma dec_of_enc: "ok x \<Longrightarrow> enc x = Some s \<Longrightarrow> dec s = Inr x"
  using dec_enc by force

lemma enc_inj: "ok x \<Longrightarrow> ok y \<Longrightarrow> enc x = enc y \<Longrightarrow> x = y"
  using dec_enc [of x] dec_enc [of y] by auto

lemma enc_inj_on: "inj_on enc {x. ok x}"
  by (rule inj_onI) (auto intro: enc_inj)

end

section \<open>Requests\<close>

text \<open>What reading and decoding a request body comes to.\<close>

datatype 'a req_body = BodyUnreadable | BodyTooLarge | BodyNotJson | BodyJson 'a

end
