(* ===== verification/GoText.thy ===== *)
theory GoText
  imports Prelude
begin

text \<open>
  What the program uses of Go's text packages: \<open>strings.TrimSpace\<close>, \<open>TrimRight\<close> and
  \<open>Split\<close>, the decimal rendering of integers by \<open>fmt\<close> and \<open>strconv\<close>, and
  \<open>encoding/hex\<close>. All of it works on byte strings.
\<close>

section \<open>Trimming\<close>

text \<open>The UTF-8 encodings of the runes that \<open>unicode.IsSpace\<close> accepts.\<close>

definition bytes :: "nat list \<Rightarrow> string" where
  "bytes ns = map char_of ns"

definition space_runes :: "string list" where
  "space_runes = map bytes
     [[9], [10], [11], [12], [13], [32], [194, 133], [194, 160], [225, 154, 128],
      [226, 128, 128], [226, 128, 129], [226, 128, 130], [226, 128, 131], [226, 128, 132],
      [226, 128, 133], [226, 128, 134], [226, 128, 135], [226, 128, 136], [226, 128, 137],
      [226, 128, 138], [226, 128, 168], [226, 128, 169], [226, 128, 175], [226, 129, 159],
      [227, 128, 128]]"

function strip_left :: "string list \<Rightarrow> string \<Rightarrow> string" where
  "strip_left rs s =
     (case List.find (\<lambda>r. r \<noteq> [] \<and> prefix r s) rs of
        None \<Rightarrow> s
      | Some r \<Rightarrow> strip_left rs (drop (length r) s))"
  by pat_completeness auto
termination
  by (relation "measure (\<lambda>(rs, s). length s)")
     (auto simp: find_Some_iff prefix_def)

declare strip_left.simps [simp del]

definition strip_right :: "string list \<Rightarrow> string \<Rightarrow> string" where
  "strip_right rs s = rev (strip_left (map rev rs) (rev s))"

definition trim_space :: "string \<Rightarrow> string" where
  "trim_space s = strip_right space_runes (strip_left space_runes s)"

text \<open>A string whose first and last byte begin and end no space rune is left as it is.\<close>

definition space_byte :: "char \<Rightarrow> bool" where
  "space_byte c \<longleftrightarrow> (\<exists>r \<in> set space_runes. hd r = c \<or> last r = c)"

lemma space_byte_code: "space_byte c \<Longrightarrow> (of_char c :: nat) \<in> {9, 10, 11, 12, 13, 32} \<or> 128 \<le> (of_char c :: nat)"
  by (auto simp: space_byte_def space_runes_def bytes_def)

lemma space_runes_nonempty: "r \<in> set space_runes \<Longrightarrow> r \<noteq> []"
  by (auto simp: space_runes_def bytes_def)

lemma strip_left_id:
  assumes "\<And>r. r \<in> set rs \<Longrightarrow> r \<noteq> [] \<Longrightarrow> s = [] \<or> hd r \<noteq> hd s"
  shows "strip_left rs s = s"
proof -
  have "\<not> (r \<noteq> [] \<and> prefix r s)" if "r \<in> set rs" for r
    using assms [OF that] by (auto simp: prefix_def)
  then have "List.find (\<lambda>r. r \<noteq> [] \<and> prefix r s) rs = None"
    by (simp add: find_None_iff)
  then show ?thesis by (subst strip_left.simps) simp
qed

lemma strip_right_id:
  assumes "\<And>r. r \<in> set rs \<Longrightarrow> r \<noteq> [] \<Longrightarrow> s = [] \<or> last r \<noteq> last s"
  shows "strip_right rs s = s"
proof -
  have "strip_left (map rev rs) (rev s) = rev s"
  proof (rule strip_left_id)
    fix r assume r: "r \<in> set (map rev rs)" and ne: "r \<noteq> []"
    from r obtain q where q: "q \<in> set rs" and rq: "r = rev q" by auto
    from ne rq have "q \<noteq> []" by simp
    with assms q show "rev s = [] \<or> hd r \<noteq> hd (rev s)"
      by (auto simp: rq hd_rev)
  qed
  then show ?thesis by (simp add: strip_right_def)
qed

lemma trim_space_id:
  assumes "s \<noteq> []" and "\<not> space_byte (hd s)" and "\<not> space_byte (last s)"
  shows "trim_space s = s"
proof -
  have "strip_left space_runes s = s"
    by (rule strip_left_id) (use assms(2) in \<open>auto simp: space_byte_def\<close>)
  moreover have "strip_right space_runes s = s"
    by (rule strip_right_id) (use assms(3) in \<open>auto simp: space_byte_def\<close>)
  ultimately show ?thesis by (simp add: trim_space_def)
qed

text \<open>A leading blank is trimmed.\<close>

lemma find_append_Some: "(\<forall>y\<in>set ys. \<not> P y) \<Longrightarrow> P x \<Longrightarrow> List.find P (ys @ x # zs) = Some x"
  by (induction ys) auto
lemma bytes_prefix: "ns \<noteq> [] \<Longrightarrow> prefix (bytes ns) (c # s) \<Longrightarrow> char_of (hd ns) = c"
  by (cases ns) (simp_all add: bytes_def)
lemma find_space: "List.find (\<lambda>r. r \<noteq> [] \<and> prefix r (CHR '' '' # s)) space_runes = Some [CHR '' '']"
proof -
  have none: "\<forall>y\<in>set (map bytes [[9], [10], [11], [12], [13]]). \<not> (y \<noteq> [] \<and> prefix y (CHR '' '' # s))"
  proof
    fix y assume "y \<in> set (map bytes [[9], [10], [11], [12], [13 :: nat]])"
    then obtain n :: nat where "y = bytes [n]" "n \<in> {9, 10, 11, 12, 13}" by auto
    moreover have "\<not> prefix (bytes [n]) (CHR '' '' # s)" if "n \<in> {9, 10, 11, 12, 13}" for n :: nat
    proof
      assume "prefix (bytes [n]) (CHR '' '' # s)"
      then have "char_of n = CHR '' ''" using bytes_prefix [of "[n]"] by simp
      then have "n mod 256 = of_char (CHR '' '')" by (metis of_char_of)
      with that show False by auto
    qed
    ultimately show "\<not> (y \<noteq> [] \<and> prefix y (CHR '' '' # s))" by blast
  qed
  have b: "bytes [32] = [CHR '' '']" by code_simp
  have "\<exists>zs. space_runes = map bytes [[9], [10], [11], [12], [13]] @ [CHR '' ''] # zs"
    unfolding space_runes_def list.map append.simps b by blast
  then obtain zs where sr: "space_runes = map bytes [[9], [10], [11], [12], [13]] @ [CHR '' ''] # zs" ..
  show ?thesis unfolding sr by (rule find_append_Some [OF none]) simp
qed
lemma trim_space_lead: "trim_space (CHR '' '' # s) = trim_space s"
  unfolding trim_space_def by (subst strip_left.simps) (simp add: find_space)

text \<open>\<open>strings.TrimRight (s, c)\<close> with a one-byte cutset.\<close>

definition trim_right_char :: "char \<Rightarrow> string \<Rightarrow> string" where
  "trim_right_char c s = rev (dropWhile (\<lambda>x. x = c) (rev s))"

text \<open>Dropping trailing zeros.\<close>

lemma trim_right_char_split:
  obtains k where "s = trim_right_char c s @ replicate k c"
    and "trim_right_char c s = [] \<or> last (trim_right_char c s) \<noteq> c"
proof -
  let ?t = "takeWhile (\<lambda>x. x = c) (rev s)" and ?d = "dropWhile (\<lambda>x. x = c) (rev s)"
  have "?t = replicate (length ?t) c"
    by (rule replicate_length_same [symmetric]) (auto dest: set_takeWhileD)
  moreover have "s = rev ?d @ rev ?t" by (metis rev_append rev_rev_ident takeWhile_dropWhile_id)
  ultimately have "s = trim_right_char c s @ replicate (length ?t) c"
    by (metis rev_replicate trim_right_char_def)
  moreover have "trim_right_char c s = [] \<or> last (trim_right_char c s) \<noteq> c"
    using hd_dropWhile [of "\<lambda>x. x = c" "rev s"]
    by (cases "dropWhile (\<lambda>x. x = c) (rev s)") (auto simp: trim_right_char_def)
  ultimately show ?thesis using that by blast
qed

lemma trim_right_char_append:
  "trim_right_char c t \<noteq> [] \<Longrightarrow> trim_right_char c (s @ t) = s @ trim_right_char c t"
  by (auto simp: trim_right_char_def dropWhile_append split: if_splits)

lemma trim_right_char_id: "s \<noteq> [] \<Longrightarrow> last s \<noteq> c \<Longrightarrow> trim_right_char c s = s"
  by (cases s rule: rev_cases) (auto simp: trim_right_char_def)

section \<open>Decimal rendering\<close>

definition digit_char :: "nat \<Rightarrow> char" where
  "digit_char d = char_of (48 + d)"

fun dec_nat :: "nat \<Rightarrow> string" where
  "dec_nat n = (if n < 10 then [digit_char n] else dec_nat (n div 10) @ [digit_char (n mod 10)])"

declare dec_nat.simps [simp del]

definition fmt_int :: "int \<Rightarrow> string" where
  "fmt_int i = (if i < 0 then CHR ''-'' # dec_nat (nat (- i)) else dec_nat (nat i))"

text \<open>\<open>%0wd\<close> of a nonnegative number.\<close>

definition fmt_pad :: "nat \<Rightarrow> nat \<Rightarrow> string" where
  "fmt_pad w n = replicate (w - length (dec_nat n)) CHR ''0'' @ dec_nat n"

definition is_digit :: "char \<Rightarrow> bool" where
  "is_digit c \<longleftrightarrow> 48 \<le> (of_char c :: nat) \<and> (of_char c :: nat) \<le> 57"

fun digits_val :: "nat \<Rightarrow> string \<Rightarrow> nat" where
  "digits_val acc [] = acc"
| "digits_val acc (c # cs) = digits_val (10 * acc + (of_char c - 48)) cs"

lemma of_char_digit_char [simp]: "d < 10 \<Longrightarrow> (of_char (digit_char d) :: nat) = 48 + d"
  by (simp add: digit_char_def)

lemma is_digit_digit_char [simp]: "d < 10 \<Longrightarrow> is_digit (digit_char d)"
  by (simp add: is_digit_def)

lemma digits_val_append: "digits_val acc (xs @ ys) = digits_val (digits_val acc xs) ys"
  by (induction xs arbitrary: acc) auto

lemma digits_val_acc: "digits_val acc xs = acc * 10 ^ length xs + digits_val 0 xs"
proof (induction xs arbitrary: acc)
  case Nil
  show ?case by simp
next
  case (Cons x xs)
  show ?case
    using Cons.IH [of "10 * acc + (of_char x - 48)"] Cons.IH [of "of_char x - 48"]
    by (simp add: algebra_simps)
qed

lemma digits_val_append':
  "digits_val acc (xs @ ys) = digits_val acc xs * 10 ^ length ys + digits_val 0 ys"
  by (metis digits_val_acc digits_val_append)

lemma dec_nat_digits: "list_all is_digit (dec_nat n)"
proof (induction n rule: dec_nat.induct)
  case (1 n)
  then show ?case by (subst dec_nat.simps) simp
qed

lemma dec_nat_ne [simp]: "dec_nat n \<noteq> []"
  by (subst dec_nat.simps) simp

lemma digits_val_dec_nat [simp]: "digits_val 0 (dec_nat n) = n"
proof (induction n rule: dec_nat.induct)
  case (1 n)
  show ?case
  proof (cases "n < 10")
    case True
    then show ?thesis by (subst dec_nat.simps) simp
  next
    case False
    with 1 show ?thesis by (subst dec_nat.simps) (simp add: digits_val_append)
  qed
qed

lemma dec_nat_inj [simp]: "dec_nat m = dec_nat n \<longleftrightarrow> m = n"
  by (metis digits_val_dec_nat)

lemma dec_nat_length:
  "0 < k \<Longrightarrow> n < 10 ^ k \<Longrightarrow> length (dec_nat n) \<le> k"
proof (induction n arbitrary: k rule: dec_nat.induct)
  case (1 n)
  show ?case
  proof (cases "n < 10")
    case True
    with "1.prems" show ?thesis by (subst dec_nat.simps) simp
  next
    case False
    with "1.prems" obtain j where k: "k = Suc j" and j: "0 < j"
      by (cases k; cases "k - 1") auto
    have "n div 10 < 10 ^ j" using "1.prems" k by (simp add: less_mult_imp_div_less mult.commute)
    with "1.IH" [OF False j] False k show ?thesis by (subst dec_nat.simps) simp
  qed
qed

lemma fmt_pad_digits: "list_all is_digit (fmt_pad w n)"
  by (simp add: fmt_pad_def dec_nat_digits list_all_iff is_digit_def) (use dec_nat_digits in \<open>auto simp: list_all_iff is_digit_def\<close>)

lemma digits_val_replicate0: "digits_val 0 (replicate k CHR ''0'' @ s) = digits_val 0 s"
  by (induction k) auto

lemma digits_val_fmt_pad [simp]: "digits_val 0 (fmt_pad w n) = n"
  by (simp add: fmt_pad_def digits_val_replicate0)

lemma length_fmt_pad: "0 < w \<Longrightarrow> n < 10 ^ w \<Longrightarrow> length (fmt_pad w n) = w"
  using dec_nat_length [of w n] by (simp add: fmt_pad_def)

lemma fmt_int_inj [simp]: "fmt_int i = fmt_int j \<longleftrightarrow> i = j"
proof -
  have nodash: "dec_nat n \<noteq> CHR ''-'' # s" for n s
    using dec_nat_digits [of n] by (auto simp: is_digit_def)
  show ?thesis
    by (auto simp: fmt_int_def nodash nodash [symmetric] split: if_splits)
qed

section \<open>encoding/hex\<close>

definition hex_digit :: "nat \<Rightarrow> char" where
  "hex_digit d = char_of (if d < 10 then 48 + d else 87 + d)"

definition hex_val :: "char \<Rightarrow> nat option" where
  "hex_val c =
     (let n = (of_char c :: nat) in
      if 48 \<le> n \<and> n \<le> 57 then Some (n - 48)
      else if 97 \<le> n \<and> n \<le> 102 then Some (n - 87)
      else if 65 \<le> n \<and> n \<le> 70 then Some (n - 55)
      else None)"

fun hex_encode :: "string \<Rightarrow> string" where
  "hex_encode [] = []"
| "hex_encode (c # cs) =
     hex_digit (of_char c div 16) # hex_digit (of_char c mod 16) # hex_encode cs"

text \<open>\<open>hex.DecodeString\<close>: an odd length or a byte outside the hexadecimal digits of either
  case is an error.\<close>

fun hex_decode :: "string \<Rightarrow> string option" where
  "hex_decode [] = Some []"
| "hex_decode [c] = None"
| "hex_decode (a # b # cs) =
     (case (hex_val a, hex_val b) of
        (Some x, Some y) \<Rightarrow> map_option (\<lambda>s. char_of (16 * x + y) # s) (hex_decode cs)
      | _ \<Rightarrow> None)"

lemma hex_val_digit [simp]: "d < 16 \<Longrightarrow> hex_val (hex_digit d) = Some d"
  by (auto simp: hex_val_def hex_digit_def Let_def)

lemma hex_decode_encode [simp]: "hex_decode (hex_encode s) = Some s"
proof (induction s)
  case (Cons c s)
  have "(of_char c :: nat) div 16 < 16" 
    using nat_of_char_less_256 [of c] by (intro less_mult_imp_div_less) simp
  then show ?case using Cons by simp
qed simp

lemma length_hex_encode [simp]: "length (hex_encode s) = 2 * length s"
  by (induction s) auto

lemma hex_decode_length: "hex_decode s = Some b \<Longrightarrow> length s = 2 * length b"
  by (induction s arbitrary: b rule: hex_decode.induct) (auto split: option.splits)

interpretation hex: codec "\<lambda>b. Some (hex_encode b)" "\<lambda>s. case hex_decode s of None \<Rightarrow> Inl () | Some b \<Rightarrow> Inr b" "\<lambda>b. True"
  by unfold_locales simp

lemma hex_encode_inj [simp]: "hex_encode a = hex_encode b \<longleftrightarrow> a = b"
  using hex.enc_inj by auto

end
