(* ===== verification/GoTime.thy ===== *)
theory GoTime
  imports GoText
begin

text \<open>
  What the program uses of package time: the RFC 3339 rendering of a UTC instant with
  nanoseconds, the zero time, the saturating difference of two instants, the truncation to
  microseconds that a timestamptz column applies, and the hour and weekday of an instant.
\<close>

definition second :: int where "second = 10 ^ 9"
definition minute :: int where "minute = 60 * 10 ^ 9"
definition hour :: int where "hour = 3600 * 10 ^ 9"
definition day :: int where "day = 86400 * 10 ^ 9"

text \<open>January 1 of year 1, the value for which \<open>IsZero\<close> holds.\<close>

definition zero_time :: gotime where
  "zero_time = - 62135596800 * 10 ^ 9"

text \<open>\<open>t.Sub(u)\<close> saturates to the range of \<open>Duration\<close>.\<close>

definition time_sub :: "gotime \<Rightarrow> gotime \<Rightarrow> duration" where
  "time_sub t u =
     (let d = t - u in
      if 2 ^ 63 \<le> d then 2 ^ 63 - 1 else if d < - (2 ^ 63) then - (2 ^ 63) else d)"

lemma time_sub_small: "is_int64 (t - u) \<Longrightarrow> time_sub t u = t - u"
  by (simp add: time_sub_def is_int64_def Let_def)

text \<open>\<open>t.Unix()\<close>.\<close>

definition unix_seconds :: "gotime \<Rightarrow> go_int64" where
  "unix_seconds t = wrap64 (t div second)"

definition trunc_us :: "gotime \<Rightarrow> gotime" where
  "trunc_us t = t div 1000 * 1000"

lemma trunc_us_le: "trunc_us t \<le> t"
  unfolding trunc_us_def by (simp add: minus_mod_eq_div_mult [symmetric])

lemma trunc_us_mono: "s \<le> t \<Longrightarrow> trunc_us s \<le> trunc_us t"
  by (simp add: trunc_us_def zdiv_mono1)

text \<open>The civil date of a day count, in the proleptic Gregorian calendar.\<close>

definition civil_from_days :: "int \<Rightarrow> int \<times> int \<times> int" where
  "civil_from_days days =
     (let z = days + 719468;
          era = z div 146097;
          doe = z mod 146097;
          yoe = (doe - doe div 1460 + doe div 36524 - doe div 146096) div 365;
          doy = doe - (365 * yoe + yoe div 4 - yoe div 100);
          mp = (5 * doy + 2) div 153;
          d = doy - (153 * mp + 2) div 5 + 1;
          m = (if mp < 10 then mp + 3 else mp - 9) in
      (yoe + era * 400 + (if m \<le> 2 then 1 else 0), m, d))"

definition pad_year :: "int \<Rightarrow> string" where
  "pad_year y = (if y < 0 then CHR ''-'' # fmt_pad 4 (nat (- y)) else fmt_pad 4 (nat y))"

text \<open>\<open>t.UTC().Format(time.RFC3339Nano)\<close>: the fraction loses its trailing zeros, and goes
  altogether when it is zero.\<close>

definition rfc3339nano :: "gotime \<Rightarrow> string" where
  "rfc3339nano t =
     (case civil_from_days (t div day) of (y, m, d) \<Rightarrow>
        let ns = t mod day;
            h = ns div hour; mi = ns mod hour div minute; s = ns mod minute div second;
            frac = nat (ns mod second) in
        pad_year y @ ''-'' @ fmt_pad 2 (nat m) @ ''-'' @ fmt_pad 2 (nat d) @ ''T'' @
        fmt_pad 2 (nat h) @ '':'' @ fmt_pad 2 (nat mi) @ '':'' @ fmt_pad 2 (nat s) @
        (if frac = 0 then [] else trim_right_char CHR ''0'' (''.'' @ fmt_pad 9 frac)) @ ''Z'')"

end
