(* ===== verification/Valkey.thy ===== *)
theory Valkey
  imports GoTime
begin

text \<open>
  The Valkey commands on expiring keys that the nonce store, the rate limiter and the refresh
  families use, on a map from keys to a value and an optional expiry instant.  Every command
  sees the server's clock; a key whose expiry has come is absent.  The locale is the contract
  of a set-if-absent store with a time to live.
\<close>

record valkey_entry =
  vk_value :: string
  vk_expires :: "gotime option"

type_synonym valkey = "string \<rightharpoonup> valkey_entry"

definition vk_live :: "gotime \<Rightarrow> valkey \<Rightarrow> string \<Rightarrow> valkey_entry option" where
  "vk_live now s k =
     (case s k of None \<Rightarrow> None
      | Some e \<Rightarrow> (case vk_expires e of None \<Rightarrow> Some e | Some x \<Rightarrow> if now < x then Some e else None))"

definition vk_deadline :: "gotime \<Rightarrow> duration \<Rightarrow> gotime option" where
  "vk_deadline now ttl = (if ttl = 0 then None else Some (now + ttl))"

definition vk_get :: "gotime \<Rightarrow> string \<Rightarrow> valkey \<Rightarrow> string option" where
  "vk_get now k s = map_option vk_value (vk_live now s k)"

definition vk_set :: "gotime \<Rightarrow> string \<Rightarrow> string \<Rightarrow> duration \<Rightarrow> valkey \<Rightarrow> valkey" where
  "vk_set now k v ttl s = s(k \<mapsto> \<lparr>vk_value = v, vk_expires = vk_deadline now ttl\<rparr>)"

text \<open>\<open>SET key value NX EX ttl\<close>: whether it set the key.\<close>

definition vk_setnx :: "gotime \<Rightarrow> string \<Rightarrow> string \<Rightarrow> duration \<Rightarrow> valkey \<Rightarrow> bool \<times> valkey" where
  "vk_setnx now k v ttl s =
     (case vk_live now s k of Some e \<Rightarrow> (False, s) | None \<Rightarrow> (True, vk_set now k v ttl s))"

definition vk_del :: "string \<Rightarrow> valkey \<Rightarrow> valkey" where
  "vk_del k s = s(k := None)"

text \<open>\<open>EXPIRE\<close> moves the deadline of a live key, always; it takes whole seconds (the client
  library rounds a fraction down, but a positive duration to at least one second), and a
  duration that is not positive deletes the key.\<close>

definition vk_secs :: "duration \<Rightarrow> duration" where
  "vk_secs d = (if 0 < d \<and> d < second then second else second * (d sdiv second))"

definition vk_expire :: "gotime \<Rightarrow> string \<Rightarrow> duration \<Rightarrow> valkey \<Rightarrow> valkey" where
  "vk_expire now k ttl s =
     (case vk_live now s k of None \<Rightarrow> s
      | Some e \<Rightarrow> if vk_secs ttl \<le> 0 then vk_del k s
          else s(k \<mapsto> e\<lparr>vk_expires := Some (now + vk_secs ttl)\<rparr>))"

text \<open>\<open>INCR\<close>: the new value, and the deadline stays; \<open>None\<close> when the value is no counter.\<close>

definition vk_counter :: "string \<Rightarrow> nat option" where
  "vk_counter v = (if v \<noteq> [] \<and> list_all is_digit v then Some (digits_val 0 v) else None)"

definition vk_incr :: "gotime \<Rightarrow> string \<Rightarrow> valkey \<Rightarrow> nat option \<times> valkey" where
  "vk_incr now k s =
     (case vk_live now s k of
        None \<Rightarrow> (Some 1, vk_set now k (dec_nat 1) 0 s)
      | Some e \<Rightarrow> (case vk_counter (vk_value e) of
           None \<Rightarrow> (None, s)
         | Some n \<Rightarrow> if 2 ^ 63 - 1 \<le> n then (None, s)
             else (Some (n + 1), s(k \<mapsto> e\<lparr>vk_value := dec_nat (n + 1)\<rparr>))))"

text \<open>The remaining time to live: \<open>-2\<close> without the key, \<open>-1\<close> without an expiry.\<close>

definition vk_pttl :: "gotime \<Rightarrow> string \<Rightarrow> valkey \<Rightarrow> duration" where
  "vk_pttl now k s =
     (case vk_live now s k of None \<Rightarrow> - 2
      | Some e \<Rightarrow> (case vk_expires e of None \<Rightarrow> - 1 | Some x \<Rightarrow> x - now))"

lemma vk_live_set:
  "vk_live t (vk_set now k v ttl s) k' =
     (if k' = k then (if ttl = 0 \<or> t < now + ttl then Some \<lparr>vk_value = v, vk_expires = vk_deadline now ttl\<rparr> else None)
      else vk_live t s k')"
  by (simp add: vk_live_def vk_set_def vk_deadline_def)

lemma vk_live_del [simp]: "vk_live t (vk_del k s) k' = (if k' = k then None else vk_live t s k')"
  by (simp add: vk_live_def vk_del_def)

lemma vk_live_mono: "vk_live t s k = Some e \<Longrightarrow> now \<le> t \<Longrightarrow> vk_live now s k = Some e"
  by (auto simp: vk_live_def split: option.splits if_splits)

lemma vk_get_set:
  "vk_get t k' (vk_set now k v ttl s) =
     (if k' = k then (if ttl = 0 \<or> t < now + ttl then Some v else None) else vk_get t k' s)"
  by (simp add: vk_get_def vk_live_set)

lemma vk_get_del [simp]: "vk_get t k' (vk_del k s) = (if k' = k then None else vk_get t k' s)"
  by (simp add: vk_get_def)

lemma vk_secs_whole: "0 < n \<Longrightarrow> vk_secs (n * second) = n * second"
  by (simp add: vk_secs_def second_def)

lemma vk_counter_dec_nat [simp]: "vk_counter (dec_nat n) = Some n"
  by (simp add: vk_counter_def dec_nat_digits)

lemma vk_pttl_negative: "vk_pttl now k s < 0 \<longleftrightarrow> vk_live now s k = None \<or> (\<exists>e. vk_live now s k = Some e \<and> vk_expires e = None)"
  by (auto simp: vk_pttl_def vk_live_def split: option.splits if_splits)

section \<open>The contract of a single-use register\<close>

locale once_store =
  fixes once :: "gotime \<Rightarrow> 'k \<Rightarrow> duration \<Rightarrow> 's \<Rightarrow> bool \<times> 's"
    and seen :: "gotime \<Rightarrow> 'k \<Rightarrow> 's \<Rightarrow> bool"
  assumes once_first: "fst (once now k ttl s) \<longleftrightarrow> \<not> seen now k s"
    and once_marks: "0 < ttl \<Longrightarrow> fst (once now k ttl s) \<Longrightarrow> now \<le> t \<Longrightarrow>
        seen t k (snd (once now k ttl s)) \<longleftrightarrow> t < now + ttl"
    and once_keeps: "seen t k s \<Longrightarrow> now \<le> t \<Longrightarrow> seen t k (snd (once now k' ttl s))"
begin

text \<open>Later uses of the register, with a clock that does not run backwards.\<close>

inductive uses :: "gotime \<Rightarrow> 's \<Rightarrow> gotime \<Rightarrow> 's \<Rightarrow> bool" where
  refl: "uses t s t s"
| step: "uses t s u s' \<Longrightarrow> u \<le> v \<Longrightarrow> uses t s v (snd (once v k ttl s'))"

lemma uses_clock: "uses t s u s' \<Longrightarrow> t \<le> u"
  by (induction rule: uses.induct) auto

lemma uses_seen: "uses t s u s' \<Longrightarrow> seen v k s \<Longrightarrow> u \<le> v \<Longrightarrow> seen v k s'"
  by (induction rule: uses.induct) (auto intro: once_keeps)

text \<open>A key registered at \<open>now\<close> is refused until its time to live is over, whatever else is
  registered in between.\<close>

lemma refused_within_ttl:
  assumes "fst (once now k ttl s)" "0 < ttl" "uses now (snd (once now k ttl s)) u s'"
    and "u \<le> v" "v < now + ttl"
  shows "\<not> fst (once v k ttl' s')"
proof -
  have "now \<le> v" using uses_clock [OF assms(3)] assms(4) by simp
  then have "seen v k (snd (once now k ttl s))" using once_marks assms by blast
  from uses_seen [OF assms(3) this assms(4)] have "seen v k s'" .
  then show ?thesis by (simp add: once_first)
qed

lemma accepted_after_ttl:
  assumes "fst (once now k ttl s)" "0 < ttl" "now + ttl \<le> v"
  shows "fst (once v k ttl' (snd (once now k ttl s)))"
  using assms once_first once_marks [of ttl now k s v] by auto

end

definition vk_once :: "gotime \<Rightarrow> string \<Rightarrow> duration \<Rightarrow> valkey \<Rightarrow> bool \<times> valkey" where
  "vk_once now k ttl s = vk_setnx now k ''1'' ttl s"

interpretation valkey: once_store vk_once "\<lambda>t k s. vk_live t s k \<noteq> None"
proof
  show "fst (vk_once now k ttl s) \<longleftrightarrow> \<not> vk_live now s k \<noteq> None" for now k ttl s
    by (auto simp: vk_once_def vk_setnx_def split: option.splits)
  show "(vk_live t (snd (vk_once now k ttl s)) k \<noteq> None) = (t < now + ttl)"
    if "0 < ttl" "fst (vk_once now k ttl s)" "now \<le> t" for ttl now k s t
    using that by (auto simp: vk_once_def vk_setnx_def vk_live_set split: option.splits)
  show "vk_live t (snd (vk_once now k' ttl s)) k \<noteq> None"
    if seen: "vk_live t s k \<noteq> None" and le: "now \<le> t" for t k s now k' ttl
  proof -
    from seen obtain e where "vk_live t s k = Some e" by auto
    then have "vk_live now s k = Some e" using le by (rule vk_live_mono)
    with seen show ?thesis
      by (auto simp: vk_once_def vk_setnx_def vk_live_set split: option.splits)
  qed
qed

section \<open>The contract of a counter with a window\<close>

definition vk_count :: "gotime \<Rightarrow> string \<Rightarrow> valkey \<Rightarrow> nat option" where
  "vk_count t k s = (case vk_live t s k of None \<Rightarrow> Some 0 | Some e \<Rightarrow> vk_counter (vk_value e))"

text \<open>Instants in order, each less than a window after the one before.\<close>

fun spaced :: "duration \<Rightarrow> gotime list \<Rightarrow> bool" where
  "spaced w (a # b # ts) \<longleftrightarrow> a \<le> b \<and> b < a + w \<and> spaced w (b # ts)"
| "spaced w ts \<longleftrightarrow> True"

lemma spaced_Cons: "spaced w (a # ts) \<longleftrightarrow> (ts \<noteq> [] \<longrightarrow> a \<le> hd ts \<and> hd ts < a + w) \<and> spaced w ts"
  by (cases ts) auto

locale window_counter =
  fixes hit :: "gotime \<Rightarrow> 'k \<Rightarrow> 's \<Rightarrow> nat option \<times> 's"
    and count :: "gotime \<Rightarrow> 'k \<Rightarrow> 's \<Rightarrow> nat option"
    and window :: duration
    and cap :: nat
  assumes hit_counts: "count now k s = Some n \<Longrightarrow> n < cap \<Longrightarrow> fst (hit now k s) = Some (n + 1)"
    and hit_window: "count now k s = Some n \<Longrightarrow> n < cap \<Longrightarrow> now \<le> t \<Longrightarrow>
        count t k (snd (hit now k s)) = Some (if t < now + window then n + 1 else 0)"
begin

text \<open>A client hits the counter on each request and acts on the value it got; its action leaves
  the counter alone.\<close>

fun serve :: "'k \<Rightarrow> (gotime \<Rightarrow> 'q \<Rightarrow> nat option \<Rightarrow> 's \<Rightarrow> 'r \<times> 's) \<Rightarrow> (gotime \<times> 'q) list \<Rightarrow> 's \<Rightarrow> 'r list \<times> 's" where
  "serve k act [] s = ([], s)"
| "serve k act ((t, q) # qs) s =
     (let (n, s1) = hit t k s; (r, s2) = act t q n s1; (rs, s3) = serve k act qs s2 in (r # rs, s3))"

text \<open>Spaced hits are numbered without a gap.\<close>

inductive numbered ::
  "'k \<Rightarrow> (gotime \<Rightarrow> 'q \<Rightarrow> nat option \<Rightarrow> 's \<Rightarrow> 'r \<times> 's) \<Rightarrow> nat \<Rightarrow> (gotime \<times> 'q) list \<Rightarrow> 's \<Rightarrow> 'r list \<Rightarrow> 's \<Rightarrow> bool"
  for k act where
  none: "numbered k act n [] s [] s"
| more: "numbered k act n ((t, q) # qs) s (r # rs) s'"
    if "act t q (Some (n + 1)) (snd (hit t k s)) = (r, s2)" "numbered k act (n + 1) qs s2 rs s'"

lemma serve_numbered:
  assumes keeps: "\<And>t q n s u. count u k (snd (act t q n s)) = count u k s"
    and "spaced window (map fst qs)" "qs \<noteq> [] \<Longrightarrow> count (fst (hd qs)) k s = Some n" "n + length qs \<le> cap"
  shows "numbered k act n qs s (fst (serve k act qs s)) (snd (serve k act qs s))"
  using assms(2-4)
proof (induction qs arbitrary: s n)
  case Nil
  then show ?case by (simp add: numbered.none)
next
  case (Cons p qs)
  obtain t q where p: "p = (t, q)" by fastforce
  from Cons.prems p have c: "count t k s = Some n" and "n < cap" by simp_all
  note law = hit_counts [OF this] hit_window [OF this]
  obtain r s2 where a: "act t q (Some (n + 1)) (snd (hit t k s)) = (r, s2)" by fastforce
  have "count u k s2 = count u k (snd (hit t k s))" for u
    using keeps [of u t q "Some (n + 1)" "snd (hit t k s)"] a by simp
  with law(2) Cons.prems(1) p have "qs \<noteq> [] \<Longrightarrow> count (fst (hd qs)) k s2 = Some (n + 1)"
    by (simp add: spaced_Cons hd_map)
  moreover have "spaced window (map fst qs)" "n + 1 + length qs \<le> cap" using Cons.prems by (simp_all add: spaced_Cons)
  ultimately have "numbered k act (n + 1) qs s2 (fst (serve k act qs s2)) (snd (serve k act qs s2))"
    using Cons.IH by blast
  from numbered.more [OF a this] law(1) a show ?case
    by (simp add: p split_beta prod_eq_iff)
qed

end

end
