(* ===== verification/Chain.thy ===== *)
theory Chain
  imports Prelude
begin

text \<open>
  Hash-linked append-only logs.  A log is linked when every row names the hash of the row
  before it, the first one the genesis value.  The locale states what an appender must do for
  its log to stay linked; the evidence chain of the protocol and the evidence chain of a case
  both interpret it.
\<close>

text \<open>Two given inputs of a hash function collide.\<close>

definition clash :: "('a \<Rightarrow> 'h) \<Rightarrow> 'a \<Rightarrow> 'a \<Rightarrow> bool" where
  "clash sha x y \<longleftrightarrow> x \<noteq> y \<and> sha x = sha y"

fun linked :: "('r \<Rightarrow> 'h) \<Rightarrow> ('r \<Rightarrow> 'h) \<Rightarrow> 'h \<Rightarrow> 'r list \<Rightarrow> bool" where
  "linked prev hash g [] = True"
| "linked prev hash g (r # rs) = (prev r = g \<and> linked prev hash (hash r) rs)"

definition chain_tip :: "('r \<Rightarrow> 'h) \<Rightarrow> 'h \<Rightarrow> 'r list \<Rightarrow> 'h" where
  "chain_tip hash g rs = (if rs = [] then g else hash (last rs))"

lemma chain_tip_simps [simp]:
  "chain_tip hash g [] = g" "chain_tip hash g (rs @ [r]) = hash r"
  "chain_tip hash g (r # rs) = chain_tip hash (hash r) rs"
  by (simp_all add: chain_tip_def)

lemma linked_append:
  "linked prev hash g (rs @ [r]) \<longleftrightarrow> linked prev hash g rs \<and> prev r = chain_tip hash g rs"
  by (induction rs arbitrary: g) auto

text \<open>A linked log is a list of hash-to-hash edges: the names of its rows are the genesis value
  followed by all hashes but the last.\<close>

lemma linked_prevs: "linked prev hash g rs \<Longrightarrow> map prev rs = butlast (g # map hash rs)"
  by (induction rs arbitrary: g) auto

text \<open>Without a repeated hash there is no fork: no two rows name the same predecessor.\<close>

lemma linked_no_fork:
  assumes "linked prev hash g rs" and "distinct (g # map hash rs)"
  shows "distinct (map prev rs)"
  by (simp only: linked_prevs [OF assms(1)] distinct_butlast [OF assms(2)])

locale linked_log =
  fixes prev :: "'r \<Rightarrow> 'h" and hash :: "'r \<Rightarrow> 'h" and genesis :: 'h
    and append_ok :: "'r list \<Rightarrow> 'r \<Rightarrow> bool"
  assumes links: "append_ok rs r \<Longrightarrow> prev r = chain_tip hash genesis rs"
begin

text \<open>Logs built by successive appends.\<close>

inductive built :: "'r list \<Rightarrow> bool" where
  empty: "built []"
| append: "built rs \<Longrightarrow> append_ok rs r \<Longrightarrow> built (rs @ [r])"

lemma built_linked: "built rs \<Longrightarrow> linked prev hash genesis rs"
  by (induction rule: built.induct) (simp_all add: linked_append links)

lemma built_no_fork:
  "built rs \<Longrightarrow> distinct (genesis # map hash rs) \<Longrightarrow> distinct (map prev rs)"
  using built_linked by (rule linked_no_fork)

end

end
