(* ===== verification/Hmac.thy ===== *)
theory Hmac
  imports Valkey Chain
begin

text \<open>
  Webhook signatures, internal/protocol/hmac/hmac.go, and the Valkey nonce store of
  internal/protocol/publisher/publisher.go.  HMAC-SHA256 is the parameter \<open>hmac\<close>, a function
  of key and message.
\<close>

section \<open>Headers\<close>

record signature =
  sg_timestamp :: gotime
  sg_nonce :: string
  sg_hex :: string

datatype hmac_error =
    TimestampMissing | TimestampMalformed | TimestampOutOfWindow
  | SignatureMissing | SignatureMalformed | SignatureMismatch
  | NonceMissing | NonceReplay | NonceStoreFailed

text \<open>\<open>time.Unix(ts, 0)\<close>: the internal seconds count from year 1 and wrap.\<close>

definition time_unix :: "go_int64 \<Rightarrow> gotime" where
  "time_unix ts = (wrap64 (ts + 62135596800) - 62135596800) * second"

text \<open>\<open>strconv.ParseInt(s, 10, 64)\<close>: an optional sign and decimal digits.\<close>

definition parse_int64 :: "string \<Rightarrow> go_int64 option" where
  "parse_int64 s =
     (let (neg, ds) = (case s of c # t \<Rightarrow> if c = CHR ''-'' then (True, t)
                         else if c = CHR ''+'' then (False, t) else (False, s) | [] \<Rightarrow> (False, []));
          v = (if neg then - int (digits_val 0 ds) else int (digits_val 0 ds)) in
      if ds \<noteq> [] \<and> list_all is_digit ds \<and> is_int64 v then Some v else None)"

definition ParseHeaders :: "string \<Rightarrow> string \<Rightarrow> string \<Rightarrow> hmac_error + signature" where
  "ParseHeaders tsRaw nonce hexHMAC =
     (let sig = \<lparr>sg_timestamp = zero_time, sg_nonce = nonce, sg_hex = hexHMAC\<rparr> in
      if tsRaw = [] then Inr sig
      else case parse_int64 tsRaw of
          None \<Rightarrow> Inl TimestampMalformed
        | Some ts \<Rightarrow> Inr (sig\<lparr>sg_timestamp := time_unix ts\<rparr>))"

section \<open>Verification\<close>

definition signed_string :: "gotime \<Rightarrow> string \<Rightarrow> string \<Rightarrow> string" where
  "signed_string ts nonce payload = fmt_int (unix_seconds ts) @ ''.'' @ nonce @ ''.'' @ payload"

definition computeHMAC ::
  "(string \<Rightarrow> string \<Rightarrow> string) \<Rightarrow> string \<Rightarrow> gotime \<Rightarrow> string \<Rightarrow> string \<Rightarrow> string" where
  "computeHMAC hmac secret ts nonce payload = hmac secret (signed_string ts nonce payload)"

definition Sign ::
  "(string \<Rightarrow> string \<Rightarrow> string) \<Rightarrow> string \<Rightarrow> gotime \<Rightarrow> string \<Rightarrow> string \<Rightarrow> string \<times> string \<times> string" where
  "Sign hmac secret ts nonce payload =
     (fmt_int (unix_seconds ts), nonce, hex_encode (computeHMAC hmac secret ts nonce payload))"

text \<open>\<open>New\<close> replaces a window that is not positive.\<close>

definition replay_window :: "duration \<Rightarrow> duration" where
  "replay_window w = (if w \<le> 0 then 5 * minute else w)"

text \<open>\<open>SeenOnce\<close> of the Valkey store; \<open>None\<close> is an error.\<close>

definition SeenOnce ::
  "bool \<Rightarrow> string \<Rightarrow> gotime \<Rightarrow> string \<Rightarrow> duration \<Rightarrow> valkey \<Rightarrow> bool option \<times> valkey" where
  "SeenOnce store_fails pfx now nonce ttl s =
     (if nonce = [] then (None, s)
      else if store_fails then (None, s)
      else case vk_once now (pfx @ '':'' @ nonce) ttl s of (ok, s') \<Rightarrow> (Some ok, s'))"

text \<open>The absolute drift as computed: negating the most negative duration leaves it negative.\<close>

definition drift :: "gotime \<Rightarrow> gotime \<Rightarrow> duration" where
  "drift now ts = (let d = time_sub now ts in if d < 0 then wrap64 (- d) else d)"

definition Verify ::
  "(string \<Rightarrow> string \<Rightarrow> string) \<Rightarrow> string \<Rightarrow> duration \<Rightarrow> string option \<Rightarrow> bool \<Rightarrow> string \<Rightarrow> signature \<Rightarrow> gotime
     \<Rightarrow> valkey \<Rightarrow> hmac_error option \<times> valkey" where
  "Verify hmac secret window nonces store_fails payload sig now s =
     (if sg_timestamp sig = zero_time then (Some TimestampMissing, s)
      else if window < drift now (sg_timestamp sig) then (Some TimestampOutOfWindow, s)
      else if sg_hex sig = [] then (Some SignatureMissing, s)
      else case hex_decode (sg_hex sig) of
          None \<Rightarrow> (Some SignatureMalformed, s)
        | Some provided \<Rightarrow>
            if provided \<noteq> computeHMAC hmac secret (sg_timestamp sig) (sg_nonce sig) payload
            then (Some SignatureMismatch, s)
            else (case nonces of
                None \<Rightarrow> (None, s)
              | Some pfx \<Rightarrow>
                  if sg_nonce sig = [] then (Some NonceMissing, s)
                  else (case SeenOnce store_fails pfx now (sg_nonce sig) window s of
                      (None, s') \<Rightarrow> (Some NonceStoreFailed, s')
                    | (Some first, s') \<Rightarrow> ((if first then None else Some NonceReplay), s'))))"

text \<open>The checks before the nonce store.\<close>

definition authentic ::
  "(string \<Rightarrow> string \<Rightarrow> string) \<Rightarrow> string \<Rightarrow> duration \<Rightarrow> string \<Rightarrow> signature \<Rightarrow> gotime \<Rightarrow> bool" where
  "authentic hmac secret window payload sig now \<longleftrightarrow>
     sg_timestamp sig \<noteq> zero_time \<and> drift now (sg_timestamp sig) \<le> window \<and> sg_hex sig \<noteq> [] \<and>
     hex_decode (sg_hex sig) = Some (computeHMAC hmac secret (sg_timestamp sig) (sg_nonce sig) payload)"

lemma Verify_authentic:
  assumes "authentic hmac secret window payload sig now" "sg_nonce sig \<noteq> []"
  shows "Verify hmac secret window (Some p) False payload sig now s =
    (if fst (vk_once now (p @ '':'' @ sg_nonce sig) window s) then None else Some NonceReplay,
     snd (vk_once now (p @ '':'' @ sg_nonce sig) window s))"
  using assms by (simp add: authentic_def Verify_def SeenOnce_def case_prod_beta)

lemma Verify_accepts_iff:
  "fst (Verify hmac secret window (Some p) sf payload sig now s) = None \<longleftrightarrow>
     authentic hmac secret window payload sig now \<and> sg_nonce sig \<noteq> [] \<and> \<not> sf \<and>
     vk_live now s (p @ '':'' @ sg_nonce sig) = None"
  by (auto simp: authentic_def Verify_def SeenOnce_def vk_once_def vk_setnx_def not_less case_prod_beta
      split: option.splits)

text \<open>What a verification does to the store is nothing or one registration.\<close>

lemma Verify_store:
  "snd (Verify hmac secret window (Some p) sf payload sig now s) = s \<or>
   (\<exists>k. snd (Verify hmac secret window (Some p) sf payload sig now s) = snd (vk_once now k window s))"
  by (auto simp: Verify_def SeenOnce_def case_prod_beta split: option.splits)

text \<open>Any number of later verifications, by any of the gateways that share the store.\<close>

inductive verifications :: "string \<Rightarrow> gotime \<Rightarrow> valkey \<Rightarrow> gotime \<Rightarrow> valkey \<Rightarrow> bool" for p where
  here: "verifications p t s t s"
| later: "verifications p t s u s' \<Longrightarrow> u \<le> v \<Longrightarrow>
    verifications p t s v (snd (Verify hmac secret w (Some p) sf payload sig v s'))"

lemma uses_wait: "valkey.uses t s u s' \<Longrightarrow> u \<le> v \<Longrightarrow> \<exists>u' \<le> v. valkey.uses t s u' s'"
  by blast

lemma verifications_uses: "verifications p t s u s' \<Longrightarrow> \<exists>u' \<le> u. valkey.uses t s u' s'"
proof (induction rule: verifications.induct)
  case (here t s)
  then show ?case using valkey.uses.refl by blast
next
  case (later t s u s' v hmac secret w sf payload sig)
  then obtain u' where u': "u' \<le> u" "valkey.uses t s u' s'" by blast
  from Verify_store [of hmac secret w p sf payload sig v s'] show ?case
  proof
    assume "snd (Verify hmac secret w (Some p) sf payload sig v s') = s'"
    with u' later.hyps(2) show ?thesis by (metis order_trans)
  next
    assume "\<exists>k. snd (Verify hmac secret w (Some p) sf payload sig v s') = snd (vk_once v k w s')"
    then obtain k where "snd (Verify hmac secret w (Some p) sf payload sig v s') = snd (vk_once v k w s')" by blast
    moreover have "valkey.uses t s v (snd (vk_once v k w s'))"
      by (rule valkey.uses.step [OF u'(2)]) (use u'(1) later.hyps(2) in simp)
    ultimately show ?thesis by auto
  qed
qed

section \<open>Signatures\<close>

lemma time_sub_abs: "is_int64 (now - ts) \<Longrightarrow> now - ts \<noteq> - (2 ^ 63) \<Longrightarrow> drift now ts = \<bar>now - ts\<bar>"
  by (auto simp: drift_def Let_def time_sub_small is_int64_def)

lemma drift_inside:
  assumes "\<bar>now - t\<bar> \<le> w" "w < 2 ^ 63"
  shows "drift now t \<le> w"
proof -
  have "is_int64 (now - t)" "now - t \<noteq> - (2 ^ 63)"
    using assms unfolding is_int64_def by linarith+
  from time_sub_abs [OF this] assms(1) show ?thesis by simp
qed

text \<open>An instant beyond the range of a duration from now has a negative drift.\<close>

lemma drift_far_future:
  assumes "ts - now \<ge> 2 ^ 63"
  shows "drift now ts = - (2 ^ 63)"
proof -
  have "time_sub now ts = - (2 ^ 63)" using assms by (auto simp: time_sub_def Let_def)
  then show ?thesis by (simp add: drift_def wrap64_def)
qed

lemma parse_int64_fmt_int: "is_int64 i \<Longrightarrow> parse_int64 (fmt_int i) = Some i"
proof -
  assume i: "is_int64 i"
  have d: "list_all is_digit (dec_nat n)" "dec_nat n \<noteq> []" for n by (simp_all add: dec_nat_digits)
  have nodash: "dec_nat n \<noteq> CHR ''-'' # t" "dec_nat n \<noteq> CHR ''+'' # t" for n t
    using d [of n] by (auto simp: is_digit_def)
  show ?thesis
  proof (cases "i < 0")
    case True
    with i d show ?thesis by (simp add: parse_int64_def fmt_int_def)
  next
    case False
    then obtain c t where ct: "dec_nat (nat i) = c # t" using d(2) by (cases "dec_nat (nat i)") auto
    with nodash have "c \<noteq> CHR ''-''" "c \<noteq> CHR ''+''" by metis+
    moreover have "int (digits_val 0 (c # t)) = i" using False ct digits_val_dec_nat [of "nat i"] by simp
    moreover have "list_all is_digit (c # t)" using d(1) [of "nat i"] ct by simp
    ultimately show ?thesis using False i ct by (simp add: parse_int64_def fmt_int_def)
  qed
qed

lemma time_unix_small:
  assumes "is_int64 (ts + 62135596800)"
  shows "time_unix ts = ts * second"
  using assms by (simp add: time_unix_def)

lemma unix_seconds_whole: "is_int64 ts \<Longrightarrow> unix_seconds (ts * second) = ts"
  by (simp add: unix_seconds_def second_def)

section \<open>Properties\<close>

text \<open>C8: A request signed with \<open>Sign\<close> at a whole second, whose headers are parsed back, is
  accepted by any verifier with the same secret while the drift is inside the window and the
  nonce has not been seen.\<close>

theorem Sign_Verify_accepts:
  assumes "is_int64 ts" "is_int64 (ts + 62135596800)" "ts \<noteq> - 62135596800"
    and "\<bar>now - ts * second\<bar> \<le> window" "window < 2 ^ 63"
    and "nonce \<noteq> []" "vk_live now s (p @ '':'' @ nonce) = None"
    and "Sign hmac secret (ts * second) nonce payload = (h1, h2, h3)" "h3 \<noteq> []"
  shows "\<exists>sig. ParseHeaders h1 h2 h3 = Inr sig \<and>
     fst (Verify hmac secret window (Some p) False payload sig now s) = None"
proof -
  let ?t = "ts * second"
  have h: "h1 = fmt_int ts" "h2 = nonce" "h3 = hex_encode (computeHMAC hmac secret ?t nonce payload)"
    using assms(8) unix_seconds_whole [OF assms(1)] by (auto simp: Sign_def)
  have "h1 \<noteq> []" by (simp add: h fmt_int_def)
  then have parse: "ParseHeaders h1 h2 h3 = Inr \<lparr>sg_timestamp = ?t, sg_nonce = nonce, sg_hex = h3\<rparr>"
    using assms(1,2) by (simp add: ParseHeaders_def Let_def h parse_int64_fmt_int time_unix_small)
  have "?t \<noteq> zero_time" using assms(3) by (simp add: zero_time_def second_def)
  moreover have "drift now ?t \<le> window" using assms(4,5) by (rule drift_inside)
  ultimately have "authentic hmac secret window payload \<lparr>sg_timestamp = ?t, sg_nonce = nonce, sg_hex = h3\<rparr> now"
    using assms(9) by (simp add: authentic_def h(3))
  with assms(6,7) parse show ?thesis by (simp add: Verify_accepts_iff)
qed

theorem Sign_Verify_accepts_witness:
  "\<exists>sig. ParseHeaders ''17'' ''n1'' (hex_encode ''17.n1.{}'') = Inr sig \<and>
     fst (Verify (\<lambda>k m. m) ''key'' (300 * second) (Some ''gw'') False ''{}'' sig (20 * second) (\<lambda>k. None)) = None"
proof -
  have d: "fmt_int 17 = ''17''" by code_simp
  have "Sign (\<lambda>k m. m) ''key'' (17 * second) ''n1'' ''{}'' = (''17'', ''n1'', hex_encode ''17.n1.{}'')"
    by (simp add: Sign_def computeHMAC_def signed_string_def unix_seconds_whole is_int64_def d del: hex_encode.simps)
  then show ?thesis
    by (rule Sign_Verify_accepts [rotated 7])
       (simp_all add: is_int64_def second_def vk_live_def)
qed

text \<open>C7: Once a request is accepted, no request with the same nonce is accepted before the
  window of the first one is over, whatever was verified in between and whatever the other
  request is signed with.\<close>

theorem Verify_no_replay:
  assumes "fst (Verify hmac secret window (Some p) sf payload sig now s) = None" "0 < window"
    and "verifications p now (snd (Verify hmac secret window (Some p) sf payload sig now s)) u s'"
    and "u \<le> v" "v < now + window" "sg_nonce sig2 = sg_nonce sig"
  shows "fst (Verify hmac2 secret2 window2 (Some p) sf2 payload2 sig2 v s') \<noteq> None"
proof -
  let ?k = "p @ '':'' @ sg_nonce sig"
  from assms(1) have a: "authentic hmac secret window payload sig now" "sg_nonce sig \<noteq> []" "\<not> sf"
    and free: "vk_live now s ?k = None" by (simp_all add: Verify_accepts_iff)
  have first: "fst (vk_once now ?k window s)" using free by (simp add: valkey.once_first)
  have store: "snd (Verify hmac secret window (Some p) sf payload sig now s) = snd (vk_once now ?k window s)"
    using Verify_authentic [OF a(1,2)] a(3) by simp
  from verifications_uses [OF assms(3)] obtain u' where u': "u' \<le> u"
    and uses: "valkey.uses now (snd (vk_once now ?k window s)) u' s'"
    unfolding store by blast
  have "\<not> fst (vk_once v ?k window2 s')"
    by (rule valkey.refused_within_ttl [OF first assms(2) uses]) (use u' assms(4,5) in simp_all)
  then have "vk_live v s' ?k \<noteq> None" by (simp add: valkey.once_first)
  then show ?thesis by (simp add: Verify_accepts_iff assms(6))
qed

definition sample_signature :: "int \<Rightarrow> string \<Rightarrow> string \<Rightarrow> signature" where
  "sample_signature ts nonce payload = \<lparr>sg_timestamp = ts * second, sg_nonce = nonce,
     sg_hex = hex_encode (signed_string (ts * second) nonce payload)\<rparr>"

lemma sample_signature_authentic:
  assumes "ts \<noteq> - 62135596800" "\<bar>now - ts * second\<bar> \<le> window" "window < 2 ^ 63"
  shows "authentic (\<lambda>k m. m) k window payload (sample_signature ts nonce payload) now"
proof -
  have "signed_string (ts * second) nonce payload \<noteq> []" by (simp add: signed_string_def)
  then have "hex_encode (signed_string (ts * second) nonce payload) \<noteq> []"
    by (metis length_0_conv length_hex_encode mult_eq_0_iff zero_neq_numeral)
  moreover have "ts * second \<noteq> zero_time" using assms(1) by (simp add: second_def zero_time_def)
  ultimately show ?thesis
    using drift_inside [OF assms(2,3)] by (simp add: authentic_def sample_signature_def computeHMAC_def)
qed

theorem Verify_no_replay_witness:
  "fst (Verify (\<lambda>k m. m) ''key'' (300 * second) (Some ''gw'') False ''{}'' (sample_signature 1000 ''n'' ''{}'') (1299 * second)
     (snd (Verify (\<lambda>k m. m) ''key'' (300 * second) (Some ''gw'') False ''{}'' (sample_signature 1000 ''n'' ''{}'') (1000 * second) (\<lambda>k. None)))) \<noteq> None"
proof (rule Verify_no_replay [OF _ _ verifications.here])
  show "fst (Verify (\<lambda>k m. m) ''key'' (300 * second) (Some ''gw'') False ''{}'' (sample_signature 1000 ''n'' ''{}'') (1000 * second) (\<lambda>k. None)) = None"
    using sample_signature_authentic [of 1000 "1000 * second" "300 * second" "''key''" "''{}''" "''n''"]
    by (simp add: Verify_accepts_iff second_def sample_signature_def vk_live_def)
qed (simp_all add: second_def)

text \<open>The time to live of a nonce equals the window, but a request may carry a timestamp that
  lies ahead: a request accepted no later than its own timestamp is accepted a second time,
  unchanged, when the nonce has expired.\<close>

theorem Verify_replay_after_expiry:
  assumes "fst (Verify hmac secret window (Some p) False payload sig now s) = None"
    and "0 < window" "window < 2 ^ 62" "now \<le> sg_timestamp sig" "sg_timestamp sig \<le> now + window"
  shows "fst (Verify hmac secret window (Some p) False payload sig (now + window)
           (snd (Verify hmac secret window (Some p) False payload sig now s))) = None"
proof -
  let ?k = "p @ '':'' @ sg_nonce sig"
  from assms(1) have a: "authentic hmac secret window payload sig now" "sg_nonce sig \<noteq> []"
    and free: "vk_live now s ?k = None" by (simp_all add: Verify_accepts_iff)
  have "drift (now + window) (sg_timestamp sig) \<le> window"
    using time_sub_abs [of "now + window" "sg_timestamp sig"] assms(2-5) by (simp add: is_int64_def)
  with a(1) have "authentic hmac secret window payload sig (now + window)"
    by (simp add: authentic_def)
  moreover have "fst (vk_once (now + window) ?k window (snd (vk_once now ?k window s)))"
    by (rule valkey.accepted_after_ttl) (use free assms(2) in \<open>simp_all add: valkey.once_first\<close>)
  ultimately show ?thesis
    using Verify_authentic [OF a, of p s] a(2) by (simp add: Verify_accepts_iff valkey.once_first)
qed

theorem Verify_replay_after_expiry_witness:
  "fst (Verify (\<lambda>k m. m) ''key'' (300 * second) (Some ''gw'') False ''{}'' (sample_signature 1200 ''n'' ''{}'') (1000 * second + 300 * second)
     (snd (Verify (\<lambda>k m. m) ''key'' (300 * second) (Some ''gw'') False ''{}'' (sample_signature 1200 ''n'' ''{}'') (1000 * second) (\<lambda>k. None)))) = None"
proof (rule Verify_replay_after_expiry)
  show "fst (Verify (\<lambda>k m. m) ''key'' (300 * second) (Some ''gw'') False ''{}'' (sample_signature 1200 ''n'' ''{}'') (1000 * second) (\<lambda>k. None)) = None"
    using sample_signature_authentic [of 1200 "1000 * second" "300 * second" "''key''" "''{}''" "''n''"]
    by (simp add: Verify_accepts_iff second_def sample_signature_def vk_live_def)
qed (simp_all add: second_def sample_signature_def)

text \<open>The signed string does not determine where the nonce ends: from an accepted request
  whose payload contains a dot, the part behind the dot is accepted as a payload of its own
  under the same signature, with a nonce that was never used.\<close>

theorem Verify_boundary_shift:
  assumes "authentic hmac secret window (a @ ''.'' @ b) sig now" "sg_nonce sig \<noteq> []"
    and "vk_live now s (p @ '':'' @ sg_nonce sig) = None"
    and "vk_live now s (p @ '':'' @ sg_nonce sig @ ''.'' @ a) = None"
  defines "s' \<equiv> snd (Verify hmac secret window (Some p) False (a @ ''.'' @ b) sig now s)"
  shows "fst (Verify hmac secret window (Some p) False (a @ ''.'' @ b) sig now s) = None \<and>
     fst (Verify hmac secret window (Some p) False b (sig\<lparr>sg_nonce := sg_nonce sig @ ''.'' @ a\<rparr>) now s') = None"
proof
  show "fst (Verify hmac secret window (Some p) False (a @ ''.'' @ b) sig now s) = None"
    using assms(1-3) by (simp add: Verify_accepts_iff)
  have "authentic hmac secret window b (sig\<lparr>sg_nonce := sg_nonce sig @ ''.'' @ a\<rparr>) now"
    using assms(1) by (simp add: authentic_def computeHMAC_def signed_string_def)
  moreover have "vk_live now s' (p @ '':'' @ sg_nonce sig @ ''.'' @ a) = None"
    using Verify_authentic [OF assms(1,2), of p s] assms(3,4)
    by (simp add: s'_def vk_once_def vk_setnx_def vk_live_set)
  ultimately show "fst (Verify hmac secret window (Some p) False b (sig\<lparr>sg_nonce := sg_nonce sig @ ''.'' @ a\<rparr>) now s') = None"
    by (simp add: Verify_accepts_iff)
qed

theorem Verify_boundary_shift_witness:
  "fst (Verify (\<lambda>k m. m) ''key'' (300 * second) (Some ''gw'') False ''50''
     (sample_signature 1000 ''n'' ''12.50'' \<lparr>sg_nonce := ''n.12''\<rparr>) (1000 * second)
     (snd (Verify (\<lambda>k m. m) ''key'' (300 * second) (Some ''gw'') False ''12.50'' (sample_signature 1000 ''n'' ''12.50'') (1000 * second) (\<lambda>k. None)))) = None"
  using Verify_boundary_shift [where a = "''12''" and b = "''50''" and sig = "sample_signature 1000 ''n'' ''12.50''"
      and hmac = "\<lambda>k m. m" and secret = "''key''" and window = "300 * second" and now = "1000 * second"
      and s = "\<lambda>k. None" and p = "''gw''"]
    sample_signature_authentic [of 1000 "1000 * second" "300 * second" "''key''" "''12.50''" "''n''"]
  by (simp add: vk_live_def second_def sample_signature_def)

end
