(* ===== verification/Streams.thy ===== *)
theory Streams
  imports Prelude
begin

text \<open>
  A Valkey stream with one consumer group, as the two subscribers use it: entries in arrival
  order, the number of entries delivered to the group, and the ids that were delivered and not
  acknowledged.  The workers read with the id \<open>">"\<close>, which delivers only entries never
  delivered to the group before; an entry left unacknowledged stays in the pending list, and
  only a read of the pending history or a claim would deliver it again.
\<close>

type_synonym 'e entry = "nat \<times> 'e"

record 'e stream =
  st_entries :: "'e entry list"
  st_delivered :: nat
  st_pending :: "nat list"

text \<open>\<open>XADD\<close>: the entry gets the next id.\<close>

definition xadd :: "'e \<Rightarrow> 'e stream \<Rightarrow> 'e stream" where
  "xadd e s = s\<lparr>st_entries := st_entries s @ [(length (st_entries s), e)]\<rparr>"

text \<open>\<open>XREADGROUP ... COUNT n STREAMS s >\<close>: the entries and the stream after it.\<close>

definition xreadgroup :: "nat \<Rightarrow> 'e stream \<Rightarrow> 'e entry list \<times> 'e stream" where
  "xreadgroup n s =
     (let msgs = take n (drop (st_delivered s) (st_entries s)) in
      (msgs, s\<lparr>st_delivered := st_delivered s + length msgs,
               st_pending := st_pending s @ map fst msgs\<rparr>))"

definition xack :: "nat \<Rightarrow> 'e stream \<Rightarrow> 'e stream" where
  "xack i s = s\<lparr>st_pending := filter (\<lambda>j. j \<noteq> i) (st_pending s)\<rparr>"

definition stream_ok :: "'e stream \<Rightarrow> bool" where
  "stream_ok s \<longleftrightarrow> map fst (st_entries s) = [0 ..< length (st_entries s)] \<and>
     st_delivered s \<le> length (st_entries s) \<and> set (st_pending s) \<subseteq> {..< st_delivered s}"

lemma stream_ok_xadd: "stream_ok s \<Longrightarrow> stream_ok (xadd e s)"
  by (auto simp: stream_ok_def xadd_def)

lemma stream_ok_xack: "stream_ok s \<Longrightarrow> stream_ok (xack i s)"
  by (auto simp: stream_ok_def xack_def)

text \<open>What a read delivers was never delivered before.\<close>

lemma xreadgroup_fresh:
  assumes "stream_ok s" and "(msgs, s') = xreadgroup n s" and "(i, e) \<in> set msgs"
  shows "st_delivered s \<le> i \<and> i < st_delivered s' \<and> (i, e) \<in> set (st_entries s)"
proof -
  have m: "msgs = take n (drop (st_delivered s) (st_entries s))"
    and d: "st_delivered s' = st_delivered s + length msgs"
    using assms(2) by (simp_all add: xreadgroup_def Let_def)
  obtain k where k: "k < length msgs" "msgs ! k = (i, e)" using assms(3) by (auto simp: in_set_conv_nth)
  let ?j = "st_delivered s + k"
  have j: "?j < length (st_entries s)" using k(1) by (simp add: m less_diff_conv add.commute)
  have e: "st_entries s ! ?j = (i, e)" using k m assms(1) by (simp add: stream_ok_def)
  have "map fst (st_entries s) ! ?j = ?j" using assms(1) j by (simp add: stream_ok_def del: nth_map)
  then have "i = ?j" using e j by simp
  moreover have "(i, e) \<in> set (st_entries s)" using e j by (metis nth_mem)
  ultimately show ?thesis using d k(1) by simp
qed

lemma stream_ok_xreadgroup:
  assumes "stream_ok s" "xreadgroup n s = (msgs, s')"
  shows "stream_ok s' \<and> distinct (map fst msgs) \<and> st_pending s' = st_pending s @ map fst msgs \<and>
     (\<forall>i \<in> set (map fst msgs). i \<notin> set (st_pending s))"
proof -
  have m: "msgs = take n (drop (st_delivered s) (st_entries s))"
    and s': "s' = s\<lparr>st_delivered := st_delivered s + length msgs, st_pending := st_pending s @ map fst msgs\<rparr>"
    using assms(2) by (auto simp: xreadgroup_def Let_def)
  have fresh: "st_delivered s \<le> i \<and> i < st_delivered s'" if "i \<in> set (map fst msgs)" for i
    using that xreadgroup_fresh [OF assms(1) assms(2) [symmetric]] by fastforce
  have "distinct (map fst msgs)"
    using assms(1) by (simp add: m stream_ok_def flip: take_map drop_map)
  moreover have "st_delivered s' \<le> length (st_entries s)"
    using assms(1) by (auto simp: s' m stream_ok_def min_def)
  ultimately show ?thesis
    using fresh assms(1) by (fastforce simp: stream_ok_def s')
qed

lemma xadd_fields [simp]:
  "st_pending (xadd e s) = st_pending s" "st_delivered (xadd e s) = st_delivered s"
  by (simp_all add: xadd_def)

lemma in_pending_xack: "i \<in> set (st_pending (xack j s)) \<longleftrightarrow> i \<in> set (st_pending s) \<and> i \<noteq> j"
  by (auto simp: xack_def)


text \<open>A read delivers the entries of the next identifiers.\<close>

lemma xreadgroup_ids:
  assumes "stream_ok s" "xreadgroup n s = (msgs, s')"
  shows "map fst msgs = [st_delivered s ..< st_delivered s + length msgs]"
proof -
  let ?d = "st_delivered s" and ?l = "length (st_entries s)"
  have m: "msgs = take n (drop ?d (st_entries s))" using assms(2) by (simp add: xreadgroup_def Let_def)
  have "map fst msgs = take n [?d ..< ?l]"
    using assms(1) by (simp add: m stream_ok_def flip: take_map drop_map)
  also have "\<dots> = [?d ..< ?d + length msgs]"
    using assms(1) by (cases "?d + n \<le> ?l") (auto simp: m stream_ok_def min.absorb1 min.absorb2)
  finally show ?thesis .
qed

end
