(* ===== verification/Seal.thy ===== *)
theory Seal
  imports GoTime Chain Streams
begin

text \<open>
  Sub 1, Hash and Seal: internal/protocol/sub1/seal.go and worker.go, over the event envelope
  of internal/protocol/publisher/publisher.go.  The evidence table is the list of its rows in
  insertion order; a query or statement fails when \<open>fail\<close> says so for its call site, and a
  transaction that does not commit leaves the table as it was.  The per-merchant advisory lock
  makes \<open>WriteEvidence\<close> atomic per merchant, so a run of sealers is a sequence of its calls.
\<close>

section \<open>Data\<close>

record event =
  EventID :: uuid
  EventHash :: string
  SourceCode :: string
  MerchantID :: uuid
  Timestamp :: gotime
  IngestedAt :: gotime
  Payload :: string
  Nonce :: string

record evidence =
  ev_event_id :: uuid
  ev_event_hash :: string
  ev_chain :: string
  ev_prev :: "string option"
  ev_source :: string
  ev_merchant :: uuid
  ev_payload :: string
  ev_ingested :: gotime

type_synonym evidence_table = "evidence list"

datatype seal_call = SealBegin | SealLock | SealLookup | SealInsert | SealCommit

datatype seal_error = DuplicateEvent string | SealFailed seal_call

section \<open>Sealing\<close>

definition ComputeChainHash :: "(string \<Rightarrow> string) \<Rightarrow> string \<Rightarrow> string \<Rightarrow> gotime \<Rightarrow> string" where
  "ComputeChainHash sha eventHash prevChainHash ts =
     hex_encode (sha (eventHash @ prevChainHash @ rfc3339nano ts))"

definition merchant_rows :: "uuid \<Rightarrow> evidence_table \<Rightarrow> evidence list" where
  "merchant_rows m db = filter (\<lambda>r. ev_merchant r = m) db"

text \<open>\<open>ORDER BY ingested_at DESC LIMIT 1\<close>; the empty string when there is no row.\<close>

definition LookupPrevChainHash :: "evidence_table \<Rightarrow> uuid \<Rightarrow> string" where
  "LookupPrevChainHash db m =
     (case first_row (sort_desc ev_ingested (merchant_rows m db)) of
        None \<Rightarrow> [] | Some r \<Rightarrow> ev_chain r)"

definition event_ts :: "gotime \<Rightarrow> event \<Rightarrow> gotime" where
  "event_ts now evt = (if IngestedAt evt = zero_time then now else IngestedAt evt)"

text \<open>The row the insert writes; the timestamptz column keeps microseconds.\<close>

definition seal_row :: "(string \<Rightarrow> string) \<Rightarrow> gotime \<Rightarrow> evidence_table \<Rightarrow> event \<Rightarrow> evidence" where
  "seal_row sha now db evt =
     (let prev = LookupPrevChainHash db (MerchantID evt); ts = event_ts now evt in
      \<lparr>ev_event_id = EventID evt, ev_event_hash = EventHash evt,
       ev_chain = ComputeChainHash sha (EventHash evt) prev ts,
       ev_prev = (if prev = [] then None else Some prev),
       ev_source = SourceCode evt, ev_merchant = MerchantID evt, ev_payload = Payload evt,
       ev_ingested = trunc_us ts\<rparr>)"

text \<open>The primary key on event_id and the unique constraint on event_hash.\<close>

definition evidence_conflict :: "evidence_table \<Rightarrow> event \<Rightarrow> bool" where
  "evidence_conflict db evt =
     list_ex (\<lambda>r. ev_event_id r = EventID evt \<or> ev_event_hash r = EventHash evt) db"

definition WriteEvidence ::
  "(string \<Rightarrow> string) \<Rightarrow> (seal_call \<Rightarrow> bool) \<Rightarrow> gotime \<Rightarrow> evidence_table \<Rightarrow> event
     \<Rightarrow> (seal_error + string) \<times> evidence_table" where
  "WriteEvidence sha fail now db evt =
     (if fail SealBegin then (Inl (SealFailed SealBegin), db)
      else if fail SealLock then (Inl (SealFailed SealLock), db)
      else if fail SealLookup then (Inl (SealFailed SealLookup), db)
      else
        let row = seal_row sha now db evt in
        if evidence_conflict db evt then (Inl (DuplicateEvent (ev_chain row)), db)
        else if fail SealInsert then (Inl (SealFailed SealInsert), db)
        else if fail SealCommit then (Inl (SealFailed SealCommit), db)
        else (Inr (ev_chain row), db @ [row]))"

section \<open>The worker\<close>

text \<open>The \<open>event\<close> field of a stream entry: absent, text that does not decode, or the text of an
  event.\<close>

datatype event_field = NoEventField | BadEventJSON string | EventJSON event

record seal_state =
  ss_table :: evidence_table
  ss_stream :: "event_field stream"

text \<open>\<open>ack_fails\<close> is a failing \<open>XACK\<close>, which is logged only.\<close>

definition handle ::
  "(string \<Rightarrow> string) \<Rightarrow> (seal_call \<Rightarrow> bool) \<Rightarrow> bool \<Rightarrow> gotime \<Rightarrow> event_field entry \<Rightarrow> seal_state \<Rightarrow> seal_state" where
  "handle sha fail ack_fails now msg s =
     (let ack = (\<lambda>s. if ack_fails then s else s\<lparr>ss_stream := xack (fst msg) (ss_stream s)\<rparr>) in
      case snd msg of
        NoEventField \<Rightarrow> ack s
      | BadEventJSON t \<Rightarrow> ack s
      | EventJSON evt \<Rightarrow>
          (case WriteEvidence sha fail now (ss_table s) evt of
             (Inl (DuplicateEvent c), db) \<Rightarrow> ack (s\<lparr>ss_table := db\<rparr>)
           | (Inl (SealFailed c), db) \<Rightarrow> s\<lparr>ss_table := db\<rparr>
           | (Inr c, db) \<Rightarrow> ack (s\<lparr>ss_table := db\<rparr>)))"

text \<open>What each message of a batch meets: failures, a failing acknowledgement, the clock.\<close>

type_synonym seal_env = "nat \<Rightarrow> (seal_call \<Rightarrow> bool) \<times> bool \<times> gotime"

fun handle_all :: "(string \<Rightarrow> string) \<Rightarrow> seal_env \<Rightarrow> event_field entry list \<Rightarrow> seal_state \<Rightarrow> seal_state" where
  "handle_all sha env [] s = s"
| "handle_all sha env (m # ms) s =
     (case env (fst m) of (fail, ack_fails, now) \<Rightarrow>
        handle_all sha env ms (handle sha fail ack_fails now m s))"

text \<open>A failing read changes nothing.\<close>

definition processBatch :: "(string \<Rightarrow> string) \<Rightarrow> bool \<Rightarrow> seal_env \<Rightarrow> seal_state \<Rightarrow> seal_state" where
  "processBatch sha read_fails env s =
     (if read_fails then s
      else case xreadgroup 10 (ss_stream s) of (msgs, st) \<Rightarrow>
        handle_all sha env msgs (s\<lparr>ss_stream := st\<rparr>))"

text \<open>What happens to a stream with this worker: gateways publish, the worker takes batches.\<close>

inductive seal_step :: "(string \<Rightarrow> string) \<Rightarrow> seal_state \<Rightarrow> seal_state \<Rightarrow> bool" for sha where
  publish: "seal_step sha s (s\<lparr>ss_stream := xadd e (ss_stream s)\<rparr>)"
| batch: "seal_step sha s (processBatch sha rf env s)"

inductive_cases seal_stepE: "seal_step sha s s'"

section \<open>The chain of one merchant\<close>

definition prev_of :: "evidence \<Rightarrow> string" where
  "prev_of r = (case ev_prev r of None \<Rightarrow> [] | Some p \<Rightarrow> p)"

lemma prev_of_seal_row [simp]:
  "prev_of (seal_row sha now db evt) = LookupPrevChainHash db (MerchantID evt)"
  by (simp add: prev_of_def seal_row_def Let_def)

lemma ev_merchant_seal_row [simp]: "ev_merchant (seal_row sha now db evt) = MerchantID evt"
  by (simp add: seal_row_def Let_def)

lemma ev_ingested_seal_row [simp]: "ev_ingested (seal_row sha now db evt) = trunc_us (event_ts now evt)"
  by (simp add: seal_row_def Let_def)

text \<open>Ingestion times ascend strictly in table order.\<close>

definition ascending :: "evidence list \<Rightarrow> bool" where
  "ascending rs \<longleftrightarrow> sorted_wrt (\<lambda>a b. ev_ingested a < ev_ingested b) rs"

text \<open>The newest row is the last one when ingestion times ascend.\<close>

lemma lookup_last:
  assumes "ascending (merchant_rows m db)" and "merchant_rows m db \<noteq> []"
  shows "LookupPrevChainHash db m = ev_chain (last (merchant_rows m db))"
  using first_row_sort_desc_last [of ev_ingested "merchant_rows m db"] assms by (simp add: LookupPrevChainHash_def ascending_def)

text \<open>What keeps the chain linked: the sealer sees exactly the rows of its merchant, which
  ascend, and its own row is newer.\<close>

definition seal_in_order :: "evidence list \<Rightarrow> evidence \<Rightarrow> bool" where
  "seal_in_order rs r \<longleftrightarrow>
     (\<exists>sha now db evt. rs = merchant_rows (MerchantID evt) db \<and> r = seal_row sha now db evt \<and>
        ascending rs \<and> (\<forall>x \<in> set rs. ev_ingested x < ev_ingested r))"

interpretation sub1: linked_log prev_of ev_chain "[]" seal_in_order
proof
  fix rs r
  assume "seal_in_order rs r"
  then obtain sha now db evt where rs: "rs = merchant_rows (MerchantID evt) db"
    and r: "r = seal_row sha now db evt" and asc: "ascending rs"
    by (auto simp: seal_in_order_def)
  show "prev_of r = chain_tip ev_chain [] rs"
  proof (cases "rs = []")
    case True
    then show ?thesis by (simp add: r rs LookupPrevChainHash_def)
  next
    case False
    with lookup_last asc rs show ?thesis by (simp add: r chain_tip_def)
  qed
qed

text \<open>Sealing a list of events one after the other, without failures.\<close>

fun seal_all :: "(string \<Rightarrow> string) \<Rightarrow> gotime \<Rightarrow> event list \<Rightarrow> evidence_table \<Rightarrow> evidence_table" where
  "seal_all sha now [] db = db"
| "seal_all sha now (e # es) db = seal_all sha now es (snd (WriteEvidence sha (\<lambda>c. False) now db e))"

lemma WriteEvidence_table:
  "snd (WriteEvidence sha fail now db evt) = db \<or>
   snd (WriteEvidence sha fail now db evt) = db @ [seal_row sha now db evt] \<and> \<not> evidence_conflict db evt"
  by (simp add: WriteEvidence_def Let_def)

lemma merchant_rows_append:
  "merchant_rows m (db @ [r]) = merchant_rows m db @ (if ev_merchant r = m then [r] else [])"
  by (simp add: merchant_rows_def)

lemma WriteEvidence_built:
  assumes "sub1.built (merchant_rows m db)" "ascending (merchant_rows m db)"
    and "MerchantID evt = m \<longrightarrow> (\<forall>x \<in> set (merchant_rows m db). ev_ingested x < trunc_us (event_ts now evt))"
    and db': "db' = snd (WriteEvidence sha fail now db evt)"
  shows "sub1.built (merchant_rows m db') \<and> ascending (merchant_rows m db')"
proof -
  let ?r = "seal_row sha now db evt"
  have "sub1.built (merchant_rows m (db @ [?r])) \<and> ascending (merchant_rows m (db @ [?r]))"
  proof (cases "MerchantID evt = m")
    case True
    have "seal_in_order (merchant_rows m db) ?r"
      unfolding seal_in_order_def using True assms(2,3) by fastforce
    with assms(1) have "sub1.built (merchant_rows m db @ [?r])" by (rule sub1.built.append)
    with True assms(2,3) show ?thesis
      by (simp add: merchant_rows_append ascending_def sorted_wrt_append)
  qed (use assms in \<open>simp add: merchant_rows_append\<close>)
  with WriteEvidence_table [of sha fail now db evt] assms(1,2) show ?thesis
    unfolding db' by auto
qed

lemma seal_all_built:
  assumes "sorted_wrt (\<lambda>e f. MerchantID e = MerchantID f \<longrightarrow> trunc_us (event_ts now e) < trunc_us (event_ts now f)) es"
    and "\<forall>x \<in> set db. \<forall>e \<in> set es. ev_merchant x = MerchantID e \<longrightarrow> ev_ingested x < trunc_us (event_ts now e)"
    and "sub1.built (merchant_rows m db)" "ascending (merchant_rows m db)"
  shows "sub1.built (merchant_rows m (seal_all sha now es db))"
  using assms
proof (induction es arbitrary: db)
  case (Cons e es)
  let ?db = "snd (WriteEvidence sha (\<lambda>c. False) now db e)"
  have "MerchantID e = m \<longrightarrow> (\<forall>x \<in> set (merchant_rows m db). ev_ingested x < trunc_us (event_ts now e))"
    using Cons.prems(2) by (auto simp: merchant_rows_def)
  note built = WriteEvidence_built [OF Cons.prems(3,4) this refl]
  have "\<forall>x \<in> set ?db. \<forall>f \<in> set es. ev_merchant x = MerchantID f \<longrightarrow> ev_ingested x < trunc_us (event_ts now f)"
    using WriteEvidence_table [of sha "\<lambda>c. False" now db e] Cons.prems(1,2) by auto
  with Cons.IH [of ?db] Cons.prems(1) built show ?case by simp
qed simp

lemma seal_all_events:
  assumes "distinct (map EventHash es)" "distinct (map EventID es)"
    and "\<forall>x \<in> set db. \<forall>e \<in> set es. ev_event_hash x \<noteq> EventHash e \<and> ev_event_id x \<noteq> EventID e"
  shows "map ev_event_hash (seal_all sha now es db) = map ev_event_hash db @ map EventHash es"
  using assms
proof (induction es arbitrary: db)
  case (Cons e es)
  have db': "snd (WriteEvidence sha (\<lambda>c. False) now db e) = db @ [seal_row sha now db e]"
    using Cons.prems(3) by (auto simp: WriteEvidence_def evidence_conflict_def list_ex_iff Let_def)
  have row: "ev_event_hash (seal_row sha now db e) = EventHash e" "ev_event_id (seal_row sha now db e) = EventID e"
    by (simp_all add: seal_row_def Let_def)
  have "\<forall>f \<in> set es. EventHash e \<noteq> EventHash f \<and> EventID e \<noteq> EventID f"
    using Cons.prems(1,2) by (auto simp: image_iff)
  then have "\<forall>x \<in> set (db @ [seal_row sha now db e]). \<forall>f \<in> set es.
      ev_event_hash x \<noteq> EventHash f \<and> ev_event_id x \<noteq> EventID f"
    using Cons.prems(3) row by simp
  then show ?case
    using Cons.IH [of "db @ [seal_row sha now db e]"] Cons.prems(1,2) db' row by simp
qed simp

section \<open>The clock in the hash\<close>

lemma trim_same_length:
  assumes "trim_right_char c s = trim_right_char c t" "length s = length t"
  shows "s = t"
proof -
  obtain j where j: "s = trim_right_char c s @ replicate j c" by (rule trim_right_char_split)
  obtain k where k: "t = trim_right_char c t @ replicate k c" by (rule trim_right_char_split)
  have "length s = length (trim_right_char c s) + j" "length t = length (trim_right_char c t) + k"
    using j k by (metis length_append length_replicate)+
  with assms have "j = k" by simp
  with j k assms(1) show ?thesis by metis
qed

text \<open>Two instants of the same second have the same rendering only when they are equal.\<close>

lemma fraction_text_inj:
  assumes "a < 10 ^ 9" "b < 10 ^ 9"
    and "(if a = 0 then [] else trim_right_char CHR ''0'' (''.'' @ fmt_pad 9 a)) =
         (if b = 0 then [] else trim_right_char CHR ''0'' (''.'' @ fmt_pad 9 b))"
  shows "a = (b::nat)"
proof -
  have ne: "trim_right_char CHR ''0'' (''.'' @ fmt_pad 9 n) \<noteq> []" for n
    by (auto simp: trim_right_char_def)
  have len: "length (fmt_pad 9 n) = 9" if "n < 10 ^ 9" for n
    using that by (intro length_fmt_pad) simp_all
  show ?thesis
  proof (cases "a = 0 \<or> b = 0")
    case True
    with assms(3) ne show ?thesis by (metis (no_types, lifting))
  next
    case False
    with assms(3) have "trim_right_char CHR ''0'' (''.'' @ fmt_pad 9 a) = trim_right_char CHR ''0'' (''.'' @ fmt_pad 9 b)"
      by simp
    then have "''.'' @ fmt_pad 9 a = ''.'' @ fmt_pad 9 b"
      by (rule trim_same_length) (simp add: len [OF assms(1)] len [OF assms(2)])
    then show ?thesis by (metis append_same_eq append_eq_append_conv digits_val_fmt_pad same_append_eq)
  qed
qed

lemma mod_mult_div:
  assumes "0 < (k::int)" "0 \<le> n"
  shows "x mod (k * n) div k = x div k mod n"
proof -
  have "x mod (k * n) div k = (k * (x div k mod n) + x mod k) div k"
    using assms(2) by (simp add: zmod_zmult2_eq)
  also have "\<dots> = x div k mod n + x mod k div k" using assms(1) by simp
  finally show ?thesis using assms(1) by simp
qed

lemma rfc3339nano_same_second:
  assumes "s div second = t div second" and "rfc3339nano s = rfc3339nano t"
  shows "s = t"
proof -
  have units: "day = second * 86400" "hour = second * 3600" "minute = second * 60" "0 < second"
    by (simp_all add: day_def hour_def minute_def second_def)
  have d: "x div day = x div second div 86400" for x
    by (simp only: units zdiv_zmult2_eq)
  have r: "x mod day div second = x div second mod 86400" for x
    unfolding units(1) by (rule mod_mult_div [OF units(4)]) simp
  have h: "x mod day div hour = x div second mod 86400 div 3600" for x
    unfolding units(2) r [symmetric] by (simp add: zdiv_zmult2_eq)
  have h': "x mod day mod hour div second = x div second mod 86400 mod 3600" for x
    unfolding units(2) by (subst mod_mult_div [OF units(4)]) (simp_all only: r zero_le_numeral)
  have mi: "x mod day mod hour div minute = x div second mod 86400 mod 3600 div 60" for x
    unfolding units(3) h' [symmetric] by (simp add: zdiv_zmult2_eq)
  have sub: "x mod day mod minute div second = x div second mod 86400 mod 60" for x
    unfolding units(3) by (subst mod_mult_div [OF units(4)]) (simp_all only: r zero_le_numeral)
  have f: "x mod day mod second = x mod second" for x
    unfolding units(1) by (rule mod_mod_cancel) simp
  have "(if nat (s mod second) = 0 then [] else trim_right_char CHR ''0'' (''.'' @ fmt_pad 9 (nat (s mod second)))) =
      (if nat (t mod second) = 0 then [] else trim_right_char CHR ''0'' (''.'' @ fmt_pad 9 (nat (t mod second))))"
    using assms(2) unfolding rfc3339nano_def Let_def d h mi sub f assms(1)
    by (cases "civil_from_days (t div second div 86400)") (simp only: prod.case append_same_eq same_append_eq)
  then have "nat (s mod second) = nat (t mod second)"
    by (intro fraction_text_inj) (simp_all add: second_def nat_less_iff)
  then have "s mod second = t mod second" using units(4) by (simp add: eq_nat_nat_iff)
  with assms(1) show ?thesis by (metis div_mult_mod_eq)
qed

section \<open>Unacknowledged messages\<close>

lemma handle_stream:
  "ss_stream (handle sha fail af now msg s) \<in> {ss_stream s, xack (fst msg) (ss_stream s)}"
  by (auto simp: handle_def Let_def split: event_field.splits sum.splits seal_error.splits prod.splits)

lemma handle_all_stream:
  "stream_ok (ss_stream s) \<Longrightarrow> stream_ok (ss_stream (handle_all sha env ms s)) \<and>
     (\<forall>i. i \<notin> fst ` set ms \<longrightarrow> i \<in> set (st_pending (ss_stream s)) \<longrightarrow>
        i \<in> set (st_pending (ss_stream (handle_all sha env ms s))))"
proof (induction sha env ms s rule: handle_all.induct)
  case (2 sha env m ms s)
  obtain fail af now where e: "env (fst m) = (fail, af, now)" by (cases "env (fst m)") auto
  let ?s = "handle sha fail af now m s"
  have "stream_ok (ss_stream ?s)" and "\<forall>i. i \<noteq> fst m \<longrightarrow> i \<in> set (st_pending (ss_stream s)) \<longrightarrow> i \<in> set (st_pending (ss_stream ?s))"
    using handle_stream [of sha fail af now m s] "2.prems" by (auto simp: stream_ok_xack in_pending_xack)
  with "2.IH" [OF e [symmetric] refl] show ?case by (simp add: e)
qed simp

lemma handle_seal_failed:
  "fail SealBegin \<Longrightarrow> handle sha fail af now (i, EventJSON evt) s = s"
  by (simp add: handle_def WriteEvidence_def)

lemma handle_all_failed:
  assumes "(i, EventJSON evt) \<in> set ms" "distinct (map fst ms)" "fst (env i) SealBegin"
    and "stream_ok (ss_stream s)" "i \<in> set (st_pending (ss_stream s))"
  shows "i \<in> set (st_pending (ss_stream (handle_all sha env ms s)))"
  using assms
proof (induction sha env ms s rule: handle_all.induct)
  case (2 sha env m ms s)
  obtain fail af now where e: "env (fst m) = (fail, af, now)" by (cases "env (fst m)") auto
  let ?s = "handle sha fail af now m s"
  show ?case
  proof (cases "m = (i, EventJSON evt)")
    case True
    with "2.prems" e have "?s = s" by (simp add: handle_seal_failed)
    with handle_all_stream [OF "2.prems"(4), of sha env ms] "2.prems"(2,5) True e show ?thesis by simp
  next
    case False
    then have m1: "(i, EventJSON evt) \<in> set ms" using "2.prems"(1) by auto
    then have "i \<in> fst ` set ms" by force
    then have m2: "fst m \<noteq> i" using "2.prems"(2) by auto
    have "stream_ok (ss_stream ?s)" "i \<in> set (st_pending (ss_stream ?s))"
      using handle_stream [of sha fail af now m s] "2.prems"(4,5) m2
      by (auto simp: stream_ok_xack in_pending_xack)
    with "2.IH" [OF e [symmetric] refl] m1 "2.prems"(2,3) show ?thesis by (simp add: e)
  qed
qed simp

lemma processBatch_pending:
  assumes "stream_ok (ss_stream s)"
  shows "stream_ok (ss_stream (processBatch sha rf env s)) \<and>
    set (st_pending (ss_stream s)) \<subseteq> set (st_pending (ss_stream (processBatch sha rf env s)))"
proof (cases rf)
  case False
  obtain msgs st where x: "xreadgroup 10 (ss_stream s) = (msgs, st)" by fastforce
  note ok = stream_ok_xreadgroup [OF assms x]
  have "stream_ok (ss_stream (s\<lparr>ss_stream := st\<rparr>))" using ok by simp
  from handle_all_stream [OF this, of sha env msgs] ok show ?thesis
    using False by (force simp: processBatch_def x)
qed (use assms in \<open>simp add: processBatch_def\<close>)

lemma seal_step_pending:
  assumes "seal_step sha s s'" "stream_ok (ss_stream s)"
  shows "stream_ok (ss_stream s') \<and> set (st_pending (ss_stream s)) \<subseteq> set (st_pending (ss_stream s'))"
  using assms(1)
proof (rule seal_stepE)
  fix e assume "s' = s\<lparr>ss_stream := xadd e (ss_stream s)\<rparr>"
  with assms(2) show ?thesis by (simp add: stream_ok_xadd)
next
  fix rf env assume "s' = processBatch sha rf env s"
  with processBatch_pending [OF assms(2)] show ?thesis by simp
qed

lemma seal_steps_pending:
  assumes "(seal_step sha)\<^sup>*\<^sup>* s s'" "stream_ok (ss_stream s)"
  shows "stream_ok (ss_stream s') \<and> set (st_pending (ss_stream s)) \<subseteq> set (st_pending (ss_stream s'))"
  using assms by (induction rule: rtranclp_induct) (use seal_step_pending in blast)+

section \<open>Properties\<close>

text \<open>C1: When the events of each merchant are sealed in the order of their ingestion times, to
  the microsecond, the evidence of every merchant is one linear chain: each row names the chain
  hash of the merchant's row before it, the first one none; and no distinct event is lost.\<close>

theorem seal_chain_linear:
  assumes "sorted_wrt (\<lambda>e f. MerchantID e = MerchantID f \<longrightarrow>
             trunc_us (event_ts now e) < trunc_us (event_ts now f)) es"
  shows "linked prev_of ev_chain [] (merchant_rows m (seal_all sha now es [])) \<and>
     (distinct (map EventHash es) \<and> distinct (map EventID es) \<longrightarrow>
        map ev_event_hash (seal_all sha now es []) = map EventHash es)"
  using sub1.built_linked [OF seal_all_built [OF assms, of "[]" m sha]] seal_all_events [of es "[]" sha now]
  by (auto simp: merchant_rows_def ascending_def sub1.built.empty)

definition sample_event :: "nat \<Rightarrow> gotime \<Rightarrow> uuid \<Rightarrow> event" where
  "sample_event n t m = \<lparr>EventID = of_nat n, EventHash = dec_nat n, SourceCode = ''square'', MerchantID = m,
     Timestamp = t, IngestedAt = t, Payload = ''{}'', Nonce = []\<rparr>"

theorem seal_chain_linear_witness:
  "linked prev_of ev_chain []
     (merchant_rows 9 (seal_all (\<lambda>x. x) 0 [sample_event 1 5000 9, sample_event 2 3000 8, sample_event 3 9000 9] []))"
  using seal_chain_linear [of 0 "[sample_event 1 5000 9, sample_event 2 3000 8, sample_event 3 9000 9]" 9 "\<lambda>x. x"]
  by (simp add: sample_event_def event_ts_def zero_time_def trunc_us_def)

text \<open>An event ingested before the merchant's newest row forks the chain: it and the next
  event sealed for the merchant both name the chain hash of that newest row.\<close>

theorem seal_late_event_forks:
  assumes "r \<in> set (merchant_rows m db)"
    and "\<forall>x \<in> set (merchant_rows m db). x \<noteq> r \<longrightarrow> ev_ingested x < ev_ingested r"
    and "MerchantID a = m" "MerchantID b = m" "trunc_us (event_ts now a) < ev_ingested r"
    and "\<not> evidence_conflict db a" "\<not> evidence_conflict (db @ [seal_row sha now db a]) b"
  shows "\<exists>ra rb. snd (WriteEvidence sha (\<lambda>c. False) now (snd (WriteEvidence sha (\<lambda>c. False) now db a)) b) = db @ [ra, rb] \<and>
     prev_of ra = ev_chain r \<and> prev_of rb = ev_chain r"
proof -
  let ?ra = "seal_row sha now db a"
  have first: "LookupPrevChainHash d m = ev_chain r"
    if "set (merchant_rows m d) \<subseteq> insert ?ra (set (merchant_rows m db))" "r \<in> set (merchant_rows m d)" for d
  proof -
    have "first_row (sort_desc ev_ingested (merchant_rows m d)) = Some r"
      by (rule first_row_unique_max) (use that assms(2,5) in auto)
    then show ?thesis by (simp add: LookupPrevChainHash_def)
  qed
  have "LookupPrevChainHash db m = ev_chain r"
    by (rule first) (use assms(1) in auto)
  moreover have "LookupPrevChainHash (db @ [?ra]) m = ev_chain r"
    by (rule first) (use assms(1,3) in \<open>auto simp: merchant_rows_append\<close>)
  ultimately show ?thesis
    using assms(3,4,6,7) by (simp add: WriteEvidence_def Let_def)
qed

theorem seal_late_event_forks_witness:
  "\<exists>ra rb. snd (WriteEvidence (\<lambda>x. x) (\<lambda>c. False) 0 (snd (WriteEvidence (\<lambda>x. x) (\<lambda>c. False) 0
        (seal_all (\<lambda>x. x) 0 [sample_event 1 9000 9] []) (sample_event 2 5000 9))) (sample_event 3 12000 9))
      = seal_all (\<lambda>x. x) 0 [sample_event 1 9000 9] [] @ [ra, rb] \<and> prev_of ra = prev_of rb"
proof -
  let ?r = "seal_row (\<lambda>x. x) 0 [] (sample_event 1 9000 9)"
  have db: "seal_all (\<lambda>x. x) 0 [sample_event 1 9000 9] [] = [?r]"
    by (simp add: WriteEvidence_def evidence_conflict_def Let_def)
  have d: "dec_nat (Suc 0) = ''1''" "dec_nat 2 = ''2''" "dec_nat 3 = ''3''" by code_simp+
  have "\<exists>ra rb. snd (WriteEvidence (\<lambda>x. x) (\<lambda>c. False) 0 (snd (WriteEvidence (\<lambda>x. x) (\<lambda>c. False) 0 [?r]
      (sample_event 2 5000 9))) (sample_event 3 12000 9)) = [?r] @ [ra, rb] \<and>
      prev_of ra = ev_chain ?r \<and> prev_of rb = ev_chain ?r"
    by (rule seal_late_event_forks [where m = 9])
       (simp_all add: merchant_rows_def sample_event_def event_ts_def zero_time_def trunc_us_def
          evidence_conflict_def seal_row_def Let_def d)
  then show ?thesis unfolding db by auto
qed

text \<open>A sealed row whose ingestion time had a fraction of a microsecond cannot be checked
  from its stored columns: recomputing the chain hash with the stored time does not give the
  sealed hash, unless the two texts collide under the hash function.\<close>

theorem seal_clock_not_recoverable:
  assumes "r = seal_row sha now db evt" and "trunc_us (event_ts now evt) \<noteq> event_ts now evt"
    and "\<not> clash sha (ev_event_hash r @ prev_of r @ rfc3339nano (ev_ingested r))
           (ev_event_hash r @ prev_of r @ rfc3339nano (event_ts now evt))"
  shows "ComputeChainHash sha (ev_event_hash r) (prev_of r) (ev_ingested r) \<noteq> ev_chain r"
proof -
  let ?t = "event_ts now evt"
  have "?t div 1000 * 1000 div second = ?t div second"
    using zdiv_zmult2_eq [of 1000000 "?t" 1000] zdiv_zmult2_eq [of 1000000 "?t div 1000 * 1000" 1000]
    by (simp add: second_def)
  then have "rfc3339nano (trunc_us ?t) \<noteq> rfc3339nano ?t"
    using rfc3339nano_same_second [of "trunc_us ?t" "?t"] assms(2) by (auto simp: trunc_us_def)
  moreover have "ev_event_hash r = EventHash evt" "prev_of r = LookupPrevChainHash db (MerchantID evt)" "ev_ingested r = trunc_us ?t"
      "ev_chain r = ComputeChainHash sha (EventHash evt) (LookupPrevChainHash db (MerchantID evt)) ?t"
    by (simp_all add: assms(1) seal_row_def prev_of_def Let_def)
  ultimately show ?thesis
    using assms(3) by (simp add: ComputeChainHash_def clash_def)
qed

theorem seal_clock_not_recoverable_witness:
  "ComputeChainHash (\<lambda>x. x) ''1'' [] 1700000000123456000
     \<noteq> ev_chain (seal_row (\<lambda>x. x) 0 [] (sample_event 1 1700000000123456789 9))"
proof -
  have "dec_nat (Suc 0) = ''1''" by code_simp
  then show ?thesis using seal_clock_not_recoverable [of "seal_row (\<lambda>x. x) 0 [] (sample_event 1 1700000000123456789 9)" "\<lambda>x. x" 0 "[]"
        "sample_event 1 1700000000123456789 9"]
  by (simp add: clash_def sample_event_def event_ts_def zero_time_def trunc_us_def seal_row_def prev_of_def LookupPrevChainHash_def
      merchant_rows_def Let_def)
qed

text \<open>Event hashes are unique across merchants: once any merchant has sealed a payload, the
  same payload of another merchant is reported as a duplicate and leaves no evidence.\<close>

theorem seal_duplicate_across_merchants:
  assumes "r \<in> set db" and "ev_event_hash r = EventHash evt"
    and "\<not> fail SealBegin" "\<not> fail SealLock" "\<not> fail SealLookup"
  shows "\<exists>c. WriteEvidence sha fail now db evt = (Inl (DuplicateEvent c), db)"
proof -
  have "evidence_conflict db evt" using assms(1,2) by (auto simp: evidence_conflict_def list_ex_iff)
  with assms(3-5) show ?thesis by (simp add: WriteEvidence_def Let_def)
qed

theorem seal_duplicate_across_merchants_witness:
  "\<exists>c. WriteEvidence (\<lambda>x. x) (\<lambda>c. False) 0 [seal_row (\<lambda>x. x) 0 [] (sample_event 1 9000 9)] (sample_event 1 9500 8)
     = (Inl (DuplicateEvent c), [seal_row (\<lambda>x. x) 0 [] (sample_event 1 9000 9)])"
  by (rule seal_duplicate_across_merchants [of "seal_row (\<lambda>x. x) 0 [] (sample_event 1 9000 9)"])
     (simp_all add: seal_row_def sample_event_def Let_def)

text \<open>A message whose seal failed is never delivered to the group again, whatever is
  published and however many batches the worker takes: it stays pending, and no later read
  returns it.\<close>

theorem sub1_failed_message_stranded:
  assumes "stream_ok (ss_stream s)" and "xreadgroup 10 (ss_stream s) = (msgs, st)"
    and "(i, EventJSON evt) \<in> set msgs" and "fst (env i) SealBegin"
    and "(seal_step sha)\<^sup>*\<^sup>* (processBatch sha False env s) s'"
  shows "i \<in> set (st_pending (ss_stream s')) \<and> i \<notin> fst ` set (fst (xreadgroup n (ss_stream s')))"
proof -
  note rd = stream_ok_xreadgroup [OF assms(1,2)]
  have "i \<in> set (st_pending (ss_stream (s\<lparr>ss_stream := st\<rparr>)))" "stream_ok (ss_stream (s\<lparr>ss_stream := st\<rparr>))"
    using rd assms(3) by force+
  with handle_all_failed [where i = i and env = env and ms = msgs and sha = sha] assms(3,4) rd
  have p: "i \<in> set (st_pending (ss_stream (processBatch sha False env s)))"
    by (simp add: processBatch_def assms(2))
  have ok: "stream_ok (ss_stream (processBatch sha False env s))"
    using processBatch_pending [OF assms(1)] by blast
  from seal_steps_pending [OF assms(5) ok] p have s': "i \<in> set (st_pending (ss_stream s'))" "stream_ok (ss_stream s')"
    by blast+
  obtain ms st' where x: "xreadgroup n (ss_stream s') = (ms, st')" by fastforce
  from stream_ok_xreadgroup [OF s'(2) x] s'(1) show ?thesis by (auto simp: x)
qed

theorem sub1_failed_message_stranded_witness:
  "let s = \<lparr>ss_table = [], ss_stream = xadd (EventJSON (sample_event 1 9000 9)) \<lparr>st_entries = [], st_delivered = 0, st_pending = []\<rparr>\<rparr>;
       s' = processBatch (\<lambda>x. x) False (\<lambda>i. (\<lambda>c. True, False, 0)) s in
   0 \<in> set (st_pending (ss_stream s')) \<and> 0 \<notin> fst ` set (fst (xreadgroup 10 (ss_stream s')))"
  unfolding Let_def
  by (rule sub1_failed_message_stranded [OF _ _ _ _ rtranclp.rtrancl_refl, where evt = "sample_event 1 9000 9"
        and msgs = "[(0, EventJSON (sample_event 1 9000 9))]"])
     (simp_all add: stream_ok_def xadd_def xreadgroup_def Let_def)

end
