(* ===== verification/Json.thy ===== *)
theory Json
  imports Prelude
begin

text \<open>
  JSON documents as \<open>encoding/json\<close> decodes them into \<open>any\<close>: objects keep their members in
  document order (a repeated key keeps its last value), and a number is the \<open>float64\<close> it is
  decoded to.  A \<open>json.RawMessage\<close> read from a jsonb column is \<open>None\<close> when it has no bytes and
  a document otherwise.
\<close>

datatype json =
    JNull
  | JBool bool
  | JNum rat
  | JStr string
  | JArr "json list"
  | JObj "(string \<times> json) list"

type_synonym raw_json = "json option"

text \<open>\<open>json.Unmarshal\<close> into a \<open>map[string]any\<close>: an object or \<open>null\<close>.\<close>

definition unmarshal_map :: "json \<Rightarrow> (string \<rightharpoonup> json) option" where
  "unmarshal_map j =
     (case j of JObj kvs \<Rightarrow> Some (map_of (rev kvs)) | JNull \<Rightarrow> Some (\<lambda>k. None) | _ \<Rightarrow> None)"

text \<open>The member a RawMessage has under a key, for code that treats an empty or undecodable
  message as one without members.\<close>

definition raw_field :: "raw_json \<Rightarrow> string \<Rightarrow> json option" where
  "raw_field raw key =
     (case raw of None \<Rightarrow> None
      | Some j \<Rightarrow> (case unmarshal_map j of None \<Rightarrow> None | Some m \<Rightarrow> m key))"

lemma raw_field_simps [simp]:
  "raw_field None k = None"
  "raw_field (Some (JObj kvs)) k = map_of (rev kvs) k"
  "raw_field (Some JNull) k = None"
  by (simp_all add: raw_field_def unmarshal_map_def)

section \<open>Validity of a text\<close>

text \<open>The byte scanner of \<open>encoding/json\<close>, which decides whether a text is one JSON value:
  its state, its stack of open objects and arrays, and one step per byte.\<close>

datatype jmode = ObjectKey | ObjectValue | ArrayValue

datatype jstate =
    JBeginValue | JBeginValueOrEmpty | JBeginString | JBeginStringOrEmpty
  | JInString | JEsc | JEscU nat | JNeg | JInt | JZero | JDot | JFrac | JExp | JExpSign | JExpDigits
  | JLit string | JEndValue

definition json_space :: "char \<Rightarrow> bool" where
  "json_space c \<longleftrightarrow> (of_char c :: nat) \<in> {32, 9, 13, 10}"

definition jdigit :: "char \<Rightarrow> bool" where
  "jdigit c \<longleftrightarrow> 48 \<le> (of_char c :: nat) \<and> (of_char c :: nat) \<le> 57"

definition jhex :: "char \<Rightarrow> bool" where
  "jhex c \<longleftrightarrow> jdigit c \<or> (97 \<le> (of_char c :: nat) \<and> (of_char c :: nat) \<le> 102)
     \<or> (65 \<le> (of_char c :: nat) \<and> (of_char c :: nat) \<le> 70)"

definition jpush :: "jmode \<Rightarrow> jstate \<Rightarrow> jmode list \<Rightarrow> (jstate \<times> jmode list) option" where
  "jpush m s st = (if 10000 \<le> length st then None else Some (s, m # st))"

text \<open>The byte after a complete value.\<close>

definition jend :: "jmode list \<Rightarrow> char \<Rightarrow> (jstate \<times> jmode list) option" where
  "jend st c =
     (if json_space c then Some (JEndValue, st)
      else case st of
        [] \<Rightarrow> None
      | ObjectKey # r \<Rightarrow> if c = CHR '':'' then Some (JBeginValue, ObjectValue # r) else None
      | ObjectValue # r \<Rightarrow>
          if c = CHR '','' then Some (JBeginString, ObjectKey # r)
          else if c = CHR ''}'' then Some (JEndValue, r) else None
      | ArrayValue # r \<Rightarrow>
          if c = CHR '','' then Some (JBeginValue, st)
          else if c = CHR '']'' then Some (JEndValue, r) else None)"

definition jbegin :: "jmode list \<Rightarrow> char \<Rightarrow> (jstate \<times> jmode list) option" where
  "jbegin st c =
     (if json_space c then Some (JBeginValue, st)
      else if c = CHR ''{'' then jpush ObjectKey JBeginStringOrEmpty st
      else if c = CHR ''['' then jpush ArrayValue JBeginValueOrEmpty st
      else if c = char_of (34::nat) then Some (JInString, st)
      else if c = CHR ''-'' then Some (JNeg, st)
      else if c = CHR ''0'' then Some (JZero, st)
      else if c = CHR ''t'' then Some (JLit ''rue'', st)
      else if c = CHR ''f'' then Some (JLit ''alse'', st)
      else if c = CHR ''n'' then Some (JLit ''ull'', st)
      else if jdigit c then Some (JInt, st)
      else None)"

definition jafter_int :: "jmode list \<Rightarrow> char \<Rightarrow> (jstate \<times> jmode list) option" where
  "jafter_int st c =
     (if c = CHR ''.'' then Some (JDot, st)
      else if c = CHR ''e'' \<or> c = CHR ''E'' then Some (JExp, st) else jend st c)"

fun jstep :: "jstate \<Rightarrow> jmode list \<Rightarrow> char \<Rightarrow> (jstate \<times> jmode list) option" where
  "jstep JBeginValue st c = jbegin st c"
| "jstep JBeginValueOrEmpty st c =
     (if json_space c then Some (JBeginValueOrEmpty, st)
      else if c = CHR '']'' then Some (JEndValue, tl st) else jbegin st c)"
| "jstep JBeginString st c =
     (if json_space c then Some (JBeginString, st)
      else if c = char_of (34::nat) then Some (JInString, st) else None)"
| "jstep JBeginStringOrEmpty st c =
     (if json_space c then Some (JBeginStringOrEmpty, st)
      else if c = CHR ''}'' then Some (JEndValue, tl st)
      else if c = char_of (34::nat) then Some (JInString, st) else None)"
| "jstep JInString st c =
     (if c = char_of (34::nat) then Some (JEndValue, st)
      else if c = char_of (92::nat) then Some (JEsc, st)
      else if (of_char c :: nat) < 32 then None else Some (JInString, st))"
| "jstep JEsc st c =
     (if c \<in> set ''bfnrt/'' \<or> c = char_of (92::nat) \<or> c = char_of (34::nat) then Some (JInString, st)
      else if c = CHR ''u'' then Some (JEscU 4, st) else None)"
| "jstep (JEscU k) st c =
     (if jhex c then Some (if k \<le> 1 then JInString else JEscU (k - 1), st) else None)"
| "jstep JNeg st c =
     (if c = CHR ''0'' then Some (JZero, st) else if jdigit c then Some (JInt, st) else None)"
| "jstep JInt st c = (if jdigit c then Some (JInt, st) else jafter_int st c)"
| "jstep JZero st c = jafter_int st c"
| "jstep JDot st c = (if jdigit c then Some (JFrac, st) else None)"
| "jstep JFrac st c =
     (if jdigit c then Some (JFrac, st)
      else if c = CHR ''e'' \<or> c = CHR ''E'' then Some (JExp, st) else jend st c)"
| "jstep JExp st c =
     (if c = CHR ''+'' \<or> c = CHR ''-'' then Some (JExpSign, st)
      else if jdigit c then Some (JExpDigits, st) else None)"
| "jstep JExpSign st c = (if jdigit c then Some (JExpDigits, st) else None)"
| "jstep JExpDigits st c = (if jdigit c then Some (JExpDigits, st) else jend st c)"
| "jstep (JLit ls) st c =
     (case ls of [] \<Rightarrow> None
      | l # r \<Rightarrow> if c \<noteq> l then None else Some (if r = [] then JEndValue else JLit r, st))"
| "jstep JEndValue st c = jend st c"

fun jscan :: "jstate \<Rightarrow> jmode list \<Rightarrow> string \<Rightarrow> (jstate \<times> jmode list) option" where
  "jscan s st [] = Some (s, st)"
| "jscan s st (c # cs) = (case jstep s st c of None \<Rightarrow> None | Some (s', st') \<Rightarrow> jscan s' st' cs)"

text \<open>The end of the input is a space after which the top level must be complete.\<close>

definition json_valid :: "string \<Rightarrow> bool" where
  "json_valid s =
     (case jscan JBeginValue [] (s @ '' '') of Some (JEndValue, []) \<Rightarrow> True | _ \<Rightarrow> False)"

lemma json_valid_examples:
  "json_valid ''{}''" "json_valid '' [1, -2.5e3, true, {} ]''" "\<not> json_valid ''01''"
  "\<not> json_valid ''{,}''" "\<not> json_valid []" "\<not> json_valid ''[1''"
  by code_simp+

end
