(* ===== verification/Webhook.thy ===== *)
theory Webhook
  imports Hmac Seal Json
begin

text \<open>
  The webhook gateway, internal/protocol/webhook/handler.go: one request from its headers to
  the event on the stream.  The resolver of secrets is the parameter \<open>lookup\<close>, \<open>uuid.Parse\<close>
  the parameter \<open>uparse\<close>, SHA-256 and HMAC the parameters \<open>sha\<close> and \<open>hmac\<close>.  The publisher is
  \<open>ValkeyPublisher.Publish\<close>: it renders the event as JSON, which needs a payload that is valid
  JSON and years of four digits, and appends it to the stream.
\<close>

record webhook_request =
  wr_source :: string
  wr_merchant :: string
  wr_body :: string
  wr_ts :: string
  wr_nonce :: string
  wr_sig :: string

datatype secret_result = SecretFound string duration | SecretNotFound | SecretError

datatype webhook_response = Rejected nat string | AcceptedEvent uuid string

record gateway_state =
  gw_nonces :: valkey
  gw_stream :: "event_field stream"

text \<open>What a request meets: failures of the body read, the nonce store and \<open>XADD\<close>, the two
  readings of the clock, and the fresh event id.\<close>

record webhook_env =
  we_read_fails :: bool
  we_nonce_fails :: bool
  we_xadd_fails :: bool
  we_now :: gotime
  we_now2 :: gotime
  we_id :: uuid

definition MaxBodyBytes :: nat where
  "MaxBodyBytes = 2 ^ 20"

definition marshalable_time :: "gotime \<Rightarrow> bool" where
  "marshalable_time t = (case civil_from_days (t div day) of (y, m, d) \<Rightarrow> 0 \<le> y \<and> y \<le> 9999)"

definition Publish :: "bool \<Rightarrow> event \<Rightarrow> event_field stream \<Rightarrow> bool \<times> event_field stream" where
  "Publish xadd_fails evt st =
     (if \<not> (json_valid (Payload evt) \<and> marshalable_time (Timestamp evt) \<and> marshalable_time (IngestedAt evt))
      then (False, st)
      else if xadd_fails then (False, st)
      else (True, xadd (EventJSON evt) st))"

definition verify_status :: "hmac_error \<Rightarrow> webhook_response" where
  "verify_status e =
     (if e = TimestampMalformed \<or> e = SignatureMalformed then Rejected 400 ''signature_malformed''
      else Rejected 401 ''signature_invalid'')"

definition webhook_event :: "(string \<Rightarrow> string) \<Rightarrow> webhook_env \<Rightarrow> webhook_request \<Rightarrow> uuid \<Rightarrow> signature \<Rightarrow> event" where
  "webhook_event sha env req merchant sig =
     \<lparr>EventID = we_id env, EventHash = hex_encode (sha (wr_body req)), SourceCode = wr_source req,
      MerchantID = merchant, Timestamp = sg_timestamp sig, IngestedAt = we_now2 env,
      Payload = wr_body req, Nonce = sg_nonce sig\<rparr>"

definition ServeHTTP ::
  "(string \<Rightarrow> string) \<Rightarrow> (string \<Rightarrow> string \<Rightarrow> string) \<Rightarrow> (string \<Rightarrow> uuid option)
     \<Rightarrow> (uuid \<Rightarrow> string \<Rightarrow> secret_result) \<Rightarrow> string option \<Rightarrow> webhook_env \<Rightarrow> webhook_request \<Rightarrow> gateway_state
     \<Rightarrow> webhook_response \<times> gateway_state" where
  "ServeHTTP sha hmac uparse lookup nonces env req s =
     (if wr_source req = [] then (Rejected 400 ''missing_source'', s)
      else if wr_merchant req = [] then (Rejected 400 ''missing_merchant'', s)
      else case uparse (wr_merchant req) of
          None \<Rightarrow> (Rejected 400 ''malformed_merchant'', s)
        | Some merchant \<Rightarrow>
            if MaxBodyBytes < length (wr_body req) then (Rejected 413 ''payload_too_large'', s)
            else if we_read_fails env then (Rejected 400 ''body_read_failed'', s)
            else (case lookup merchant (wr_source req) of
                SecretNotFound \<Rightarrow> (Rejected 401 ''unknown_source'', s)
              | SecretError \<Rightarrow> (Rejected 500 ''secrets_lookup_failed'', s)
              | SecretFound secret window \<Rightarrow>
                  (case ParseHeaders (wr_ts req) (wr_nonce req) (wr_sig req) of
                     Inl e \<Rightarrow> (Rejected 400 ''malformed_signature_headers'', s)
                   | Inr sig \<Rightarrow>
                       (case Verify hmac secret (replay_window window) nonces (we_nonce_fails env)
                               (wr_body req) sig (we_now env) (gw_nonces s) of
                          (Some e, st) \<Rightarrow> (verify_status e, s\<lparr>gw_nonces := st\<rparr>)
                        | (None, st) \<Rightarrow>
                            let evt = webhook_event sha env req merchant sig in
                            (case Publish (we_xadd_fails env) evt (gw_stream s) of
                               (False, stream) \<Rightarrow> (Rejected 500 ''publish_failed'', s\<lparr>gw_nonces := st\<rparr>)
                             | (True, stream) \<Rightarrow>
                                 (AcceptedEvent (EventID evt) (EventHash evt),
                                  s\<lparr>gw_nonces := st, gw_stream := stream\<rparr>))))))"

text \<open>The checks before verification.\<close>

definition admitted ::
  "(string \<Rightarrow> uuid option) \<Rightarrow> (uuid \<Rightarrow> string \<Rightarrow> secret_result) \<Rightarrow> webhook_request
     \<Rightarrow> uuid \<Rightarrow> string \<Rightarrow> duration \<Rightarrow> signature \<Rightarrow> bool" where
  "admitted uparse lookup req merchant secret window sig \<longleftrightarrow>
     wr_source req \<noteq> [] \<and> wr_merchant req \<noteq> [] \<and> uparse (wr_merchant req) = Some merchant \<and>
     length (wr_body req) \<le> MaxBodyBytes \<and> lookup merchant (wr_source req) = SecretFound secret window \<and>
     ParseHeaders (wr_ts req) (wr_nonce req) (wr_sig req) = Inr sig"

lemma webhook_event_fields [simp]:
  "EventID (webhook_event sha env req m sig) = we_id env"
  "EventHash (webhook_event sha env req m sig) = hex_encode (sha (wr_body req))"
  "Payload (webhook_event sha env req m sig) = wr_body req"
  by (simp_all add: webhook_event_def)

lemma ServeHTTP_admitted:
  assumes "admitted uparse lookup req merchant secret window sig" "\<not> we_read_fails env"
  shows "ServeHTTP sha hmac uparse lookup nonces env req s =
    (case Verify hmac secret (replay_window window) nonces (we_nonce_fails env) (wr_body req) sig (we_now env) (gw_nonces s) of
       (Some e, st) \<Rightarrow> (verify_status e, s\<lparr>gw_nonces := st\<rparr>)
     | (None, st) \<Rightarrow>
         (case Publish (we_xadd_fails env) (webhook_event sha env req merchant sig) (gw_stream s) of
            (False, stream) \<Rightarrow> (Rejected 500 ''publish_failed'', s\<lparr>gw_nonces := st\<rparr>)
          | (True, stream) \<Rightarrow> (AcceptedEvent (we_id env) (hex_encode (sha (wr_body req))), s\<lparr>gw_nonces := st, gw_stream := stream\<rparr>)))"
  using assms by (simp add: ServeHTTP_def admitted_def Let_def split: prod.split option.split bool.split)

lemma ServeHTTP_not_rejected_early:
  assumes "fst (ServeHTTP sha hmac uparse lookup nonces env req s) = r"
    and "r = Rejected 500 ''publish_failed'' \<or> (\<exists>i h. r = AcceptedEvent i h)"
  obtains merchant secret window sig where "admitted uparse lookup req merchant secret window sig" "\<not> we_read_fails env"
  using assms
  by (auto simp: ServeHTTP_def admitted_def not_less split: if_splits option.splits secret_result.splits sum.splits)

lemma verify_status_cases:
  "verify_status e \<noteq> Rejected 500 c" "verify_status e \<noteq> AcceptedEvent i h"
  "Rejected 500 c \<noteq> verify_status e" "AcceptedEvent i h \<noteq> verify_status e"
  by (simp_all add: verify_status_def)

lemma Publish_cases:
  "Publish xf evt st = (b, st') \<Longrightarrow> st' = (if b then xadd (EventJSON evt) st else st)"
  by (auto simp: Publish_def split: if_splits)

section \<open>Properties\<close>


text \<open>A request whose event could not be published has spent its nonce: sent again unchanged
  inside the window, by a gateway in working order, it is refused with 401.\<close>

theorem webhook_retry_refused:
  assumes "ServeHTTP sha hmac uparse lookup (Some p) env req s = (Rejected 500 ''publish_failed'', s')"
    and "uparse (wr_merchant req) = Some merchant"
    and "lookup merchant (wr_source req) = SecretFound secret window"
    and "\<not> we_read_fails env'" "we_now env \<le> we_now env'" "we_now env' < we_now env + replay_window window"
  shows "ServeHTTP sha hmac uparse lookup (Some p) env' req s' = (Rejected 401 ''signature_invalid'', s')"
proof -
  have "fst (ServeHTTP sha hmac uparse lookup (Some p) env req s) = Rejected 500 ''publish_failed''"
    using assms(1) by simp
  then obtain merchant' secret' window' sig where
      adm': "admitted uparse lookup req merchant' secret' window' sig" and nr: "\<not> we_read_fails env"
    by (rule ServeHTTP_not_rejected_early) simp
  with assms(2,3) have adm: "admitted uparse lookup req merchant secret window sig"
    by (auto simp: admitted_def)
  let ?w = "replay_window window"
  let ?V = "\<lambda>env. Verify hmac secret ?w (Some p) (we_nonce_fails env) (wr_body req) sig (we_now env)"
  note run = ServeHTTP_admitted [OF adm nr, of sha hmac "Some p" s, unfolded assms(1)]
  obtain e st where v: "?V env (gw_nonces s) = (e, st)" by fastforce
  have e: "e = None" using run v verify_status_cases by (cases e) auto
  obtain b stream where pub: "Publish (we_xadd_fails env) (webhook_event sha env req merchant sig) (gw_stream s) = (b, stream)"
    by fastforce
  have s': "s' = s\<lparr>gw_nonces := st\<rparr>" using run v e pub by (cases b) auto
  have acc: "fst (?V env (gw_nonces s)) = None" using v e by simp
  from acc have auth: "authentic hmac secret ?w (wr_body req) sig (we_now env)" "sg_nonce sig \<noteq> []"
    by (simp_all add: Verify_accepts_iff)
  have w: "0 < ?w" by (simp add: replay_window_def minute_def)
  have st: "st = snd (?V env (gw_nonces s))" using v by simp
  have "fst (?V env' st) \<noteq> None"
    unfolding st by (rule Verify_no_replay [OF acc w verifications.here]) (use assms(5,6) in simp_all)
  moreover have "sg_timestamp sig \<noteq> zero_time" "sg_hex sig \<noteq> []"
      "hex_decode (sg_hex sig) = Some (computeHMAC hmac secret (sg_timestamp sig) (sg_nonce sig) (wr_body req))"
    using auth(1) by (simp_all add: authentic_def)
  ultimately have "\<exists>e. ?V env' st = (Some e, st) \<and> e \<in> {NonceReplay, NonceStoreFailed, TimestampOutOfWindow}"
    using auth(2)
    by (cases "?w < drift (we_now env') (sg_timestamp sig)"; cases "we_nonce_fails env'")
       (auto simp: Verify_def SeenOnce_def vk_once_def vk_setnx_def split: option.splits)
  then show ?thesis
    using ServeHTTP_admitted [OF adm assms(4), of sha hmac "Some p" s']
    by (auto simp: s' verify_status_def)
qed

section \<open>A concrete request\<close>

definition sample_request :: "string \<Rightarrow> webhook_request" where
  "sample_request body = \<lparr>wr_source = ''square'', wr_merchant = ''m'', wr_body = body, wr_ts = ''17'',
     wr_nonce = ''n'', wr_sig = hex_encode (''17.n.'' @ body)\<rparr>"

definition sample_webhook_env :: "bool \<Rightarrow> int \<Rightarrow> webhook_env" where
  "sample_webhook_env xadd_fails t = \<lparr>we_read_fails = False, we_nonce_fails = False, we_xadd_fails = xadd_fails,
     we_now = t * second, we_now2 = t * second, we_id = 5\<rparr>"

definition empty_gateway :: gateway_state where
  "empty_gateway = \<lparr>gw_nonces = (\<lambda>k. None), gw_stream = \<lparr>st_entries = [], st_delivered = 0, st_pending = []\<rparr>\<rparr>"

abbreviation sample_serve :: "webhook_env \<Rightarrow> webhook_request \<Rightarrow> gateway_state \<Rightarrow> webhook_response \<times> gateway_state" where
  "sample_serve \<equiv> ServeHTTP (\<lambda>x. x) (\<lambda>k m. m) (\<lambda>s. Some 9) (\<lambda>m c. SecretFound ''key'' (300 * second)) (Some ''gw'')"

lemma fmt_int_17: "fmt_int 17 = ''17''"
  by code_simp

lemma sample_admitted:
  "admitted (\<lambda>s. Some 9) (\<lambda>m c. SecretFound ''key'' (300 * second)) (sample_request ''{}'') 9 ''key'' (300 * second)
     (sample_signature 17 ''n'' ''{}'')"
  using parse_int64_fmt_int [of 17]
  by (simp add: admitted_def sample_request_def MaxBodyBytes_def ParseHeaders_def Let_def sample_signature_def
      fmt_int_17 is_int64_def time_unix_small signed_string_def unix_seconds_whole)

lemma sample_verify:
  "Verify (\<lambda>k m. m) ''key'' (replay_window (300 * second)) (Some ''gw'') False ''{}'' (sample_signature 17 ''n'' ''{}'')
     (17 * second) (\<lambda>k. None) = (None, [''gw:n'' \<mapsto> \<lparr>vk_value = ''1'', vk_expires = Some (317 * second)\<rparr>])"
  using sample_signature_authentic [of 17 "17 * second" "300 * second" "''key''" "''{}''" "''n''"]
  by (subst Verify_authentic)
     (simp_all add: replay_window_def second_def sample_signature_def vk_once_def vk_setnx_def vk_live_def vk_set_def vk_deadline_def)

lemma sample_serve_run:
  "sample_serve (sample_webhook_env xf 17) (sample_request ''{}'') empty_gateway =
     (case Publish xf (webhook_event (\<lambda>x. x) (sample_webhook_env xf 17) (sample_request ''{}'') 9 (sample_signature 17 ''n'' ''{}''))
             (gw_stream empty_gateway) of
        (False, stream) \<Rightarrow> (Rejected 500 ''publish_failed'', empty_gateway\<lparr>gw_nonces := [''gw:n'' \<mapsto> \<lparr>vk_value = ''1'', vk_expires = Some (317 * second)\<rparr>]\<rparr>)
      | (True, stream) \<Rightarrow> (AcceptedEvent 5 (hex_encode ''{}''),
           empty_gateway\<lparr>gw_nonces := [''gw:n'' \<mapsto> \<lparr>vk_value = ''1'', vk_expires = Some (317 * second)\<rparr>], gw_stream := stream\<rparr>))"
proof -
  have env: "\<not> we_read_fails (sample_webhook_env xf 17)" "we_nonce_fails (sample_webhook_env xf 17) = False"
    "we_xadd_fails (sample_webhook_env xf 17) = xf" "we_now (sample_webhook_env xf 17) = 17 * second"
    "we_id (sample_webhook_env xf 17) = 5" "wr_body (sample_request ''{}'') = ''{}''"
    "gw_nonces empty_gateway = (\<lambda>k. None)"
    by (simp_all add: sample_webhook_env_def sample_request_def empty_gateway_def)
  show ?thesis
    by (simp only: ServeHTTP_admitted [OF sample_admitted env(1)] env sample_verify prod.case option.case)
qed


theorem webhook_retry_refused_witness:
  "\<exists>s'. sample_serve (sample_webhook_env True 17) (sample_request ''{}'') empty_gateway = (Rejected 500 ''publish_failed'', s') \<and>
     sample_serve (sample_webhook_env False 60) (sample_request ''{}'') s' = (Rejected 401 ''signature_invalid'', s')"
proof -
  have "Publish True evt st = (False, st)" for evt st by (simp add: Publish_def)
  then have run: "sample_serve (sample_webhook_env True 17) (sample_request ''{}'') empty_gateway =
      (Rejected 500 ''publish_failed'', empty_gateway\<lparr>gw_nonces := [''gw:n'' \<mapsto> \<lparr>vk_value = ''1'', vk_expires = Some (317 * second)\<rparr>]\<rparr>)"
    by (simp add: sample_serve_run)
  have "sample_serve (sample_webhook_env False 60) (sample_request ''{}'') (empty_gateway\<lparr>gw_nonces := [''gw:n'' \<mapsto> \<lparr>vk_value = ''1'', vk_expires = Some (317 * second)\<rparr>]\<rparr>)
     = (Rejected 401 ''signature_invalid'', empty_gateway\<lparr>gw_nonces := [''gw:n'' \<mapsto> \<lparr>vk_value = ''1'', vk_expires = Some (317 * second)\<rparr>]\<rparr>)"
    by (rule webhook_retry_refused [OF run, where merchant = 9 and secret = "''key''" and window = "300 * second"])
       (simp_all add: sample_webhook_env_def second_def replay_window_def)
  with run show ?thesis by blast
qed

end
