(* ===== verification/GoRat.thy ===== *)
theory GoRat
  imports GoText
begin

text \<open>
  \<open>big.Rat.SetString\<close>, the decimal reader behind every monetary string of the pricing
  module: an optional sign, a mantissa with an optional base prefix, digit separators and a
  radix point, and an optional decimal or binary exponent; or a quotient of two integers.
  The scanners return the unread rest of the input, as the Go readers do.
\<close>

section \<open>The mantissa scanner, nat.scan with base 0\<close>

definition digit_value :: "char \<Rightarrow> nat" where
  "digit_value c =
     (let n = (of_char c :: nat) in
      if 48 \<le> n \<and> n \<le> 57 then n - 48
      else if 97 \<le> n \<and> n \<le> 122 then n - 97 + 10
      else if 65 \<le> n \<and> n \<le> 90 then n - 65 + 10
      else 63)"

record scan_state =
  sc_val :: nat
  sc_count :: nat
  sc_point :: "nat option"
  sc_prev :: char
  sc_inval :: bool
  sc_frac :: bool

fun scan_loop :: "nat \<Rightarrow> scan_state \<Rightarrow> string \<Rightarrow> scan_state \<times> string" where
  "scan_loop b st [] = (st, [])"
| "scan_loop b st (c # cs) =
     (if c = CHR ''.'' \<and> sc_frac st then
        scan_loop b (st\<lparr>sc_frac := False, sc_inval := (sc_inval st \<or> sc_prev st = CHR ''_''),
                        sc_prev := CHR ''.'', sc_point := Some (sc_count st)\<rparr>) cs
      else if c = CHR ''_'' then
        scan_loop b (st\<lparr>sc_inval := (sc_inval st \<or> sc_prev st \<noteq> CHR ''0''), sc_prev := CHR ''_''\<rparr>) cs
      else if digit_value c < b then
        scan_loop b (st\<lparr>sc_val := sc_val st * b + digit_value c, sc_count := Suc (sc_count st),
                        sc_prev := CHR ''0''\<rparr>) cs
      else (st, c # cs))"

definition scan_init :: "bool \<Rightarrow> scan_state" where
  "scan_init fracOk = \<lparr>sc_val = 0, sc_count = 0, sc_point = None, sc_prev = CHR ''.'',
                     sc_inval = False, sc_frac = fracOk\<rparr>"

text \<open>Base, whether a prefix was read, the state and the input the loop starts from.\<close>

definition scan_prefix :: "bool \<Rightarrow> string \<Rightarrow> nat \<times> char option \<times> scan_state \<times> string" where
  "scan_prefix fracOk s =
     (case s of
        [] \<Rightarrow> (10, None, scan_init fracOk, s)
      | c # t \<Rightarrow>
          if c \<noteq> CHR ''0'' then (10, None, scan_init fracOk, s)
          else let st = (scan_init fracOk)\<lparr>sc_prev := CHR ''0'', sc_count := 1\<rparr> in
            (case t of
               [] \<Rightarrow> (10, None, st, t)
             | d # u \<Rightarrow>
                 if d = CHR ''b'' \<or> d = CHR ''B'' then (2, Some CHR ''b'', st\<lparr>sc_count := 0\<rparr>, u)
                 else if d = CHR ''o'' \<or> d = CHR ''O'' then (8, Some CHR ''o'', st\<lparr>sc_count := 0\<rparr>, u)
                 else if d = CHR ''x'' \<or> d = CHR ''X'' then (16, Some CHR ''x'', st\<lparr>sc_count := 0\<rparr>, u)
                 else if \<not> fracOk then (8, Some CHR ''0'', st\<lparr>sc_count := 0\<rparr>, t)
                 else (10, None, st, t)))"

text \<open>Value, base and digit count (minus the number of fraction digits when a point was
  read), and the rest; \<open>None\<close> for a syntax error.\<close>

definition nat_scan :: "bool \<Rightarrow> string \<Rightarrow> (nat \<times> nat \<times> int \<times> string) option" where
  "nat_scan fracOk s =
     (case scan_prefix fracOk s of (b, pre, st0, s') \<Rightarrow>
      (case scan_loop b st0 s' of (st, rest) \<Rightarrow>
         if sc_inval st \<or> sc_prev st = CHR ''_'' then None
         else if sc_count st = 0 then
           (if pre = Some CHR ''0'' then Some (0, 10, 1, rest) else None)
         else Some (sc_val st, b,
                    (case sc_point st of None \<Rightarrow> int (sc_count st)
                     | Some dp \<Rightarrow> int dp - int (sc_count st)), rest)))"

section \<open>The exponent scanner\<close>

fun exp_loop :: "string \<Rightarrow> char \<Rightarrow> bool \<Rightarrow> string \<Rightarrow> string \<times> char \<times> bool \<times> string" where
  "exp_loop ds prev inval [] = (ds, prev, inval, [])"
| "exp_loop ds prev inval (c # cs) =
     (if is_digit c then exp_loop (ds @ [c]) CHR ''0'' inval cs
      else if c = CHR ''_'' then exp_loop ds CHR ''_'' (inval \<or> prev \<noteq> CHR ''0'') cs
      else (ds, prev, inval, c # cs))"

definition scan_exponent :: "string \<Rightarrow> (int \<times> nat \<times> string) option" where
  "scan_exponent s =
     (case s of
        [] \<Rightarrow> Some (0, 10, [])
      | c # t \<Rightarrow>
          let base = (if c = CHR ''e'' \<or> c = CHR ''E'' then 10
                      else if c = CHR ''p'' \<or> c = CHR ''P'' then 2 else 0) in
          if base = 0 then Some (0, 10, s)
          else
            let neg = (t \<noteq> [] \<and> hd t = CHR ''-'');
                u = (if t \<noteq> [] \<and> (hd t = CHR ''-'' \<or> hd t = CHR ''+'') then tl t else t) in
            (case exp_loop [] CHR ''.'' False u of (ds, prev, inval, rest) \<Rightarrow>
               let v = (if neg then - int (digits_val 0 ds) else int (digits_val 0 ds)) in
               if ds = [] \<or> \<not> is_int64 v \<or> inval \<or> prev = CHR ''_'' then None
               else Some (v, base, rest)))"

section \<open>SetString\<close>

definition rat_pow :: "rat \<Rightarrow> int \<Rightarrow> rat" where
  "rat_pow b e = (if 0 \<le> e then b ^ nat e else 1 / b ^ nat (- e))"

definition split_sign :: "string \<Rightarrow> bool \<times> string" where
  "split_sign s =
     (case s of c # t \<Rightarrow> if c = CHR ''-'' then (True, t) else if c = CHR ''+'' then (False, t)
                       else (False, s)
      | [] \<Rightarrow> (False, []))"

definition int_set_string :: "string \<Rightarrow> int option" where
  "int_set_string s =
     (case split_sign s of (neg, t) \<Rightarrow>
      (case nat_scan False t of
         Some (v, b, n, []) \<Rightarrow> Some (if neg then - int v else int v)
       | _ \<Rightarrow> None))"

definition rat_scaled :: "bool \<Rightarrow> nat \<Rightarrow> nat \<Rightarrow> int \<Rightarrow> nat \<Rightarrow> int \<Rightarrow> rat option" where
  "rat_scaled neg v base fcount ebase ex =
     (let d = (if fcount < 0 then fcount else 0);
          exp5 = wrap64 ((if base = 10 then d else 0) + (if ebase = 10 then ex else 0));
          exp2 = wrap64 ((if base = 8 then 3 * d else if base = 16 then 4 * d else d) + ex) in
      if v = 0 then Some 0
      else if 1000000 < \<bar>exp5\<bar> \<or> 10000000 < \<bar>exp2\<bar> then None
      else Some ((if neg then - 1 else 1) * of_nat v * rat_pow 5 exp5 * rat_pow 2 exp2))"

definition rat_set_string :: "string \<Rightarrow> rat option" where
  "rat_set_string s =
     (if s = [] then None
      else if CHR ''/'' \<in> set s then
        (let a = takeWhile (\<lambda>c. c \<noteq> CHR ''/'') s; q = drop (Suc (length a)) s in
         (case int_set_string a of
            None \<Rightarrow> None
          | Some n \<Rightarrow>
              (case nat_scan False q of
                 Some (v, b, k, []) \<Rightarrow> if v = 0 then None else Some (of_int n / of_nat v)
               | _ \<Rightarrow> None)))
      else
        (case split_sign s of (neg, t) \<Rightarrow>
         (case nat_scan True t of
            None \<Rightarrow> None
          | Some (v, b, fc, u) \<Rightarrow>
              (case scan_exponent u of
                 Some (ex, eb, []) \<Rightarrow> rat_scaled neg v b fc eb ex
               | _ \<Rightarrow> None))))"

section \<open>Plain decimals\<close>

lemma digit_value_digit: "is_digit c \<Longrightarrow> digit_value c = of_char c - 48"
  by (simp add: digit_value_def is_digit_def)

lemma digit_not_special:
  "is_digit c \<Longrightarrow> c \<noteq> CHR ''.'' \<and> c \<noteq> CHR ''_'' \<and> c \<noteq> CHR ''/'' \<and> c \<noteq> CHR ''-'' \<and> c \<noteq> CHR ''+''
     \<and> c \<noteq> CHR ''b'' \<and> c \<noteq> CHR ''B'' \<and> c \<noteq> CHR ''o'' \<and> c \<noteq> CHR ''O'' \<and> c \<noteq> CHR ''x'' \<and> c \<noteq> CHR ''X''"
  by (auto simp: is_digit_def)

lemma digit_value_lt: "is_digit c \<Longrightarrow> digit_value c < 10"
  by (auto simp: digit_value_def is_digit_def)

lemma scan_loop_digits:
  "list_all is_digit ds \<Longrightarrow> ds \<noteq> [] \<Longrightarrow>
   scan_loop 10 st (ds @ rest) =
     scan_loop 10 (st\<lparr>sc_val := digits_val (sc_val st) ds,
                      sc_count := sc_count st + length ds, sc_prev := CHR ''0''\<rparr>) rest"
proof (induction ds arbitrary: st)
  case Nil
  then show ?case by simp
next
  case (Cons d ds)
  then have d: "is_digit d" by simp
  show ?case
  proof (cases "ds = []")
    case True
    with d digit_not_special [OF d] digit_value_lt [OF d] show ?thesis
      by (simp add: digit_value_digit mult.commute)
  next
    case False
    with Cons d digit_not_special [OF d] digit_value_lt [OF d] show ?thesis
      by (simp add: digit_value_digit mult.commute)
  qed
qed

text \<open>A mantissa of plain digits scans as the loop in base 10 from the start, also when it
  begins with the digit 0.\<close>

lemma scan_prefix_zero:
  assumes "d \<noteq> CHR ''b''" "d \<noteq> CHR ''B''" "d \<noteq> CHR ''o''" "d \<noteq> CHR ''O''"
    "d \<noteq> CHR ''x''" "d \<noteq> CHR ''X''"
  shows "scan_prefix True (CHR ''0'' # d # u) =
     (10, None, (scan_init True)\<lparr>sc_prev := CHR ''0'', sc_count := 1\<rparr>, d # u)"
  unfolding scan_prefix_def Let_def list.case if_not_P [OF assms(1)]
  by (simp only: assms if_False not_True_eq_False simp_thms refl)

lemma nat_scan_plain:
  assumes "is_digit c" and "t = [] \<or> hd t = CHR ''.'' \<or> is_digit (hd t)"
  shows "scan_prefix True (c # t) = (10, None, scan_init True, c # t) \<or>
         (c = CHR ''0'' \<and> scan_prefix True (c # t) =
            (10, None, (scan_init True)\<lparr>sc_prev := CHR ''0'', sc_count := 1\<rparr>, t))"
proof (cases "c = CHR ''0''")
  case False
  then show ?thesis by (simp add: scan_prefix_def)
next
  case True
  have "scan_prefix True (CHR ''0'' # t) =
      (10, None, (scan_init True)\<lparr>sc_prev := CHR ''0'', sc_count := 1\<rparr>, t)"
  proof (cases t)
    case Nil
    then show ?thesis by (simp add: scan_prefix_def Let_def)
  next
    case (Cons d u)
    with assms(2) have d: "d = CHR ''.'' \<or> is_digit d" by simp
    have "d \<noteq> CHR ''b'' \<and> d \<noteq> CHR ''B'' \<and> d \<noteq> CHR ''o'' \<and> d \<noteq> CHR ''O''
        \<and> d \<noteq> CHR ''x'' \<and> d \<noteq> CHR ''X''"
      using d
    proof
      assume "d = CHR ''.''"
      then show ?thesis by simp
    next
      assume "is_digit d"
      from digit_not_special [OF this] show ?thesis by (elim conjE) (intro conjI)
    qed
    with scan_prefix_zero show ?thesis by (simp only: Cons simp_thms)
  qed
  with True show ?thesis by (simp only: simp_thms)
qed

lemma scan_loop_zero:
  "scan_loop 10 (scan_init f) (CHR ''0'' # t) =
   scan_loop 10 ((scan_init f)\<lparr>sc_prev := CHR ''0'', sc_count := 1\<rparr>) t"
  by (simp add: scan_init_def digit_value_def)

definition frac_part :: "string \<Rightarrow> string" where
  "frac_part ds = (if ds = [] then [] else CHR ''.'' # ds)"

lemma nat_scan_decimal:
  assumes w: "list_all is_digit w" "w \<noteq> []" and ds: "list_all is_digit ds"
  shows "nat_scan True (w @ frac_part ds) =
    Some (digits_val 0 (w @ ds), 10,
          (if ds = [] then int (length w) else - int (length ds)), [])"
proof -
  obtain c t where w_eq: "w = c # t" using w(2) by (cases w) auto
  let ?s = "w @ frac_part ds"
  have shape: "t @ frac_part ds = [] \<or> hd (t @ frac_part ds) = CHR ''.'' \<or> is_digit (hd (t @ frac_part ds))"
    using w(1) w_eq by (cases t) (auto simp: frac_part_def)
  have c: "is_digit c" using w(1) w_eq by simp
  have loop: "(case scan_prefix True ?s of (b, pre, st0, s') \<Rightarrow> (b, pre, scan_loop b st0 s')) =
      (10, None, scan_loop 10 (scan_init True) ?s)"
    using nat_scan_plain [OF c shape] scan_loop_zero [of True] by (auto simp: w_eq)
  have run: "scan_loop 10 (scan_init True) ?s =
      (if ds = [] then ((scan_init True)\<lparr>sc_val := digits_val 0 w, sc_count := length w,
                          sc_prev := CHR ''0''\<rparr>, [])
       else ((scan_init True)\<lparr>sc_val := digits_val 0 (w @ ds), sc_count := length w + length ds,
               sc_prev := CHR ''0'', sc_frac := False, sc_point := Some (length w)\<rparr>, []))"
  proof (cases "ds = []")
    case True
    then show ?thesis
      using scan_loop_digits [OF w, of "scan_init True" "[]"] by (simp add: frac_part_def scan_init_def)
  next
    case False
    have rest: "scan_loop 10 st ds = (st\<lparr>sc_val := digits_val (sc_val st) ds,
                      sc_count := sc_count st + length ds, sc_prev := CHR ''0''\<rparr>, [])" for st
      using scan_loop_digits [OF ds False, of st "[]"] by simp
    show ?thesis
      using scan_loop_digits [OF w, of "scan_init True" "CHR ''.'' # ds"] False
      by (simp add: frac_part_def scan_init_def rest digits_val_append)
  qed
  obtain b pre st0 s' where pfx: "scan_prefix True ?s = (b, pre, st0, s')" by (metis prod_cases4)
  with loop have b: "b = 10" "pre = None"
    and l: "scan_loop b st0 s' = scan_loop 10 (scan_init True) ?s" by auto
  have "nat_scan True ?s = (case scan_loop 10 (scan_init True) ?s of (st, rest) \<Rightarrow>
         if sc_inval st \<or> sc_prev st = CHR ''_'' then None
         else if sc_count st = 0 then None
         else Some (sc_val st, 10,
                    (case sc_point st of None \<Rightarrow> int (sc_count st)
                     | Some dp \<Rightarrow> int dp - int (sc_count st)), rest))"
    using l by (cases "scan_loop 10 (scan_init True) ?s") (simp add: nat_scan_def pfx b)
  note eq = this
  show ?thesis
    unfolding eq run using w(2) by (cases "ds = []") (simp_all add: scan_init_def)
qed

lemma rat_set_string_decimal:
  assumes w: "list_all is_digit w" "w \<noteq> []" and ds: "list_all is_digit ds"
    and len: "length ds \<le> 1000"
  shows "rat_set_string (w @ frac_part ds) =
    Some (of_nat (digits_val 0 (w @ ds)) / 10 ^ length ds)"
proof -
  let ?s = "w @ frac_part ds"
  have ne: "?s \<noteq> []" using w(2) by simp
  have noslash: "CHR ''/'' \<notin> set ?s"
    using w(1) ds digit_not_special by (auto simp: frac_part_def list_all_iff)
  have sign: "split_sign ?s = (False, ?s)"
    using w digit_not_special by (cases w) (auto simp: split_sign_def)
  let ?n = "digits_val 0 (w @ ds)"
  have pow: "(5::rat) ^ k * 2 ^ k = 10 ^ k" for k :: nat
    by (simp flip: power_mult_distrib)
  have "rat_scaled False ?n 10 (if ds = [] then int (length w) else - int (length ds)) 10 0 =
      Some (of_nat ?n / 10 ^ length ds)"
    using len pow [of "length ds"]
    by (auto simp: rat_scaled_def Let_def rat_pow_def is_int64_def)
  then show ?thesis
    using ne noslash sign nat_scan_decimal [OF w ds]
    by (simp add: rat_set_string_def scan_exponent_def)
qed

text \<open>What a sign-free literal denotes is nonnegative.\<close>

lemma nat_scan_unsigned: "nat_scan f s = Some (v, b, n, r) \<Longrightarrow> (0::rat) \<le> of_nat v"
  by simp

lemma int_set_string_nonneg:
  "int_set_string s = Some n \<Longrightarrow> s = [] \<or> hd s \<noteq> CHR ''-'' \<Longrightarrow> 0 \<le> n"
  by (auto simp: int_set_string_def split_sign_def split: option.splits list.splits prod.splits if_splits)

lemma rat_pow_pos: "0 < b \<Longrightarrow> 0 < rat_pow b e"
  by (simp add: rat_pow_def)

lemma rat_set_string_nonneg:
  assumes "rat_set_string s = Some r" and "hd s \<noteq> CHR ''-''"
  shows "0 \<le> r"
proof -
  have ne: "s \<noteq> []" using assms(1) by (auto simp: rat_set_string_def)
  show ?thesis
  proof (cases "CHR ''/'' \<in> set s")
    case True
    let ?a = "takeWhile (\<lambda>c. c \<noteq> CHR ''/'') s"
    from True assms(1) ne obtain n where a: "int_set_string ?a = Some n"
      by (auto simp: rat_set_string_def Let_def split: option.splits)
    with True assms(1) ne have "\<exists>v :: nat. r = of_int n / of_nat v"
      by (auto simp: rat_set_string_def Let_def split: option.splits list.splits if_splits)
    then obtain v :: nat where r: "r = of_int n / of_nat v" by blast
    have "?a = [] \<or> hd ?a = hd s" using ne by (cases s) auto
    with int_set_string_nonneg [OF a] assms(2) have "0 \<le> n" by auto
    then show ?thesis by (simp add: r)
  next
    case False
    have nn: "fst (split_sign s) = False"
      using assms(2) ne by (cases s) (auto simp: split_sign_def)
    from False assms(1) ne nn obtain v b fc eb ex where
      "rat_scaled False v b fc eb ex = Some r"
      by (auto simp: rat_set_string_def split: option.splits list.splits prod.splits)
    then show ?thesis
      using rat_pow_pos [of 5] rat_pow_pos [of 2]
      by (auto simp: rat_scaled_def Let_def less_imp_le split: if_splits)
  qed
qed

end
