(* ===== verification/Money.thy ===== *)
theory Money
  imports GoRat
begin

text \<open>
  Fixed-point money, internal/pricing/money.go: the readers that turn the decimal strings of
  numeric columns into scaled \<open>int64\<close> values with HALF-UP rounding, the renderers, and the
  multiplications that round back to cents.  The renderers call themselves on the negated
  argument, which does not terminate on the most negative \<open>int64\<close>; they are partial.
\<close>

section \<open>Readers\<close>

datatype amount_kind = Amount | Quantity | Rate

datatype amount_error =
    EmptyAmount amount_kind
  | NegativeAmount amount_kind
  | BadAmount string
  | AmountOutOfRange amount_kind

text \<open>\<open>new(big.Int).Quo(r.Num(), r.Denom())\<close>.\<close>

definition rat_quo :: "rat \<Rightarrow> int" where
  "rat_quo r = (case quotient_of r of (n, d) \<Rightarrow> n sdiv d)"

text \<open>The body the three readers share, at their scale.\<close>

definition parse_fixed :: "amount_kind \<Rightarrow> rat \<Rightarrow> string \<Rightarrow> amount_error + go_int64" where
  "parse_fixed k scale s0 =
     (let s = trim_space s0 in
      if s = [] then Inl (EmptyAmount k)
      else if hd s = CHR ''-'' then Inl (NegativeAmount k)
      else case rat_set_string s of
          None \<Rightarrow> Inl (BadAmount s)
        | Some r \<Rightarrow>
            (let num = rat_quo (r * scale + 1 / 2) in
             if is_int64 num then Inr num else Inl (AmountOutOfRange k)))"

definition parseMajorToCents :: "string \<Rightarrow> amount_error + go_int64" where
  "parseMajorToCents s = parse_fixed Amount 100 s"

definition parseQuantityToMicros :: "string \<Rightarrow> amount_error + go_int64" where
  "parseQuantityToMicros s = parse_fixed Quantity 1000000 s"

definition parseRateToPpm :: "string \<Rightarrow> amount_error + go_int64" where
  "parseRateToPpm s = parse_fixed Rate 1000000 s"

section \<open>Renderers\<close>

partial_function (option) formatCents :: "go_int64 \<Rightarrow> string option" where
  "formatCents cents =
     (if cents < 0 then Option.bind (formatCents (wrap64 (- cents))) (\<lambda>s. Some (CHR ''-'' # s))
      else Some (fmt_int (cents sdiv 100) @ ''.'' @ fmt_pad 2 (nat (cents smod 100))))"

partial_function (option) formatMicros :: "go_int64 \<Rightarrow> string option" where
  "formatMicros micros =
     (if micros < 0 then Option.bind (formatMicros (wrap64 (- micros))) (\<lambda>s. Some (CHR ''-'' # s))
      else
        let whole = micros sdiv 1000000; frac = micros smod 1000000 in
        if frac = 0 then Some (fmt_int whole)
        else Some (trim_right_char CHR ''.''
                     (trim_right_char CHR ''0'' (fmt_int whole @ ''.'' @ fmt_pad 6 (nat frac)))))"

partial_function (option) formatRatePpm :: "go_int64 \<Rightarrow> string option" where
  "formatRatePpm ppm =
     (if ppm < 0 then Option.bind (formatRatePpm (wrap64 (- ppm))) (\<lambda>s. Some (CHR ''-'' # s))
      else Some (fmt_int (ppm sdiv 1000000) @ ''.'' @ fmt_pad 6 (nat (ppm smod 1000000))))"

section \<open>Arithmetic\<close>

text \<open>The product rounded HALF-UP to the scale, saturated when it leaves \<open>int64\<close>.\<close>

definition scaled_product :: "go_int64 \<Rightarrow> go_int64 \<Rightarrow> go_int64" where
  "scaled_product a b =
     (let prod = (a * b + 500000) sdiv 1000000 in
      if is_int64 prod then prod else 2 ^ 62)"

definition multiplyCentsByMicros :: "go_int64 \<Rightarrow> go_int64 \<Rightarrow> go_int64" where
  "multiplyCentsByMicros cents qtyMicros = scaled_product cents qtyMicros"

definition multiplyCentsByPpm :: "go_int64 \<Rightarrow> go_int64 \<Rightarrow> go_int64" where
  "multiplyCentsByPpm cents ratePpm = scaled_product cents ratePpm"

definition percentOff :: "go_int64 \<Rightarrow> string \<Rightarrow> amount_error + go_int64" where
  "percentOff cents percentStr =
     bind_res (parseRateToPpm percentStr) (\<lambda>ppm. Inr (multiplyCentsByPpm cents ppm))"

section \<open>Rounding\<close>

lemma rat_quo_floor: "0 \<le> r \<Longrightarrow> rat_quo r = \<lfloor>r\<rfloor>"
proof -
  assume r: "0 \<le> r"
  obtain n d where q: "quotient_of r = (n, d)" by fastforce
  have d: "0 < d" using quotient_of_denom_pos [OF q] .
  have rq: "r = of_int n / of_int d" using quotient_of_div [OF q] .
  have "0 \<le> n" using r rq d by (simp add: zero_le_divide_iff)
  then show ?thesis using q d rq by (simp add: rat_quo_def floor_divide_of_int_eq)
qed

text \<open>HALF-UP: the nearest integer, ties upwards.\<close>

definition half_up :: "rat \<Rightarrow> int \<Rightarrow> bool" where
  "half_up x n \<longleftrightarrow> x - 1 / 2 < of_int n \<and> of_int n \<le> x + 1 / 2"

lemma half_up_floor: "half_up x \<lfloor>x + 1 / 2\<rfloor>"
  unfolding half_up_def by linarith

lemma half_up_unique: "half_up x m \<Longrightarrow> half_up x n \<Longrightarrow> m = n"
proof -
  assume "half_up x m" "half_up x n"
  then have "(of_int m :: rat) < of_int n + 1" "(of_int n :: rat) < of_int m + 1"
    unfolding half_up_def by linarith+
  then have "m < n + 1" "n < m + 1" by linarith+
  then show "m = n" by simp
qed

lemma half_up_mono: "half_up x m \<Longrightarrow> half_up y n \<Longrightarrow> x \<le> y \<Longrightarrow> m \<le> n"
proof -
  assume "half_up x m" "half_up y n" "x \<le> y"
  then have "(of_int m :: rat) < of_int n + 1" unfolding half_up_def by linarith
  then show "m \<le> n" by linarith
qed

lemma half_up_of_int: "half_up (of_int n) n"
  by (simp add: half_up_def)

text \<open>A reader's result is the HALF-UP rounding of what \<open>SetString\<close> denotes, at its scale.\<close>

lemma parse_fixed_Inr:
  assumes "parse_fixed k scale s = Inr n" and scale: "0 \<le> scale"
  obtains r where "rat_set_string (trim_space s) = Some r" "0 \<le> r" "half_up (r * scale) n" "is_int64 n"
proof -
  let ?t = "trim_space s"
  from assms(1) obtain r where t: "hd ?t \<noteq> CHR ''-''" and r: "rat_set_string ?t = Some r"
    and n: "n = rat_quo (r * scale + 1 / 2)" "is_int64 n"
    by (auto simp: parse_fixed_def Let_def split: if_splits option.splits)
  have r0: "0 \<le> r" using rat_set_string_nonneg [OF r t] .
  then have "0 \<le> r * scale + 1 / 2" using scale by simp
  then have "n = \<lfloor>r * scale + 1 / 2\<rfloor>" using n(1) rat_quo_floor by simp
  then have "half_up (r * scale) n" using half_up_floor by simp
  with r r0 n(2) that show ?thesis by blast
qed

lemma parse_fixed_nonneg: "parse_fixed k scale s = Inr n \<Longrightarrow> 0 \<le> scale \<Longrightarrow> 0 \<le> n"
proof -
  assume p: "parse_fixed k scale s = Inr n" and scale: "0 \<le> scale"
  obtain r where "0 \<le> r" "half_up (r * scale) n" using parse_fixed_Inr [OF p scale] .
  then have "(0::rat) \<le> r * scale" "half_up (r * scale) n" using scale by auto
  then show "0 \<le> n" using half_up_mono [OF half_up_of_int [of 0]] by simp
qed

section \<open>Reading decimals\<close>

lemma digit_not_space: "is_digit c \<Longrightarrow> \<not> space_byte c"
  by (auto simp: space_byte_def space_runes_def bytes_def is_digit_def)

lemma last_frac_part: "w \<noteq> [] \<Longrightarrow> last (w @ frac_part ds) = (if ds = [] then last w else last ds)"
  by (simp add: frac_part_def)

lemma trim_space_decimal:
  assumes "list_all is_digit w" "w \<noteq> []" "list_all is_digit ds"
  shows "trim_space (w @ frac_part ds) = w @ frac_part ds"
proof (rule trim_space_id)
  show "w @ frac_part ds \<noteq> []" using assms(2) by simp
  show "\<not> space_byte (hd (w @ frac_part ds))"
    using assms digit_not_space by (simp add: list_all_iff)
  have "is_digit (last (w @ frac_part ds))"
    using assms by (simp add: last_frac_part list_all_iff)
  then show "\<not> space_byte (last (w @ frac_part ds))" by (rule digit_not_space)
qed

lemma parse_fixed_decimal:
  assumes w: "list_all is_digit w" "w \<noteq> []" and ds: "list_all is_digit ds" "length ds \<le> 1000"
    and scale: "0 \<le> scale"
    and n: "half_up (of_nat (digits_val 0 (w @ ds)) / 10 ^ length ds * scale) n" "is_int64 n"
  shows "parse_fixed k scale (w @ frac_part ds) = Inr n"
proof -
  let ?s = "w @ frac_part ds"
  let ?r = "of_nat (digits_val 0 (w @ ds)) / 10 ^ length ds :: rat"
  have hd: "hd ?s \<noteq> CHR ''-''" "?s \<noteq> []"
    using w digit_not_special by (auto simp: list_all_iff)
  have "0 \<le> ?r * scale + 1 / 2" using scale by simp
  then have "rat_quo (?r * scale + 1 / 2) = \<lfloor>?r * scale + 1 / 2\<rfloor>" by (rule rat_quo_floor)
  also have "\<dots> = n" using half_up_unique [OF half_up_floor n(1)] .
  finally have "rat_quo (?r * scale + 1 / 2) = n" .
  with hd n(2) show ?thesis
    by (simp add: parse_fixed_def Let_def trim_space_decimal [OF w ds(1)]
        rat_set_string_decimal [OF w ds])
qed

text \<open>An exact decimal of the scale is read exactly.\<close>

lemma parse_fixed_exact:
  assumes w: "list_all is_digit w" "w \<noteq> []" and ds: "list_all is_digit ds" "length ds \<le> k"
    and k: "k \<le> 1000" and n: "int (digits_val 0 (w @ ds) * 10 ^ (k - length ds)) = n" "is_int64 n"
  shows "parse_fixed kd (10 ^ k) (w @ frac_part ds) = Inr n"
proof (rule parse_fixed_decimal [OF w ds(1)])
  have "(10::rat) ^ k = 10 ^ length ds * 10 ^ (k - length ds)"
    using ds(2) by (simp flip: power_add)
  then have "of_nat (digits_val 0 (w @ ds)) / 10 ^ length ds * 10 ^ k = (of_int n :: rat)"
    using n(1) by (simp flip: n(1))
  then show "half_up (of_nat (digits_val 0 (w @ ds)) / 10 ^ length ds * 10 ^ k) n"
    by (simp add: half_up_of_int)
qed (use ds k n in auto)

lemma fmt_int_nonneg: "0 \<le> i \<Longrightarrow> fmt_int i = dec_nat (nat i)"
  by (simp add: fmt_int_def)

lemma fmt_pad_ne [simp]: "fmt_pad w n \<noteq> []"
  by (simp add: fmt_pad_def)

lemma split_value: "0 < m \<Longrightarrow> 0 \<le> (i::int) \<Longrightarrow> nat (i div m) * nat m + nat (i mod m) = nat i"
  by (simp flip: nat_mult_distrib nat_add_distrib add: pos_imp_zdiv_nonneg_iff)

lemma length_fmt_pad_mod: "0 < k \<Longrightarrow> length (fmt_pad k (nat (i mod 10 ^ k))) = k"
proof -
  assume k: "0 < k"
  have "i mod 10 ^ k < 10 ^ k" by simp
  then have "nat (i mod 10 ^ k) < nat (10 ^ k)" by (subst nat_mono_iff) simp_all
  then have "nat (i mod 10 ^ k) < 10 ^ k" by (simp add: nat_power_eq)
  with k show ?thesis by (rule length_fmt_pad)
qed

text \<open>The rendering with a fixed number of fraction digits.\<close>

lemma parse_fixed_pad:
  assumes i: "0 \<le> i" "is_int64 i" and k: "0 < k" "k \<le> 1000"
  shows "parse_fixed kd (10 ^ k) (fmt_int (i div 10 ^ k) @ ''.'' @ fmt_pad k (nat (i mod 10 ^ k))) = Inr i"
proof -
  let ?w = "dec_nat (nat (i div 10 ^ k))" and ?d = "fmt_pad k (nat (i mod 10 ^ k))"
  have len: "length ?d = k" using k by (simp only: length_fmt_pad_mod)
  have "digits_val 0 (?w @ ?d) = nat (i div 10 ^ k) * 10 ^ k + nat (i mod 10 ^ k)"
    by (simp add: digits_val_append' len)
  also have "\<dots> = nat i" using split_value [of "10 ^ k" i] i by (simp add: nat_power_eq)
  finally have val: "digits_val 0 (?w @ ?d) = nat i" .
  have "parse_fixed kd (10 ^ k) (?w @ frac_part ?d) = Inr i"
    by (rule parse_fixed_exact) (use i k len val in \<open>auto simp: dec_nat_digits fmt_pad_digits\<close>)
  then show ?thesis using i by (simp add: frac_part_def fmt_int_nonneg pos_imp_zdiv_nonneg_iff)
qed

lemma formatCents_nonneg:
  "0 \<le> c \<Longrightarrow> formatCents c = Some (fmt_int (c div 100) @ ''.'' @ fmt_pad 2 (nat (c mod 100)))"
  by (subst formatCents.simps) simp

lemma formatRatePpm_nonneg:
  "0 \<le> c \<Longrightarrow> formatRatePpm c =
     Some (fmt_int (c div 1000000) @ ''.'' @ fmt_pad 6 (nat (c mod 1000000)))"
  by (subst formatRatePpm.simps) simp

lemma parse_fixed_trimmed:
  assumes i: "0 \<le> i" "is_int64 i" and k: "0 < k" "k \<le> 1000" and f: "i mod 10 ^ k \<noteq> 0"
  shows "parse_fixed kd (10 ^ k) (trim_right_char CHR ''.'' (trim_right_char CHR ''0''
           (fmt_int (i div 10 ^ k) @ ''.'' @ fmt_pad k (nat (i mod 10 ^ k))))) = Inr i"
proof -
  let ?w = "dec_nat (nat (i div 10 ^ k))" and ?d = "fmt_pad k (nat (i mod 10 ^ k))"
  let ?t = "trim_right_char CHR ''0'' ?d"
  obtain z where z: "?d = ?t @ replicate z CHR ''0''" and last: "?t = [] \<or> last ?t \<noteq> CHR ''0''"
    by (rule trim_right_char_split)
  have len: "length ?d = k" using k by (simp only: length_fmt_pad_mod)
  have v: "digits_val a (?t @ replicate z CHR ''0'') = digits_val a ?t * 10 ^ z" for a
  proof -
    have "digits_val 0 (replicate z CHR ''0'') = 0" using digits_val_replicate0 [of z "[]"] by simp
    then show ?thesis by (simp add: digits_val_append')
  qed
  have pos: "0 < nat (i mod 10 ^ k)" using f by (simp add: order_le_neq_trans)
  have t_ne: "?t \<noteq> []"
  proof
    assume e: "?t = []"
    have "digits_val 0 ?d = 0" using v [of 0] z unfolding e by simp
    then show False using pos by simp
  qed
  have digits: "list_all is_digit ?t"
    using fmt_pad_digits [of k "nat (i mod 10 ^ k)"] z by (metis list_all_append)
  have "last ?t \<noteq> CHR ''.''"
    using digits t_ne digit_not_special [of "last ?t"] by (simp add: list_all_iff)
  then have str: "trim_right_char CHR ''.'' (trim_right_char CHR ''0'' (fmt_int (i div 10 ^ k) @ ''.'' @ ?d))
      = ?w @ frac_part ?t"
    using t_ne i trim_right_char_append [of "CHR ''0''" ?d "fmt_int (i div 10 ^ k) @ ''.''"]
    by (simp add: trim_right_char_id frac_part_def fmt_int_nonneg pos_imp_zdiv_nonneg_iff)
  have zk: "k - length ?t = z" "length ?t \<le> k" using len z by (metis diff_add_inverse length_append length_replicate, metis le_add1 length_append len z)
  have "digits_val 0 (?w @ ?t) * 10 ^ z = digits_val 0 (?w @ ?d)"
    using v [of "digits_val 0 ?w"] z by (simp add: digits_val_append)
  also have "\<dots> = nat (i div 10 ^ k) * 10 ^ k + nat (i mod 10 ^ k)"
    by (simp add: digits_val_append' len)
  also have "\<dots> = nat i" using split_value [of "10 ^ k" i] i by (simp add: nat_power_eq)
  finally have val: "digits_val 0 (?w @ ?t) * 10 ^ (k - length ?t) = nat i" by (simp only: zk)
  have "parse_fixed kd (10 ^ k) (?w @ frac_part ?t) = Inr i"
    by (rule parse_fixed_exact [OF dec_nat_digits dec_nat_ne digits zk(2) k(2)])
       (use i val in \<open>auto\<close>)
  then show ?thesis by (simp only: str)
qed

lemma formatMicros_nonneg_parse:
  assumes "0 \<le> c" "is_int64 c"
  shows "\<exists>s. formatMicros c = Some s \<and> parseQuantityToMicros s = Inr c"
proof (cases "c mod 1000000 = 0")
  case True
  have "formatMicros c = Some (fmt_int (c div 1000000))"
    using assms True by (subst formatMicros.simps) (simp add: Let_def)
  moreover have "parseQuantityToMicros (fmt_int (c div 1000000)) = Inr c"
  proof -
    have "int (nat (c div 1000000) * 1000000) = c"
      using assms True split_value [of 1000000 c] by simp
    then have "parse_fixed Quantity (10 ^ 6) (dec_nat (nat (c div 1000000)) @ frac_part []) = Inr c"
      using assms by (intro parse_fixed_exact) (auto simp: dec_nat_digits)
    then show ?thesis using assms
      by (simp add: parseQuantityToMicros_def frac_part_def fmt_int_nonneg pos_imp_zdiv_nonneg_iff)
  qed
  ultimately show ?thesis by blast
next
  case False
  have "formatMicros c = Some (trim_right_char CHR ''.'' (trim_right_char CHR ''0''
           (fmt_int (c div 1000000) @ ''.'' @ fmt_pad 6 (nat (c mod 1000000)))))"
    using assms False by (subst formatMicros.simps) (simp add: Let_def)
  then show ?thesis
    using parse_fixed_trimmed [OF assms, of 6] False by (simp add: parseQuantityToMicros_def)
qed

interpretation cents: codec formatCents parseMajorToCents "\<lambda>c. 0 \<le> c \<and> is_int64 c"
  using parse_fixed_pad [of _ 2 Amount]
  by unfold_locales (auto simp: parseMajorToCents_def formatCents_nonneg)

interpretation micros: codec formatMicros parseQuantityToMicros "\<lambda>c. 0 \<le> c \<and> is_int64 c"
  by unfold_locales (rule formatMicros_nonneg_parse, auto)

interpretation ppm: codec formatRatePpm parseRateToPpm "\<lambda>c. 0 \<le> c \<and> is_int64 c"
  using parse_fixed_pad [of _ 6 Rate]
  by unfold_locales (auto simp: parseRateToPpm_def formatRatePpm_nonneg)

section \<open>Products\<close>

lemma scaled_product_half_up:
  assumes "0 \<le> a" "0 \<le> b" and "is_int64 ((a * b + 500000) div 1000000)"
  shows "half_up (of_int (a * b) / 1000000) (scaled_product a b)"
proof -
  have "0 \<le> a * b" using assms by simp
  have "of_int ((a * b + 500000) div 1000000) = (of_int \<lfloor>of_int (a * b + 500000) / (1000000::rat)\<rfloor> :: rat)"
    using floor_divide_of_int_eq [of "a * b + 500000" 1000000, where ?'a = rat] by simp
  then have "scaled_product a b = \<lfloor>of_int (a * b) / (1000000::rat) + 1 / 2\<rfloor>"
    using assms \<open>0 \<le> a * b\<close> by (simp add: scaled_product_def Let_def add_divide_distrib)
  then show ?thesis using half_up_floor by simp
qed

lemma scaled_product_saturates:
  "0 \<le> a \<Longrightarrow> 0 \<le> b \<Longrightarrow> \<not> is_int64 ((a * b + 500000) div 1000000) \<Longrightarrow> scaled_product a b = 2 ^ 62"
  by (simp add: scaled_product_def)

text \<open>A rate of at most one never gives more than the amount.\<close>

lemma scaled_product_le:
  assumes "0 \<le> a" "is_int64 a" "0 \<le> b" "b \<le> 1000000"
  shows "0 \<le> scaled_product a b \<and> scaled_product a b \<le> a"
proof -
  have "a * b \<le> a * 1000000" using assms by (intro mult_left_mono) auto
  then have "(a * b + 500000) div 1000000 \<le> a" by linarith
  moreover have "0 \<le> (a * b + 500000) div 1000000"
    using assms by (simp add: pos_imp_zdiv_nonneg_iff)
  ultimately show ?thesis
    using assms by (auto simp: scaled_product_def Let_def is_int64_def)
qed

lemma scaled_product_nonneg: "0 \<le> a \<Longrightarrow> 0 \<le> b \<Longrightarrow> 0 \<le> scaled_product a b"
  by (simp add: scaled_product_def Let_def pos_imp_zdiv_nonneg_iff)

lemma is_int64_scaled_product: "is_int64 (scaled_product a b)"
  by (simp add: scaled_product_def Let_def is_int64_def)

lemma scaled_product_exact: "0 \<le> a \<Longrightarrow> is_int64 a \<Longrightarrow> scaled_product a 1000000 = a"
  by (simp add: scaled_product_def)

section \<open>Properties\<close>

text \<open>The renderer diverges exactly where negation overflows.\<close>

lemma formatCents_min: "formatCents (- (2 ^ 63)) = None"
proof (rule ccontr)
  assume "formatCents (- (2 ^ 63)) \<noteq> None"
  then obtain s where s: "formatCents (- (2 ^ 63)) = Some s" by auto
  moreover have "formatCents (- (2 ^ 63)) =
      Option.bind (formatCents (- (2 ^ 63))) (\<lambda>s. Some (CHR ''-'' # s))"
    by (subst formatCents.simps) (simp add: wrap64_def)
  ultimately have "Some s = Some (CHR ''-'' # s)" by simp
  then show False by simp
qed

lemma formatCents_negative:
  "c < 0 \<Longrightarrow> - (2 ^ 63) < c \<Longrightarrow>
   formatCents c = Some (CHR ''-'' # fmt_int (- c div 100) @ ''.'' @ fmt_pad 2 (nat (- c mod 100)))"
  by (subst formatCents.simps) (simp add: wrap64_small formatCents_nonneg)

text \<open>Rendering an amount in cents and reading it back gives the amount, for every
  nonnegative \<open>int64\<close>; the same holds for quantities in millionths and for rates.\<close>

theorem amounts_roundtrip:
  assumes "0 \<le> c" and "is_int64 c"
  shows "(\<exists>s. formatCents c = Some s \<and> parseMajorToCents s = Inr c) \<and>
         (\<exists>s. formatMicros c = Some s \<and> parseQuantityToMicros s = Inr c) \<and>
         (\<exists>s. formatRatePpm c = Some s \<and> parseRateToPpm s = Inr c)"
  using assms cents.dec_enc [of c] micros.dec_enc [of c] ppm.dec_enc [of c] by blast

theorem amounts_roundtrip_witness:
  "(\<exists>s. formatCents 1234 = Some s \<and> parseMajorToCents s = Inr 1234) \<and>
   (\<exists>s. formatMicros 1234 = Some s \<and> parseQuantityToMicros s = Inr 1234) \<and>
   (\<exists>s. formatRatePpm 1234 = Some s \<and> parseRateToPpm s = Inr 1234)"
  by (rule amounts_roundtrip) (simp_all add: is_int64_def)

text \<open>\<open>formatCents\<close> returns on every \<open>int64\<close> but the most negative one, where its
  recursive call has the same argument again and it never returns.\<close>

theorem formatCents_returns:
  assumes "is_int64 c"
  shows "(\<exists>s. formatCents c = Some s) \<longleftrightarrow> c \<noteq> - (2 ^ 63)"
proof
  assume "\<exists>s. formatCents c = Some s"
  then show "c \<noteq> - (2 ^ 63)" using formatCents_min by force
next
  assume "c \<noteq> - (2 ^ 63)"
  with assms have "- (2 ^ 63) < c" by (simp add: is_int64_def)
  then show "\<exists>s. formatCents c = Some s"
    using formatCents_nonneg formatCents_negative by (cases "c < 0") auto
qed

theorem formatCents_returns_witness:
  "(\<exists>s. formatCents (- 1234) = Some s) \<and> \<not> (\<exists>s. formatCents (- 9223372036854775808) = Some s)"
  using formatCents_returns [of "- 1234"] formatCents_returns [of "- 9223372036854775808"]
  by (simp add: is_int64_def)

text \<open>A percentage discount is the HALF-UP rounding of the exact product of the amount and
  the rate the string denotes, is never negative, and never exceeds the amount when the rate
  is at most 100 percent.\<close>

theorem percentOff_half_up:
  assumes "percentOff cents pct = Inr d" and "0 \<le> cents" and "is_int64 cents"
  shows "\<exists>ppm. parseRateToPpm pct = Inr ppm \<and> 0 \<le> d \<and>
           (ppm \<le> 1000000 \<longrightarrow> d \<le> cents \<and> half_up (of_int (cents * ppm) / 1000000) d)"
proof -
  from assms(1) obtain ppm where ppm: "parseRateToPpm pct = Inr ppm" and d: "d = scaled_product cents ppm"
    by (auto simp: percentOff_def bind_res_Inr_iff multiplyCentsByPpm_def)
  have p0: "0 \<le> ppm" using ppm parse_fixed_nonneg by (simp add: parseRateToPpm_def)
  have "d \<le> cents \<and> half_up (of_int (cents * ppm) / 1000000) d" if "ppm \<le> 1000000"
  proof
    show le: "d \<le> cents" using scaled_product_le [OF assms(2,3) p0 that] d by simp
    have "cents * ppm \<le> cents * 1000000" using that assms by (intro mult_left_mono) auto
    moreover have "0 \<le> cents * ppm" using assms p0 by simp
    ultimately have "0 \<le> (cents * ppm + 500000) div 1000000" "(cents * ppm + 500000) div 1000000 \<le> cents"
      by (simp_all add: pos_imp_zdiv_nonneg_iff)
    then have "is_int64 ((cents * ppm + 500000) div 1000000)"
      using assms(3) by (simp add: is_int64_def)
    then show "half_up (of_int (cents * ppm) / 1000000) d"
      unfolding d by (rule scaled_product_half_up [OF assms(2) p0])
  qed
  with ppm p0 d scaled_product_nonneg [OF assms(2) p0] show ?thesis by blast
qed

lemma parseRate_quarter: "parseRateToPpm ''0.25'' = Inr 250000"
proof -
  have "parse_fixed Rate (10 ^ 6) (''0'' @ frac_part ''25'') = Inr 250000"
    by (rule parse_fixed_exact) (simp_all add: is_digit_def is_int64_def)
  then show ?thesis by (simp add: parseRateToPpm_def frac_part_def)
qed

theorem percentOff_half_up_witness:
  "percentOff 1002 ''0.25'' = Inr 251 \<and>
   (\<exists>ppm. parseRateToPpm ''0.25'' = Inr ppm \<and> 0 \<le> (251::int) \<and>
      (ppm \<le> 1000000 \<longrightarrow> 251 \<le> (1002::int) \<and> half_up (of_int (1002 * ppm) / 1000000) 251))"
proof -
  have run: "percentOff 1002 ''0.25'' = Inr 251"
    by (simp add: percentOff_def parseRate_quarter multiplyCentsByPpm_def scaled_product_def is_int64_def)
  then show ?thesis using percentOff_half_up [OF run] by (simp add: is_int64_def)
qed

end
