(* ===== verification/Float64.thy ===== *)
theory Float64
  imports Prelude "HOL-Library.Log_Nat"
begin

text \<open>
  IEEE 754 binary64 on finite values: a \<open>float64\<close> is the rational number it denotes, and an
  operation is the exact operation followed by \<open>rnd\<close>, round to nearest with ties to even.
  Overflow to infinity is not modelled: the program applies these operations to JSON numbers
  and sums of money far below \<open>2 ^ 1023\<close>.
\<close>

type_synonym float64 = rat

text \<open>The binary exponent of a positive rational.\<close>

definition rat_log2 :: "rat \<Rightarrow> int" where
  "rat_log2 x =
     (case quotient_of x of (n, d) \<Rightarrow>
        let k = bitlen n - bitlen d in
        if (if 0 \<le> k then d * 2 ^ nat k \<le> n else d \<le> n * 2 ^ nat (- k)) then k else k - 1)"

definition scale2 :: "rat \<Rightarrow> int \<Rightarrow> rat" where
  "scale2 x e = (if 0 \<le> e then x * 2 ^ nat e else x / 2 ^ nat (- e))"

definition round_even :: "rat \<Rightarrow> int" where
  "round_even y =
     (let f = \<lfloor>y\<rfloor>; r = y - of_int f in
      if r < 1 / 2 then f else if 1 / 2 < r then f + 1 else if even f then f else f + 1)"

definition rnd :: "rat \<Rightarrow> float64" where
  "rnd x =
     (if x = 0 then 0
      else let e = max (- 1074) (rat_log2 \<bar>x\<bar> - 52) in scale2 (of_int (round_even (scale2 x (- e)))) e)"

text \<open>\<open>int64(f)\<close> truncates; a value out of range gives the most negative integer, as the
  amd64 conversion instruction does.\<close>

definition float_to_int64 :: "float64 \<Rightarrow> go_int64" where
  "float_to_int64 f =
     (let t = (if 0 \<le> f then \<lfloor>f\<rfloor> else - \<lfloor>- f\<rfloor>) in
      if is_int64 t then t else - (2 ^ 63))"

definition int64_to_float :: "go_int64 \<Rightarrow> float64" where
  "int64_to_float i = rnd (of_int i)"

section \<open>Exact cases\<close>

lemma round_even_of_int [simp]: "round_even (of_int n) = n"
  by (simp add: round_even_def)

lemma rnd_zero [simp]: "rnd 0 = 0"
  by (simp add: rnd_def)

lemma bitlen_one: "bitlen 1 = 1"
  by (simp add: bitlen_alt_def)

lemma bitlen_bound: "n < 2 ^ k \<Longrightarrow> bitlen n \<le> int k"
  by (simp add: bitlen_le_iff_power)

text \<open>An integer of at most 53 bits is a \<open>float64\<close>.\<close>

lemma rnd_of_int:
  assumes "\<bar>n\<bar> < 2 ^ 53"
  shows "rnd (of_int n) = of_int n"
proof (cases "n = 0")
  case True
  then show ?thesis by simp
next
  case False
  have log: "rat_log2 (of_int \<bar>n\<bar>) \<le> 52"
  proof -
    have "rat_log2 (of_int \<bar>n\<bar>) \<le> bitlen \<bar>n\<bar> - 1"
      using False bitlen_bounds [of "\<bar>n\<bar>"] compute_bitlen [of "\<bar>n\<bar>"] bitlen_nonneg [of "\<bar>n\<bar> div 2"]
      by (simp only: rat_log2_def Let_def quotient_of_rat_of_int prod.case bitlen_one) simp
    moreover have "bitlen \<bar>n\<bar> \<le> 53" using bitlen_bound [of "\<bar>n\<bar>" 53] assms by simp
    ultimately show ?thesis by simp
  qed
  define e where "e = max (- 1074) (rat_log2 \<bar>of_int n\<bar> - 52)"
  have e: "e \<le> 0" using log by (simp add: e_def)
  have "scale2 (of_int n) (- e) = of_int (n * 2 ^ nat (- e))"
    using e by (simp add: scale2_def)
  then have "round_even (scale2 (of_int n) (- e)) = n * 2 ^ nat (- e)"
    by (simp only: round_even_of_int)
  then have "rnd (of_int n) = scale2 (of_int (n * 2 ^ nat (- e))) e"
    using False by (simp add: rnd_def e_def Let_def)
  also have "\<dots> = of_int n"
    using e by (cases "e = 0") (simp_all add: scale2_def)
  finally show ?thesis .
qed

lemma rnd_half [simp]: "rnd (1 / 2) = 1 / 2"
  by code_simp

lemma float_to_int64_of_int [simp]: "is_int64 n \<Longrightarrow> float_to_int64 (of_int n) = n"
  by (simp add: float_to_int64_def Let_def)

end
