(* ===== verification/Promotions.thy ===== *)
theory Promotions
  imports Money Float64 Json
begin

text \<open>
  Promotion eligibility and choice, internal/pricing/promotions.go: the filters and triggers
  of one promotion, the per-unit discount of its first rule, the readers of its jsonb
  qualifiers with their hand-written float renderer, and the choice among eligible promotions.
  \<open>uuid.Parse\<close> is the parameter \<open>uparse\<close>.
\<close>

section \<open>Rows\<close>

text \<open>The columns of types.Promotion and types.PromotionRule the package reads; a NULL array
  is \<open>None\<close> and reaches Go as an empty slice.\<close>

record promotion =
  pr_id :: uuid
  pr_tenant :: uuid
  pr_code :: string
  pr_name :: string
  pr_type :: string
  pr_scope :: string
  pr_start :: gotime
  pr_end :: "gotime option"
  pr_days :: "int list option"
  pr_locations :: "uuid list option"
  pr_channels :: "string list option"
  pr_segments :: "string list option"
  pr_stackable :: bool
  pr_status :: string

record promotion_rule =
  ru_tenant :: uuid
  ru_promotion :: uuid
  ru_order :: int
  ru_trigger :: string
  ru_trigger_qualifier :: raw_json
  ru_benefit :: string
  ru_benefit_qualifier :: raw_json

definition slice :: "'a list option \<Rightarrow> 'a list" where
  "slice a = (case a of None \<Rightarrow> [] | Some xs \<Rightarrow> xs)"

record promoEvalContext =
  ec_channel :: string
  ec_customer :: "uuid option"
  ec_segments :: "string list"

record evaluatedPromo =
  ep_promo :: promotion
  ep_discount :: go_int64
  ep_benefit :: string

section \<open>JSON helpers\<close>

fun itoa_digits :: "int \<Rightarrow> string \<Rightarrow> string" where
  "itoa_digits n buf =
     (if n \<le> 0 then buf else itoa_digits (n div 10) (digit_char (nat (n mod 10)) # buf))"

declare itoa_digits.simps [simp del]

text \<open>Negating the most negative \<open>int64\<close> leaves it negative, and the digit loop does not run.\<close>

definition itoa :: "go_int64 \<Rightarrow> string" where
  "itoa n =
     (if n = 0 then ''0''
      else if n < 0 then CHR ''-'' # itoa_digits (wrap64 (- n)) []
      else itoa_digits n [])"

definition leftPad6 :: "go_int64 \<Rightarrow> string" where
  "leftPad6 n = (let s = itoa n in replicate (6 - length s) CHR ''0'' @ s)"

definition sprintfFloat :: "float64 \<Rightarrow> string" where
  "sprintfFloat f =
     (let whole = float_to_int64 f;
          frac = \<bar>rnd (f - int64_to_float whole)\<bar>;
          scaled = float_to_int64 (rnd (rnd (frac * 1000000) + 1 / 2)) in
      if scaled = 0 then itoa whole else itoa whole @ ''.'' @ leftPad6 scaled)"

definition trimFloat6 :: "float64 \<Rightarrow> string" where
  "trimFloat6 f = trim_right_char CHR ''.'' (trim_right_char CHR ''0'' (sprintfFloat f))"

definition formatFloat :: "float64 \<Rightarrow> string" where
  "formatFloat f = trimFloat6 f"

definition jsonString :: "raw_json \<Rightarrow> string \<Rightarrow> string option" where
  "jsonString raw key =
     (case raw_field raw key of
        Some (JStr x) \<Rightarrow> Some x
      | Some (JNum x) \<Rightarrow>
          (let s = trim_right_char CHR ''.'' (trim_right_char CHR ''0'' (formatFloat x)) in
           Some (if s = [] then ''0'' else s))
      | _ \<Rightarrow> None)"

definition jsonNumberMicros :: "raw_json \<Rightarrow> string \<Rightarrow> go_int64 option" where
  "jsonNumberMicros raw key =
     (case jsonString raw key of None \<Rightarrow> None
      | Some s \<Rightarrow> (case parseQuantityToMicros s of Inl e \<Rightarrow> None | Inr v \<Rightarrow> Some v))"

fun parse_uuid_elems :: "(string \<Rightarrow> uuid option) \<Rightarrow> json list \<Rightarrow> uuid list" where
  "parse_uuid_elems uparse [] = []"
| "parse_uuid_elems uparse (e # es) =
     (case e of JStr s \<Rightarrow> (case uparse s of Some u \<Rightarrow> u # parse_uuid_elems uparse es
                          | None \<Rightarrow> parse_uuid_elems uparse es)
      | _ \<Rightarrow> parse_uuid_elems uparse es)"

text \<open>The list and whether the key is present; a member of the wrong type counts as present
  and empty.\<close>

definition jsonUUIDList :: "(string \<Rightarrow> uuid option) \<Rightarrow> raw_json \<Rightarrow> string \<Rightarrow> uuid list \<times> bool" where
  "jsonUUIDList uparse raw key =
     (case raw_field raw key of
        None \<Rightarrow> ([], False)
      | Some (JArr es) \<Rightarrow> (parse_uuid_elems uparse es, True)
      | Some _ \<Rightarrow> ([], True))"

definition contains :: "string list \<Rightarrow> string \<Rightarrow> bool" where
  "contains haystack needle = list_ex (\<lambda>s. s = needle) haystack"

definition anyOverlap :: "string list \<Rightarrow> string list \<Rightarrow> bool" where
  "anyOverlap a b = list_ex (\<lambda>x. list_ex (\<lambda>y. x = y) b) a"

text \<open>A rule without a usable list under the key restricts nothing.\<close>

definition rule_lists :: "(string \<Rightarrow> uuid option) \<Rightarrow> string \<Rightarrow> uuid \<Rightarrow> promotion_rule \<Rightarrow> bool" where
  "rule_lists uparse key u r =
     (case jsonUUIDList uparse (ru_trigger_qualifier r) key of (ids, present) \<Rightarrow>
        \<not> present \<or> ids = [] \<or> list_ex (\<lambda>i. i = u) ids)"

definition itemMatchesAnyRule :: "(string \<Rightarrow> uuid option) \<Rightarrow> promotion_rule list \<Rightarrow> uuid \<Rightarrow> bool" where
  "itemMatchesAnyRule uparse rules itemID = list_ex (rule_lists uparse ''item_ids'' itemID) rules"

definition categoryMatchesAnyRule :: "(string \<Rightarrow> uuid option) \<Rightarrow> promotion_rule list \<Rightarrow> uuid \<Rightarrow> bool" where
  "categoryMatchesAnyRule uparse rules catID = list_ex (rule_lists uparse ''category_ids'' catID) rules"

section \<open>Evaluation\<close>

text \<open>The trigger loop: whether it reaches the end.\<close>

fun triggers_pass :: "promotion_rule list \<Rightarrow> go_int64 \<Rightarrow> bool" where
  "triggers_pass [] qty = True"
| "triggers_pass (r # rs) qty =
     (if ru_trigger r = ''buy_quantity'' then
        (let minQ = (case jsonNumberMicros (ru_trigger_qualifier r) ''min_quantity'' of
                       Some q \<Rightarrow> q | None \<Rightarrow> 1000000) in
         if qty < minQ then False else triggers_pass rs qty)
      else triggers_pass rs qty)"

text \<open>The benefit of the first rule: \<open>None\<close> when it does not apply.\<close>

definition benefit_discount :: "promotion_rule \<Rightarrow> go_int64 \<Rightarrow> amount_error + go_int64 option" where
  "benefit_discount r base =
     (if ru_benefit r = ''percent_off'' then
        (case jsonString (ru_benefit_qualifier r) ''percent'' of
           None \<Rightarrow> Inr None
         | Some pct \<Rightarrow> bind_res (percentOff base pct) (\<lambda>d. Inr (Some d)))
      else if ru_benefit r = ''amount_off'' then
        (case jsonString (ru_benefit_qualifier r) ''amount'' of
           None \<Rightarrow> Inr None
         | Some amt \<Rightarrow> bind_res (parseMajorToCents amt) (\<lambda>d. Inr (Some (if base < d then base else d))))
      else if ru_benefit r = ''fixed_price'' then
        (case jsonString (ru_benefit_qualifier r) ''fixed_price'' of
           None \<Rightarrow> Inr None
         | Some fp \<Rightarrow> bind_res (parseMajorToCents fp)
             (\<lambda>f. let d = wrap64 (base - f) in Inr (Some (if d < 0 then 0 else d))))
      else Inr None)"

definition scope_matches ::
  "(string \<Rightarrow> uuid option) \<Rightarrow> promotion \<Rightarrow> promotion_rule list \<Rightarrow> uuid \<Rightarrow> uuid option \<Rightarrow> bool" where
  "scope_matches uparse promo rules itemID catID =
     (if pr_scope promo = ''item'' then itemMatchesAnyRule uparse rules itemID
      else if pr_scope promo = ''category'' then
        (case catID of None \<Rightarrow> False | Some c \<Rightarrow> categoryMatchesAnyRule uparse rules c)
      else False)"

text \<open>\<open>Inr None\<close> is Go's \<open>(false, 0, "", nil)\<close>.\<close>

definition evaluatePromotion ::
  "(string \<Rightarrow> uuid option) \<Rightarrow> promotion \<Rightarrow> promotion_rule list \<Rightarrow> uuid \<Rightarrow> uuid option \<Rightarrow> go_int64
     \<Rightarrow> go_int64 \<Rightarrow> promoEvalContext \<Rightarrow> amount_error + (go_int64 \<times> string) option" where
  "evaluatePromotion uparse promo rules itemID catID base qty ctx =
     (if slice (pr_channels promo) \<noteq> [] \<and> \<not> contains (slice (pr_channels promo)) (ec_channel ctx)
      then Inr None
      else if slice (pr_segments promo) \<noteq> [] \<and> \<not> anyOverlap (slice (pr_segments promo)) (ec_segments ctx)
      then Inr None
      else if \<not> scope_matches uparse promo rules itemID catID then Inr None
      else if \<not> triggers_pass rules qty then Inr None
      else case rules of
          [] \<Rightarrow> Inr None
        | r # rs \<Rightarrow> bind_res (benefit_discount r base)
            (\<lambda>d. Inr (map_option (\<lambda>c. (c, ru_benefit r)) d)))"

section \<open>Choice\<close>

fun pick_loop :: "evaluatedPromo list \<Rightarrow> evaluatedPromo list \<Rightarrow> evaluatedPromo option
    \<Rightarrow> evaluatedPromo list \<times> evaluatedPromo option" where
  "pick_loop [] stackables best = (stackables, best)"
| "pick_loop (c # cs) stackables best =
     (if pr_stackable (ep_promo c) then pick_loop cs (stackables @ [c]) best
      else if (case best of None \<Rightarrow> True | Some b \<Rightarrow> ep_discount b < ep_discount c)
      then pick_loop cs stackables (Some c)
      else pick_loop cs stackables best)"

definition pickBestPromotions :: "evaluatedPromo list \<Rightarrow> evaluatedPromo list" where
  "pickBestPromotions candidates =
     (case pick_loop candidates [] None of (stackables, best) \<Rightarrow>
        (case best of None \<Rightarrow> stackables | Some b \<Rightarrow> stackables @ [b]))"

section \<open>The float renderer on whole numbers\<close>

lemma itoa_digits_dec: "0 < n \<Longrightarrow> itoa_digits n buf = dec_nat (nat n) @ buf"
proof (induction n buf rule: itoa_digits.induct)
  case (1 n buf)
  show ?case
  proof (cases "n < 10")
    case True
    with 1 show ?thesis
      by (subst itoa_digits.simps, subst dec_nat.simps) (simp add: itoa_digits.simps [of 0])
  next
    case False
    then have "\<not> nat n < 10" "nat n div 10 = nat (n div 10)" "nat n mod 10 = nat (n mod 10)"
      using "1.prems" by (simp_all add: nat_div_distrib nat_mod_distrib)
    with 1 False show ?thesis
      by (subst itoa_digits.simps, subst dec_nat.simps) (simp add: pos_imp_zdiv_pos_iff)
  qed
qed

lemma dec_nat_zero: "dec_nat 0 = ''0''"
  by code_simp

lemma itoa_nonneg: "0 \<le> n \<Longrightarrow> itoa n = dec_nat (nat n)"
  by (cases "n = 0") (simp_all add: itoa_def itoa_digits_dec dec_nat_zero)

lemma itoa_min: "itoa (- (2 ^ 63)) = ''-''"
  by (simp add: itoa_def wrap64_def itoa_digits.simps)

lemma sprintfFloat_of_int:
  assumes "\<bar>n\<bar> < 2 ^ 53"
  shows "sprintfFloat (of_int n) = itoa n"
proof -
  have "is_int64 n" using assms by (simp add: is_int64_def abs_less_iff)
  moreover have "float_to_int64 (1 / 2) = 0" by code_simp
  ultimately show ?thesis
    using assms by (simp add: sprintfFloat_def Let_def int64_to_float_def rnd_of_int)
qed

text \<open>What the trailing-zero trims leave of a whole number.\<close>

fun strip_zeros :: "nat \<Rightarrow> nat" where
  "strip_zeros n = (if 0 < n \<and> n mod 10 = 0 then strip_zeros (n div 10) else n)"

declare strip_zeros.simps [simp del]

lemma trim_right_char_snoc: "trim_right_char c (s @ [c]) = trim_right_char c s"
  by (simp add: trim_right_char_def)

lemma dec_nat_snoc: "10 \<le> n \<Longrightarrow> dec_nat n = dec_nat (n div 10) @ [digit_char (n mod 10)]"
  by (subst dec_nat.simps) simp

lemma digit_char_0: "digit_char 0 = CHR ''0''"
  by code_simp

lemma last_dec_nat: "last (dec_nat n) = digit_char (n mod 10)"
  by (subst dec_nat.simps) simp

lemma digit_char_eq_0: "d < 10 \<Longrightarrow> digit_char d = CHR ''0'' \<longleftrightarrow> d = 0"
  by (metis add_cancel_right_right digit_char_0 of_char_digit_char zero_less_numeral)

lemma trim_zeros_dec_nat: "0 < n \<Longrightarrow> trim_right_char CHR ''0'' (dec_nat n) = dec_nat (strip_zeros n)"
proof (induction n rule: strip_zeros.induct)
  case (1 n)
  show ?case
  proof (cases "n mod 10 = 0")
    case True
    with "1.prems" have n: "10 \<le> n" by (cases "n < 10") auto
    have "trim_right_char CHR ''0'' (dec_nat n) = trim_right_char CHR ''0'' (dec_nat (n div 10))"
      using n True by (simp add: dec_nat_snoc digit_char_0 trim_right_char_snoc)
    with 1 True n show ?thesis by (subst strip_zeros.simps) simp
  next
    case False
    then have "last (dec_nat n) \<noteq> CHR ''0''" by (simp add: last_dec_nat digit_char_eq_0)
    with False show ?thesis by (subst strip_zeros.simps) (simp add: trim_right_char_id)
  qed
qed

lemma trim_point_dec_nat: "trim_right_char CHR ''.'' (dec_nat n) = dec_nat n"
proof (rule trim_right_char_id)
  show "last (dec_nat n) \<noteq> CHR ''.''"
    using dec_nat_digits [of n] digit_not_special [of "last (dec_nat n)"] by (simp add: list_all_iff)
qed simp

lemma strip_zeros_step: "0 < n \<Longrightarrow> n mod 10 = 0 \<Longrightarrow> strip_zeros n = strip_zeros (n div 10)"
  by (subst strip_zeros.simps) simp

lemma strip_zeros_stop: "\<not> (0 < n \<and> n mod 10 = 0) \<Longrightarrow> strip_zeros n = n"
  by (subst strip_zeros.simps) (simp only: if_False)

lemma strip_zeros_pos: "0 < n \<Longrightarrow> 0 < strip_zeros n"
proof (induction n rule: strip_zeros.induct)
  case (1 n)
  then show ?case
    by (cases "n mod 10 = 0") (auto simp: strip_zeros_step strip_zeros_stop dest: mod_0_imp_dvd)
qed

lemma strip_zeros_le: "strip_zeros n \<le> n"
proof (induction n rule: strip_zeros.induct)
  case (1 n)
  show ?case
  proof (cases "0 < n \<and> n mod 10 = 0")
    case True
    then show ?thesis using 1 div_le_dividend [of n 10] by (simp add: strip_zeros_step)
  qed (simp add: strip_zeros_stop)
qed

lemma strip_zeros_id_iff: "0 < n \<Longrightarrow> strip_zeros n = n \<longleftrightarrow> n mod 10 \<noteq> 0"
proof -
  assume n: "0 < n"
  have "strip_zeros n < n" if "n mod 10 = 0"
  proof -
    have "n div 10 < n" using n by simp
    with strip_zeros_le [of "n div 10"] show ?thesis using that n by (simp only: strip_zeros_step)
  qed
  with n show ?thesis by (cases "n mod 10 = 0") (auto simp: strip_zeros_stop)
qed

lemma strip_zeros_idem: "strip_zeros (strip_zeros n) = strip_zeros n"
proof (induction n rule: strip_zeros.induct)
  case (1 n)
  then show ?case
    by (cases "0 < n \<and> n mod 10 = 0") (simp_all add: strip_zeros_step strip_zeros_stop)
qed

lemma jsonString_whole:
  assumes "raw_field raw key = Some (JNum (of_nat n))" "0 < n" "n < 2 ^ 53"
  shows "jsonString raw key = Some (dec_nat (strip_zeros n))"
proof -
  have "sprintfFloat (of_nat n) = dec_nat n"
    using sprintfFloat_of_int [of "int n"] assms(3) by (simp add: itoa_nonneg)
  then show ?thesis
    using assms strip_zeros_pos [of n]
    by (simp add: jsonString_def formatFloat_def trimFloat6_def trim_zeros_dec_nat trim_point_dec_nat
        strip_zeros_idem)
qed

lemma parse_fixed_dec_nat:
  "is_int64 (int n * 10 ^ k) \<Longrightarrow> k \<le> 1000 \<Longrightarrow> parse_fixed kd (10 ^ k) (dec_nat n) = Inr (int n * 10 ^ k)"
  using parse_fixed_exact [of "dec_nat n" "[]" k "int n * 10 ^ k" kd]
  by (simp add: dec_nat_digits frac_part_def)

lemma jsonNumberMicros_whole:
  assumes "raw_field raw key = Some (JNum (of_nat n))" "0 < n" "int n * 1000000 < 2 ^ 63"
  shows "jsonNumberMicros raw key = Some (int (strip_zeros n) * 1000000)"
proof -
  have "is_int64 (int (strip_zeros n) * 10 ^ 6)"
    using assms(3) strip_zeros_le [of n] by (simp add: is_int64_def)
  then have "parseQuantityToMicros (dec_nat (strip_zeros n)) = Inr (int (strip_zeros n) * 1000000)"
    using parse_fixed_dec_nat [of "strip_zeros n" 6 Quantity] by (simp add: parseQuantityToMicros_def)
  moreover have "n < 2 ^ 53" using assms(3) by simp
  ultimately show ?thesis using jsonString_whole [OF assms(1,2)] by (simp add: jsonNumberMicros_def)
qed

section \<open>The choice\<close>

lemma pick_loop_filter:
  "fst (pick_loop cs st best) = st @ filter (\<lambda>c. pr_stackable (ep_promo c)) cs"
  by (induction cs st best rule: pick_loop.induct) auto

text \<open>The kept candidate: the first one with the largest discount.\<close>

lemma pick_loop_best:
  assumes "snd (pick_loop cs st best) = r"
  shows "(r = None \<longleftrightarrow> best = None \<and> (\<forall>c \<in> set cs. pr_stackable (ep_promo c))) \<and>
    (\<forall>b. r = Some b \<longrightarrow> (best = Some b \<or> b \<in> set cs \<and> \<not> pr_stackable (ep_promo b)) \<and>
       (\<forall>b'. best = Some b' \<longrightarrow> ep_discount b' \<le> ep_discount b) \<and>
       (\<forall>c \<in> set cs. \<not> pr_stackable (ep_promo c) \<longrightarrow> ep_discount c \<le> ep_discount b))"
  using assms
proof (induction cs st best rule: pick_loop.induct)
  case (1 st best)
  then show ?case by auto
next
  case (2 c cs st best)
  show ?case
  proof (cases "pr_stackable (ep_promo c)")
    case True
    with 2 show ?thesis by auto
  next
    case False
    show ?thesis
    proof (cases "case best of None \<Rightarrow> True | Some b \<Rightarrow> ep_discount b < ep_discount c")
      case True
      have r: "snd (pick_loop cs st (Some c)) = r" using "2.prems" False True by simp
      from "2.IH"(2) [OF False True r] show ?thesis
        using False True by (auto split: option.splits)
    next
      case nb: False
      then obtain b' where b': "best = Some b'" "\<not> ep_discount b' < ep_discount c"
        by (auto split: option.splits)
      have r: "snd (pick_loop cs st best) = r" using "2.prems" False nb by simp
      from "2.IH"(3) [OF False nb r] show ?thesis
        using False b' by fastforce
    qed
  qed
qed

lemma pickBest_set: "set (pickBestPromotions cs) \<subseteq> set cs"
proof -
  obtain st best where run: "pick_loop cs [] None = (st, best)" by fastforce
  then have "st = filter (\<lambda>c. pr_stackable (ep_promo c)) cs" "snd (pick_loop cs [] None) = best"
    using pick_loop_filter [of cs "[]" None] by simp_all
  with pick_loop_best [of cs "[]" None best] show ?thesis
    by (cases best) (auto simp: pickBestPromotions_def run)
qed

section \<open>Discounts\<close>

lemma evaluatePromotion_range:
  assumes "evaluatePromotion uparse promo rules itemID catID base qty ctx = Inr (Some (d, b))"
    and "0 \<le> base" and "is_int64 base"
  shows "0 \<le> d \<and> rules \<noteq> [] \<and> b = ru_benefit (hd rules) \<and> b \<in> {''percent_off'', ''amount_off'', ''fixed_price''} \<and>
     (b \<noteq> ''percent_off'' \<longrightarrow> d \<le> base)"
proof -
  from assms(1) obtain r rs where rules: "rules = r # rs"
    and d: "benefit_discount r base = Inr (Some d)" and b: "b = ru_benefit r"
    by (auto simp: evaluatePromotion_def bind_res_Inr_iff split: if_splits list.splits)
  have nn: "0 \<le> v" if "parseMajorToCents a = Inr v" for a v
    using that parse_fixed_nonneg by (simp add: parseMajorToCents_def)
  have i64: "is_int64 v" if "parseMajorToCents a = Inr v" for a v
    using that by (auto simp: parseMajorToCents_def parse_fixed_def Let_def split: if_splits option.splits)
  consider (p) pct where "ru_benefit r = ''percent_off''" "percentOff base pct = Inr d"
    | (a) amt v where "ru_benefit r = ''amount_off''" "parseMajorToCents amt = Inr v" "d = (if base < v then base else v)"
    | (f) fp v where "ru_benefit r = ''fixed_price''" "parseMajorToCents fp = Inr v"
        "d = (if wrap64 (base - v) < 0 then 0 else wrap64 (base - v))"
    using d by (auto simp: benefit_discount_def bind_res_Inr_iff Let_def split: if_splits option.splits)
  then have "0 \<le> d \<and> b \<in> {''percent_off'', ''amount_off'', ''fixed_price''} \<and> (b \<noteq> ''percent_off'' \<longrightarrow> d \<le> base)"
  proof cases
    case p
    then have "0 \<le> d"
      using assms parse_fixed_nonneg scaled_product_nonneg
      by (auto simp: percentOff_def bind_res_Inr_iff multiplyCentsByPpm_def parseRateToPpm_def)
    with p b show ?thesis by simp
  next
    case a
    with nn b assms show ?thesis by auto
  next
    case f
    have "is_int64 (base - v)" using nn [OF f(2)] i64 [OF f(2)] assms by (simp add: is_int64_def)
    with f nn [OF f(2)] b assms show ?thesis by auto
  qed
  with rules b show ?thesis by simp
qed

lemma evaluatePromotion_nonneg:
  "evaluatePromotion uparse promo rules itemID catID base qty ctx = Inr (Some (d, b)) \<Longrightarrow>
     0 \<le> base \<Longrightarrow> is_int64 base \<Longrightarrow> 0 \<le> d"
  using evaluatePromotion_range by blast

section \<open>Properties\<close>

text \<open>C25: The choice keeps every stackable candidate, in order, and after them at most one
  other candidate, one with the largest discount; it is absent only when every candidate is
  stackable.\<close>

theorem pickBest_correct:
  "\<exists>tail. pickBestPromotions cs = filter (\<lambda>c. pr_stackable (ep_promo c)) cs @ tail \<and>
     (if list_all (\<lambda>c. pr_stackable (ep_promo c)) cs then tail = []
      else \<exists>b. tail = [b] \<and> b \<in> set cs \<and> \<not> pr_stackable (ep_promo b) \<and>
             ep_discount b = Max (ep_discount ` {c \<in> set cs. \<not> pr_stackable (ep_promo c)}))"
proof -
  obtain st best where run: "pick_loop cs [] None = (st, best)" by fastforce
  have st: "st = filter (\<lambda>c. pr_stackable (ep_promo c)) cs"
    using pick_loop_filter [of cs "[]" None] run by simp
  have best: "snd (pick_loop cs [] None) = best" using run by simp
  note b = pick_loop_best [OF best]
  show ?thesis
  proof (cases best)
    case None
    with b have "list_all (\<lambda>c. pr_stackable (ep_promo c)) cs" by (simp add: list_all_iff)
    with None run st show ?thesis by (simp add: pickBestPromotions_def)
  next
    case (Some x)
    have n: "\<not> list_all (\<lambda>c. pr_stackable (ep_promo c)) cs"
      using b Some unfolding list_all_iff by blast
    have x: "x \<in> set cs" "\<not> pr_stackable (ep_promo x)"
      "\<forall>c \<in> set cs. \<not> pr_stackable (ep_promo c) \<longrightarrow> ep_discount c \<le> ep_discount x"
      using b Some by blast+
    have "Max (ep_discount ` {c \<in> set cs. \<not> pr_stackable (ep_promo c)}) = ep_discount x"
      by (rule Max_eqI) (use x in auto)
    with n x Some run st show ?thesis
      by (intro exI [of _ "[x]"]) (simp add: pickBestPromotions_def)
  qed
qed

text \<open>A minimum quantity given as a JSON number is read without its trailing zeros: the
  value is right exactly when the number does not end in 0, and too small otherwise.\<close>

theorem min_quantity_whole_number:
  assumes "0 < n" and "int n * 1000000 < 2 ^ 63"
  shows "\<exists>q. jsonNumberMicros (Some (JObj [(''min_quantity'', JNum (of_nat n))])) ''min_quantity'' = Some q \<and>
     q \<le> int n * 1000000 \<and> (q = int n * 1000000 \<longleftrightarrow> n mod 10 \<noteq> 0)"
  using assms jsonNumberMicros_whole [of "Some (JObj [(''min_quantity'', JNum (of_nat n))])" "''min_quantity''" n]
    strip_zeros_le [of n] strip_zeros_id_iff [of n]
  by simp

theorem min_quantity_whole_number_witness:
  "\<exists>q. jsonNumberMicros (Some (JObj [(''min_quantity'', JNum (of_nat 20))])) ''min_quantity'' = Some q \<and>
     q \<le> 20000000 \<and> q \<noteq> 20000000"
  using min_quantity_whole_number [of 20] by simp

text \<open>A discount that applies is never negative, and an amount or a fixed price never
  takes a line below zero: only a percentage above 100 percent exceeds the base price.\<close>

theorem evaluatePromotion_bounds:
  assumes "evaluatePromotion uparse promo rules itemID catID base qty ctx = Inr (Some (d, b))"
    and "0 \<le> base" and "is_int64 base"
  shows "0 \<le> d \<and> rules \<noteq> [] \<and> b = ru_benefit (hd rules) \<and> b \<in> {''percent_off'', ''amount_off'', ''fixed_price''} \<and>
     (b \<noteq> ''percent_off'' \<longrightarrow> d \<le> base)"
  using assms by (rule evaluatePromotion_range)

definition amount_off_promo :: promotion where
  "amount_off_promo =
     \<lparr>pr_id = 1, pr_tenant = 1, pr_code = ''A'', pr_name = ''A'', pr_type = ''amount_off'',
      pr_scope = ''item'', pr_start = 0, pr_end = None, pr_days = None, pr_locations = None,
      pr_channels = None, pr_segments = None, pr_stackable = False, pr_status = ''active''\<rparr>"

definition amount_off_rule :: promotion_rule where
  "amount_off_rule =
     \<lparr>ru_tenant = 1, ru_promotion = 1, ru_order = 1, ru_trigger = [], ru_trigger_qualifier = None,
      ru_benefit = ''amount_off'', ru_benefit_qualifier = Some (JObj [(''amount'', JNum (of_nat 5))])\<rparr>"

definition brick_ctx :: promoEvalContext where
  "brick_ctx = \<lparr>ec_channel = ''brick'', ec_customer = None, ec_segments = []\<rparr>"

lemma amount_off_run:
  "evaluatePromotion (\<lambda>s. None) amount_off_promo [amount_off_rule] 7 None 300 1000000 brick_ctx
   = Inr (Some (300, ''amount_off''))"
proof -
  have s: "jsonString (Some (JObj [(''amount'', JNum (of_nat 5))])) ''amount'' = Some (dec_nat 5)"
    using jsonString_whole [of "Some (JObj [(''amount'', JNum (of_nat 5))])" "''amount''" 5]
    by (simp add: strip_zeros_stop)
  have p: "parseMajorToCents (dec_nat 5) = Inr 500"
    using parse_fixed_dec_nat [of 5 2 Amount] by (simp add: parseMajorToCents_def is_int64_def)
  show ?thesis
    by (simp add: amount_off_promo_def amount_off_rule_def brick_ctx_def evaluatePromotion_def slice_def scope_matches_def itemMatchesAnyRule_def
        rule_lists_def jsonUUIDList_def benefit_discount_def s p del: of_nat_numeral)
qed

theorem evaluatePromotion_bounds_witness:
  "\<exists>d b. evaluatePromotion (\<lambda>s. None) amount_off_promo [amount_off_rule] 7 None 300 1000000 brick_ctx = Inr (Some (d, b))
     \<and> 0 \<le> d \<and> d \<le> 300"
  using evaluatePromotion_bounds [OF amount_off_run] by (simp add: amount_off_run is_int64_def)

end
