(* ===== verification/Resolver.thy ===== *)
theory Resolver
  imports Promotions
begin

text \<open>
  The price-resolve service, internal/pricing/store.go, tax.go and resolver.go: the queries of
  the pgx store over the pricing tables, the tax of a line, and the resolution of a cart.  A
  query fails when the parameter \<open>fail\<close> says so for its call site.  A result is an option of
  a sum: \<open>None\<close> is a call that does not return, because a renderer recursed for ever.
\<close>

section \<open>Tables\<close>

record catalog_item =
  it_id :: uuid
  it_tenant :: uuid
  it_category :: "uuid option"
  it_default_price :: "string option"
  it_tax_class :: "string option"

record item_price =
  ip_tenant :: uuid
  ip_item :: uuid
  ip_location :: "uuid option"
  ip_channel :: "string option"
  ip_type :: string
  ip_amount :: string
  ip_start :: gotime
  ip_end :: "gotime option"
  ip_status :: string

record tax_class =
  tc_id :: uuid
  tc_tenant :: uuid
  tc_code :: string
  tc_status :: string

text \<open>The effective columns of a tax rate are dates: days since the epoch.\<close>

record tax_rate =
  tr_tenant :: uuid
  tr_class :: uuid
  tr_location :: "uuid option"
  tr_jurisdiction :: "string option"
  tr_type :: string
  tr_rate :: string
  tr_start :: int
  tr_end :: "int option"

record pricing_db =
  db_items :: "catalog_item list"
  db_prices :: "item_price list"
  db_promotions :: "promotion list"
  db_rules :: "promotion_rule list"
  db_tax_classes :: "tax_class list"
  db_tax_rates :: "tax_rate list"

datatype pricing_call =
    CallPromotions
  | CallRules uuid
  | CallItem
  | CallPrice
  | CallPriceDefault
  | CallTaxClass
  | CallTaxRate
  | CallTaxRateDefault

datatype store_error = NotFound | StoreFailed pricing_call

section \<open>The store\<close>

definition day_of :: "gotime \<Rightarrow> int" where
  "day_of t = t div (86400 * 10 ^ 9)"

text \<open>ISO weekday, Monday 1 to Sunday 7; the epoch was a Thursday.\<close>

definition iso_weekday :: "gotime \<Rightarrow> int" where
  "iso_weekday t = (let dow = (day_of t + 4) mod 7 in if dow = 0 then 7 else dow)"

definition effective :: "'t::linorder \<Rightarrow> 't option \<Rightarrow> 't \<Rightarrow> bool" where
  "effective s e t \<longleftrightarrow> s \<le> t \<and> (case e of None \<Rightarrow> True | Some u \<Rightarrow> t < u)"

text \<open>\<open>ORDER BY (price_type = 'regular') DESC, (location_id IS NOT NULL) DESC,
  effective_start DESC LIMIT 1\<close>; rows that tie stay in table order.\<close>

definition fetchPrice ::
  "(pricing_call \<Rightarrow> bool) \<Rightarrow> pricing_call \<Rightarrow> pricing_db \<Rightarrow> uuid \<Rightarrow> uuid \<Rightarrow> uuid option \<Rightarrow> string \<Rightarrow> gotime
     \<Rightarrow> store_error + item_price" where
  "fetchPrice fail site db tenant item loc channel asOf =
     (if fail site then Inl (StoreFailed site)
      else
        let rows = filter (\<lambda>p. ip_tenant p = tenant \<and> ip_item p = item \<and> ip_status p = ''active'' \<and>
              (ip_channel p = Some channel \<or> ip_channel p = Some ''all'') \<and>
              effective (ip_start p) (ip_end p) asOf \<and> ip_location p = loc) (db_prices db) in
        (case first_row (sort_desc (\<lambda>p. if ip_type p = ''regular'' then 1 else 0)
                (sort_desc (\<lambda>p. if ip_location p \<noteq> None then 1 else 0) (sort_desc ip_start rows))) of
           None \<Rightarrow> Inl NotFound | Some p \<Rightarrow> Inr p))"

definition GetItemPrice ::
  "(pricing_call \<Rightarrow> bool) \<Rightarrow> pricing_db \<Rightarrow> uuid \<Rightarrow> uuid \<Rightarrow> uuid option \<Rightarrow> string \<Rightarrow> gotime
     \<Rightarrow> store_error + item_price" where
  "GetItemPrice fail db tenant item loc channel0 asOf =
     (let channel = (if channel0 = [] then ''all'' else channel0) in
      case fetchPrice fail CallPrice db tenant item loc channel asOf of
        Inr p \<Rightarrow> Inr p
      | Inl NotFound \<Rightarrow> fetchPrice fail CallPriceDefault db tenant item None channel asOf
      | Inl e \<Rightarrow> Inl e)"

definition GetItem ::
  "(pricing_call \<Rightarrow> bool) \<Rightarrow> pricing_db \<Rightarrow> uuid \<Rightarrow> uuid \<Rightarrow> store_error + catalog_item" where
  "GetItem fail db tenant item =
     (if fail CallItem then Inl (StoreFailed CallItem)
      else case first_row (filter (\<lambda>i. it_tenant i = tenant \<and> it_id i = item) (db_items db)) of
          None \<Rightarrow> Inl NotFound | Some i \<Rightarrow> Inr i)"

definition ListActivePromotions ::
  "(pricing_call \<Rightarrow> bool) \<Rightarrow> pricing_db \<Rightarrow> uuid \<Rightarrow> uuid \<Rightarrow> gotime \<Rightarrow> store_error + promotion list" where
  "ListActivePromotions fail db tenant loc asOf =
     (if fail CallPromotions then Inl (StoreFailed CallPromotions)
      else Inr (sort_desc pr_start (filter (\<lambda>p. pr_tenant p = tenant \<and> pr_status p = ''active'' \<and>
             effective (pr_start p) (pr_end p) asOf \<and>
             (case pr_locations p of None \<Rightarrow> True | Some ls \<Rightarrow> loc \<in> set ls) \<and>
             (case pr_days p of None \<Rightarrow> True | Some ds \<Rightarrow> iso_weekday asOf \<in> set ds)) (db_promotions db))))"

definition ListPromotionRules ::
  "(pricing_call \<Rightarrow> bool) \<Rightarrow> pricing_db \<Rightarrow> uuid \<Rightarrow> uuid \<Rightarrow> store_error + promotion_rule list" where
  "ListPromotionRules fail db tenant promo =
     (if fail (CallRules promo) then Inl (StoreFailed (CallRules promo))
      else Inr (sort_key ru_order
             (filter (\<lambda>r. ru_tenant r = tenant \<and> ru_promotion r = promo) (db_rules db))))"

definition GetTaxClassByCode ::
  "(pricing_call \<Rightarrow> bool) \<Rightarrow> pricing_db \<Rightarrow> uuid \<Rightarrow> string \<Rightarrow> store_error + tax_class" where
  "GetTaxClassByCode fail db tenant code =
     (if fail CallTaxClass then Inl (StoreFailed CallTaxClass)
      else case first_row (filter (\<lambda>c. tc_tenant c = tenant \<and> tc_code c = code \<and> tc_status c = ''active'')
             (db_tax_classes db)) of
          None \<Rightarrow> Inl NotFound | Some c \<Rightarrow> Inr c)"

definition fetchTaxRate ::
  "(pricing_call \<Rightarrow> bool) \<Rightarrow> pricing_call \<Rightarrow> pricing_db \<Rightarrow> uuid \<Rightarrow> uuid \<Rightarrow> uuid option \<Rightarrow> gotime
     \<Rightarrow> store_error + tax_rate" where
  "fetchTaxRate fail site db tenant cls loc asOf =
     (if fail site then Inl (StoreFailed site)
      else case first_row (sort_desc (\<lambda>r. if tr_location r \<noteq> None then 1 else 0)
             (sort_desc tr_start (filter (\<lambda>r. tr_tenant r = tenant \<and> tr_class r = cls \<and>
                effective (tr_start r) (tr_end r) (day_of asOf) \<and> tr_location r = loc) (db_tax_rates db)))) of
          None \<Rightarrow> Inl NotFound | Some r \<Rightarrow> Inr r)"

definition GetTaxRate ::
  "(pricing_call \<Rightarrow> bool) \<Rightarrow> pricing_db \<Rightarrow> uuid \<Rightarrow> uuid \<Rightarrow> uuid option \<Rightarrow> gotime \<Rightarrow> store_error + tax_rate" where
  "GetTaxRate fail db tenant cls loc asOf =
     (case fetchTaxRate fail CallTaxRate db tenant cls loc asOf of
        Inr r \<Rightarrow> Inr r
      | Inl NotFound \<Rightarrow> fetchTaxRate fail CallTaxRateDefault db tenant cls None asOf
      | Inl e \<Rightarrow> Inl e)"

section \<open>Tax\<close>

datatype tax_error = TaxStore store_error | TaxAmount amount_error

record resolvedTax =
  rt_class :: uuid
  rt_code :: string
  rt_jurisdiction :: "string option"
  rt_ppm :: go_int64
  rt_cents :: go_int64

definition computeTax ::
  "(pricing_call \<Rightarrow> bool) \<Rightarrow> pricing_db \<Rightarrow> uuid \<Rightarrow> uuid option \<Rightarrow> catalog_item \<Rightarrow> go_int64 \<Rightarrow> gotime
     \<Rightarrow> tax_error + resolvedTax list" where
  "computeTax fail db tenant loc item subtotal asOf =
     (case it_tax_class item of
        None \<Rightarrow> Inr []
      | Some code \<Rightarrow>
          if code = [] then Inr []
          else (case GetTaxClassByCode fail db tenant code of
              Inl NotFound \<Rightarrow> Inr []
            | Inl e \<Rightarrow> Inl (TaxStore e)
            | Inr cls \<Rightarrow>
                (case GetTaxRate fail db tenant (tc_id cls) loc asOf of
                   Inl NotFound \<Rightarrow> Inr []
                 | Inl e \<Rightarrow> Inl (TaxStore e)
                 | Inr rate \<Rightarrow>
                     if tr_type rate \<noteq> ''percentage'' then Inr []
                     else bind_res (map_err TaxAmount (parseRateToPpm (tr_rate rate)))
                       (\<lambda>ppm. Inr [\<lparr>rt_class = tc_id cls, rt_code = tc_code cls,
                          rt_jurisdiction = tr_jurisdiction rate, rt_ppm = ppm,
                          rt_cents = multiplyCentsByPpm subtotal ppm\<rparr>]))))"

section \<open>Requests and responses\<close>

record request_line =
  rl_item :: uuid
  rl_quantity :: string

record resolve_request =
  rq_tenant :: uuid
  rq_location :: uuid
  rq_customer :: "uuid option"
  rq_as_of :: "gotime option"
  rq_channel :: string
  rq_lines :: "request_line list"
  rq_segments :: "string list"

record applied_promotion =
  ap_id :: uuid
  ap_code :: string
  ap_name :: string
  ap_benefit :: string
  ap_amount :: string
  ap_stackable :: bool

record tax_line =
  tl_class :: uuid
  tl_code :: string
  tl_jurisdiction :: "string option"
  tl_rate :: string
  tl_amount :: string

record response_line =
  ol_item :: uuid
  ol_quantity :: string
  ol_base :: string
  ol_applied :: "applied_promotion list"
  ol_unit :: string
  ol_subtotal :: string
  ol_taxes :: "tax_line list"
  ol_total :: string

record resolve_response =
  rs_lines :: "response_line list"
  rs_cart_total :: string
  rs_currency :: string
  rs_resolved_at :: gotime

datatype resolve_error =
    NilRequest
  | NoLines
  | NoTenant
  | NoLocation
  | ListPromosFailed store_error
  | ListRulesFailed uuid store_error
  | NoItemID
  | BadQuantity amount_error
  | ZeroQuantity
  | GetItemFailed store_error
  | NoPrice
  | BadDefaultPrice amount_error
  | GetPriceFailed store_error
  | BadBasePrice amount_error
  | PromoFailed string amount_error
  | TaxFailed tax_error
  | BadLineTotal amount_error

section \<open>One line\<close>

fun eval_loop ::
  "(string \<Rightarrow> uuid option) \<Rightarrow> promotion list \<Rightarrow> (uuid \<Rightarrow> promotion_rule list) \<Rightarrow> uuid \<Rightarrow> catalog_item \<Rightarrow> go_int64
     \<Rightarrow> go_int64 \<Rightarrow> promoEvalContext \<Rightarrow> resolve_error + evaluatedPromo list" where
  "eval_loop uparse [] promoRules item it base qty ctx = Inr []"
| "eval_loop uparse (p # ps) promoRules item it base qty ctx =
     (case evaluatePromotion uparse p (promoRules (pr_id p)) item (it_category it) base qty ctx of
        Inl e \<Rightarrow> Inl (PromoFailed (pr_code p) e)
      | Inr None \<Rightarrow> eval_loop uparse ps promoRules item it base qty ctx
      | Inr (Some (d, b)) \<Rightarrow>
          bind_res (eval_loop uparse ps promoRules item it base qty ctx)
            (\<lambda>cs. Inr (\<lparr>ep_promo = p, ep_discount = d, ep_benefit = b\<rparr> # cs)))"

text \<open>The applied promotions with their rendered discounts, and the running \<open>int64\<close> total.\<close>

fun apply_loop :: "evaluatedPromo list \<Rightarrow> go_int64 \<Rightarrow> (applied_promotion list \<times> go_int64) option" where
  "apply_loop [] tot = Some ([], tot)"
| "apply_loop (c # cs) tot =
     Option.bind (formatCents (ep_discount c)) (\<lambda>s.
     Option.bind (apply_loop cs (wrap64 (tot + ep_discount c))) (\<lambda>(as, t).
       Some (\<lparr>ap_id = pr_id (ep_promo c), ap_code = pr_code (ep_promo c), ap_name = pr_name (ep_promo c),
              ap_benefit = ep_benefit c, ap_amount = s, ap_stackable = pr_stackable (ep_promo c)\<rparr> # as, t)))"

fun tax_loop :: "resolvedTax list \<Rightarrow> go_int64 \<Rightarrow> (tax_line list \<times> go_int64) option" where
  "tax_loop [] tot = Some ([], tot)"
| "tax_loop (t # ts) tot =
     Option.bind (formatRatePpm (rt_ppm t)) (\<lambda>rate.
     Option.bind (formatCents (rt_cents t)) (\<lambda>amt.
     Option.bind (tax_loop ts (wrap64 (tot + rt_cents t))) (\<lambda>(ls, s).
       Some (\<lparr>tl_class = rt_class t, tl_code = rt_code t, tl_jurisdiction = rt_jurisdiction t,
              tl_rate = rate, tl_amount = amt\<rparr> # ls, s))))"

definition assembleLine ::
  "(pricing_call \<Rightarrow> bool) \<Rightarrow> (string \<Rightarrow> uuid option) \<Rightarrow> pricing_db \<Rightarrow> resolve_request \<Rightarrow> catalog_item \<Rightarrow> request_line
     \<Rightarrow> go_int64 \<Rightarrow> go_int64 \<Rightarrow> gotime \<Rightarrow> promotion list \<Rightarrow> (uuid \<Rightarrow> promotion_rule list) \<Rightarrow> promoEvalContext
     \<Rightarrow> (resolve_error + response_line) option" where
  "assembleLine fail uparse db req it line qty base asOf promos promoRules ctx =
     (case eval_loop uparse promos promoRules (rl_item line) it base qty ctx of
        Inl e \<Rightarrow> Some (Inl e)
      | Inr candidates \<Rightarrow>
          Option.bind (apply_loop (pickBestPromotions candidates) 0) (\<lambda>(applied, total0).
            let totalDiscount = (if base < total0 then base else total0);
                unitAfter = wrap64 (base - totalDiscount);
                subtotal = multiplyCentsByMicros unitAfter qty in
            (case computeTax fail db (rq_tenant req) (Some (rq_location req)) it subtotal asOf of
               Inl e \<Rightarrow> Some (Inl (TaxFailed e))
             | Inr taxes \<Rightarrow>
                 Option.bind (tax_loop taxes 0) (\<lambda>(taxLines, totalTax).
                 Option.bind (formatMicros qty) (\<lambda>q.
                 Option.bind (formatCents base) (\<lambda>b.
                 Option.bind (formatCents unitAfter) (\<lambda>u.
                 Option.bind (formatCents subtotal) (\<lambda>s.
                 Option.bind (formatCents (wrap64 (subtotal + totalTax))) (\<lambda>t.
                   Some (Inr \<lparr>ol_item = rl_item line, ol_quantity = q, ol_base = b, ol_applied = applied,
                              ol_unit = u, ol_subtotal = s, ol_taxes = taxLines, ol_total = t\<rparr>))))))))))"

definition resolveLine ::
  "(pricing_call \<Rightarrow> bool) \<Rightarrow> (string \<Rightarrow> uuid option) \<Rightarrow> pricing_db \<Rightarrow> resolve_request \<Rightarrow> request_line
     \<Rightarrow> promotion list \<Rightarrow> (uuid \<Rightarrow> promotion_rule list) \<Rightarrow> promoEvalContext \<Rightarrow> gotime
     \<Rightarrow> (resolve_error + response_line) option" where
  "resolveLine fail uparse db req line promos promoRules ctx asOf =
     (if rl_item line = uuid_nil then Some (Inl NoItemID)
      else case parseQuantityToMicros (rl_quantity line) of
        Inl e \<Rightarrow> Some (Inl (BadQuantity e))
      | Inr qty \<Rightarrow>
          if qty = 0 then Some (Inl ZeroQuantity)
          else (case GetItem fail db (rq_tenant req) (rl_item line) of
            Inl e \<Rightarrow> Some (Inl (GetItemFailed e))
          | Inr it \<Rightarrow>
              (case GetItemPrice fail db (rq_tenant req) (rl_item line) (Some (rq_location req))
                      (ec_channel ctx) asOf of
                 Inl NotFound \<Rightarrow>
                   (case it_default_price it of
                      None \<Rightarrow> Some (Inl NoPrice)
                    | Some d \<Rightarrow> (case parseMajorToCents d of
                          Inl e \<Rightarrow> Some (Inl (BadDefaultPrice e))
                        | Inr c \<Rightarrow> assembleLine fail uparse db req it line qty c asOf promos promoRules ctx))
               | Inl e \<Rightarrow> Some (Inl (GetPriceFailed e))
               | Inr row \<Rightarrow> (case parseMajorToCents (ip_amount row) of
                     Inl e \<Rightarrow> Some (Inl (BadBasePrice e))
                   | Inr c \<Rightarrow> assembleLine fail uparse db req it line qty c asOf promos promoRules ctx))))"

section \<open>The cart\<close>

text \<open>The rules of every promotion, fetched before any line; the map is Go's
  \<open>promoRules\<close>.\<close>

fun fetch_rules ::
  "(pricing_call \<Rightarrow> bool) \<Rightarrow> pricing_db \<Rightarrow> uuid \<Rightarrow> promotion list \<Rightarrow> (uuid \<Rightarrow> promotion_rule list)
     \<Rightarrow> resolve_error + (uuid \<Rightarrow> promotion_rule list)" where
  "fetch_rules fail db tenant [] m = Inr m"
| "fetch_rules fail db tenant (p # ps) m =
     (case ListPromotionRules fail db tenant (pr_id p) of
        Inl e \<Rightarrow> Inl (ListRulesFailed (pr_id p) e)
      | Inr rules \<Rightarrow> fetch_rules fail db tenant ps (m(pr_id p := rules)))"

text \<open>\<open>fail i\<close> is the failure of the queries of line \<open>i\<close>.\<close>

fun line_loop ::
  "(nat \<Rightarrow> pricing_call \<Rightarrow> bool) \<Rightarrow> (string \<Rightarrow> uuid option) \<Rightarrow> pricing_db \<Rightarrow> resolve_request \<Rightarrow> promotion list
     \<Rightarrow> (uuid \<Rightarrow> promotion_rule list) \<Rightarrow> promoEvalContext \<Rightarrow> gotime \<Rightarrow> nat \<Rightarrow> request_line list \<Rightarrow> go_int64
     \<Rightarrow> (resolve_error + (response_line list \<times> go_int64)) option" where
  "line_loop fail uparse db req promos rules ctx asOf i [] cart = Some (Inr ([], cart))"
| "line_loop fail uparse db req promos rules ctx asOf i (l # ls) cart =
     bind_run (resolveLine (fail i) uparse db req l promos rules ctx asOf) (\<lambda>r.
       case parseMajorToCents (ol_total r) of
         Inl e \<Rightarrow> Some (Inl (BadLineTotal e))
       | Inr c \<Rightarrow>
           bind_run (line_loop fail uparse db req promos rules ctx asOf (Suc i) ls (wrap64 (cart + c)))
             (\<lambda>(rs, tot). Some (Inr (r # rs, tot))))"

definition Resolve ::
  "(pricing_call \<Rightarrow> bool) \<Rightarrow> (nat \<Rightarrow> pricing_call \<Rightarrow> bool) \<Rightarrow> (string \<Rightarrow> uuid option) \<Rightarrow> pricing_db \<Rightarrow> gotime
     \<Rightarrow> resolve_request option \<Rightarrow> (resolve_error + resolve_response) option" where
  "Resolve fail0 fail uparse db now reqp =
     (case reqp of None \<Rightarrow> Some (Inl NilRequest)
      | Some req \<Rightarrow>
          if rq_lines req = [] then Some (Inl NoLines)
          else if rq_tenant req = uuid_nil then Some (Inl NoTenant)
          else if rq_location req = uuid_nil then Some (Inl NoLocation)
          else
            let asOf = (case rq_as_of req of None \<Rightarrow> now | Some t \<Rightarrow> t);
                channel = (if rq_channel req = [] then ''brick'' else rq_channel req);
                ctx = \<lparr>ec_channel = channel, ec_customer = rq_customer req, ec_segments = rq_segments req\<rparr> in
            (case ListActivePromotions fail0 db (rq_tenant req) (rq_location req) asOf of
               Inl e \<Rightarrow> Some (Inl (ListPromosFailed e))
             | Inr promos \<Rightarrow>
                 (case fetch_rules fail0 db (rq_tenant req) promos (\<lambda>u. []) of
                    Inl e \<Rightarrow> Some (Inl e)
                  | Inr rules \<Rightarrow>
                      bind_run (line_loop fail uparse db req promos rules ctx asOf 0 (rq_lines req) 0)
                        (\<lambda>(ls, cart). Option.bind (formatCents cart) (\<lambda>t.
                           Some (Inr \<lparr>rs_lines = ls, rs_cart_total = t, rs_currency = ''USD'',
                                      rs_resolved_at = asOf\<rparr>))))))"

section \<open>Tenant isolation of the queries\<close>

lemma GetItem_tenant: "GetItem fail db tenant i = Inr it \<Longrightarrow> it \<in> set (db_items db) \<and> it_tenant it = tenant \<and> it_id it = i"
  by (auto simp: GetItem_def dest!: first_row_filter split: if_splits option.splits)

lemma fetchPrice_Inr:
  assumes "fetchPrice fail site db tenant item loc channel asOf = Inr p"
  shows "p \<in> set (db_prices db)" "ip_tenant p = tenant" "ip_item p = item" "ip_location p = loc"
    "ip_status p = ''active''" "effective (ip_start p) (ip_end p) asOf"
  using assms by (auto simp: fetchPrice_def Let_def dest!: first_row_sort_desc_in split: if_splits option.splits)

lemma computeTax_Inr:
  assumes "computeTax fail db tenant loc item subtotal asOf = Inr ts" and "0 \<le> subtotal"
  shows "length ts \<le> 1 \<and> (\<forall>t \<in> set ts. 0 \<le> rt_ppm t \<and> rt_cents t = scaled_product subtotal (rt_ppm t)
           \<and> 0 \<le> rt_cents t \<and> is_int64 (rt_cents t))"
  using assms parse_fixed_nonneg [of Rate 1000000]
  by (auto simp: computeTax_def bind_res_Inr_iff multiplyCentsByPpm_def parseRateToPpm_def
      scaled_product_nonneg is_int64_scaled_product split: option.splits sum.splits store_error.splits if_splits)

section \<open>Evaluation of a line\<close>

lemma eval_loop_discounts:
  assumes "eval_loop uparse ps m item it base qty ctx = Inr cs" "0 \<le> base" "is_int64 base"
  shows "\<forall>c \<in> set cs. 0 \<le> ep_discount c"
  using assms(1)
proof (induction ps arbitrary: cs)
  case (Cons p ps)
  show ?case
  proof (cases "evaluatePromotion uparse p (m (pr_id p)) item (it_category it) base qty ctx")
    case (Inr r)
    with Cons evaluatePromotion_nonneg [OF _ assms(2,3)] show ?thesis
      by (cases r) (fastforce simp: bind_res_Inr_iff)+
  qed (use Cons.prems in simp)
qed simp

lemma apply_loop_total:
  assumes "\<forall>c \<in> set cs. 0 \<le> ep_discount c" and "0 \<le> tot"
    and "tot + sum_list (map ep_discount cs) < 2 ^ 63"
  shows "\<exists>as. apply_loop cs tot = Some (as, tot + sum_list (map ep_discount cs)) \<and>
     map ap_id as = map (pr_id \<circ> ep_promo) cs"
  using assms
proof (induction cs arbitrary: tot)
  case (Cons c cs)
  have s: "0 \<le> sum_list (map ep_discount cs)"
    using Cons.prems(1) by (intro sum_list_nonneg) auto
  then have "wrap64 (tot + ep_discount c) = tot + ep_discount c"
    using Cons.prems by (intro wrap64_small) auto
  then show ?case
    using Cons.IH [of "tot + ep_discount c"] Cons.prems s
    by (auto simp: formatCents_nonneg algebra_simps)
qed simp

lemma tax_loop_total:
  assumes "\<forall>t \<in> set ts. 0 \<le> rt_ppm t \<and> 0 \<le> rt_cents t" and "0 \<le> tot"
    and "tot + sum_list (map rt_cents ts) < 2 ^ 63"
  shows "\<exists>ls. tax_loop ts tot = Some (ls, tot + sum_list (map rt_cents ts)) \<and> map tl_class ls = map rt_class ts"
  using assms
proof (induction ts arbitrary: tot)
  case (Cons t ts)
  have s: "0 \<le> sum_list (map rt_cents ts)"
    using Cons.prems(1) by (intro sum_list_nonneg) auto
  then have "wrap64 (tot + rt_cents t) = tot + rt_cents t"
    using Cons.prems by (intro wrap64_small) auto
  then show ?case
    using Cons.IH [of "tot + rt_cents t"] Cons.prems s
    by (auto simp: formatCents_nonneg formatRatePpm_nonneg algebra_simps)
qed simp

lemma pick_discount_nonneg:
  "\<forall>c \<in> set cs. 0 \<le> ep_discount c \<Longrightarrow> 0 \<le> sum_list (map ep_discount (pickBestPromotions cs))"
  using pickBest_set [of cs] by (intro sum_list_nonneg) auto

lemma cents_text: "0 \<le> c \<Longrightarrow> is_int64 c \<Longrightarrow> \<exists>s. formatCents c = Some s \<and> parseMajorToCents s = Inr c"
  using cents.dec_enc by blast

lemma assembleLine_amounts:
  assumes base: "0 \<le> base" "is_int64 base" and qty: "0 \<le> qty" "is_int64 qty"
    and cs: "eval_loop uparse promos rules (rl_item line) it base qty ctx = Inr cs"
    and disc: "d = sum_list (map ep_discount (pickBestPromotions cs))" "d < 2 ^ 63"
    and unit: "u = base - min base d"
    and tax: "computeTax fail db (rq_tenant req) (Some (rq_location req)) it (scaled_product u qty) asOf = Inr ts"
    and total: "t = scaled_product u qty + sum_list (map rt_cents ts)" "t < 2 ^ 63"
  shows "\<exists>l. assembleLine fail uparse db req it line qty base asOf promos rules ctx = Some (Inr l) \<and>
     ol_item l = rl_item line \<and>
     parseQuantityToMicros (ol_quantity l) = Inr qty \<and> parseMajorToCents (ol_base l) = Inr base \<and>
     parseMajorToCents (ol_unit l) = Inr u \<and>
     parseMajorToCents (ol_subtotal l) = Inr (scaled_product u qty) \<and>
     parseMajorToCents (ol_total l) = Inr t \<and>
     map ap_id (ol_applied l) = map (pr_id \<circ> ep_promo) (pickBestPromotions cs)"
proof -
  have d0: "0 \<le> d" and nn: "\<forall>c \<in> set (pickBestPromotions cs). 0 \<le> ep_discount c"
    using eval_loop_discounts [OF cs base] pickBest_set [of cs] pick_discount_nonneg disc by auto
  obtain as where as: "apply_loop (pickBestPromotions cs) 0 = Some (as, d)"
      "map ap_id as = map (pr_id \<circ> ep_promo) (pickBestPromotions cs)"
    using apply_loop_total [OF nn, of 0] disc by auto
  have u: "0 \<le> u" "is_int64 u" using unit d0 base by (auto simp: is_int64_def)
  have uw: "wrap64 (base - (if base < d then base else d)) = u"
    using u unit by (auto simp: min_def split: if_splits)
  let ?s = "scaled_product u qty"
  have s: "0 \<le> ?s" "is_int64 ?s" using u qty by (simp_all add: scaled_product_nonneg is_int64_scaled_product)
  have t1: "\<forall>x \<in> set ts. 0 \<le> rt_ppm x \<and> 0 \<le> rt_cents x" using computeTax_Inr [OF tax s(1)] by blast
  then have sum0: "0 \<le> sum_list (map rt_cents ts)" by (intro sum_list_nonneg) auto
  obtain ls where ls: "tax_loop ts 0 = Some (ls, sum_list (map rt_cents ts))"
    using tax_loop_total [OF t1, of 0] total s by auto
  have t: "0 \<le> t" "is_int64 t" "wrap64 (?s + sum_list (map rt_cents ts)) = t"
    using total s sum0 by (auto simp: is_int64_def)
  obtain q b' u' s' t' where
      "formatMicros qty = Some q" "parseQuantityToMicros q = Inr qty"
      "formatCents base = Some b'" "parseMajorToCents b' = Inr base"
      "formatCents u = Some u'" "parseMajorToCents u' = Inr u"
      "formatCents ?s = Some s'" "parseMajorToCents s' = Inr ?s"
      "formatCents t = Some t'" "parseMajorToCents t' = Inr t"
    using cents_text [OF base] cents_text [OF u] cents_text [OF s] cents_text [OF t(1,2)]
      micros.dec_enc [of qty] qty by blast
  with as uw tax ls t(3) show ?thesis
    by (simp add: assembleLine_def cs Let_def multiplyCentsByMicros_def)
qed

lemma parse_total_case:
  "(case r of Inl e \<Rightarrow> Some (Inl (f e)) | Inr c \<Rightarrow> g c) = Some (Inr x) \<longleftrightarrow> (\<exists>c. r = Inr c \<and> g c = Some (Inr x))"
  by (cases r) auto

text \<open>The cart total is the sum of the line totals while it fits.\<close>

lemma line_loop_total:
  assumes "line_loop fail uparse db req promos rules ctx asOf i ls cart = Some (Inr (rs, tot))"
  shows "length rs = length ls \<and> (\<exists>cs. map (\<lambda>r. parseMajorToCents (ol_total r)) rs = map Inr cs \<and>
     (0 \<le> cart \<longrightarrow> cart + sum_list cs < 2 ^ 63 \<longrightarrow> tot = cart + sum_list cs \<and> 0 \<le> sum_list cs))"
  using assms
proof (induction ls arbitrary: i cart rs tot)
  case (Cons l ls)
  from Cons.prems obtain r c rs' where r: "resolveLine (fail i) uparse db req l promos rules ctx asOf = Some (Inr r)"
    and c: "parseMajorToCents (ol_total r) = Inr c"
    and rest: "line_loop fail uparse db req promos rules ctx asOf (Suc i) ls (wrap64 (cart + c)) = Some (Inr (rs', tot))"
    and rs: "rs = r # rs'"
    by (auto simp: bind_run_Inr_iff parse_total_case)
  from Cons.IH [OF rest] obtain cs where len: "length rs' = length ls"
    and cs: "map (\<lambda>r. parseMajorToCents (ol_total r)) rs' = map Inr cs"
    and tot: "0 \<le> wrap64 (cart + c) \<longrightarrow> wrap64 (cart + c) + sum_list cs < 2 ^ 63 \<longrightarrow>
        tot = wrap64 (cart + c) + sum_list cs \<and> 0 \<le> sum_list cs" by blast
  have c0: "0 \<le> c" using c parse_fixed_nonneg by (simp add: parseMajorToCents_def)
  have cs0: "0 \<le> sum_list cs"
  proof (intro sum_list_nonneg)
    fix x assume "x \<in> set cs"
    then have "Inr x \<in> set (map (\<lambda>r. parseMajorToCents (ol_total r)) rs')" by (simp add: cs)
    then obtain y :: response_line where "parseMajorToCents (ol_total y) = Inr x" by force
    then show "0 \<le> x" using parse_fixed_nonneg by (simp add: parseMajorToCents_def)
  qed
  have "tot = cart + (c + sum_list cs) \<and> 0 \<le> c + sum_list cs"
    if "0 \<le> cart" "cart + (c + sum_list cs) < 2 ^ 63"
  proof -
    have "wrap64 (cart + c) = cart + c" using that c0 cs0 by (intro wrap64_small) auto
    with tot that c0 cs0 show ?thesis by auto
  qed
  with len cs c rs show ?case by (intro conjI exI [of _ "c # cs"]) auto
qed auto

lemma Resolve_Inr:
  assumes "Resolve fail0 fail uparse db now (Some req) = Some (Inr resp)"
  obtains promos rules ctx asOf cart where
    "line_loop fail uparse db req promos rules ctx asOf 0 (rq_lines req) 0 = Some (Inr (rs_lines resp, cart))"
    "formatCents cart = Some (rs_cart_total resp)" "rq_lines req \<noteq> []" "rq_tenant req \<noteq> 0"
  using assms
  by (fastforce simp: Resolve_def Let_def bind_run_Inr_iff bind_eq_Some_conv split: if_splits sum.splits)

section \<open>A cart that never gets an answer\<close>

text \<open>Two lines of one item: each subtotal leaves \<open>int64\<close> and saturates at \<open>2 ^ 62\<close>, their
  sum wraps to the most negative value, and rendering it does not return.\<close>

definition runaway_item :: catalog_item where
  "runaway_item = \<lparr>it_id = 7, it_tenant = 1, it_category = None,
     it_default_price = Some (dec_nat 1000000), it_tax_class = None\<rparr>"

definition runaway_db :: pricing_db where
  "runaway_db = \<lparr>db_items = [runaway_item], db_prices = [], db_promotions = [], db_rules = [],
     db_tax_classes = [], db_tax_rates = []\<rparr>"

definition runaway_line :: request_line where
  "runaway_line = \<lparr>rl_item = 7, rl_quantity = dec_nat 9000000000000\<rparr>"

definition cart_request :: "request_line list \<Rightarrow> resolve_request" where
  "cart_request ls = \<lparr>rq_tenant = 1, rq_location = 2, rq_customer = None, rq_as_of = None,
     rq_channel = [], rq_lines = ls, rq_segments = []\<rparr>"

lemma runaway_line_resolves:
  "\<exists>r. resolveLine (\<lambda>c. False) uparse runaway_db (cart_request ls) runaway_line [] m
          \<lparr>ec_channel = ''brick'', ec_customer = None, ec_segments = []\<rparr> now = Some (Inr r) \<and>
       parseMajorToCents (ol_total r) = Inr (2 ^ 62)"
proof -
  let ?ctx = "\<lparr>ec_channel = ''brick'', ec_customer = None, ec_segments = []\<rparr>"
  let ?q = "9000000000000000000 :: int"
  have q: "parseQuantityToMicros (dec_nat 9000000000000) = Inr ?q"
    using parse_fixed_dec_nat [of 9000000000000 6 Quantity]
    by (simp add: parseQuantityToMicros_def is_int64_def)
  have p: "parseMajorToCents (dec_nat 1000000) = Inr 100000000"
    using parse_fixed_dec_nat [of 1000000 2 Amount] by (simp add: parseMajorToCents_def is_int64_def)
  have s: "scaled_product 100000000 ?q = 2 ^ 62"
    by (simp add: scaled_product_def is_int64_def)
  obtain l where l: "assembleLine (\<lambda>c. False) uparse runaway_db (cart_request ls) runaway_item runaway_line
        ?q 100000000 now [] m ?ctx = Some (Inr l)" and t: "parseMajorToCents (ol_total l) = Inr (2 ^ 62)"
    using assembleLine_amounts [where base = 100000000 and qty = ?q and uparse = uparse and promos = "[]" and rules = m
        and line = runaway_line and it = runaway_item and ctx = ?ctx and cs = "[]" and d = 0 and u = 100000000
        and fail = "\<lambda>c. False" and db = runaway_db and req = "cart_request ls" and asOf = now and ts = "[]" and t = "2 ^ 62"]
    by (auto simp: is_int64_def pickBestPromotions_def s computeTax_def runaway_item_def)
  have "resolveLine (\<lambda>c. False) uparse runaway_db (cart_request ls) runaway_line [] m ?ctx now =
      assembleLine (\<lambda>c. False) uparse runaway_db (cart_request ls) runaway_item runaway_line
        ?q 100000000 now [] m ?ctx"
    using q p by (simp add: resolveLine_def runaway_line_def cart_request_def runaway_db_def GetItem_def
        runaway_item_def GetItemPrice_def fetchPrice_def Let_def sort_desc_def)
  with l t show ?thesis by metis
qed

section \<open>Properties\<close>




lemma Resolve_empty_promotions:
  "Resolve (\<lambda>c. False) (\<lambda>i c. False) uparse runaway_db now (Some (cart_request (l # ls))) =
     bind_run (line_loop (\<lambda>i c. False) uparse runaway_db (cart_request (l # ls)) [] (\<lambda>u. [])
        \<lparr>ec_channel = ''brick'', ec_customer = None, ec_segments = []\<rparr> now 0 (l # ls) 0)
      (\<lambda>(ls, cart). Option.bind (formatCents cart) (\<lambda>t.
         Some (Inr \<lparr>rs_lines = ls, rs_cart_total = t, rs_currency = ''USD'', rs_resolved_at = now\<rparr>)))"
  by (simp add: Resolve_def cart_request_def ListActivePromotions_def runaway_db_def sort_desc_def Let_def)


text \<open>C33: There is a catalogue and a cart of two lines for which \<open>Resolve\<close> never returns,
  although each line alone is resolved: the cart total overflows to the most negative
  \<open>int64\<close>, on which \<open>formatCents\<close> recurses for ever.\<close>

theorem Resolve_runaway_cart:
  "Resolve (\<lambda>c. False) (\<lambda>i c. False) uparse runaway_db now (Some (cart_request [runaway_line, runaway_line])) = None \<and>
   (\<exists>resp. Resolve (\<lambda>c. False) (\<lambda>i c. False) uparse runaway_db now (Some (cart_request [runaway_line])) = Some (Inr resp))"
proof
  obtain r where r: "resolveLine (\<lambda>c. False) uparse runaway_db (cart_request [runaway_line, runaway_line]) runaway_line [] (\<lambda>u. [])
          \<lparr>ec_channel = ''brick'', ec_customer = None, ec_segments = []\<rparr> now = Some (Inr r)"
    "parseMajorToCents (ol_total r) = Inr (2 ^ 62)"
    using runaway_line_resolves by blast
  let ?q = "cart_request [runaway_line, runaway_line]"
  have w: "wrap64 (wrap64 (0 + 2 ^ 62) + 2 ^ 62) = - (2 ^ 63)" by (simp add: wrap64_def)
  have "line_loop (\<lambda>i c. False) uparse runaway_db ?q [] (\<lambda>u. [])
        \<lparr>ec_channel = ''brick'', ec_customer = None, ec_segments = []\<rparr> now 0 [runaway_line, runaway_line] 0
      = Some (Inr ([r, r], - (2 ^ 63)))"
    by (simp only: line_loop.simps r bind_run.simps sum.case prod.case w)
  then show "Resolve (\<lambda>c. False) (\<lambda>i c. False) uparse runaway_db now (Some (cart_request [runaway_line, runaway_line])) = None"
    unfolding Resolve_empty_promotions
    by (simp only: bind_run.simps prod.case formatCents_min Option.bind.simps)
next
  obtain r where r: "resolveLine (\<lambda>c. False) uparse runaway_db (cart_request [runaway_line]) runaway_line [] (\<lambda>u. [])
          \<lparr>ec_channel = ''brick'', ec_customer = None, ec_segments = []\<rparr> now = Some (Inr r)"
    "parseMajorToCents (ol_total r) = Inr (2 ^ 62)"
    using runaway_line_resolves by blast
  show "\<exists>resp. Resolve (\<lambda>c. False) (\<lambda>i c. False) uparse runaway_db now (Some (cart_request [runaway_line])) = Some (Inr resp)"
    unfolding Resolve_empty_promotions using r by (simp add: wrap64_small formatCents_nonneg)
qed

end
