(* ===== verification/Keystore.thy ===== *)
theory Keystore
  imports GoTime
begin

text \<open>
  The signing keys of the identity service (\<open>internal/identity/keystore/keystore.go\<close>): the table
  with its constraints, the life of a key from active over retiring to expired, and the verify
  set that each process caches for a while.
\<close>

datatype key_status = StatusActive | StatusRetiring | StatusExpired

record SigningKey =
  sk_ID :: uuid
  sk_Kid :: string
  sk_Alg :: string
  sk_PublicJWK :: string
  sk_PrivateKeyPEM :: string
  sk_Status :: key_status
  sk_CreatedAt :: gotime
  sk_RetiringAt :: "gotime option"
  sk_RetiredAt :: "gotime option"

type_synonym key_rows = "SigningKey list"

text \<open>The cache of one process; a nil verify set is \<open>None\<close>.\<close>

record key_cache =
  kc_cachedAt :: gotime
  kc_verifySet :: "SigningKey list option"
  kc_ttl :: duration

datatype key_call =
    KeyActive | KeyVerifySet | KeyInsert | KeyRetire | KeyExpire
  | KeyRotateBegin | KeyRotateRetire | KeyRotateInsert | KeyRotateCommit

datatype key_error = NoActiveKey | KidUnknown string | KeyFailed key_call

section \<open>Reading\<close>

definition empty_cache :: "duration \<Rightarrow> key_cache" where
  "empty_cache ttl = \<lparr>kc_cachedAt = zero_time, kc_verifySet = None, kc_ttl = ttl\<rparr>"

definition invalidateCache :: "key_cache \<Rightarrow> key_cache" where
  "invalidateCache c = c\<lparr>kc_cachedAt := zero_time, kc_verifySet := None\<rparr>"

definition Active :: "(key_call \<Rightarrow> bool) \<Rightarrow> key_rows \<Rightarrow> key_error + SigningKey" where
  "Active fail rows =
     (if fail KeyActive then Inl (KeyFailed KeyActive)
      else case filter (\<lambda>k. sk_Status k = StatusActive) rows of
          [] \<Rightarrow> Inl NoActiveKey
        | k # _ \<Rightarrow> Inr k)"

text \<open>The query of the verify set does not select the private key.\<close>

definition query_verify_set :: "key_rows \<Rightarrow> SigningKey list" where
  "query_verify_set rows =
     sort_desc sk_CreatedAt (map (\<lambda>k. k\<lparr>sk_PrivateKeyPEM := []\<rparr>)
       (filter (\<lambda>k. sk_Status k = StatusActive \<or> sk_Status k = StatusRetiring) rows))"

definition VerifySet ::
  "(key_call \<Rightarrow> bool) \<Rightarrow> gotime \<Rightarrow> key_rows \<Rightarrow> key_cache \<Rightarrow> (key_error + SigningKey list) \<times> key_cache" where
  "VerifySet fail now rows c =
     (case kc_verifySet c of
        Some ks \<Rightarrow>
          if time_sub now (kc_cachedAt c) < kc_ttl c then (Inr ks, c)
          else if fail KeyVerifySet then (Inl (KeyFailed KeyVerifySet), c)
          else (Inr (query_verify_set rows),
                c\<lparr>kc_verifySet := (if query_verify_set rows = [] then None else Some (query_verify_set rows)), kc_cachedAt := now\<rparr>)
      | None \<Rightarrow>
          if fail KeyVerifySet then (Inl (KeyFailed KeyVerifySet), c)
          else (Inr (query_verify_set rows),
                c\<lparr>kc_verifySet := (if query_verify_set rows = [] then None else Some (query_verify_set rows)), kc_cachedAt := now\<rparr>))"

definition FindByKid ::
  "(key_call \<Rightarrow> bool) \<Rightarrow> gotime \<Rightarrow> string \<Rightarrow> key_rows \<Rightarrow> key_cache \<Rightarrow> (key_error + SigningKey) \<times> key_cache" where
  "FindByKid fail now kid rows c =
     (case VerifySet fail now rows c of
        (Inl e, c') \<Rightarrow> (Inl e, c')
      | (Inr ks, c') \<Rightarrow>
          (case List.find (\<lambda>k. sk_Kid k = kid) ks of None \<Rightarrow> (Inl (KidUnknown kid), c') | Some k \<Rightarrow> (Inr k, c')))"

section \<open>Writing\<close>

definition new_key_row :: "gotime \<Rightarrow> SigningKey \<Rightarrow> SigningKey" where
  "new_key_row now k = k\<lparr>sk_Status := StatusActive, sk_CreatedAt := now, sk_RetiringAt := None, sk_RetiredAt := None\<rparr>"

text \<open>The primary key, the unique key id, the check on the algorithm, and the partial unique
  index that admits one active row.\<close>

definition key_conflict :: "key_rows \<Rightarrow> SigningKey \<Rightarrow> bool" where
  "key_conflict rows k \<longleftrightarrow>
     list_ex (\<lambda>r. sk_ID r = sk_ID k \<or> sk_Kid r = sk_Kid k \<or> sk_Status r = StatusActive) rows
     \<or> sk_Alg k \<notin> {''RS256'', ''ES256'', ''EdDSA''}"

definition Insert ::
  "(key_call \<Rightarrow> bool) \<Rightarrow> gotime \<Rightarrow> SigningKey \<Rightarrow> key_rows \<Rightarrow> key_cache \<Rightarrow> (key_error + unit) \<times> key_rows \<times> key_cache" where
  "Insert fail now k rows c =
     (if fail KeyInsert \<or> key_conflict rows k then (Inl (KeyFailed KeyInsert), rows, c)
      else (Inr (), rows @ [new_key_row now k], invalidateCache c))"

definition retire_row :: "gotime \<Rightarrow> SigningKey \<Rightarrow> SigningKey" where
  "retire_row now k =
     (if sk_Status k = StatusActive then k\<lparr>sk_Status := StatusRetiring, sk_RetiringAt := Some now\<rparr> else k)"

definition expire_row :: "gotime \<Rightarrow> SigningKey \<Rightarrow> SigningKey" where
  "expire_row now k =
     (if sk_Status k = StatusRetiring then k\<lparr>sk_Status := StatusExpired, sk_RetiredAt := Some now\<rparr> else k)"

definition Retire ::
  "(key_call \<Rightarrow> bool) \<Rightarrow> gotime \<Rightarrow> uuid \<Rightarrow> key_rows \<Rightarrow> key_cache \<Rightarrow> (key_error + unit) \<times> key_rows \<times> key_cache" where
  "Retire fail now kid rows c =
     (if fail KeyRetire then (Inl (KeyFailed KeyRetire), rows, c)
      else (Inr (), map (\<lambda>k. if sk_ID k = kid then retire_row now k else k) rows, invalidateCache c))"

definition Expire ::
  "(key_call \<Rightarrow> bool) \<Rightarrow> gotime \<Rightarrow> uuid \<Rightarrow> key_rows \<Rightarrow> key_cache \<Rightarrow> (key_error + unit) \<times> key_rows \<times> key_cache" where
  "Expire fail now kid rows c =
     (if fail KeyExpire then (Inl (KeyFailed KeyExpire), rows, c)
      else (Inr (), map (\<lambda>k. if sk_ID k = kid then expire_row now k else k) rows, invalidateCache c))"

text \<open>Retiring the active row and inserting the new one are one transaction.\<close>

definition Rotate ::
  "(key_call \<Rightarrow> bool) \<Rightarrow> gotime \<Rightarrow> SigningKey \<Rightarrow> key_rows \<Rightarrow> key_cache \<Rightarrow> (key_error + unit) \<times> key_rows \<times> key_cache" where
  "Rotate fail now k rows c =
     (if fail KeyRotateBegin then (Inl (KeyFailed KeyRotateBegin), rows, c)
      else if fail KeyRotateRetire then (Inl (KeyFailed KeyRotateRetire), rows, c)
      else let rows' = map (retire_row now) rows in
        if fail KeyRotateInsert \<or> key_conflict rows' k then (Inl (KeyFailed KeyRotateInsert), rows, c)
        else if fail KeyRotateCommit then (Inl (KeyFailed KeyRotateCommit), rows, c)
        else (Inr (), rows' @ [new_key_row now k], invalidateCache c))"

section \<open>The life of a key\<close>

definition key_rank :: "key_status \<Rightarrow> nat" where
  "key_rank st = (case st of StatusActive \<Rightarrow> 0 | StatusRetiring \<Rightarrow> 1 | StatusExpired \<Rightarrow> 2)"

definition active_keys :: "key_rows \<Rightarrow> SigningKey list" where
  "active_keys rows = filter (\<lambda>k. sk_Status k = StatusActive) rows"

definition keys_ok :: "key_rows \<Rightarrow> bool" where
  "keys_ok rows \<longleftrightarrow> distinct (map sk_ID rows) \<and> distinct (map sk_Kid rows) \<and> length (active_keys rows) \<le> 1"

text \<open>One key has become another: the same identity and key material, no earlier status.\<close>

definition key_aged :: "SigningKey \<Rightarrow> SigningKey \<Rightarrow> bool" where
  "key_aged k k' \<longleftrightarrow> sk_ID k' = sk_ID k \<and> sk_Kid k' = sk_Kid k \<and> sk_Alg k' = sk_Alg k \<and> sk_PublicJWK k' = sk_PublicJWK k
     \<and> sk_PrivateKeyPEM k' = sk_PrivateKeyPEM k \<and> key_rank (sk_Status k) \<le> key_rank (sk_Status k')"

inductive key_step :: "key_rows \<Rightarrow> key_rows \<Rightarrow> bool" where
  insert: "key_step rows (fst (snd (Insert fail now k rows c)))"
| retire: "key_step rows (fst (snd (Retire fail now i rows c)))"
| expire: "key_step rows (fst (snd (Expire fail now i rows c)))"
| rotate: "key_step rows (fst (snd (Rotate fail now k rows c)))"

lemma row_same [simp]:
  "sk_ID (retire_row now k) = sk_ID k" "sk_Kid (retire_row now k) = sk_Kid k"
  "sk_ID (expire_row now k) = sk_ID k" "sk_Kid (expire_row now k) = sk_Kid k"
  "sk_ID (new_key_row now k) = sk_ID k" "sk_Kid (new_key_row now k) = sk_Kid k"
  "sk_Status (new_key_row now k) = StatusActive"
  by (simp_all add: retire_row_def expire_row_def new_key_row_def)

lemma key_aged_refl [simp]: "key_aged k k"
  by (simp add: key_aged_def)

lemma key_aged_trans: "key_aged a b \<Longrightarrow> key_aged b c \<Longrightarrow> key_aged a c"
  by (auto simp: key_aged_def)

lemma key_aged_row [simp]: "key_aged k (retire_row now k)" "key_aged k (expire_row now k)"
  by (auto simp: key_aged_def retire_row_def expire_row_def key_rank_def)

lemma active_keys_map:
  "(\<And>k. sk_Status (f k) = StatusActive \<Longrightarrow> sk_Status k = StatusActive) \<Longrightarrow>
     length (active_keys (map f rows)) \<le> length (active_keys rows)"
  by (induction rows) (auto simp: active_keys_def)

lemma retired_not_active: "sk_Status (retire_row now k) \<noteq> StatusActive"
  by (auto simp: retire_row_def)

lemma active_keys_retired: "active_keys (map (retire_row now) rows) = []"
  by (simp add: active_keys_def filter_empty_conv retired_not_active)

lemma keys_ok_map:
  assumes "keys_ok rows" "\<And>k. sk_ID (f k) = sk_ID k" "\<And>k. sk_Kid (f k) = sk_Kid k"
    and "\<And>k. sk_Status (f k) = StatusActive \<Longrightarrow> sk_Status k = StatusActive"
  shows "keys_ok (map f rows)"
  using assms active_keys_map [of f rows] by (simp add: keys_ok_def comp_def)

lemma keys_ok_add:
  assumes "keys_ok rows" "\<not> key_conflict rows k"
  shows "keys_ok (rows @ [new_key_row now k])" "active_keys rows = []"
proof -
  from assms(2) show "active_keys rows = []"
    by (auto simp: key_conflict_def active_keys_def list_ex_iff filter_empty_conv)
  then show "keys_ok (rows @ [new_key_row now k])"
    using assms by (auto simp: keys_ok_def key_conflict_def list_ex_iff active_keys_def)
qed

text \<open>Every row of the first table has become a row of the second.\<close>

definition rows_aged :: "key_rows \<Rightarrow> key_rows \<Rightarrow> bool" where
  "rows_aged rows rows' \<longleftrightarrow> (\<forall>k\<in>set rows. \<exists>k'\<in>set rows'. key_aged k k')"

lemma rows_aged_refl [simp]: "rows_aged rows rows"
  unfolding rows_aged_def using key_aged_refl by blast

lemma rows_aged_trans: "rows_aged a b \<Longrightarrow> rows_aged b c \<Longrightarrow> rows_aged a c"
  unfolding rows_aged_def using key_aged_trans by meson

lemma rows_aged_map: "(\<And>k. key_aged k (f k)) \<Longrightarrow> rows_aged rows (map f rows)"
  by (auto simp: rows_aged_def)

lemma rows_aged_append: "rows_aged rows xs \<Longrightarrow> rows_aged rows (xs @ ys)"
  by (auto simp: rows_aged_def)

lemma key_step_ok:
  "key_step rows rows' \<Longrightarrow> keys_ok rows \<Longrightarrow> keys_ok rows' \<and> rows_aged rows rows'"
proof (induction rule: key_step.induct)
  case (insert rows fail now k c)
  then show ?case using keys_ok_add(1) [of rows k now] by (auto simp: Insert_def intro: rows_aged_append)
next
  case (retire rows fail now i c)
  have "keys_ok (map (\<lambda>k. if sk_ID k = i then retire_row now k else k) rows)"
    using retire by (intro keys_ok_map) (auto simp: retired_not_active split: if_splits)
  moreover have "rows_aged rows (map (\<lambda>k. if sk_ID k = i then retire_row now k else k) rows)"
    by (rule rows_aged_map) simp
  ultimately show ?case using retire by (auto simp: Retire_def)
next
  case (expire rows fail now i c)
  have "sk_Status (expire_row now k) = StatusActive \<Longrightarrow> sk_Status k = StatusActive" for k
    by (auto simp: expire_row_def split: if_splits)
  then have "keys_ok (map (\<lambda>k. if sk_ID k = i then expire_row now k else k) rows)"
    using expire by (intro keys_ok_map) (auto split: if_splits)
  moreover have "rows_aged rows (map (\<lambda>k. if sk_ID k = i then expire_row now k else k) rows)"
    by (rule rows_aged_map) simp
  ultimately show ?case using expire by (auto simp: Expire_def)
next
  case (rotate rows fail now k c)
  have "keys_ok (map (retire_row now) rows)"
    using rotate by (intro keys_ok_map) (auto simp: retired_not_active)
  then have "\<not> key_conflict (map (retire_row now) rows) k \<Longrightarrow> keys_ok (map (retire_row now) rows @ [new_key_row now k])"
    by (rule keys_ok_add)
  then show ?case using rotate by (auto simp: Rotate_def Let_def intro!: rows_aged_append rows_aged_map key_aged_row)
qed

lemma key_steps_ok:
  "key_step\<^sup>*\<^sup>* rows rows' \<Longrightarrow> keys_ok rows \<Longrightarrow> keys_ok rows' \<and> rows_aged rows rows'"
  by (induction rule: rtranclp_induct) (auto dest: key_step_ok intro: rows_aged_trans)

text \<open>A key that has not expired is found by a process without a cached set.\<close>

lemma find_unique:
  "k \<in> set ks \<Longrightarrow> distinct (map f ks) \<Longrightarrow> List.find (\<lambda>x. f x = f k) ks = Some k"
  by (induction ks) (auto simp: image_iff)

lemma FindByKid_found:
  assumes "keys_ok rows" "k \<in> set rows" "sk_Status k \<noteq> StatusExpired"
  shows "fst (FindByKid (\<lambda>_. False) now (sk_Kid k) rows (empty_cache ttl)) = Inr (k\<lparr>sk_PrivateKeyPEM := []\<rparr>)"
proof -
  let ?k = "k\<lparr>sk_PrivateKeyPEM := []\<rparr>"
  have "?k \<in> set (query_verify_set rows)"
    using assms(2,3) by (cases "sk_Status k") (auto simp: query_verify_set_def)
  moreover have "distinct (map sk_Kid (query_verify_set rows))"
    using assms(1) by (simp add: query_verify_set_def keys_ok_def comp_def distinct_map_filter)
  ultimately have "List.find (\<lambda>x. sk_Kid x = sk_Kid ?k) (query_verify_set rows) = Some ?k"
    by (rule find_unique)
  then show ?thesis by (simp add: FindByKid_def VerifySet_def empty_cache_def)
qed

lemma Rotate_active:
  assumes "fst (Rotate fail now k rows c) = Inr ()"
  shows "Active (\<lambda>_. False) (fst (snd (Rotate fail now k rows c))) = Inr (new_key_row now k)"
proof -
  from assms have "fst (snd (Rotate fail now k rows c)) = map (retire_row now) rows @ [new_key_row now k]"
    by (auto simp: Rotate_def Let_def split: if_splits)
  moreover have "filter (\<lambda>k. sk_Status k = StatusActive) (map (retire_row now) rows) = []"
    using active_keys_retired unfolding active_keys_def .
  ultimately show ?thesis by (simp only: Active_def filter_append) simp
qed


definition sample_key :: "uuid \<Rightarrow> string \<Rightarrow> SigningKey" where
  "sample_key i kid = \<lparr>sk_ID = i, sk_Kid = kid, sk_Alg = ''RS256'', sk_PublicJWK = ''jwk'', sk_PrivateKeyPEM = ''pem'',
     sk_Status = StatusActive, sk_CreatedAt = 0, sk_RetiringAt = None, sk_RetiredAt = None\<rparr>"

lemma sample_rotation:
  "fst (snd (Rotate (\<lambda>_. False) 5 (sample_key 2 ''b'') [sample_key 1 ''a''] c)) =
     [retire_row 5 (sample_key 1 ''a''), new_key_row 5 (sample_key 2 ''b'')]"
  by (simp add: Rotate_def sample_key_def key_conflict_def retire_row_def new_key_row_def)


text \<open>A process whose verify set is cached does not find a key that another process has
  rotated in, until its cache runs out, although every process signs with that key at once: for
  the whole lag it refuses the tokens that are signed meanwhile.\<close>

theorem verify_set_lags:
  assumes "kc_verifySet c = Some ks" "\<forall>r\<in>set ks. sk_Kid r \<noteq> sk_Kid k"
    and "fst (Rotate fail t k rows c') = Inr ()"
    and "kc_cachedAt c \<le> u" "u < kc_cachedAt c + kc_ttl c" "kc_ttl c < 2 ^ 63"
  shows "let rows' = fst (snd (Rotate fail t k rows c')) in
    Active (\<lambda>_. False) rows' = Inr (new_key_row t k) \<and>
    FindByKid (\<lambda>_. False) u (sk_Kid k) rows' c = (Inl (KidUnknown (sk_Kid k)), c)"
proof -
  have "time_sub u (kc_cachedAt c) < kc_ttl c"
    using assms(4-6) by (subst time_sub_small) (simp_all add: is_int64_def)
  moreover have "List.find (\<lambda>r. sk_Kid r = sk_Kid k) ks = None"
    using assms(2) by (auto simp: find_None_iff)
  ultimately show ?thesis
    using Rotate_active [OF assms(3)] assms(1) by (simp add: FindByKid_def VerifySet_def Let_def)
qed

definition warm_cache :: key_cache where
  "warm_cache = \<lparr>kc_cachedAt = 0, kc_verifySet = Some [(sample_key 1 ''a'')\<lparr>sk_PrivateKeyPEM := []\<rparr>], kc_ttl = minute\<rparr>"

theorem verify_set_lags_witness:
  "snd (VerifySet (\<lambda>_. False) 0 [sample_key 1 ''a''] (empty_cache minute)) = warm_cache \<and>
   FindByKid (\<lambda>_. False) (30 * second) ''b'' (fst (snd (Rotate (\<lambda>_. False) second (sample_key 2 ''b'') [sample_key 1 ''a''] warm_cache))) warm_cache
     = (Inl (KidUnknown ''b''), warm_cache)"
proof
  show "snd (VerifySet (\<lambda>_. False) 0 [sample_key 1 ''a''] (empty_cache minute)) = warm_cache"
    by (simp add: VerifySet_def empty_cache_def query_verify_set_def sort_desc_def warm_cache_def sample_key_def)
  have "fst (Rotate (\<lambda>_. False) second (sample_key 2 ''b'') [sample_key 1 ''a''] warm_cache) = Inr ()"
    by (simp add: Rotate_def key_conflict_def retire_row_def sample_key_def)
  from verify_set_lags [OF _ _ this, of warm_cache "[(sample_key 1 ''a'')\<lparr>sk_PrivateKeyPEM := []\<rparr>]" "30 * second"]
  show "FindByKid (\<lambda>_. False) (30 * second) ''b'' (fst (snd (Rotate (\<lambda>_. False) second (sample_key 2 ''b'') [sample_key 1 ''a''] warm_cache))) warm_cache
     = (Inl (KidUnknown ''b''), warm_cache)"
    by (simp add: warm_cache_def sample_key_def second_def minute_def Let_def)
qed

end
