(* ===== verification/RateLimit.thy ===== *)
theory RateLimit
  imports Valkey
begin

text \<open>
  The rate limiter of the authentication boundary (\<open>internal/identity/ratelimit.go\<close>): the
  brute-force lockout of an API-key prefix and a source address, the per-minute throttle of an
  authenticated key, and the login limiter with its account and address buckets.  Every method
  runs on the Valkey store at one instant; a command may be lost before it reaches the server,
  or its reply may be lost after it took effect.
\<close>

datatype delivery = Delivered | LostRequest | LostReply

datatype rl_call = PttlCall string | CountCall string | LockCall string | DelCall string

type_synonym rl_net = "rl_call \<Rightarrow> delivery"

datatype rl_error = RlFailed rl_call

record rate_limiter =
  BruteForceWindow :: duration
  BruteForceThreshold :: int
  BruteForceLockoutFor :: duration

record LockoutStatus =
  ls_Locked :: bool
  ls_RetryAfter :: duration

record ThrottleStatus =
  ts_Allowed :: bool
  ts_Limit :: int
  ts_Remaining :: int
  ts_RetryAfter :: duration

abbreviation not_locked :: LockoutStatus where
  "not_locked \<equiv> \<lparr>ls_Locked = False, ls_RetryAfter = 0\<rparr>"

section \<open>Keys and commands\<close>

definition lockoutKey :: "string \<Rightarrow> string \<Rightarrow> string" where
  "lockoutKey pfx ip = ''apikey:bf:lock:'' @ pfx @ '':'' @ ip"

definition failureCounterKey :: "string \<Rightarrow> string \<Rightarrow> string" where
  "failureCounterKey pfx ip = ''apikey:bf:fail:'' @ pfx @ '':'' @ ip"

definition perKeyCounterKey :: "(uuid \<Rightarrow> string) \<Rightarrow> uuid \<Rightarrow> gotime \<Rightarrow> string" where
  "perKeyCounterKey uuid_str keyID t =
     ''apikey:rl:'' @ uuid_str keyID @ '':'' @ fmt_int (unix_seconds t sdiv 60)"

text \<open>The \<open>INCR\<close> and \<open>EXPIRE\<close> pipeline, \<open>None\<close> for an error.\<close>

definition incrWithExpire ::
  "rl_net \<Rightarrow> gotime \<Rightarrow> string \<Rightarrow> duration \<Rightarrow> valkey \<Rightarrow> nat option \<times> valkey" where
  "incrWithExpire net now key window s =
     (case net (CountCall key) of
        LostRequest \<Rightarrow> (None, s)
      | d \<Rightarrow> let (count, s') = vk_incr now key s in
          (if d = LostReply then None else count, vk_expire now key window s'))"

definition setLock :: "rl_net \<Rightarrow> gotime \<Rightarrow> string \<Rightarrow> duration \<Rightarrow> valkey \<Rightarrow> (rl_error + bool) \<times> valkey" where
  "setLock net now key lockFor s =
     (case net (LockCall key) of
        LostRequest \<Rightarrow> (Inl (RlFailed (LockCall key)), s)
      | d \<Rightarrow> let (ok, s') = vk_setnx now key ''1'' lockFor s in
          (if d = LostReply then Inl (RlFailed (LockCall key)) else Inr ok, s'))"

definition readTTL :: "rl_net \<Rightarrow> gotime \<Rightarrow> string \<Rightarrow> valkey \<Rightarrow> rl_error + duration" where
  "readTTL net now key s =
     (if net (PttlCall key) = Delivered then Inr (vk_pttl now key s) else Inl (RlFailed (PttlCall key)))"

text \<open>\<open>DEL\<close> of several keys, in one command; it is known by its first key.\<close>

definition delKeys :: "rl_net \<Rightarrow> string list \<Rightarrow> valkey \<Rightarrow> (rl_error + unit) \<times> valkey" where
  "delKeys net ks s =
     (case net (DelCall (hd ks)) of
        LostRequest \<Rightarrow> (Inl (RlFailed (DelCall (hd ks))), s)
      | d \<Rightarrow> (if d = LostReply then Inl (RlFailed (DelCall (hd ks))) else Inr (), fold vk_del ks s))"

section \<open>The API-key limiter\<close>

text \<open>The default policy: ten failures within a minute, locked for five.\<close>

definition DefaultRateLimitConfig :: rate_limiter where
  "DefaultRateLimitConfig = \<lparr>BruteForceWindow = minute, BruteForceThreshold = 10, BruteForceLockoutFor = 5 * minute\<rparr>"

text \<open>A zero field takes its default.\<close>

definition NewRateLimiter :: "rate_limiter \<Rightarrow> rate_limiter" where
  "NewRateLimiter cfg =
     (let d = DefaultRateLimitConfig in
      \<lparr>BruteForceWindow = (if BruteForceWindow cfg = 0 then BruteForceWindow d else BruteForceWindow cfg),
       BruteForceThreshold = (if BruteForceThreshold cfg = 0 then BruteForceThreshold d else BruteForceThreshold cfg),
       BruteForceLockoutFor = (if BruteForceLockoutFor cfg = 0 then BruteForceLockoutFor d else BruteForceLockoutFor cfg)\<rparr>)"

text \<open>\<open>None\<close> is a nil limiter, or one without a client.\<close>

definition IsLockedOut ::
  "rl_net \<Rightarrow> rate_limiter option \<Rightarrow> gotime \<Rightarrow> string \<Rightarrow> string \<Rightarrow> valkey \<Rightarrow> rl_error + LockoutStatus" where
  "IsLockedOut net l now pfx ip s =
     (if l = None \<or> pfx = [] \<or> ip = [] then Inr not_locked
      else case readTTL net now (lockoutKey pfx ip) s of
          Inl e \<Rightarrow> Inl e
        | Inr ttl \<Rightarrow> Inr (if ttl < 0 then not_locked else \<lparr>ls_Locked = True, ls_RetryAfter = ttl\<rparr>))"

definition RecordFailure ::
  "rl_net \<Rightarrow> rate_limiter option \<Rightarrow> gotime \<Rightarrow> string \<Rightarrow> string \<Rightarrow> valkey \<Rightarrow> (rl_error + bool) \<times> valkey" where
  "RecordFailure net limiter now pfx ip s =
     (case limiter of
        None \<Rightarrow> (Inr False, s)
      | Some l \<Rightarrow>
          if pfx = [] \<or> ip = [] then (Inr False, s)
          else (case incrWithExpire net now (failureCounterKey pfx ip) (BruteForceWindow l) s of
              (None, s') \<Rightarrow> (Inl (RlFailed (CountCall (failureCounterKey pfx ip))), s')
            | (Some count, s') \<Rightarrow>
                if int count < BruteForceThreshold l then (Inr False, s')
                else setLock net now (lockoutKey pfx ip) (BruteForceLockoutFor l) s'))"

definition ClearFailures ::
  "rl_net \<Rightarrow> rate_limiter option \<Rightarrow> string \<Rightarrow> string \<Rightarrow> valkey \<Rightarrow> (rl_error + unit) \<times> valkey" where
  "ClearFailures net l pfx ip s =
     (if l = None \<or> pfx = [] \<or> ip = [] then (Inr (), s)
      else delKeys net [failureCounterKey pfx ip, lockoutKey pfx ip] s)"

definition nextMinute :: "gotime \<Rightarrow> gotime" where
  "nextMinute now = now - now mod minute + minute"

definition AllowSuccess ::
  "rl_net \<Rightarrow> (uuid \<Rightarrow> string) \<Rightarrow> rate_limiter option \<Rightarrow> gotime \<Rightarrow> uuid \<Rightarrow> int \<Rightarrow> valkey
     \<Rightarrow> (rl_error + ThrottleStatus) \<times> valkey" where
  "AllowSuccess net uuid_str l now keyID rpm s =
     (if l = None \<or> keyID = uuid_nil \<or> rpm \<le> 0
      then (Inr \<lparr>ts_Allowed = True, ts_Limit = rpm, ts_Remaining = rpm, ts_RetryAfter = 0\<rparr>, s)
      else let bucketKey = perKeyCounterKey uuid_str keyID now in
        case incrWithExpire net now bucketKey (70 * second) s of
          (None, s') \<Rightarrow> (Inl (RlFailed (CountCall bucketKey)), s')
        | (Some count, s') \<Rightarrow>
            if int count \<le> rpm
            then (Inr \<lparr>ts_Allowed = True, ts_Limit = rpm, ts_Remaining = rpm - int count, ts_RetryAfter = 0\<rparr>, s')
            else (Inr \<lparr>ts_Allowed = False, ts_Limit = rpm, ts_Remaining = 0,
                       ts_RetryAfter = time_sub (nextMinute now) now\<rparr>, s'))"

section \<open>The login limiter\<close>

record login_limiter =
  PerAccountWindow :: duration
  PerAccountThreshold :: int
  PerAccountLockoutFor :: duration
  PerIPWindow :: duration
  PerIPThreshold :: int
  PerIPLockoutFor :: duration

record LoginFailureResult =
  AccountLockedNow :: bool
  IPLockedNow :: bool

definition DefaultLoginLockoutConfig :: login_limiter where
  "DefaultLoginLockoutConfig =
     \<lparr>PerAccountWindow = 5 * minute, PerAccountThreshold = 5, PerAccountLockoutFor = 15 * minute,
      PerIPWindow = 5 * minute, PerIPThreshold = 20, PerIPLockoutFor = 15 * minute\<rparr>"

definition NewLoginRateLimiter :: "login_limiter \<Rightarrow> login_limiter" where
  "NewLoginRateLimiter cfg =
     (let d = DefaultLoginLockoutConfig in
      \<lparr>PerAccountWindow = (if PerAccountWindow cfg = 0 then PerAccountWindow d else PerAccountWindow cfg),
       PerAccountThreshold = (if PerAccountThreshold cfg = 0 then PerAccountThreshold d else PerAccountThreshold cfg),
       PerAccountLockoutFor = (if PerAccountLockoutFor cfg = 0 then PerAccountLockoutFor d else PerAccountLockoutFor cfg),
       PerIPWindow = (if PerIPWindow cfg = 0 then PerIPWindow d else PerIPWindow cfg),
       PerIPThreshold = (if PerIPThreshold cfg = 0 then PerIPThreshold d else PerIPThreshold cfg),
       PerIPLockoutFor = (if PerIPLockoutFor cfg = 0 then PerIPLockoutFor d else PerIPLockoutFor cfg)\<rparr>)"

definition loginAccountFailKey :: "string \<Rightarrow> string" where
  "loginAccountFailKey email = ''login:bf:account:fail:'' @ email"

definition loginAccountLockoutKey :: "string \<Rightarrow> string" where
  "loginAccountLockoutKey email = ''login:bf:account:lock:'' @ email"

definition loginIPFailKey :: "string \<Rightarrow> string" where
  "loginIPFailKey ip = ''login:bf:ip:fail:'' @ ip"

definition loginIPLockoutKey :: "string \<Rightarrow> string" where
  "loginIPLockoutKey ip = ''login:bf:ip:lock:'' @ ip"

text \<open>\<open>strings.ToLower\<close>: the ASCII letters of an ASCII string; \<open>uni\<close> stands for the case
  tables of package unicode on any other string.\<close>

definition lower_byte :: "char \<Rightarrow> char" where
  "lower_byte c = (let n = (of_char c :: nat) in if 65 \<le> n \<and> n \<le> 90 then char_of (n + 32) else c)"

definition to_lower :: "(string \<Rightarrow> string) \<Rightarrow> string \<Rightarrow> string" where
  "to_lower uni s = (if list_all (\<lambda>c. (of_char c :: nat) < 128) s then map lower_byte s else uni s)"

definition normalizeEmail :: "(string \<Rightarrow> string) \<Rightarrow> string \<Rightarrow> string" where
  "normalizeEmail uni email = to_lower uni (trim_space email)"

text \<open>One bucket of \<open>Check\<close>: the lockout key's time to live, 0 for none.\<close>

definition checkBucket :: "rl_net \<Rightarrow> gotime \<Rightarrow> string \<Rightarrow> string \<Rightarrow> valkey \<Rightarrow> rl_error + duration" where
  "checkBucket net now subject key s =
     (if subject = [] then Inr 0 else map_sum id (\<lambda>ttl. max ttl 0) (readTTL net now key s))"

definition Check ::
  "rl_net \<Rightarrow> (string \<Rightarrow> string) \<Rightarrow> login_limiter option \<Rightarrow> gotime \<Rightarrow> string \<Rightarrow> string \<Rightarrow> valkey
     \<Rightarrow> rl_error + LockoutStatus" where
  "Check net uni l now email ip s =
     (if l = None then Inr not_locked
      else let email = normalizeEmail uni email in
        case checkBucket net now email (loginAccountLockoutKey email) s of
          Inl e \<Rightarrow> Inl e
        | Inr a \<Rightarrow> (case checkBucket net now ip (loginIPLockoutKey ip) s of
             Inl e \<Rightarrow> Inl e
           | Inr b \<Rightarrow> Inr \<lparr>ls_Locked = (0 < a \<or> 0 < b), ls_RetryAfter = max a b\<rparr>))"

text \<open>One bucket of \<open>RecordFailure\<close>: whether this failure established its lockout.\<close>

definition recordBucket ::
  "rl_net \<Rightarrow> gotime \<Rightarrow> string \<Rightarrow> string \<Rightarrow> string \<Rightarrow> duration \<Rightarrow> int \<Rightarrow> duration \<Rightarrow> valkey
     \<Rightarrow> (rl_error + bool) \<times> valkey" where
  "recordBucket net now subject failKey lockKey window threshold lockFor s =
     (if subject = [] then (Inr False, s)
      else case incrWithExpire net now failKey window s of
          (None, s') \<Rightarrow> (Inl (RlFailed (CountCall failKey)), s')
        | (Some count, s') \<Rightarrow>
            if int count < threshold then (Inr False, s') else setLock net now lockKey lockFor s')"

definition RecordLoginFailure ::
  "rl_net \<Rightarrow> (string \<Rightarrow> string) \<Rightarrow> login_limiter option \<Rightarrow> gotime \<Rightarrow> string \<Rightarrow> string \<Rightarrow> valkey
     \<Rightarrow> (rl_error + LoginFailureResult) \<times> valkey" where
  "RecordLoginFailure net uni limiter now email0 ip s =
     (case limiter of
        None \<Rightarrow> (Inr \<lparr>AccountLockedNow = False, IPLockedNow = False\<rparr>, s)
      | Some l \<Rightarrow>
          let email = normalizeEmail uni email0 in
          (case recordBucket net now email (loginAccountFailKey email) (loginAccountLockoutKey email)
                 (PerAccountWindow l) (PerAccountThreshold l) (PerAccountLockoutFor l) s of
            (Inl e, s1) \<Rightarrow> (Inl e, s1)
          | (Inr a, s1) \<Rightarrow>
              (case recordBucket net now ip (loginIPFailKey ip) (loginIPLockoutKey ip)
                      (PerIPWindow l) (PerIPThreshold l) (PerIPLockoutFor l) s1 of
                 (Inl e, s2) \<Rightarrow> (Inl e, s2)
               | (Inr b, s2) \<Rightarrow> (Inr \<lparr>AccountLockedNow = a, IPLockedNow = b\<rparr>, s2))))"

definition ClearLogin ::
  "rl_net \<Rightarrow> (string \<Rightarrow> string) \<Rightarrow> login_limiter option \<Rightarrow> string \<Rightarrow> valkey \<Rightarrow> (rl_error + unit) \<times> valkey" where
  "ClearLogin net uni l email s =
     (if l = None \<or> email = [] then (Inr (), s)
      else let email = normalizeEmail uni email in
        delKeys net [loginAccountFailKey email, loginAccountLockoutKey email] s)"

section \<open>The pipeline is a counter with a window\<close>

abbreviation up :: rl_net where "up \<equiv> \<lambda>_. Delivered"

lemma vk_live_set_any:
  "vk_live t (s(k \<mapsto> e)) k' =
     (if k' = k then (case vk_expires e of None \<Rightarrow> Some e | Some x \<Rightarrow> if t < x then Some e else None)
      else vk_live t s k')"
  by (simp add: vk_live_def)

lemma vk_live_incrWithExpire_other:
  assumes "k' \<noteq> key"
  shows "vk_live t (snd (incrWithExpire net now key w s)) k' = vk_live t s k'"
proof -
  have incr: "vk_live t (snd (vk_incr now key s)) k' = vk_live t s k'" for s
    using assms by (auto simp: vk_incr_def vk_live_set vk_live_set_any split: option.splits)
  have expire: "vk_live t (vk_expire now key w s) k' = vk_live t s k'" for s
    using assms by (auto simp: vk_expire_def vk_live_set_any split: option.splits)
  show ?thesis by (simp add: incrWithExpire_def split_beta incr expire split: delivery.split)
qed

lemma incrWithExpire_up:
  "incrWithExpire up now key w s = (fst (vk_incr now key s), vk_expire now key w (snd (vk_incr now key s)))"
  by (simp add: incrWithExpire_def split_beta)

lemma vk_incr_counts:
  assumes "vk_count now k s = Some n" "n < 2 ^ 63 - 1"
  shows "fst (vk_incr now k s) = Some (n + 1)"
    and "\<exists>e. vk_live now (snd (vk_incr now k s)) k = Some e \<and> vk_value e = dec_nat (n + 1)"
proof -
  show "fst (vk_incr now k s) = Some (n + 1)"
    using assms by (auto simp: vk_count_def vk_incr_def split: option.splits)
  show "\<exists>e. vk_live now (snd (vk_incr now k s)) k = Some e \<and> vk_value e = dec_nat (n + 1)"
  proof (cases "vk_live now s k")
    case None
    then show ?thesis using assms by (simp add: vk_count_def vk_incr_def vk_live_set)
  next
    case (Some e)
    then have "case vk_expires e of None \<Rightarrow> True | Some x \<Rightarrow> now < x"
      by (auto simp: vk_live_def split: option.splits if_splits)
    with Some show ?thesis
      using assms by (simp add: vk_count_def vk_incr_def vk_live_set_any split: option.splits)
  qed
qed

interpretation pipeline: window_counter "\<lambda>t k. incrWithExpire up t k w" vk_count "vk_secs w" "2 ^ 63 - 1" for w
proof
  show "fst (incrWithExpire up now k w s) = Some (n + 1)"
    if "vk_count now k s = Some n" "n < 2 ^ 63 - 1" for now k s n
    using vk_incr_counts(1) [OF that] by (simp add: incrWithExpire_up)
  show "vk_count t k (snd (incrWithExpire up now k w s)) = Some (if t < now + vk_secs w then n + 1 else 0)"
    if "vk_count now k s = Some n" "n < 2 ^ 63 - 1" "now \<le> t" for now k s n t
  proof -
    from vk_incr_counts(2) [OF that(1,2)] obtain e
      where "vk_live now (snd (vk_incr now k s)) k = Some e" "vk_value e = dec_nat (n + 1)" by blast
    with that(3) show ?thesis
      by (simp add: incrWithExpire_up vk_expire_def vk_count_def vk_live_set_any)
  qed
qed

lemma vk_count_other:
  assumes "k' \<noteq> key" shows "vk_count t k' (snd (setLock net now key d s)) = vk_count t k' s"
  using assms
  by (simp add: setLock_def vk_setnx_def vk_count_def vk_live_set split: delivery.split option.split)

section \<open>Lockout after the threshold\<close>

text \<open>A client of the counter that sets a lock at its \<open>m\<close>-th hit and not before: the lock key is
  then as \<open>SETNX\<close> leaves it, for the whole lockout.\<close>

definition locked_at :: "gotime \<Rightarrow> string \<Rightarrow> duration \<Rightarrow> valkey \<Rightarrow> bool" where
  "locked_at t lockKey d s \<longleftrightarrow>
     (\<forall>u. vk_live u s lockKey = vk_live u (vk_set t lockKey ''1'' d (\<lambda>_. None)) lockKey)"

lemma numbered_locks:
  assumes "window_counter.numbered (\<lambda>t k. incrWithExpire up t k w) failKey act n qs s rs s'"
    and "n + length qs = m" "qs \<noteq> []" "spaced (vk_secs w) (map fst qs)"
    and "vk_live (fst (hd qs)) s lockKey = None" "failKey \<noteq> lockKey"
    and below: "\<And>t q n s u. n < m \<Longrightarrow> proj (fst (act t q (Some n) s)) = no
          \<and> vk_live u (snd (act t q (Some n) s)) lockKey = vk_live u s lockKey"
    and reached: "\<And>t q s. vk_live t s lockKey = None \<Longrightarrow> proj (fst (act t q (Some m) s)) = yes
          \<and> locked_at t lockKey d (snd (act t q (Some m) s))"
  shows "map proj rs = replicate (length qs - 1) no @ [yes] \<and> locked_at (fst (last qs)) lockKey d s'"
  using assms(1-6)
proof (induction rule: pipeline.numbered.induct)
  case (none n s)
  then show ?case by simp
next
  case (more t q n s r s2 qs rs s')
  let ?s1 = "snd (incrWithExpire up t failKey w s)"
  have lock: "vk_live u ?s1 lockKey = vk_live u s lockKey" for u
    using more.prems(5) by (intro vk_live_incrWithExpire_other) simp
  show ?case
  proof (cases "qs = []")
    case True
    with more.hyps(2) have "rs = []" "s' = s2" by (auto elim: pipeline.numbered.cases)
    moreover have "n + 1 = m" "vk_live t ?s1 lockKey = None" using more.prems True lock by simp_all
    ultimately show ?thesis using True more.hyps(1) reached [of t ?s1 q] by simp
  next
    case False
    with more.prems(1) have "n + 1 < m" by (cases qs) simp_all
    from below [OF this, of t q ?s1] more.hyps(1)
    have r: "proj r = no" "\<And>u. vk_live u s2 lockKey = vk_live u s lockKey" using lock by simp_all
    have "t \<le> fst (hd qs)" "spaced (vk_secs w) (map fst qs)"
      using more.prems(3) False by (simp_all add: spaced_Cons hd_map)
    moreover from this(1) have "vk_live (fst (hd qs)) s2 lockKey = None"
      using more.prems(4) r vk_live_mono [of "fst (hd qs)" s lockKey _ t]
      by (cases "vk_live (fst (hd qs)) s lockKey") simp_all
    ultimately have "map proj rs = replicate (length qs - 1) no @ [yes] \<and> locked_at (fst (last qs)) lockKey d s'"
      using more.prems False by (intro more.IH) simp_all
    then show ?thesis using False r by (cases qs) simp_all
  qed
qed

text \<open>A bucket acts on the value of each hit.\<close>

definition bucket_act ::
  "string \<Rightarrow> string \<Rightarrow> int \<Rightarrow> duration \<Rightarrow> gotime \<Rightarrow> nat option \<Rightarrow> valkey \<Rightarrow> (rl_error + bool) \<times> valkey" where
  "bucket_act failKey lockKey threshold lockFor now hit s =
     (case hit of None \<Rightarrow> (Inl (RlFailed (CountCall failKey)), s)
      | Some count \<Rightarrow> if int count < threshold then (Inr False, s) else setLock up now lockKey lockFor s)"

lemma recordBucket_act:
  "subject \<noteq> [] \<Longrightarrow> recordBucket up now subject failKey lockKey w threshold lockFor s =
     bucket_act failKey lockKey threshold lockFor now (fst (incrWithExpire up now failKey w s))
       (snd (incrWithExpire up now failKey w s))"
  by (simp add: recordBucket_def bucket_act_def split_beta split: option.split prod.split)

lemma RecordFailure_bucket:
  "pfx \<noteq> [] \<Longrightarrow> ip \<noteq> [] \<Longrightarrow> RecordFailure net (Some l) now pfx ip s =
     recordBucket net now pfx (failureCounterKey pfx ip) (lockoutKey pfx ip)
       (BruteForceWindow l) (BruteForceThreshold l) (BruteForceLockoutFor l) s"
  by (simp add: RecordFailure_def recordBucket_def)

lemma bucket_act_keeps:
  "k \<noteq> lockKey \<Longrightarrow>
     vk_count u k (snd (bucket_act failKey lockKey threshold lockFor t n s)) = vk_count u k s"
  by (simp add: bucket_act_def vk_count_other split: option.split)

lemma setLock_fresh:
  "vk_live now s key = None \<Longrightarrow> setLock up now key d s = (Inr True, vk_set now key ''1'' d s)"
  by (simp add: setLock_def vk_setnx_def)

lemma bucket_act_below:
  "int n < threshold \<Longrightarrow> bucket_act failKey lockKey threshold lockFor t (Some n) s = (Inr False, s)"
  by (simp add: bucket_act_def)

lemma bucket_act_reached:
  assumes "vk_live t s lockKey = None" "threshold \<le> int n"
  shows "fst (bucket_act failKey lockKey threshold lockFor t (Some n) s) = Inr True \<and>
    locked_at t lockKey lockFor (snd (bucket_act failKey lockKey threshold lockFor t (Some n) s))"
  using assms by (simp add: bucket_act_def setLock_fresh locked_at_def vk_live_set)

text \<open>A run of failures of one prefix and address.\<close>

fun failures ::
  "rate_limiter \<Rightarrow> string \<Rightarrow> string \<Rightarrow> gotime list \<Rightarrow> valkey \<Rightarrow> (rl_error + bool) list \<times> valkey" where
  "failures l pfx ip [] s = ([], s)"
| "failures l pfx ip (t # ts) s =
     (let (r, s') = RecordFailure up (Some l) t pfx ip s; (rs, s'') = failures l pfx ip ts s' in (r # rs, s''))"

lemma failures_serve:
  assumes "pfx \<noteq> []" "ip \<noteq> []"
  shows "failures l pfx ip ts s =
    window_counter.serve (\<lambda>t k. incrWithExpire up t k (BruteForceWindow l)) (failureCounterKey pfx ip)
      (\<lambda>t q. bucket_act (failureCounterKey pfx ip) (lockoutKey pfx ip) (BruteForceThreshold l) (BruteForceLockoutFor l) t)
      (map (\<lambda>t. (t, ())) ts) s"
  using assms
  by (induction ts arbitrary: s) (simp_all add: RecordFailure_bucket recordBucket_act split_beta)

lemma fail_lock_keys: "failureCounterKey pfx ip \<noteq> lockoutKey pfx' ip'"
  by (simp add: failureCounterKey_def lockoutKey_def)

lemma failures_lock_out:
  assumes "pfx \<noteq> []" "ip \<noteq> []" "0 < BruteForceThreshold l" "BruteForceThreshold l < 2 ^ 63"
    and len: "int (length ts) = BruteForceThreshold l"
    and spaced: "spaced (vk_secs (BruteForceWindow l)) ts"
    and "vk_count (hd ts) (failureCounterKey pfx ip) s = Some 0" "vk_live (hd ts) s (lockoutKey pfx ip) = None"
  shows "fst (failures l pfx ip ts s) = replicate (length ts - 1) (Inr False) @ [Inr True] \<and>
    locked_at (last ts) (lockoutKey pfx ip) (BruteForceLockoutFor l) (snd (failures l pfx ip ts s))"
proof -
  let ?k = "failureCounterKey pfx ip" and ?lock = "lockoutKey pfx ip"
  let ?qs = "map (\<lambda>t. (t, ())) ts"
  let ?act = "\<lambda>t (q :: unit). bucket_act ?k ?lock (BruteForceThreshold l) (BruteForceLockoutFor l) t"
  have "ts \<noteq> []" using assms by auto
  have qs: "?qs \<noteq> []" "length ?qs = length ts" "map fst ?qs = ts" "fst (hd ?qs) = hd ts" "fst (last ?qs) = last ts"
    using \<open>ts \<noteq> []\<close> by (simp_all add: hd_map last_map comp_def)
  have "length ts \<le> 2 ^ 63 - 1" using assms(4,5) by simp
  then have "window_counter.numbered (\<lambda>t k. incrWithExpire up t k (BruteForceWindow l)) ?k ?act 0 ?qs s
      (fst (failures l pfx ip ts s)) (snd (failures l pfx ip ts s))"
    unfolding failures_serve [OF assms(1,2)] using assms qs
    by (intro pipeline.serve_numbered bucket_act_keeps fail_lock_keys) simp_all
  then have "map id (fst (failures l pfx ip ts s)) = replicate (length ?qs - 1) (Inr False) @ [Inr True] \<and>
      locked_at (fst (last ?qs)) ?lock (BruteForceLockoutFor l) (snd (failures l pfx ip ts s))"
  proof (rule numbered_locks [where m = "length ts"])
    show "0 + length ?qs = length ts" "?qs \<noteq> []" "?k \<noteq> ?lock" "spaced (vk_secs (BruteForceWindow l)) (map fst ?qs)"
      "vk_live (fst (hd ?qs)) s ?lock = None"
      using qs assms by (simp_all only: fail_lock_keys not_False_eq_True)
    show "id (fst (?act t q (Some n) s)) = Inr False \<and> vk_live u (snd (?act t q (Some n) s)) ?lock = vk_live u s ?lock"
      if "n < length ts" for t n s u and q :: unit
      using that len by (simp add: bucket_act_below)
    show "id (fst (?act t q (Some (length ts)) s)) = Inr True \<and>
        locked_at t ?lock (BruteForceLockoutFor l) (snd (?act t q (Some (length ts)) s))"
      if "vk_live t s ?lock = None" for t s and q :: unit
      using that len by (simp add: bucket_act_reached)
  qed
  then show ?thesis using qs by simp
qed

text \<open>What a lockout key answers, while it lives and after.\<close>

lemma IsLockedOut_locked:
  assumes "pfx \<noteq> []" "ip \<noteq> []" "0 < d" "t \<le> u" "locked_at t (lockoutKey pfx ip) d s"
  shows "IsLockedOut up (Some l) u pfx ip s =
    Inr (if u < t + d then \<lparr>ls_Locked = True, ls_RetryAfter = t + d - u\<rparr> else not_locked)"
  using assms by (simp add: IsLockedOut_def readTTL_def vk_pttl_def locked_at_def vk_live_set vk_deadline_def)


lemma every_spaced: "0 \<le> g \<Longrightarrow> g < w \<Longrightarrow> spaced w (map (\<lambda>i. t + int i * g) [0..<n])"
proof (induction n arbitrary: t)
  case (Suc n)
  have "map (\<lambda>i. t + int i * g) [0..<Suc n] = t # map (\<lambda>i. (t + g) + int i * g) [0..<n]"
    by (rule nth_equalityI) (auto simp: nth_Cons algebra_simps simp del: upt_Suc split: nat.split)
  with Suc show ?case by (auto simp: spaced_Cons hd_map upt_conv_Cons simp del: upt_Suc)
qed simp


text \<open>The window slides: \<open>EXPIRE\<close> moves the counter's deadline on every failure, so ten
  failures 59 seconds apart lock the pair out under the default policy, although they spread over
  nearly nine minutes and no minute holds more than two of them.\<close>

theorem lockout_window_slides:
  assumes "pfx \<noteq> []" "ip \<noteq> []"
  shows "let ts = map (\<lambda>i. t + int i * (59 * second)) [0..<10];
             (rs, s) = failures DefaultRateLimitConfig pfx ip ts (\<lambda>_. None) in
    rs = replicate 9 (Inr False) @ [Inr True] \<and> last ts - hd ts = 531 * second \<and>
    IsLockedOut up (Some DefaultRateLimitConfig) (last ts) pfx ip s =
      Inr \<lparr>ls_Locked = True, ls_RetryAfter = 5 * minute\<rparr>"
proof -
  define ts where "ts = map (\<lambda>i. t + int i * (59 * second)) [0..<10]"
  have "vk_secs minute = minute" using vk_secs_whole [of 60] by (simp add: minute_def second_def)
  moreover have "spaced minute ts" unfolding ts_def by (rule every_spaced) (simp_all add: second_def minute_def)
  moreover have "length ts = 10" "hd ts = t" "last ts = t + 531 * second"
    by (simp_all add: ts_def hd_map upt_rec)
  ultimately have
    "fst (failures DefaultRateLimitConfig pfx ip ts (\<lambda>_. None)) = replicate 9 (Inr False) @ [Inr True] \<and>
     locked_at (last ts) (lockoutKey pfx ip) (5 * minute) (snd (failures DefaultRateLimitConfig pfx ip ts (\<lambda>_. None)))"
    using failures_lock_out [OF assms, of DefaultRateLimitConfig ts "\<lambda>_. None"]
    by (simp add: DefaultRateLimitConfig_def vk_count_def vk_live_def)
  then show ?thesis
    using IsLockedOut_locked [OF assms, of "5 * minute" "last ts" "last ts"] \<open>hd ts = t\<close> \<open>last ts = _\<close>
    by (simp add: ts_def [symmetric] split_beta minute_def)
qed

theorem lockout_window_slides_witness:
  "IsLockedOut up (Some DefaultRateLimitConfig) (531 * second) ''cy_ABCDEFGH'' ''10.0.0.1''
     (snd (failures DefaultRateLimitConfig ''cy_ABCDEFGH'' ''10.0.0.1'' (map (\<lambda>i. int i * (59 * second)) [0..<10]) (\<lambda>_. None))) =
     Inr \<lparr>ls_Locked = True, ls_RetryAfter = 5 * minute\<rparr>"
proof -
  have "last (map (\<lambda>i. int i * (59 * second)) [0..<10]) = 531 * second" by (simp add: upt_rec)
  then show ?thesis
    using lockout_window_slides [of "''cy_ABCDEFGH''" "''10.0.0.1''" 0] by (simp add: split_beta Let_def)
qed

section \<open>The throttle of an authenticated key\<close>

fun throttled ::
  "(uuid \<Rightarrow> string) \<Rightarrow> rate_limiter \<Rightarrow> uuid \<Rightarrow> int \<Rightarrow> gotime list \<Rightarrow> valkey \<Rightarrow> (rl_error + ThrottleStatus) list \<times> valkey" where
  "throttled uuid_str l keyID rpm [] s = ([], s)"
| "throttled uuid_str l keyID rpm (t # ts) s =
     (let (r, s') = AllowSuccess up uuid_str (Some l) t keyID rpm s;
          (rs, s'') = throttled uuid_str l keyID rpm ts s' in (r # rs, s''))"

definition throttle_answer :: "int \<Rightarrow> int \<Rightarrow> gotime \<Rightarrow> ThrottleStatus" where
  "throttle_answer rpm count now =
     (if count \<le> rpm
      then \<lparr>ts_Allowed = True, ts_Limit = rpm, ts_Remaining = rpm - count, ts_RetryAfter = 0\<rparr>
      else \<lparr>ts_Allowed = False, ts_Limit = rpm, ts_Remaining = 0, ts_RetryAfter = time_sub (nextMinute now) now\<rparr>)"

definition throttle_act ::
  "string \<Rightarrow> int \<Rightarrow> gotime \<Rightarrow> nat option \<Rightarrow> valkey \<Rightarrow> (rl_error + ThrottleStatus) \<times> valkey" where
  "throttle_act key rpm now hit s =
     (case hit of None \<Rightarrow> (Inl (RlFailed (CountCall key)), s)
      | Some count \<Rightarrow>
          (Inr (throttle_answer rpm (int count) now), s))"

lemma minute_of_unix:
  assumes "0 \<le> t" "t < 2 ^ 63 * second"
  shows "unix_seconds t sdiv 60 = t div minute"
proof -
  have "t div second < 2 ^ 63" using assms(2) by (simp add: second_def)
  moreover have "0 \<le> t div second" using assms(1) by (simp add: second_def)
  ultimately have "unix_seconds t = t div second" by (simp add: unix_seconds_def wrap64_small)
  with \<open>0 \<le> t div second\<close> have "unix_seconds t sdiv 60 = t div second div 60" by simp
  also have "\<dots> = t div (second * 60)" by (simp add: zdiv_zmult2_eq)
  finally show ?thesis by (simp add: minute_def second_def)
qed

lemma same_minute_key:
  "0 \<le> t \<Longrightarrow> t < 2 ^ 63 * second \<Longrightarrow>
     perKeyCounterKey uuid_str keyID t = ''apikey:rl:'' @ uuid_str keyID @ '':'' @ fmt_int (t div minute)"
  by (simp add: perKeyCounterKey_def minute_of_unix)

lemma throttled_serve:
  assumes "keyID \<noteq> uuid_nil" "0 < rpm" "\<forall>t\<in>set ts. perKeyCounterKey uuid_str keyID t = key"
  shows "throttled uuid_str l keyID rpm ts s =
    window_counter.serve (\<lambda>t k. incrWithExpire up t k (70 * second)) key
      (\<lambda>t (q :: unit). throttle_act key rpm t) (map (\<lambda>t. (t, ())) ts) s"
  using assms
proof (induction ts arbitrary: s)
  case (Cons t ts)
  have "AllowSuccess up uuid_str (Some l) t keyID rpm s =
      throttle_act key rpm t (fst (incrWithExpire up t key (70 * second) s)) (snd (incrWithExpire up t key (70 * second) s))" for s
    using Cons.prems by (simp add: AllowSuccess_def throttle_act_def throttle_answer_def split_beta split: option.split prod.split)
  with Cons show ?case by (simp add: split_beta)
qed simp

lemma throttle_act_keeps: "vk_count u k (snd (throttle_act key rpm t n s)) = vk_count u k s"
  by (simp add: throttle_act_def split: option.split)

lemma numbered_throttle:
  assumes "window_counter.numbered (\<lambda>t k. incrWithExpire up t k w) key (\<lambda>t (q :: unit). throttle_act key rpm t) n qs s rs s'"
  shows "rs = map (\<lambda>(i, t). Inr (throttle_answer rpm (int (n + 1 + i)) t))
    (zip [0..<length qs] (map fst qs))"
  using assms
proof (induction rule: pipeline.numbered.induct)
  case (more t q n s r s2 qs rs s')
  have "zip [0..<length ((t, q) # qs)] (map fst ((t, q) # qs)) =
      (0, t) # map (\<lambda>(i, t). (Suc i, t)) (zip [0..<length qs] (map fst qs))"
    by (rule nth_equalityI) (auto simp: nth_Cons simp del: upt_Suc split: nat.split)
  with more show ?case by (auto simp: throttle_act_def comp_def split_beta)
qed simp

lemma minute_gap: "a div minute = b div minute \<Longrightarrow> a \<le> b \<Longrightarrow> b < a + 70 * second"
  by (simp add: minute_def second_def)

lemma same_minute_spaced:
  "sorted ts \<Longrightarrow> (\<forall>t\<in>set ts. t div minute = m) \<Longrightarrow> spaced (70 * second) ts"
proof (induction ts)
  case (Cons a ts)
  then have "ts \<noteq> [] \<longrightarrow> a \<le> hd ts \<and> hd ts < a + 70 * second"
    using minute_gap [of a "hd ts"] by auto
  with Cons show ?case by (simp add: spaced_Cons)
qed simp

lemma nextMinute_multiple: "nextMinute t = (t div minute + 1) * minute"
  by (simp add: nextMinute_def algebra_simps flip: minus_mod_eq_div_mult)

lemma minute_pos: "0 < minute"
  by (simp add: minute_def)

lemma nextMinute_bounds:
  "t < nextMinute t" "nextMinute t \<le> t + minute" "nextMinute t div minute = t div minute + 1"
proof -
  have "0 \<le> t mod minute" "t mod minute < minute" using minute_pos by simp_all
  then show "t < nextMinute t" "nextMinute t \<le> t + minute" by (simp_all add: nextMinute_def)
  show "nextMinute t div minute = t div minute + 1"
    using minute_pos by (simp only: nextMinute_multiple nonzero_mult_div_cancel_right less_imp_neq [symmetric] not_False_eq_True)
qed

text \<open>Within one minute a key is let through exactly as often as its limit allows: the \<open>i\<close>-th
  request is allowed with \<open>rpm - i\<close> remaining while \<open>i \<le> rpm\<close>, every later one is refused, and
  the time to retry ends exactly where the next minute, with a counter of its own, begins.\<close>

theorem throttle_per_minute:
  assumes "keyID \<noteq> uuid_nil" "0 < rpm" "sorted ts" "length ts < 2 ^ 63"
    and minute: "\<forall>t\<in>set ts. t div minute = m \<and> 0 \<le> t \<and> t + minute < 2 ^ 63 * second"
    and fresh: "ts \<noteq> [] \<Longrightarrow> vk_count (hd ts) (perKeyCounterKey uuid_str keyID (hd ts)) s = Some 0"
  shows "let rs = fst (throttled uuid_str l keyID rpm ts s) in
    length rs = length ts \<and>
    (\<forall>i < length ts. let t = ts ! i in
       rs ! i = Inr (if int (i + 1) \<le> rpm
         then \<lparr>ts_Allowed = True, ts_Limit = rpm, ts_Remaining = rpm - int (i + 1), ts_RetryAfter = 0\<rparr>
         else \<lparr>ts_Allowed = False, ts_Limit = rpm, ts_Remaining = 0, ts_RetryAfter = nextMinute t - t\<rparr>) \<and>
       perKeyCounterKey uuid_str keyID (nextMinute t) \<noteq> perKeyCounterKey uuid_str keyID t)"
proof -
  define key where "key = ''apikey:rl:'' @ uuid_str keyID @ '':'' @ fmt_int m"
  let ?qs = "map (\<lambda>t. (t, ())) ts"
  have key: "\<forall>t\<in>set ts. perKeyCounterKey uuid_str keyID t = key"
    using minute minute_pos same_minute_key unfolding key_def by fastforce
  have "vk_secs (70 * second) = 70 * second" using vk_secs_whole [of 70] by simp
  with same_minute_spaced [OF assms(3), of m] minute
  have spaced: "spaced (vk_secs (70 * second)) (map fst ?qs)" by (simp add: comp_def)
  have "vk_count (fst (hd ?qs)) key s = Some 0" if "?qs \<noteq> []"
    using that fresh key by (simp add: hd_map)
  with spaced have "window_counter.numbered (\<lambda>t k. incrWithExpire up t k (70 * second)) key
      (\<lambda>t (q :: unit). throttle_act key rpm t) 0 ?qs s
      (fst (throttled uuid_str l keyID rpm ts s)) (snd (throttled uuid_str l keyID rpm ts s))"
    unfolding throttled_serve [OF assms(1,2) key] using assms(4)
    by (intro pipeline.serve_numbered throttle_act_keeps) simp_all
  from numbered_throttle [OF this] have rs: "fst (throttled uuid_str l keyID rpm ts s) =
      map (\<lambda>(i, t). Inr (throttle_answer rpm (int (i + 1)) t))
      (zip [0..<length ts] ts)" by (simp add: comp_def)
  have retry: "time_sub (nextMinute t) t = nextMinute t - t" for t
    using nextMinute_bounds [of t] by (intro time_sub_small) (simp add: is_int64_def minute_def)
  have other: "perKeyCounterKey uuid_str keyID (nextMinute t) \<noteq> perKeyCounterKey uuid_str keyID t" if "t \<in> set ts" for t
    using minute that nextMinute_bounds [of t] minute_pos by (auto simp: same_minute_key)
  show ?thesis unfolding rs by (simp add: Let_def throttle_answer_def retry other)
qed

theorem throttle_per_minute_witness:
  "map (map_sum id ts_Allowed) (fst (throttled (\<lambda>_. ''key'') DefaultRateLimitConfig 7 2 [0, second, 2 * second] (\<lambda>_. None))) =
     [Inr True, Inr True, Inr False]"
proof -
  let ?ts = "[0, second, 2 * second]"
  define rs where "rs = fst (throttled (\<lambda>_. ''key'') DefaultRateLimitConfig 7 2 ?ts (\<lambda>_. None))"
  have minute: "\<forall>t\<in>set ?ts. t div minute = 0 \<and> 0 \<le> t \<and> t + minute < 2 ^ 63 * second"
    by (simp add: second_def minute_def)
  have side: "(7 :: uuid) \<noteq> uuid_nil" "0 < (2 :: int)" "sorted ?ts" "length ?ts < 2 ^ 63"
    "vk_count (hd ?ts) (perKeyCounterKey (\<lambda>_. ''key'') 7 (hd ?ts)) (\<lambda>_. None) = Some 0"
    by (simp_all add: second_def vk_count_def vk_live_def)
  have "length rs = length ?ts \<and> (\<forall>i < length ?ts. map_sum id ts_Allowed (rs ! i) = Inr (int (i + 1) \<le> 2))"
    using throttle_per_minute [OF side(1-4) minute side(5), of DefaultRateLimitConfig, folded rs_def]
    unfolding Let_def by simp
  then have "map (map_sum id ts_Allowed) rs = map (\<lambda>i. Inr (int (i + 1) \<le> 2)) [0..<3]"
    by (intro nth_equalityI) simp_all
  then show ?thesis by (simp add: rs_def upt_rec)
qed

section \<open>One account, many addresses\<close>

text \<open>Failed logins, each with its time, address as typed and source address.\<close>

fun login_failures ::
  "(string \<Rightarrow> string) \<Rightarrow> login_limiter \<Rightarrow> (gotime \<times> string \<times> string) list \<Rightarrow> valkey \<Rightarrow> valkey" where
  "login_failures uni l [] s = s"
| "login_failures uni l ((t, email, ip) # qs) s =
     login_failures uni l qs (snd (RecordLoginFailure up uni (Some l) t email ip s))"

text \<open>What a failure does after its hit on the account counter.\<close>

definition login_act ::
  "login_limiter \<Rightarrow> string \<Rightarrow> gotime \<Rightarrow> string \<times> string \<Rightarrow> nat option \<Rightarrow> valkey \<Rightarrow> unit \<times> valkey" where
  "login_act l email t q hit s =
     ((), case bucket_act (loginAccountFailKey email) (loginAccountLockoutKey email) (PerAccountThreshold l)
                 (PerAccountLockoutFor l) t hit s of
            (Inl e, s1) \<Rightarrow> s1
          | (Inr a, s1) \<Rightarrow> snd (recordBucket up t (snd q) (loginIPFailKey (snd q)) (loginIPLockoutKey (snd q))
                      (PerIPWindow l) (PerIPThreshold l) (PerIPLockoutFor l) s1))"

lemma login_keys:
  "loginAccountFailKey e \<noteq> loginAccountLockoutKey e'" "loginAccountFailKey e \<noteq> loginIPFailKey ip"
  "loginAccountFailKey e \<noteq> loginIPLockoutKey ip" "loginAccountLockoutKey e \<noteq> loginIPFailKey ip"
  "loginAccountLockoutKey e \<noteq> loginIPLockoutKey ip"
  by (simp_all add: loginAccountFailKey_def loginAccountLockoutKey_def loginIPFailKey_def loginIPLockoutKey_def)

lemma recordBucket_other:
  assumes "k \<noteq> failKey" "k \<noteq> lockKey"
  shows "vk_live u (snd (recordBucket up now subject failKey lockKey w m d s)) k = vk_live u s k"
proof (cases "subject = []")
  case False
  have lock: "vk_live u (snd (setLock up now lockKey d s)) k = vk_live u s k" for s
    using assms(2) by (simp add: setLock_def vk_setnx_def vk_live_set split: option.split)
  show ?thesis
    using assms(1)
    by (simp add: recordBucket_act [OF False] bucket_act_def lock vk_live_incrWithExpire_other split: option.split)
qed (simp add: recordBucket_def)

lemma login_failures_serve:
  assumes "email \<noteq> []" "\<forall>(t, e, ip)\<in>set qs. normalizeEmail uni e = email"
  shows "login_failures uni l qs s = snd (window_counter.serve (\<lambda>t k. incrWithExpire up t k (PerAccountWindow l))
    (loginAccountFailKey email) (login_act l email) qs s)"
  using assms(2)
proof (induction qs arbitrary: s)
  case (Cons p qs)
  obtain t e ip where p: "p = (t, e, ip)" by (cases p)
  have "snd (RecordLoginFailure up uni (Some l) t e ip s) =
      snd (login_act l email t (e, ip) (fst (incrWithExpire up t (loginAccountFailKey email) (PerAccountWindow l) s))
        (snd (incrWithExpire up t (loginAccountFailKey email) (PerAccountWindow l) s)))" for s
    using Cons.prems assms(1) p
    by (simp add: RecordLoginFailure_def login_act_def recordBucket_act Let_def split_beta
        split: prod.split sum.split)
  with Cons p show ?case by (simp add: split_beta)
qed simp

lemma login_act_keeps:
  "vk_count u (loginAccountFailKey email) (snd (login_act l email t q n s)) = vk_count u (loginAccountFailKey email) s"
proof -
  let ?r = "bucket_act (loginAccountFailKey email) (loginAccountLockoutKey email) (PerAccountThreshold l) (PerAccountLockoutFor l) t n s"
  have "vk_count u (loginAccountFailKey email) (snd ?r) = vk_count u (loginAccountFailKey email) s"
    by (rule bucket_act_keeps) (rule login_keys)
  then show ?thesis
    by (cases ?r; cases "fst ?r") (simp_all add: login_act_def vk_count_def recordBucket_other login_keys)
qed

lemma login_act_lock:
  "int n < PerAccountThreshold l \<Longrightarrow>
     vk_live u (snd (login_act l email t q (Some n) s)) (loginAccountLockoutKey email) = vk_live u s (loginAccountLockoutKey email)"
  "vk_live t s (loginAccountLockoutKey email) = None \<Longrightarrow> PerAccountThreshold l \<le> int n \<Longrightarrow>
     locked_at t (loginAccountLockoutKey email) (PerAccountLockoutFor l) (snd (login_act l email t q (Some n) s))"
proof -
  let ?r = "bucket_act (loginAccountFailKey email) (loginAccountLockoutKey email) (PerAccountThreshold l) (PerAccountLockoutFor l) t (Some n) s"
  show "vk_live u (snd (login_act l email t q (Some n) s)) (loginAccountLockoutKey email) = vk_live u s (loginAccountLockoutKey email)"
    if "int n < PerAccountThreshold l"
    using that by (simp add: login_act_def bucket_act_below recordBucket_other login_keys)
  assume "vk_live t s (loginAccountLockoutKey email) = None" "PerAccountThreshold l \<le> int n"
  from bucket_act_reached [OF this, of "loginAccountFailKey email" "PerAccountLockoutFor l"]
  have "fst ?r = Inr True" "locked_at t (loginAccountLockoutKey email) (PerAccountLockoutFor l) (snd ?r)"
    by simp_all
  then show "locked_at t (loginAccountLockoutKey email) (PerAccountLockoutFor l) (snd (login_act l email t q (Some n) s))"
    by (cases ?r) (simp add: login_act_def locked_at_def recordBucket_other login_keys)
qed

text \<open>Failed logins of one account, spelled in whatever case and from whatever addresses,
  lock the account: when they are as many as its threshold, each less than a window after the one
  before, every login of the account is refused from every address for the lockout time, with a
  retry time that covers what is left of it.\<close>

theorem login_account_lockout:
  assumes "email \<noteq> []" and same: "\<forall>(t, e, ip)\<in>set qs. normalizeEmail uni e = email"
    and "0 < PerAccountThreshold l" "PerAccountThreshold l < 2 ^ 63" "0 < PerAccountLockoutFor l"
    and len: "int (length qs) = PerAccountThreshold l" and "spaced (vk_secs (PerAccountWindow l)) (map fst qs)"
    and "vk_count (fst (hd qs)) (loginAccountFailKey email) s = Some 0"
    and "vk_live (fst (hd qs)) s (loginAccountLockoutKey email) = None"
    and "fst (last qs) \<le> u" "u < fst (last qs) + PerAccountLockoutFor l" "normalizeEmail uni e' = email"
  shows "\<exists>r. Check up uni (Some l) u e' ip' (login_failures uni l qs s) = Inr \<lparr>ls_Locked = True, ls_RetryAfter = r\<rparr>
    \<and> fst (last qs) + PerAccountLockoutFor l - u \<le> r"
proof -
  let ?k = "loginAccountFailKey email" and ?lock = "loginAccountLockoutKey email"
  define s' where "s' = login_failures uni l qs s"
  have "qs \<noteq> []" using len assms(3) by auto
  have "length qs \<le> 2 ^ 63 - 1" using assms(4) len by simp
  with assms have "window_counter.numbered (\<lambda>t k. incrWithExpire up t k (PerAccountWindow l)) ?k (login_act l email) 0 qs s
      (fst (window_counter.serve (\<lambda>t k. incrWithExpire up t k (PerAccountWindow l)) ?k (login_act l email) qs s)) s'"
    unfolding s'_def login_failures_serve [OF assms(1) same]
    by (intro pipeline.serve_numbered login_act_keeps) simp_all
  then have "map (\<lambda>_. ()) (fst (window_counter.serve (\<lambda>t k. incrWithExpire up t k (PerAccountWindow l)) ?k (login_act l email) qs s))
        = replicate (length qs - 1) () @ [()] \<and> locked_at (fst (last qs)) ?lock (PerAccountLockoutFor l) s'"
  proof (rule numbered_locks [where m = "length qs"])
    show "0 + length qs = length qs" "qs \<noteq> []" "spaced (vk_secs (PerAccountWindow l)) (map fst qs)"
      "vk_live (fst (hd qs)) s ?lock = None" "?k \<noteq> ?lock"
      using \<open>qs \<noteq> []\<close> assms(7,9) login_keys(1) by simp_all
    show "() = () \<and> vk_live u (snd (login_act l email t q (Some n) s)) ?lock = vk_live u s ?lock"
      if "n < length qs" for t q n s u
      using that len by (simp add: login_act_lock)
    show "() = () \<and> locked_at t ?lock (PerAccountLockoutFor l) (snd (login_act l email t q (Some (length qs)) s))"
      if "vk_live t s ?lock = None" for t q s
      using that len by (simp add: login_act_lock)
  qed
  then have "locked_at (fst (last qs)) ?lock (PerAccountLockoutFor l) s'" by blast
  then have "vk_pttl u ?lock s' = fst (last qs) + PerAccountLockoutFor l - u"
    using assms(5,10,11) by (simp add: locked_at_def vk_pttl_def vk_live_set vk_deadline_def)
  then show ?thesis
    using assms(1,11,12) by (auto simp: Check_def checkBucket_def readTTL_def Let_def simp flip: s'_def)
qed

theorem login_account_lockout_witness:
  "\<exists>r. Check up id (Some DefaultLoginLockoutConfig) (5 * second) ''a@b'' ''10.9.9.9''
     (login_failures id DefaultLoginLockoutConfig
        [(second, ''a@b'', ''10.0.0.1''), (2 * second, ''A@b'', ''10.0.0.2''), (3 * second, ''a@B'', ''10.0.0.3''),
         (4 * second, ''A@B'', ''10.0.0.4''), (5 * second, ''a@b'', ''10.0.0.5'')] (\<lambda>_. None)) =
     Inr \<lparr>ls_Locked = True, ls_RetryAfter = r\<rparr>"
proof -
  let ?qs = "[(second, ''a@b'', ''10.0.0.1''), (2 * second, ''A@b'', ''10.0.0.2''), (3 * second, ''a@B'', ''10.0.0.3''),
         (4 * second, ''A@B'', ''10.0.0.4''), (5 * second, ''a@b'', ''10.0.0.5'')]"
  have letters: "\<not> space_byte CHR ''a''" "\<not> space_byte CHR ''b''" "\<not> space_byte CHR ''A''" "\<not> space_byte CHR ''B''"
    using space_byte_code by force+
  have "(of_char (lower_byte CHR ''a'') :: nat) = of_char CHR ''a''" "(of_char (lower_byte CHR ''b'') :: nat) = of_char CHR ''b''"
    "(of_char (lower_byte CHR ''@'') :: nat) = of_char CHR ''@''" "(of_char (lower_byte CHR ''A'') :: nat) = of_char CHR ''a''"
    "(of_char (lower_byte CHR ''B'') :: nat) = of_char CHR ''b''"
    by (simp_all add: lower_byte_def Let_def)
  then have lower: "lower_byte CHR ''a'' = CHR ''a''" "lower_byte CHR ''b'' = CHR ''b''" "lower_byte CHR ''@'' = CHR ''@''"
    "lower_byte CHR ''A'' = CHR ''a''" "lower_byte CHR ''B'' = CHR ''b''"
    by (simp_all only: of_char_eq_iff)
  have norm: "normalizeEmail id ''a@b'' = ''a@b''" "normalizeEmail id ''A@b'' = ''a@b''"
    "normalizeEmail id ''a@B'' = ''a@b''" "normalizeEmail id ''A@B'' = ''a@b''"
    by (simp_all add: normalizeEmail_def to_lower_def trim_space_id letters lower)
  then have same: "\<forall>(t, e, ip)\<in>set ?qs. normalizeEmail id e = ''a@b''" by simp
  have "5 * minute = 300 * second" by (simp add: minute_def second_def)
  then have "vk_secs (PerAccountWindow DefaultLoginLockoutConfig) = 300 * second"
    using vk_secs_whole [of 300] by (simp only: DefaultLoginLockoutConfig_def login_limiter.simps)
  then have "spaced (vk_secs (PerAccountWindow DefaultLoginLockoutConfig)) (map fst ?qs)"
    by (simp add: second_def)
  moreover have "0 < PerAccountThreshold DefaultLoginLockoutConfig" "PerAccountThreshold DefaultLoginLockoutConfig < 2 ^ 63"
    "0 < PerAccountLockoutFor DefaultLoginLockoutConfig" "int (length ?qs) = PerAccountThreshold DefaultLoginLockoutConfig"
    "fst (last ?qs) \<le> 5 * second" "5 * second < fst (last ?qs) + PerAccountLockoutFor DefaultLoginLockoutConfig"
    by (simp_all add: DefaultLoginLockoutConfig_def second_def minute_def)
  moreover have "vk_count (fst (hd ?qs)) (loginAccountFailKey ''a@b'') (\<lambda>_. None) = Some 0"
    "vk_live (fst (hd ?qs)) (\<lambda>_. None) (loginAccountLockoutKey ''a@b'') = None"
    by (simp_all add: vk_count_def vk_live_def)
  ultimately show ?thesis
    using login_account_lockout [OF _ same _ _ _ _ _ _ _ _ _ norm(1), of DefaultLoginLockoutConfig "\<lambda>_. None" "5 * second" "''10.9.9.9''"]
    by blast
qed

text \<open>A lockout concerns its own pair: failures recorded under one prefix and address never
  change whether another pair is locked out, for prefixes of one length (the middleware cuts them
  to one), even where an address contains the separator; and clearing an account never lifts the
  lockout of an address.\<close>

theorem lockout_isolated:
  assumes "length pfx = length pfx'" "(pfx, ip) \<noteq> (pfx', ip')"
  shows "IsLockedOut net' l' u pfx' ip' (snd (RecordFailure net l now pfx ip s)) = IsLockedOut net' l' u pfx' ip' s \<and>
    vk_live u (snd (ClearLogin net uni ll email s)) (loginIPLockoutKey ip) = vk_live u s (loginIPLockoutKey ip)"
proof
  have "lockoutKey pfx' ip' \<noteq> lockoutKey pfx ip"
    using assms by (auto simp: lockoutKey_def)
  then have "vk_live u (snd (RecordFailure net l now pfx ip s)) (lockoutKey pfx' ip') = vk_live u s (lockoutKey pfx' ip')"
  proof -
    assume ne: "lockoutKey pfx' ip' \<noteq> lockoutKey pfx ip"
    have "vk_live u (snd (setLock net now (lockoutKey pfx ip) d s)) (lockoutKey pfx' ip') = vk_live u s (lockoutKey pfx' ip')" for d s
      using ne by (simp add: setLock_def vk_setnx_def vk_live_set split: delivery.split option.split)
    moreover have "vk_live u s' (lockoutKey pfx' ip') = vk_live u s (lockoutKey pfx' ip')"
      if "incrWithExpire net now (failureCounterKey pfx ip) w s = (r, s')" for r s' w
      using vk_live_incrWithExpire_other [of "lockoutKey pfx' ip'" "failureCounterKey pfx ip" u net now w s] that
      by (simp add: fail_lock_keys [symmetric])
    ultimately show ?thesis
      by (auto simp: RecordFailure_def split: option.split prod.split)
  qed
  then show "IsLockedOut net' l' u pfx' ip' (snd (RecordFailure net l now pfx ip s)) = IsLockedOut net' l' u pfx' ip' s"
    by (simp add: IsLockedOut_def readTTL_def vk_pttl_def)
  show "vk_live u (snd (ClearLogin net uni ll email s)) (loginIPLockoutKey ip) = vk_live u s (loginIPLockoutKey ip)"
    by (simp add: ClearLogin_def delKeys_def Let_def login_keys loginAccountFailKey_def loginAccountLockoutKey_def
        loginIPLockoutKey_def split: delivery.split)
qed

theorem lockout_isolated_witness:
  "IsLockedOut up (Some DefaultRateLimitConfig) 0 ''cy_AAAAAAAA'' ''::1''
     (snd (RecordFailure up (Some DefaultRateLimitConfig) 0 ''cy_AAAAAAAA'' ''10.0.0.1'' (\<lambda>_. None))) = Inr not_locked"
  using lockout_isolated [of "''cy_AAAAAAAA''" "''cy_AAAAAAAA''" "''10.0.0.1''" "''::1''" up "Some DefaultRateLimitConfig" 0
      up "Some DefaultRateLimitConfig" 0 "\<lambda>_. None"]
  by (simp add: IsLockedOut_def readTTL_def vk_pttl_def vk_live_def)

end
