(* ===== verification/Base64.thy ===== *)
theory Base64
  imports GoText
begin

text \<open>
  The unpadded standard encodings of packages encoding/base64 and encoding/base32, and
  \<open>strings.Split\<close>, which the
  stored forms of API keys and passwords are written with.
\<close>

section \<open>base64.RawStdEncoding\<close>

definition b64_digit :: "nat \<Rightarrow> char" where
  "b64_digit n = char_of (if n < 26 then 65 + n else if n < 52 then 71 + n else if n < 62 then n - 4
     else if n = 62 then 43 else 47)"

definition b64_val :: "char \<Rightarrow> nat option" where
  "b64_val c =
     (let n = (of_char c :: nat) in
      if 65 \<le> n \<and> n \<le> 90 then Some (n - 65)
      else if 97 \<le> n \<and> n \<le> 122 then Some (n - 71)
      else if 48 \<le> n \<and> n \<le> 57 then Some (n + 4)
      else if n = 43 then Some 62 else if n = 47 then Some 63 else None)"

fun b64_sextets :: "nat list \<Rightarrow> nat list" where
  "b64_sextets [] = []"
| "b64_sextets [x] = [x div 4, x mod 4 * 16]"
| "b64_sextets [x, y] = [x div 4, x mod 4 * 16 + y div 16, y mod 16 * 4]"
| "b64_sextets (x # y # z # r) =
     x div 4 # (x mod 4 * 16 + y div 16) # (y mod 16 * 4 + z div 64) # (z mod 64) # b64_sextets r"

fun b64_octets :: "nat list \<Rightarrow> nat list option" where
  "b64_octets [] = Some []"
| "b64_octets [a] = None"
| "b64_octets [a, b] = Some [a * 4 + b div 16]"
| "b64_octets [a, b, c] = Some [a * 4 + b div 16, b mod 16 * 16 + c div 4]"
| "b64_octets (a # b # c # d # r) =
     map_option (\<lambda>xs. (a * 4 + b div 16) # (b mod 16 * 16 + c div 4) # (c mod 4 * 64 + d) # xs) (b64_octets r)"

definition b64_encode :: "string \<Rightarrow> string" where
  "b64_encode s = map b64_digit (b64_sextets (map of_char s))"

fun all_vals :: "string \<Rightarrow> nat list option" where
  "all_vals [] = Some []"
| "all_vals (c # cs) = (case b64_val c of None \<Rightarrow> None | Some v \<Rightarrow> map_option (Cons v) (all_vals cs))"

text \<open>The decoder skips line breaks and does not look at the unused bits of the last digit.\<close>

definition b64_decode :: "string \<Rightarrow> string option" where
  "b64_decode s =
     (case all_vals (filter (\<lambda>c. c \<noteq> char_of (10 :: nat) \<and> c \<noteq> char_of (13 :: nat)) s) of
        None \<Rightarrow> None
      | Some vs \<Rightarrow> map_option (map char_of) (b64_octets vs))"

lemma b64_val_digit [simp]: "n < 64 \<Longrightarrow> b64_val (b64_digit n) = Some n"
  by (auto simp: b64_val_def b64_digit_def Let_def)

lemma b64_digit_range: "n < 64 \<Longrightarrow> b64_digit n \<noteq> char_of (10 :: nat) \<and> b64_digit n \<noteq> char_of (13 :: nat) \<and> b64_digit n \<noteq> CHR ''$''"
proof -
  assume "n < 64"
  then have "(of_char (b64_digit n) :: nat) \<notin> {10, 13, 36}"
    by (auto simp: b64_digit_def)
  then show ?thesis by auto
qed

lemma b64_sextets_bound: "\<forall>x\<in>set xs. x < 256 \<Longrightarrow> \<forall>y\<in>set (b64_sextets xs). y < 64"
  by (induction xs rule: b64_sextets.induct) auto

lemma b64_octets_sextets: "\<forall>x\<in>set xs. x < 256 \<Longrightarrow> b64_octets (b64_sextets xs) = Some xs"
  by (induction xs rule: b64_sextets.induct) auto

lemma all_vals_digits: "\<forall>y\<in>set ys. y < 64 \<Longrightarrow> all_vals (map b64_digit ys) = Some ys"
  by (induction ys) auto

lemma b64_decode_encode [simp]: "b64_decode (b64_encode s) = Some s"
proof -
  let ?ys = "b64_sextets (map of_char s)"
  have "\<forall>x\<in>set (map of_char s). x < (256 :: nat)" by auto
  note b = b64_sextets_bound [OF this] b64_octets_sextets [OF this]
  from b(1) have "filter (\<lambda>c. c \<noteq> char_of (10 :: nat) \<and> c \<noteq> char_of (13 :: nat)) (map b64_digit ?ys) = map b64_digit ?ys"
    by (intro filter_True) (auto dest: b64_digit_range)
  then show ?thesis using b by (simp add: b64_decode_def b64_encode_def all_vals_digits comp_def)
qed

lemma b64_encode_no_dollar: "CHR ''$'' \<notin> set (b64_encode s)"
proof -
  have "\<forall>x\<in>set (map of_char s). x < (256 :: nat)" by auto
  from b64_sextets_bound [OF this] show ?thesis unfolding b64_encode_def using b64_digit_range by fastforce
qed

interpretation b64: codec "\<lambda>b. Some (b64_encode b)" "\<lambda>s. case b64_decode s of None \<Rightarrow> Inl () | Some b \<Rightarrow> Inr b" "\<lambda>b. True"
  by unfold_locales simp

section \<open>base32.StdEncoding without padding\<close>

definition b32_digit :: "nat \<Rightarrow> char" where
  "b32_digit n = char_of (if n < 26 then 65 + n else 24 + n)"

text \<open>Five bits at a time, the most significant first; the last group is filled with zeros.\<close>

definition byte_bits :: "nat \<Rightarrow> nat list" where
  "byte_bits n = map (\<lambda>i. n div 2 ^ i mod 2) (rev [0..<8])"

fun quintets :: "nat list \<Rightarrow> nat list" where
  "quintets [] = []"
| "quintets (b # bs) =
     foldl (\<lambda>n d. 2 * n + d) 0 (take 5 (b # bs @ replicate 4 0)) # quintets (drop 4 bs)"

definition b32_encode :: "string \<Rightarrow> string" where
  "b32_encode s = map b32_digit (quintets (concat (map (\<lambda>c. byte_bits (of_char c)) s)))"

lemma length_quintets: "length (quintets bs) = (length bs + 4) div 5"
proof (induction bs rule: quintets.induct)
  case (2 b bs)
  then show ?case by (cases "length bs < 4") (auto simp: div_if)
qed simp

lemma length_b32_encode: "length (b32_encode s) = (8 * length s + 4) div 5"
proof -
  have "length (concat (map (\<lambda>c. byte_bits (of_char c)) s)) = 8 * length s"
    by (induction s) (simp_all add: byte_bits_def)
  then show ?thesis by (simp add: b32_encode_def length_quintets)
qed

section \<open>strings.Split\<close>

fun split_on :: "char \<Rightarrow> string \<Rightarrow> string list" where
  "split_on c [] = [[]]"
| "split_on c (x # xs) =
     (if x = c then [] # split_on c xs else (case split_on c xs of [] \<Rightarrow> [[x]] | p # ps \<Rightarrow> (x # p) # ps))"

lemma split_on_ne [simp]: "split_on c s \<noteq> []"
  by (induction s) (auto split: list.split)

lemma split_on_none: "c \<notin> set s \<Longrightarrow> split_on c s = [s]"
  by (induction s) auto

lemma split_on_append: "c \<notin> set s \<Longrightarrow> split_on c (s @ c # t) = s # split_on c t"
  by (induction s) auto

end
