(* ===== verification/Credentials.thy ===== *)
theory Credentials
  imports Base64
begin

text \<open>
  The stored forms of secrets: API keys (\<open>HashAPIKey\<close>, \<open>VerifyAPIKey\<close> of
  \<open>internal/identity/apikey.go\<close>) and passwords (\<open>internal/identity/auth/credentials.go\<close>).  The
  argon2id function of golang.org/x/crypto is the parameter \<open>argon\<close>: password, salt, rounds,
  memory, threads, length of the key.  A salt is an argument, and the failure of the random
  source a flag.
\<close>

type_synonym argon_fun = "string \<Rightarrow> string \<Rightarrow> nat \<Rightarrow> nat \<Rightarrow> nat \<Rightarrow> nat \<Rightarrow> string"

section \<open>API keys\<close>

datatype api_hash_error = EmptyPlaintext | SaltFailed | InvalidHashFmt

definition HashAPIKey :: "argon_fun \<Rightarrow> bool \<Rightarrow> string \<Rightarrow> string \<Rightarrow> api_hash_error + string" where
  "HashAPIKey argon rand_fails salt plaintext =
     (if plaintext = [] then Inl EmptyPlaintext
      else if rand_fails then Inl SaltFailed
      else Inr (''argon2id$'' @ b64_encode salt @ ''$'' @ b64_encode (argon plaintext salt 1 (64 * 1024) 4 32)))"

definition VerifyAPIKey :: "argon_fun \<Rightarrow> string \<Rightarrow> string \<Rightarrow> api_hash_error + bool" where
  "VerifyAPIKey argon plaintext stored =
     (case split_on CHR ''$'' stored of
        [tag, s, h] \<Rightarrow>
          if tag \<noteq> ''argon2id'' then Inl InvalidHashFmt
          else (case b64_decode s of
              None \<Rightarrow> Inl InvalidHashFmt
            | Some salt \<Rightarrow> (case b64_decode h of
                 None \<Rightarrow> Inl InvalidHashFmt
               | Some want \<Rightarrow> Inr (argon plaintext salt 1 (64 * 1024) 4 32 = want)))
      | _ \<Rightarrow> Inl InvalidHashFmt)"

section \<open>Passwords\<close>

datatype password_error = InvalidPassword | MalformedHash

definition argon_version :: nat where "argon_version = 19"

definition HashPassword :: "argon_fun \<Rightarrow> bool \<Rightarrow> string \<Rightarrow> string \<Rightarrow> string option" where
  "HashPassword argon rand_fails salt password =
     (if rand_fails then None
      else Some (''$argon2id$v='' @ dec_nat argon_version @ ''$m='' @ dec_nat (19 * 1024) @ '',t='' @ dec_nat 2
        @ '',p='' @ dec_nat 1 @ ''$'' @ b64_encode salt @ ''$'' @ b64_encode (argon password salt 2 (19 * 1024) 1 32)))"

text \<open>\<open>fmt.Sscanf\<close> on a literal and on a decimal verb: leading spaces are skipped, a signed
  verb takes a sign, digits follow, and the value has to fit; what is left over is ignored.\<close>

definition scan_literal :: "string \<Rightarrow> string \<Rightarrow> string option" where
  "scan_literal lit s = (if prefix lit s then Some (drop (length lit) s) else None)"

definition scan_spaces :: "string \<Rightarrow> string" where
  "scan_spaces s = strip_left (filter (\<lambda>r. r \<noteq> bytes [10]) space_runes) s"

definition scan_uint :: "nat \<Rightarrow> string \<Rightarrow> (nat \<times> string) option" where
  "scan_uint bits s =
     (let t = scan_spaces s; ds = takeWhile is_digit t in
      if ds = [] \<or> 2 ^ bits \<le> digits_val 0 ds then None
      else Some (digits_val 0 ds, dropWhile is_digit t))"

definition scan_int :: "string \<Rightarrow> (int \<times> string) option" where
  "scan_int s =
     (let t = scan_spaces s; neg = (t \<noteq> [] \<and> hd t = CHR ''-'');
          u = (if t \<noteq> [] \<and> (hd t = CHR ''-'' \<or> hd t = CHR ''+'') then tl t else t);
          ds = takeWhile is_digit u; v = (if neg then - int (digits_val 0 ds) else int (digits_val 0 ds)) in
      if ds = [] \<or> \<not> is_int64 v then None else Some (v, dropWhile is_digit u))"

definition scan_params :: "string \<Rightarrow> (nat \<times> nat \<times> nat) option" where
  "scan_params s =
     Option.bind (scan_literal ''m='' s) (\<lambda>s1. Option.bind (scan_uint 32 s1) (\<lambda>(m, s2).
     Option.bind (scan_literal '',t='' s2) (\<lambda>s3. Option.bind (scan_uint 32 s3) (\<lambda>(t, s4).
     Option.bind (scan_literal '',p='' s4) (\<lambda>s5. Option.bind (scan_uint 8 s5) (\<lambda>(p, s6).
       Some (m, t, p)))))))"

text \<open>\<open>None\<close> is success.\<close>

definition VerifyPassword :: "argon_fun \<Rightarrow> string \<Rightarrow> string \<Rightarrow> password_error option" where
  "VerifyPassword argon password encoded =
     (case split_on CHR ''$'' encoded of
        [p0, p1, p2, p3, p4, p5] \<Rightarrow>
          if p1 \<noteq> ''argon2id'' then Some MalformedHash
          else (case Option.bind (scan_literal ''v='' p2) scan_int of
              None \<Rightarrow> Some MalformedHash
            | Some (version, _) \<Rightarrow>
                if version \<noteq> int argon_version then Some MalformedHash
                else (case scan_params p3 of
                    None \<Rightarrow> Some MalformedHash
                  | Some (memory, rounds, threads) \<Rightarrow>
                      (case b64_decode p4 of
                         None \<Rightarrow> Some MalformedHash
                       | Some salt \<Rightarrow> (case b64_decode p5 of
                            None \<Rightarrow> Some MalformedHash
                          | Some want \<Rightarrow>
                              if argon password salt rounds memory threads (length want) = want then None
                              else Some InvalidPassword))))
      | _ \<Rightarrow> Some MalformedHash)"

section \<open>What is hashed verifies\<close>

lemma digit_no_space: "is_digit c \<Longrightarrow> \<not> space_byte c"
proof -
  assume "is_digit c"
  then have "(of_char c :: nat) \<in> {48..57}" by (simp add: is_digit_def)
  moreover have "space_byte c \<Longrightarrow> (of_char c :: nat) \<notin> {48..57}"
    by (auto simp: space_byte_def space_runes_def bytes_def)
  ultimately show ?thesis by blast
qed

lemma scan_spaces_digits: "ds \<noteq> [] \<Longrightarrow> list_all is_digit ds \<Longrightarrow> scan_spaces (ds @ r) = ds @ r"
  unfolding scan_spaces_def
  by (rule strip_left_id) (use digit_no_space [of "hd ds"] in \<open>cases ds; auto simp: space_byte_def\<close>)

lemma takeWhile_digits:
  "list_all is_digit ds \<Longrightarrow> r = [] \<or> \<not> is_digit (hd r) \<Longrightarrow>
     takeWhile is_digit (ds @ r) = ds \<and> dropWhile is_digit (ds @ r) = r"
  by (induction ds) (cases r; auto)+

lemma scan_uint_dec:
  "n < 2 ^ bits \<Longrightarrow> r = [] \<or> \<not> is_digit (hd r) \<Longrightarrow> scan_uint bits (dec_nat n @ r) = Some (n, r)"
  using takeWhile_digits [of "dec_nat n" r] by (simp add: scan_uint_def scan_spaces_digits dec_nat_digits Let_def)

lemma scan_int_dec:
  assumes "is_int64 (int n)" "r = [] \<or> \<not> is_digit (hd r)"
  shows "scan_int (dec_nat n @ r) = Some (int n, r)"
proof -
  have "is_digit (hd (dec_nat n @ r))"
    using dec_nat_digits [of n] by (cases "dec_nat n") auto
  then have "hd (dec_nat n @ r) \<noteq> CHR ''-''" "hd (dec_nat n @ r) \<noteq> CHR ''+''" by (auto simp: is_digit_def)
  then show ?thesis
    using assms takeWhile_digits [of "dec_nat n" r] by (simp add: scan_int_def scan_spaces_digits dec_nat_digits Let_def)
qed

lemma scan_literal_append [simp]: "scan_literal lit (lit @ r) = Some r"
  by (simp add: scan_literal_def)

lemma api_hash_split:
  "split_on CHR ''$'' (''argon2id$'' @ b64_encode s @ ''$'' @ b64_encode h) = [''argon2id'', b64_encode s, b64_encode h]"
  using split_on_append [of "CHR ''$''" "b64_encode s" "b64_encode h"]
  by (simp add: b64_encode_no_dollar split_on_none)

lemma VerifyAPIKey_HashAPIKey:
  "HashAPIKey argon rf salt key = Inr h \<Longrightarrow>
     VerifyAPIKey argon other h = Inr (argon other salt 1 (64 * 1024) 4 32 = argon key salt 1 (64 * 1024) 4 32)"
  by (auto simp: HashAPIKey_def VerifyAPIKey_def api_hash_split split: if_splits simp del: append.simps)

lemma no_dollar_digits: "list_all is_digit ds \<Longrightarrow> CHR ''$'' \<notin> set ds"
  by (auto simp: list_all_iff is_digit_def)

lemma password_split:
  "split_on CHR ''$'' (''$argon2id$v='' @ dec_nat v @ ''$m='' @ dec_nat m @ '',t='' @ dec_nat t @ '',p='' @ dec_nat p
      @ ''$'' @ b64_encode s @ ''$'' @ b64_encode h)
   = [[], ''argon2id'', ''v='' @ dec_nat v, ''m='' @ dec_nat m @ '',t='' @ dec_nat t @ '',p='' @ dec_nat p,
      b64_encode s, b64_encode h]"
proof -
  let ?c = "CHR ''$''"
  have nd: "?c \<notin> set (dec_nat n)" for n by (simp add: no_dollar_digits dec_nat_digits)
  let ?p3 = "''m='' @ dec_nat m @ '',t='' @ dec_nat t @ '',p='' @ dec_nat p"
  have p3: "?c \<notin> set ?p3" and p2: "?c \<notin> set (''v='' @ dec_nat v)" using nd by simp_all
  let ?tail = "b64_encode s @ ?c # b64_encode h"
  have tail: "split_on ?c ?tail = [b64_encode s, b64_encode h]"
    using split_on_append [OF b64_encode_no_dollar] split_on_none [OF b64_encode_no_dollar] by simp
  have "split_on ?c (?p3 @ ?c # ?tail) = [?p3, b64_encode s, b64_encode h]"
    unfolding split_on_append [OF p3] tail ..
  then have rest: "split_on ?c ((''v='' @ dec_nat v) @ ?c # (?p3 @ ?c # ?tail)) = [''v='' @ dec_nat v, ?p3, b64_encode s, b64_encode h]"
    unfolding split_on_append [OF p2] by simp
  have "split_on ?c (?c # ''argon2id'' @ ?c # x) = [] # ''argon2id'' # split_on ?c x" for x by simp
  from this [of "(''v='' @ dec_nat v) @ ?c # (?p3 @ ?c # ?tail)"] rest show ?thesis by simp
qed

lemma scan_params_dec:
  assumes "m < 2 ^ 32" "t < 2 ^ 32" "p < 2 ^ 8"
  shows "scan_params (''m='' @ dec_nat m @ '',t='' @ dec_nat t @ '',p='' @ dec_nat p) = Some (m, t, p)"
proof -
  have "scan_uint 8 (dec_nat p) = Some (p, [])" using scan_uint_dec [of p 8 "[]"] assms(3) by simp
  moreover have "scan_uint 32 (dec_nat t @ '',p='' @ dec_nat p) = Some (t, '',p='' @ dec_nat p)"
    "scan_uint 32 (dec_nat m @ '',t='' @ dec_nat t @ '',p='' @ dec_nat p) = Some (m, '',t='' @ dec_nat t @ '',p='' @ dec_nat p)"
    using assms by (intro scan_uint_dec; simp add: is_digit_def)+
  ultimately show ?thesis by (simp only: scan_params_def scan_literal_append bind.simps prod.case)
qed

lemma VerifyPassword_HashPassword:
  assumes "HashPassword argon rf salt pw = Some h" "length (argon pw salt 2 (19 * 1024) 1 32) = 32"
  shows "VerifyPassword argon other h =
    (if argon other salt 2 (19 * 1024) 1 32 = argon pw salt 2 (19 * 1024) 1 32 then None else Some InvalidPassword)"
proof -
  have h: "h = ''$argon2id$v='' @ dec_nat argon_version @ ''$m='' @ dec_nat (19 * 1024) @ '',t='' @ dec_nat 2
        @ '',p='' @ dec_nat 1 @ ''$'' @ b64_encode salt @ ''$'' @ b64_encode (argon pw salt 2 (19 * 1024) 1 32)"
    using assms(1) by (auto simp: HashPassword_def split: if_splits)
  have v: "scan_int (dec_nat argon_version) = Some (int argon_version, [])"
    using scan_int_dec [of argon_version "[]"] by (simp add: is_int64_def argon_version_def)
  have p: "scan_params (''m='' @ dec_nat (19 * 1024) @ '',t='' @ dec_nat 2 @ '',p='' @ dec_nat 1) = Some (19 * 1024, 2, 1)"
    by (rule scan_params_dec) simp_all
  show ?thesis
    unfolding VerifyPassword_def h password_split
    by (simp only: list.case scan_literal_append bind.simps v p option.case prod.case b64_decode_encode assms(2)
        simp_thms if_True if_False)
qed

text \<open>A stored API key and a stored password verify the secret they were made from, and
  another secret exactly when argon2id maps both to the same key under the stored salt; no stored
  form is taken for malformed.\<close>

theorem secrets_roundtrip:
  assumes "HashAPIKey argon rf salt key = Inr h" "HashPassword argon rf' salt' pw = Some h'"
    and "\<And>p s t m th n. length (argon p s t m th n) = n"
  shows "VerifyAPIKey argon key h = Inr True \<and> VerifyPassword argon pw h' = None \<and>
    VerifyAPIKey argon other h = Inr (argon other salt 1 (64 * 1024) 4 32 = argon key salt 1 (64 * 1024) 4 32) \<and>
    VerifyPassword argon other h' =
      (if argon other salt' 2 (19 * 1024) 1 32 = argon pw salt' 2 (19 * 1024) 1 32 then None else Some InvalidPassword)"
  using VerifyAPIKey_HashAPIKey [OF assms(1)] VerifyPassword_HashPassword [OF assms(2)] assms(3) by simp

text \<open>A stand-in of the key function for witnesses: the first bytes of the password, padded.\<close>

definition toy_argon :: argon_fun where
  "toy_argon p s t m th n = take n (p @ replicate n CHR ''x'')"

lemma length_toy_argon: "length (toy_argon p s t m th n) = n"
  by (simp add: toy_argon_def)

theorem secrets_roundtrip_witness:
  "\<exists>h h'. HashAPIKey toy_argon False ''salt'' ''cy_A'' = Inr h \<and> VerifyAPIKey toy_argon ''cy_A'' h = Inr True \<and>
     HashPassword toy_argon False ''salt'' ''pw'' = Some h' \<and> VerifyPassword toy_argon ''other'' h' = Some InvalidPassword"
proof -
  obtain h h' where h: "HashAPIKey toy_argon False ''salt'' ''cy_A'' = Inr h" "HashPassword toy_argon False ''salt'' ''pw'' = Some h'"
    by (simp add: HashAPIKey_def HashPassword_def)
  moreover have "toy_argon ''other'' ''salt'' 2 (19 * 1024) 1 32 \<noteq> toy_argon ''pw'' ''salt'' 2 (19 * 1024) 1 32"
    by (simp add: toy_argon_def)
  ultimately show ?thesis using secrets_roundtrip [OF h length_toy_argon, of "''other''"] by auto
qed

end
