(* ===== verification/ApiKey.thy ===== *)
theory ApiKey
  imports RateLimit Credentials
begin

text \<open>
  API-key authentication (\<open>internal/identity/apikey.go\<close>, \<open>scopemw.go\<close>, \<open>context.go\<close>,
  \<open>lastused.go\<close>): the key table, authentication over the prefix index and the legacy scan, the
  middleware with its limiter, scope checks, creation and revocation of keys, and the recorder
  of last uses.
\<close>

record api_key =
  ak_id :: uuid
  ak_tenant :: "uuid option"
  ak_agent :: string
  ak_hash :: string
  ak_prefix :: "string option"
  ak_scopes :: "string list"
  ak_rpm :: int
  ak_status :: string
  ak_expires :: "gotime option"
  ak_last_used :: "gotime option"
  ak_created :: gotime
  ak_updated :: gotime

type_synonym api_keys = "api_key list"

record APIKeyAuthClaims =
  cl_KeyID :: uuid
  cl_TenantID :: "uuid option"
  cl_AgentName :: string
  cl_Scopes :: "string list"
  cl_RateLimitRPM :: int

datatype key_db_call = QueryPrefix | QueryLegacy | InsertKey | LookupKey | RevokeExec | FlushExec | ListKeys

datatype api_error = APIKeyMissing | APIKeyInvalid | APIKeyRevoked | APIKeyExpired | APIKeyNotFound
  | APIKeyFailed key_db_call | APIKeyHash api_hash_error | APIKeyRand

section \<open>The recorder of last uses\<close>

record LastUsedRecorder =
  lu_pending :: "(uuid \<times> gotime) list"
  lu_has_pool :: bool

text \<open>\<open>None\<close> is a nil recorder; the map of pending touches has one entry per key.\<close>

definition Touch :: "gotime \<Rightarrow> uuid \<Rightarrow> LastUsedRecorder option \<Rightarrow> LastUsedRecorder option" where
  "Touch now keyID rec =
     (case rec of None \<Rightarrow> None
      | Some r \<Rightarrow> if keyID = uuid_nil then Some r
          else Some (r\<lparr>lu_pending := (keyID, now) # filter (\<lambda>p. fst p \<noteq> keyID) (lu_pending r)\<rparr>))"

text \<open>The snapshot is taken before the update, which may fail; it is not buffered again.\<close>

definition Flush ::
  "(key_db_call \<Rightarrow> bool) \<Rightarrow> gotime \<Rightarrow> LastUsedRecorder option \<Rightarrow> api_keys \<Rightarrow> (api_error + unit) \<times> LastUsedRecorder option \<times> api_keys" where
  "Flush fail now rec rows =
     (case rec of
        None \<Rightarrow> (Inr (), None, rows)
      | Some r \<Rightarrow>
          if \<not> lu_has_pool r \<or> lu_pending r = [] then (Inr (), Some r, rows)
          else if fail FlushExec then (Inl (APIKeyFailed FlushExec), Some (r\<lparr>lu_pending := []\<rparr>), rows)
          else (Inr (), Some (r\<lparr>lu_pending := []\<rparr>),
                map (\<lambda>k. case map_of (lu_pending r) (ak_id k) of
                     None \<Rightarrow> k | Some ts \<Rightarrow> k\<lparr>ak_last_used := Some ts, ak_updated := now\<rparr>) rows))"

section \<open>Authentication\<close>

definition KeyPlaintextPrefix :: string where "KeyPlaintextPrefix = ''cy_''"

definition keyPrefixLen :: nat where "keyPrefixLen = length KeyPlaintextPrefix + 8"

definition extractPrefix :: "string \<Rightarrow> string" where
  "extractPrefix plaintext = (if length plaintext < keyPrefixLen then [] else take keyPrefixLen plaintext)"

definition usable :: "gotime \<Rightarrow> api_key \<Rightarrow> bool" where
  "usable now k \<longleftrightarrow> ak_status k = ''active'' \<and> (case ak_expires k of None \<Rightarrow> True | Some e \<Rightarrow> now < e)"

definition claims_of :: "api_key \<Rightarrow> APIKeyAuthClaims" where
  "claims_of k = \<lparr>cl_KeyID = ak_id k, cl_TenantID = ak_tenant k, cl_AgentName = ak_agent k, cl_Scopes = ak_scopes k,
     cl_RateLimitRPM = ak_rpm k\<rparr>"

text \<open>The verify loop: malformed hashes are skipped, the first match wins.\<close>

fun verify_loop :: "argon_fun \<Rightarrow> string \<Rightarrow> api_key list \<Rightarrow> api_key option" where
  "verify_loop argon plaintext [] = None"
| "verify_loop argon plaintext (k # ks) =
     (case VerifyAPIKey argon plaintext (ak_hash k) of
        Inr True \<Rightarrow> Some k
      | _ \<Rightarrow> verify_loop argon plaintext ks)"

definition scan_keys ::
  "argon_fun \<Rightarrow> (key_db_call \<Rightarrow> bool) \<Rightarrow> key_db_call \<Rightarrow> gotime \<Rightarrow> string \<Rightarrow> api_key list \<Rightarrow> LastUsedRecorder option
     \<Rightarrow> (api_error + APIKeyAuthClaims) \<times> LastUsedRecorder option" where
  "scan_keys argon fail site now plaintext ks rec =
     (if fail site then (Inl (APIKeyFailed site), rec)
      else case verify_loop argon plaintext ks of
          None \<Rightarrow> (Inl APIKeyInvalid, rec)
        | Some k \<Rightarrow> (Inr (claims_of k), Touch now (ak_id k) rec))"

definition authenticateByPrefix ::
  "argon_fun \<Rightarrow> (key_db_call \<Rightarrow> bool) \<Rightarrow> gotime \<Rightarrow> api_keys \<Rightarrow> string \<Rightarrow> string \<Rightarrow> LastUsedRecorder option
     \<Rightarrow> (api_error + APIKeyAuthClaims) \<times> LastUsedRecorder option" where
  "authenticateByPrefix argon fail now rows plaintext pfx rec =
     scan_keys argon fail QueryPrefix now plaintext (filter (\<lambda>k. usable now k \<and> ak_prefix k = Some pfx) rows) rec"

definition AuthenticateAPIKey ::
  "argon_fun \<Rightarrow> (key_db_call \<Rightarrow> bool) \<Rightarrow> gotime \<Rightarrow> api_keys \<Rightarrow> string \<Rightarrow> LastUsedRecorder option
     \<Rightarrow> (api_error + APIKeyAuthClaims) \<times> LastUsedRecorder option" where
  "AuthenticateAPIKey argon fail now rows plaintext rec =
     (if \<not> prefix KeyPlaintextPrefix plaintext then (Inl APIKeyInvalid, rec)
      else
        let pfx = extractPrefix plaintext;
            legacy = scan_keys argon fail QueryLegacy now plaintext (filter (\<lambda>k. usable now k \<and> ak_prefix k = None) rows) rec in
        if pfx = [] then legacy
        else (case authenticateByPrefix argon fail now rows plaintext pfx rec of
            (Inl APIKeyInvalid, _) \<Rightarrow> legacy
          | result \<Rightarrow> result))"

section \<open>The middleware\<close>

text \<open>The claims a request carries in its context, whichever way it was authenticated.\<close>

record auth_claims =
  ac_TenantID :: uuid
  ac_AgentName :: string
  ac_UserID :: uuid
  ac_Scopes :: "string list"
  ac_AuthMethod :: string
  ac_KeyID :: uuid

definition InjectAPIKeyClaims :: "APIKeyAuthClaims \<Rightarrow> auth_claims" where
  "InjectAPIKeyClaims c = \<lparr>ac_TenantID = (case cl_TenantID c of None \<Rightarrow> uuid_nil | Some t \<Rightarrow> t), ac_AgentName = cl_AgentName c,
     ac_UserID = uuid_nil, ac_Scopes = cl_Scopes c, ac_AuthMethod = ''apikey'', ac_KeyID = cl_KeyID c\<rparr>"

datatype api_response =
    RateLimited "int option" string
  | AuthError nat api_error
  | ScopeError nat string
  | NextHandler "auth_claims option"

record api_env =
  ae_argon :: argon_fun
  ae_fails :: "key_db_call \<Rightarrow> bool"
  ae_net :: rl_net
  ae_uuid_str :: "uuid \<Rightarrow> string"
  ae_required :: bool
  ae_limiter :: "rate_limiter option"

record api_state =
  as_rows :: api_keys
  as_valkey :: valkey
  as_recorder :: "LastUsedRecorder option"

text \<open>The \<open>Retry-After\<close> header, in whole seconds and at least one.\<close>

definition retry_header :: "duration \<Rightarrow> int option" where
  "retry_header d = (if d \<le> 0 then None else Some (max 1 (d div second)))"

text \<open>A limiter error counts as not limited.\<close>

definition locked_for :: "rl_error + LockoutStatus \<Rightarrow> duration option" where
  "locked_for r = (case r of Inl _ \<Rightarrow> None | Inr st \<Rightarrow> if ls_Locked st then Some (ls_RetryAfter st) else None)"

definition auth_status :: "api_error \<Rightarrow> nat" where
  "auth_status e = (if e = APIKeyRevoked \<or> e = APIKeyExpired then 403 else 401)"

definition APIKeyMiddleware ::
  "api_env \<Rightarrow> gotime \<Rightarrow> string \<Rightarrow> string \<Rightarrow> api_state \<Rightarrow> api_response \<times> api_state" where
  "APIKeyMiddleware env now plaintext ip s =
     (if plaintext = [] then
        ((if ae_required env then AuthError 401 APIKeyMissing else NextHandler None), s)
      else
        let pfx = extractPrefix plaintext; l = ae_limiter env in
        case locked_for (IsLockedOut (ae_net env) l now pfx ip (as_valkey s)) of
          Some r \<Rightarrow> (RateLimited (retry_header r) ''too many failed authentication attempts'', s)
        | None \<Rightarrow>
            (case AuthenticateAPIKey (ae_argon env) (ae_fails env) now (as_rows s) plaintext (as_recorder s) of
               (Inl e, rec) \<Rightarrow>
                 (AuthError (auth_status e) e,
                  s\<lparr>as_recorder := rec,
                    as_valkey := (if e = APIKeyInvalid then snd (RecordFailure (ae_net env) l now pfx ip (as_valkey s))
                                  else as_valkey s)\<rparr>)
             | (Inr claims, rec) \<Rightarrow>
                 let st = snd (ClearFailures (ae_net env) l pfx ip (as_valkey s));
                     (ts, st') = AllowSuccess (ae_net env) (ae_uuid_str env) l now (cl_KeyID claims) (cl_RateLimitRPM claims) st;
                     s' = s\<lparr>as_recorder := rec, as_valkey := st'\<rparr> in
                 (case ts of
                    Inr t \<Rightarrow> if \<not> ts_Allowed t then (RateLimited (retry_header (ts_RetryAfter t)) ''rate limit exceeded'', s')
                              else (NextHandler (Some (InjectAPIKeyClaims claims)), s')
                  | Inl _ \<Rightarrow> (NextHandler (Some (InjectAPIKeyClaims claims)), s'))))"

definition hasScope :: "string list \<Rightarrow> string \<Rightarrow> bool" where
  "hasScope granted want = list_ex (\<lambda>s. s = want) granted"

definition RequireScopeMiddleware :: "string \<Rightarrow> auth_claims option \<Rightarrow> api_response" where
  "RequireScopeMiddleware scope claims =
     (case claims of
        None \<Rightarrow> ScopeError 401 ''unauthenticated''
      | Some c \<Rightarrow> if \<not> hasScope (ac_Scopes c) scope then ScopeError 403 ''insufficient_scope'' else NextHandler (Some c))"

definition RequireScope :: "string \<Rightarrow> auth_claims option \<Rightarrow> bool" where
  "RequireScope scope claims = (case claims of None \<Rightarrow> False | Some c \<Rightarrow> hasScope (ac_Scopes c) scope)"

text \<open>A route group: the key middleware, and the scope middleware behind it.\<close>

definition guarded ::
  "api_env \<Rightarrow> string \<Rightarrow> gotime \<Rightarrow> string \<Rightarrow> string \<Rightarrow> api_state \<Rightarrow> api_response \<times> api_state" where
  "guarded env scope now plaintext ip s =
     (case APIKeyMiddleware env now plaintext ip s of
        (NextHandler claims, s') \<Rightarrow> (RequireScopeMiddleware scope claims, s')
      | other \<Rightarrow> other)"

text \<open>The cross-tenant check on a body; \<open>True\<close> is a mismatch.  A platform key has no tenant.\<close>

definition AssertBodyTenantMatches :: "auth_claims option \<Rightarrow> uuid \<Rightarrow> bool" where
  "AssertBodyTenantMatches claims body =
     (case claims of None \<Rightarrow> False
      | Some c \<Rightarrow> ac_TenantID c \<noteq> uuid_nil \<and> body \<noteq> uuid_nil \<and> ac_TenantID c \<noteq> body)"

section \<open>Creation and revocation\<close>

text \<open>The primary key and the unique hash of a row.  The 32 random bytes of a key, or \<open>None\<close> when the source of randomness fails.\<close>

definition GenerateAPIKeyPlaintext :: "string option \<Rightarrow> string option" where
  "GenerateAPIKeyPlaintext buf = map_option (\<lambda>b. KeyPlaintextPrefix @ b32_encode b) buf"

definition CreateAPIKeyRow ::
  "argon_fun \<Rightarrow> (key_db_call \<Rightarrow> bool) \<Rightarrow> gotime \<Rightarrow> uuid \<Rightarrow> string option \<Rightarrow> bool \<Rightarrow> string \<Rightarrow> uuid option \<Rightarrow> string \<Rightarrow> string list
     \<Rightarrow> int \<Rightarrow> gotime option \<Rightarrow> api_keys \<Rightarrow> (api_error + (string \<times> uuid)) \<times> api_keys" where
  "CreateAPIKeyRow argon fail now newid buf salt_fails salt tenant agent scopes rpm expires rows =
     (case GenerateAPIKeyPlaintext buf of
        None \<Rightarrow> (Inl APIKeyRand, rows)
      | Some plaintext \<Rightarrow>
          (case HashAPIKey argon salt_fails salt plaintext of
             Inl e \<Rightarrow> (Inl (APIKeyHash e), rows)
           | Inr h \<Rightarrow>
               if fail InsertKey \<or> list_ex (\<lambda>k. ak_id k = newid \<or> ak_hash k = h) rows then (Inl (APIKeyFailed InsertKey), rows)
               else (Inr (plaintext, newid),
                     rows @ [\<lparr>ak_id = newid, ak_tenant = tenant, ak_agent = agent, ak_hash = h,
                        ak_prefix = (if extractPrefix plaintext = [] then None else Some (extractPrefix plaintext)),
                        ak_scopes = scopes, ak_rpm = (if rpm \<le> 0 then 600 else rpm), ak_status = ''active'',
                        ak_expires = expires, ak_last_used = None, ak_created = now, ak_updated = now\<rparr>])))"

definition GetAPIKeyByID ::
  "(key_db_call \<Rightarrow> bool) \<Rightarrow> uuid \<Rightarrow> uuid option \<Rightarrow> api_keys \<Rightarrow> api_error + api_key" where
  "GetAPIKeyByID fail keyID tenant rows =
     (if fail LookupKey then Inl (APIKeyFailed LookupKey)
      else case List.find (\<lambda>k. ak_id k = keyID \<and> (case tenant of None \<Rightarrow> True | Some t \<Rightarrow> ak_tenant k = Some t)) rows of
          None \<Rightarrow> Inl APIKeyNotFound
        | Some k \<Rightarrow> Inr k)"

definition revoke_row :: "gotime \<Rightarrow> uuid \<Rightarrow> api_key \<Rightarrow> api_key" where
  "revoke_row now i k =
     (if ak_id k = i \<and> ak_status k = ''active'' then k\<lparr>ak_status := ''revoked'', ak_updated := now\<rparr> else k)"

definition RevokeAPIKey ::
  "(key_db_call \<Rightarrow> bool) \<Rightarrow> gotime \<Rightarrow> uuid \<Rightarrow> uuid option \<Rightarrow> api_keys \<Rightarrow> (api_error + unit) \<times> api_keys" where
  "RevokeAPIKey fail now keyID tenant rows =
     (case (if tenant = None then Inr () else map_sum id (\<lambda>_. ()) (GetAPIKeyByID fail keyID tenant rows)) of
        Inl e \<Rightarrow> (Inl e, rows)
      | Inr _ \<Rightarrow>
          if fail RevokeExec then (Inl (APIKeyFailed RevokeExec), rows)
          else (Inr (), map (revoke_row now keyID) rows))"

text \<open>The rows of a tenant, or of no tenant, newest first.\<close>

definition ListAPIKeysByTenant :: "(key_db_call \<Rightarrow> bool) \<Rightarrow> uuid \<Rightarrow> api_keys \<Rightarrow> api_error + api_key list" where
  "ListAPIKeysByTenant fail tenant rows =
     (if fail ListKeys then Inl (APIKeyFailed ListKeys)
      else Inr (sort_desc ak_created (filter (\<lambda>k. ak_tenant k = (if tenant = uuid_nil then None else Some tenant)) rows)))"

section \<open>Who is admitted\<close>

lemma verify_loop_Some:
  "verify_loop argon p ks = Some k \<Longrightarrow> k \<in> set ks \<and> VerifyAPIKey argon p (ak_hash k) = Inr True"
  by (induction ks) (auto split: sum.splits bool.splits)

lemma verify_loop_None:
  "verify_loop argon p ks = None \<longleftrightarrow> (\<forall>k\<in>set ks. VerifyAPIKey argon p (ak_hash k) \<noteq> Inr True)"
  by (induction ks) (auto split: sum.splits bool.splits)

lemma scan_keys_claims:
  assumes "fst (scan_keys argon fail site now p (filter (\<lambda>k. usable now k \<and> P k) rows) rec) = Inr c"
  shows "\<exists>k\<in>set rows. usable now k \<and> VerifyAPIKey argon p (ak_hash k) = Inr True \<and> c = claims_of k"
proof -
  from assms obtain k where "verify_loop argon p (filter (\<lambda>k. usable now k \<and> P k) rows) = Some k" "c = claims_of k"
    by (auto simp: scan_keys_def split: if_splits option.splits)
  with verify_loop_Some [OF this(1)] show ?thesis by auto
qed

lemma scan_keys_errors: "fst (scan_keys argon fail site now p ks rec) = Inl e \<Longrightarrow> e = APIKeyInvalid \<or> e = APIKeyFailed site"
  by (auto simp: scan_keys_def split: if_splits option.splits)

lemma authenticated_row:
  assumes "AuthenticateAPIKey argon fail now rows p rec = (Inr c, rec')"
  shows "\<exists>k\<in>set rows. usable now k \<and> VerifyAPIKey argon p (ak_hash k) = Inr True \<and> c = claims_of k"
proof -
  let ?by_prefix = "authenticateByPrefix argon fail now rows p (extractPrefix p) rec"
  let ?legacy = "scan_keys argon fail QueryLegacy now p (filter (\<lambda>k. usable now k \<and> ak_prefix k = None) rows) rec"
  have "?by_prefix = (Inr c, rec') \<or> ?legacy = (Inr c, rec')"
    using assms
    by (auto simp: AuthenticateAPIKey_def Let_def split: if_splits prod.splits sum.splits api_error.splits)
  then have "fst ?by_prefix = Inr c \<or> fst ?legacy = Inr c" by auto
  then show ?thesis unfolding authenticateByPrefix_def by (elim disjE) (rule scan_keys_claims, assumption)+
qed

lemma authenticate_errors:
  assumes "AuthenticateAPIKey argon fail now rows p rec = (Inl e, rec')"
  shows "e \<in> {APIKeyInvalid, APIKeyFailed QueryPrefix, APIKeyFailed QueryLegacy}"
proof -
  let ?by_prefix = "authenticateByPrefix argon fail now rows p (extractPrefix p) rec"
  let ?legacy = "scan_keys argon fail QueryLegacy now p (filter (\<lambda>k. usable now k \<and> ak_prefix k = None) rows) rec"
  have "e = APIKeyInvalid \<or> ?by_prefix = (Inl e, rec') \<or> ?legacy = (Inl e, rec')"
    using assms
    by (auto simp: AuthenticateAPIKey_def Let_def split: if_splits prod.splits sum.splits api_error.splits)
  then have "e = APIKeyInvalid \<or> fst ?by_prefix = Inl e \<or> fst ?legacy = Inl e" by auto
  then show ?thesis unfolding authenticateByPrefix_def using scan_keys_errors by blast
qed

lemma admitted_claims:
  assumes "APIKeyMiddleware env now p ip s = (NextHandler (Some c), s')"
  shows "\<exists>k\<in>set (as_rows s). usable now k \<and> VerifyAPIKey (ae_argon env) p (ak_hash k) = Inr True \<and> c = InjectAPIKeyClaims (claims_of k)"
proof -
  obtain r rec' where a: "AuthenticateAPIKey (ae_argon env) (ae_fails env) now (as_rows s) p (as_recorder s) = (r, rec')"
    by fastforce
  then have "\<exists>d. r = Inr d \<and> c = InjectAPIKeyClaims d"
    using assms by (auto simp: APIKeyMiddleware_def Let_def split: if_splits option.splits sum.splits prod.splits)
  with a authenticated_row show ?thesis by metis
qed

lemma guarded_claims:
  assumes "guarded env scope now p ip s = (NextHandler claims, s')"
  shows "\<exists>c. claims = Some c \<and> APIKeyMiddleware env now p ip s = (NextHandler (Some c), s') \<and> scope \<in> set (ac_Scopes c)"
  using assms
  by (auto simp: guarded_def RequireScopeMiddleware_def hasScope_def list_ex_iff split: prod.splits api_response.splits option.splits if_splits)

lemma RevokeAPIKey_rows:
  assumes "RevokeAPIKey fail now i tenant rows = (Inr (), rows')"
  shows "rows' = map (revoke_row now i) rows"
proof -
  have "snd (RevokeAPIKey fail now i tenant rows) = map (revoke_row now i) rows" if "fst (RevokeAPIKey fail now i tenant rows) = Inr ()"
    using that unfolding RevokeAPIKey_def
    by (cases "if tenant = None then Inr () else map_sum id (\<lambda>_. ()) (GetAPIKeyByID fail i tenant rows)"; cases "fail RevokeExec")
      simp_all
  with assms show ?thesis by simp
qed

lemma revoked_unusable:
  assumes "RevokeAPIKey fail now i tenant rows = (Inr (), rows')" "k \<in> set rows'" "ak_id k = i"
  shows "\<not> usable t k"
proof -
  from assms(2) RevokeAPIKey_rows [OF assms(1)] obtain k0 where "k = revoke_row now i k0" by auto
  with assms(3) show ?thesis by (auto simp: revoke_row_def usable_def)
qed


definition sample_row :: api_key where
  "sample_row = \<lparr>ak_id = 7, ak_tenant = Some 1, ak_agent = ''bot'',
     ak_hash = ''argon2id$'' @ b64_encode ''salt'' @ ''$'' @ b64_encode (toy_argon ''cy_A'' ''salt'' 1 (64 * 1024) 4 32),
     ak_prefix = None, ak_scopes = [''alert:read''], ak_rpm = 600, ak_status = ''active'', ak_expires = None, ak_last_used = None, ak_created = 0, ak_updated = 0\<rparr>"

definition sample_api_env :: api_env where
  "sample_api_env = \<lparr>ae_argon = toy_argon, ae_fails = \<lambda>_. False, ae_net = up, ae_uuid_str = \<lambda>_. ''key'', ae_required = True,
     ae_limiter = None\<rparr>"

lemma sample_row_verifies: "VerifyAPIKey toy_argon ''cy_A'' (ak_hash sample_row) = Inr True"
  using VerifyAPIKey_HashAPIKey [of toy_argon False "''salt''" "''cy_A''" "ak_hash sample_row" "''cy_A''"]
  by (simp add: sample_row_def HashAPIKey_def)


section \<open>From issue to use\<close>

lemma verify_loop_last:
  "\<forall>k\<in>set ks. VerifyAPIKey argon p (ak_hash k) \<noteq> Inr True \<Longrightarrow> VerifyAPIKey argon p (ak_hash k) = Inr True \<Longrightarrow>
     verify_loop argon p (ks @ [k]) = Some k"
  by (induction ks) (auto split: sum.splits bool.splits)

lemma CreateAPIKeyRow_Inr:
  assumes "CreateAPIKeyRow argon fail now newid buf sf salt tenant agent scopes rpm expires rows = (Inr (plaintext, i), rows')"
  obtains b h k where "buf = Some b" "plaintext = KeyPlaintextPrefix @ b32_encode b" "i = newid"
    "HashAPIKey argon sf salt plaintext = Inr h" "rows' = rows @ [k]" "ak_hash k = h" "ak_status k = ''active''"
    "ak_expires k = expires" "ak_prefix k = (if extractPrefix plaintext = [] then None else Some (extractPrefix plaintext))"
    "claims_of k = \<lparr>cl_KeyID = newid, cl_TenantID = tenant, cl_AgentName = agent, cl_Scopes = scopes,
       cl_RateLimitRPM = (if rpm \<le> 0 then 600 else rpm)\<rparr>"
proof -
  obtain b where b: "buf = Some b" using assms by (auto simp: CreateAPIKeyRow_def GenerateAPIKeyPlaintext_def split: option.splits)
  obtain h where h: "HashAPIKey argon sf salt (KeyPlaintextPrefix @ b32_encode b) = Inr h"
    using assms b by (auto simp: CreateAPIKeyRow_def GenerateAPIKeyPlaintext_def split: sum.splits)
  show thesis
    using assms b h that [of b h] by (fastforce simp: CreateAPIKeyRow_def GenerateAPIKeyPlaintext_def claims_of_def split: if_splits)
qed

text \<open>A key that was just created authenticates its plaintext with exactly the tenant, name, scopes
  and rate it was created with, a rate that is not positive having become 600, until it expires;
  the plaintext of 32 random bytes is the brand prefix and 52 characters, so its row is found by
  the prefix index.\<close>

theorem issued_key_authenticates:
  assumes "CreateAPIKeyRow argon fail now newid (Some b) sf salt tenant agent scopes rpm expires rows = (Inr (plaintext, i), rows')"
    and "length b = 32" "\<And>p s t m th n. length (argon p s t m th n) = n"
    and "\<forall>k\<in>set rows. VerifyAPIKey argon plaintext (ak_hash k) \<noteq> Inr True"
    and "case expires of None \<Rightarrow> True | Some e \<Rightarrow> t < e"
  shows "length plaintext = 55 \<and> AuthenticateAPIKey argon (\<lambda>_. False) t rows' plaintext rec =
    (Inr \<lparr>cl_KeyID = newid, cl_TenantID = tenant, cl_AgentName = agent, cl_Scopes = scopes,
       cl_RateLimitRPM = (if rpm \<le> 0 then 600 else rpm)\<rparr>, Touch t newid rec)"
proof -
  from assms(1) obtain h k where k: "plaintext = KeyPlaintextPrefix @ b32_encode b"
    "HashAPIKey argon sf salt plaintext = Inr h" "rows' = rows @ [k]" "ak_hash k = h" "ak_status k = ''active''"
    "ak_expires k = expires" "ak_prefix k = (if extractPrefix plaintext = [] then None else Some (extractPrefix plaintext))"
    "claims_of k = \<lparr>cl_KeyID = newid, cl_TenantID = tenant, cl_AgentName = agent, cl_Scopes = scopes,
       cl_RateLimitRPM = (if rpm \<le> 0 then 600 else rpm)\<rparr>"
    by (rule CreateAPIKeyRow_Inr) blast
  have len: "length plaintext = 55"
    using assms(2) by (simp add: k(1) KeyPlaintextPrefix_def length_b32_encode)
  then have pfx: "extractPrefix plaintext \<noteq> []" by (auto simp: extractPrefix_def keyPrefixLen_def KeyPlaintextPrefix_def)
  have "VerifyAPIKey argon plaintext h = Inr True" using VerifyAPIKey_HashAPIKey [OF k(2)] assms(3) by simp
  then have "verify_loop argon plaintext (filter (\<lambda>k. usable t k \<and> ak_prefix k = Some (extractPrefix plaintext)) rows') = Some k"
    using assms(4,5) k pfx by (simp add: usable_def) (rule verify_loop_last, auto)
  moreover have "ak_id k = newid" using k(8) by (simp add: claims_of_def)
  ultimately have "authenticateByPrefix argon (\<lambda>_. False) t rows' plaintext (extractPrefix plaintext) rec = (Inr (claims_of k), Touch t newid rec)"
    by (simp add: authenticateByPrefix_def scan_keys_def)
  then show ?thesis using len pfx k(1,8) by (simp add: AuthenticateAPIKey_def Let_def)
qed

theorem issued_key_authenticates_witness:
  "\<exists>plaintext rows'. CreateAPIKeyRow toy_argon (\<lambda>_. False) 5 9 (Some (replicate 32 CHR ''k'')) False ''salt'' (Some 1) ''bot'' [''alert:read''] 0
       (Some 100) [] = (Inr (plaintext, 9), rows')
     \<and> fst (AuthenticateAPIKey toy_argon (\<lambda>_. False) 99 rows' plaintext None) =
         Inr \<lparr>cl_KeyID = 9, cl_TenantID = Some 1, cl_AgentName = ''bot'', cl_Scopes = [''alert:read''], cl_RateLimitRPM = 600\<rparr>"
proof -
  obtain plaintext rows' where c: "CreateAPIKeyRow toy_argon (\<lambda>_. False) 5 9 (Some (replicate 32 CHR ''k'')) False ''salt'' (Some 1) ''bot''
      [''alert:read''] 0 (Some 100) [] = (Inr (plaintext, 9), rows')"
    by (simp add: CreateAPIKeyRow_def GenerateAPIKeyPlaintext_def HashAPIKey_def KeyPlaintextPrefix_def)
  from issued_key_authenticates [OF this _ length_toy_argon, of 99 None] c show ?thesis by simp
qed

section \<open>Guessing keys from one address\<close>

fun attack :: "api_env \<Rightarrow> string \<Rightarrow> (gotime \<times> string) list \<Rightarrow> api_state \<Rightarrow> api_response list" where
  "attack env ip [] s = []"
| "attack env ip ((t, p) # reqs) s =
     (let (r, s') = APIKeyMiddleware env t p ip s in r # attack env ip reqs s')"

text \<open>Nothing is recorded about a prefix, now or at any other time.\<close>

definition clean :: "string \<Rightarrow> string \<Rightarrow> valkey \<Rightarrow> bool" where
  "clean ip pfx st \<longleftrightarrow> (\<forall>u. vk_live u st (failureCounterKey pfx ip) = None \<and> vk_live u st (lockoutKey pfx ip) = None)"

lemma unverified_rejected:
  assumes "\<forall>k\<in>set rows. VerifyAPIKey argon p (ak_hash k) \<noteq> Inr True"
  shows "AuthenticateAPIKey argon (\<lambda>_. False) now rows p rec = (Inl APIKeyInvalid, rec)"
proof -
  have "scan_keys argon (\<lambda>_. False) site now p (filter P rows) rec = (Inl APIKeyInvalid, rec)" for site P
    using assms verify_loop_None [of argon p "filter P rows"] by (auto simp: scan_keys_def)
  then show ?thesis by (simp add: AuthenticateAPIKey_def authenticateByPrefix_def Let_def)
qed

lemma clean_first_failure:
  assumes "clean ip pfx st" "2 \<le> BruteForceThreshold l" "pfx \<noteq> []" "ip \<noteq> []"
  shows "RecordFailure up (Some l) now pfx ip st =
    (Inr False, snd (incrWithExpire up now (failureCounterKey pfx ip) (BruteForceWindow l) st))"
proof -
  have "vk_count now (failureCounterKey pfx ip) st = Some 0" using assms(1) by (simp add: clean_def vk_count_def)
  then have "fst (incrWithExpire up now (failureCounterKey pfx ip) (BruteForceWindow l) st) = Some 1"
    using vk_incr_counts(1) by (fastforce simp: incrWithExpire_up)
  then show ?thesis using assms
    by (cases "incrWithExpire up now (failureCounterKey pfx ip) (BruteForceWindow l) st") (simp add: RecordFailure_def)
qed

lemma clean_other:
  assumes "clean ip pfx st" "length pfx = length pfx'" "pfx \<noteq> pfx'"
  shows "clean ip pfx (snd (incrWithExpire net now (failureCounterKey pfx' ip) w st))"
proof -
  have "failureCounterKey pfx ip \<noteq> failureCounterKey pfx' ip"
    using assms(2,3) by (simp add: failureCounterKey_def)
  then show ?thesis using assms(1)
    by (simp add: clean_def vk_live_incrWithExpire_other fail_lock_keys [symmetric])
qed

lemma extractPrefix_length: "extractPrefix p \<noteq> [] \<Longrightarrow> length (extractPrefix p) = keyPrefixLen"
  by (simp add: extractPrefix_def split: if_splits)

lemma guess_step:
  assumes "ae_net env = up" "ae_fails env = (\<lambda>_. False)" "ae_limiter env = Some l" "2 \<le> BruteForceThreshold l"
    and "p \<noteq> []" "\<forall>k\<in>set (as_rows s). VerifyAPIKey (ae_argon env) p (ak_hash k) \<noteq> Inr True"
    and "extractPrefix p \<noteq> [] \<Longrightarrow> clean ip (extractPrefix p) (as_valkey s)"
  shows "APIKeyMiddleware env t p ip s =
    (AuthError 401 APIKeyInvalid,
     s\<lparr>as_valkey := (if extractPrefix p = [] \<or> ip = [] then as_valkey s
        else snd (incrWithExpire up t (failureCounterKey (extractPrefix p) ip) (BruteForceWindow l) (as_valkey s)))\<rparr>)"
proof (cases "extractPrefix p = [] \<or> ip = []")
  case True
  then have "IsLockedOut up (Some l) t (extractPrefix p) ip (as_valkey s) = Inr not_locked"
    "RecordFailure up (Some l) t (extractPrefix p) ip (as_valkey s) = (Inr False, as_valkey s)"
    by (auto simp: IsLockedOut_def RecordFailure_def)
  then show ?thesis using assms(1-6) True
    by (simp add: APIKeyMiddleware_def Let_def locked_for_def unverified_rejected auth_status_def)
next
  case False
  then have c: "clean ip (extractPrefix p) (as_valkey s)" using assms(7) by blast
  then have "IsLockedOut up (Some l) t (extractPrefix p) ip (as_valkey s) = Inr not_locked"
    by (simp add: IsLockedOut_def readTTL_def vk_pttl_def clean_def)
  with clean_first_failure [OF c assms(4)] False assms(1-6) show ?thesis
    by (simp add: APIKeyMiddleware_def Let_def locked_for_def unverified_rejected auth_status_def)
qed

lemma attack_unlimited:
  assumes env: "ae_net env = up" "ae_fails env = (\<lambda>_. False)" "ae_limiter env = Some l" "2 \<le> BruteForceThreshold l"
    and "\<forall>(t, p)\<in>set reqs. p \<noteq> [] \<and> (\<forall>k\<in>set (as_rows s). VerifyAPIKey (ae_argon env) p (ak_hash k) \<noteq> Inr True)"
    and "distinct (filter (\<lambda>x. x \<noteq> []) (map (extractPrefix \<circ> snd) reqs))"
    and "\<forall>(t, p)\<in>set reqs. extractPrefix p \<noteq> [] \<longrightarrow> clean ip (extractPrefix p) (as_valkey s)"
  shows "attack env ip reqs s = replicate (length reqs) (AuthError 401 APIKeyInvalid)"
  using assms(5-7)
proof (induction reqs arbitrary: s)
  case (Cons r reqs)
  obtain t p where r: "r = (t, p)" by fastforce
  define st where "st = (if extractPrefix p = [] \<or> ip = [] then as_valkey s
        else snd (incrWithExpire up t (failureCounterKey (extractPrefix p) ip) (BruteForceWindow l) (as_valkey s)))"
  have step: "APIKeyMiddleware env t p ip s = (AuthError 401 APIKeyInvalid, s\<lparr>as_valkey := st\<rparr>)"
    unfolding st_def using Cons.prems r by (intro guess_step [OF env]) auto
  have "clean ip (extractPrefix q) st" if q: "(u, q) \<in> set reqs" "extractPrefix q \<noteq> []" for u q
  proof -
    have c: "clean ip (extractPrefix q) (as_valkey s)" using Cons.prems(3) q by auto
    show ?thesis
    proof (cases "extractPrefix p = [] \<or> ip = []")
      case False
      then have "extractPrefix q \<noteq> extractPrefix p" using Cons.prems(2) q r by force
      with c extractPrefix_length False q(2) show ?thesis by (simp add: st_def clean_other)
    qed (use c in \<open>simp add: st_def\<close>)
  qed
  then have "attack env ip reqs (s\<lparr>as_valkey := st\<rparr>) = replicate (length reqs) (AuthError 401 APIKeyInvalid)"
    using Cons.prems by (intro Cons.IH) (auto split: if_splits)
  with step r show ?case by simp
qed simp

text \<open>Whoever guesses keys from one address with a new prefix each time, or with keys too short
  to have one, is never rate limited: every guess, however many, runs through authentication and
  is answered 401.\<close>

theorem guessing_unlimited:
  assumes "ae_net env = up" "ae_fails env = (\<lambda>_. False)" "ae_limiter env = Some l" "2 \<le> BruteForceThreshold l"
    and "\<forall>(t, p)\<in>set reqs. p \<noteq> [] \<and> (\<forall>k\<in>set (as_rows s). VerifyAPIKey (ae_argon env) p (ak_hash k) \<noteq> Inr True)"
    and "distinct (filter (\<lambda>x. x \<noteq> []) (map (extractPrefix \<circ> snd) reqs))"
    and "\<forall>(t, p)\<in>set reqs. extractPrefix p \<noteq> [] \<longrightarrow> clean ip (extractPrefix p) (as_valkey s)"
  shows "attack env ip reqs s = replicate (length reqs) (AuthError 401 APIKeyInvalid)"
  using assms by (rule attack_unlimited)

theorem guessing_unlimited_witness:
  "attack (sample_api_env\<lparr>ae_limiter := Some DefaultRateLimitConfig\<rparr>) ''10.0.0.1''
     (map (\<lambda>i. (int i, ''cy_B'')) [0..<1000] @ [(1000, ''cy_AAAAAAAAx''), (1001, ''cy_AAAAAAABx'')])
     \<lparr>as_rows = [], as_valkey = \<lambda>_. None, as_recorder = None\<rparr> = replicate 1002 (AuthError 401 APIKeyInvalid)"
proof -
  let ?reqs = "map (\<lambda>i. (int i, ''cy_B'')) [0..<1000] @ [(1000, ''cy_AAAAAAAAx''), (1001, ''cy_AAAAAAABx'')]"
  let ?s = "\<lparr>as_rows = [], as_valkey = \<lambda>_. None, as_recorder = None\<rparr>"
  have "extractPrefix ''cy_B'' = []" "extractPrefix ''cy_AAAAAAAAx'' = ''cy_AAAAAAAA''" "extractPrefix ''cy_AAAAAAABx'' = ''cy_AAAAAAAB''"
    by (simp_all add: extractPrefix_def keyPrefixLen_def KeyPlaintextPrefix_def)
  then have "distinct (filter (\<lambda>x. x \<noteq> []) (map (extractPrefix \<circ> snd) ?reqs))"
    by (simp add: comp_def filter_empty_conv del: upt_Suc)
  moreover have "clean ''10.0.0.1'' x (\<lambda>_. None)" for x by (simp add: clean_def vk_live_def)
  ultimately have "attack (sample_api_env\<lparr>ae_limiter := Some DefaultRateLimitConfig\<rparr>) ''10.0.0.1'' ?reqs ?s =
      replicate (length ?reqs) (AuthError 401 APIKeyInvalid)"
    by (intro guessing_unlimited [where l = DefaultRateLimitConfig])
      (auto simp: sample_api_env_def DefaultRateLimitConfig_def)
  then show ?thesis by simp
qed

end
