(* ===== verification/Families.thy ===== *)
theory Families
  imports Prelude
begin

text \<open>
  The ledger of refresh-token families (\<open>internal/identity/refreshfamily/store.go\<close>): creation,
  the check-and-rotate of a presented token under the row lock, and revocation.  The locale is
  the contract a refresh endpoint relies on; its run of arbitrary operations shows that a token
  is redeemed at most once and that a revoked family stays dead.
\<close>

section \<open>The contract of the ledger\<close>

datatype ('e, 'f, 'j) ledger_op = OpCreate 'e 'f 'j | OpRotate 'e 'f 'j 'j | OpRevoke 'e 'f

locale family_ledger =
  fixes create :: "'e \<Rightarrow> 'f \<Rightarrow> 'j \<Rightarrow> 's \<Rightarrow> 's"
    and rotate :: "'e \<Rightarrow> 'f \<Rightarrow> 'j \<Rightarrow> 'j \<Rightarrow> 's \<Rightarrow> bool \<times> 's"
    and revoke :: "'e \<Rightarrow> 'f \<Rightarrow> 's \<Rightarrow> 's"
    and current :: "'s \<Rightarrow> 'f \<Rightarrow> 'j option"
    and known :: "'s \<Rightarrow> 'f \<Rightarrow> bool"
  assumes create_current: "current (create e f j s) g = Some k \<Longrightarrow> current s g = Some k \<or> (g = f \<and> k = j \<and> \<not> known s f)"
    and create_known: "known s g \<Longrightarrow> known (create e f j s) g"
    and rotate_accepts: "fst (rotate e f p n s) \<Longrightarrow> current s f = Some p \<and> current (snd (rotate e f p n s)) f = Some n"
    and rotate_refuses: "\<not> fst (rotate e f p n s) \<Longrightarrow> current (snd (rotate e f p n s)) g = Some k \<Longrightarrow> current s g = Some k"
    and rotate_other: "g \<noteq> f \<Longrightarrow> current (snd (rotate e f p n s)) g = current s g"
    and rotate_known: "known s g \<Longrightarrow> known (snd (rotate e f p n s)) g"
    and revoke_current: "current (revoke e f s) g = Some k \<Longrightarrow> current s g = Some k"
    and revoke_known: "known s g \<Longrightarrow> known (revoke e f s) g"
begin

fun exec :: "('e, 'f, 'j) ledger_op list \<Rightarrow> 's \<Rightarrow> ('f \<times> 'j) list \<times> 's" where
  "exec [] s = ([], s)"
| "exec (OpCreate e f j # ops) s = exec ops (create e f j s)"
| "exec (OpRotate e f p n # ops) s =
     (let (ok, s1) = rotate e f p n s; (acc, s2) = exec ops s1 in ((if ok then [(f, p)] else []) @ acc, s2))"
| "exec (OpRevoke e f # ops) s = exec ops (revoke e f s)"

fun minted :: "('e, 'f, 'j) ledger_op list \<Rightarrow> 'j list" where
  "minted [] = []"
| "minted (OpCreate e f j # ops) = j # minted ops"
| "minted (OpRotate e f p n # ops) = n # minted ops"
| "minted (OpRevoke e f # ops) = minted ops"

lemma rotate_current:
  "current (snd (rotate e f p n s)) g = Some k \<Longrightarrow> current s g = Some k \<or> (g = f \<and> k = n)"
proof (cases "fst (rotate e f p n s)")
  case True
  assume "current (snd (rotate e f p n s)) g = Some k"
  with True show ?thesis using rotate_accepts rotate_other by (cases "g = f") fastforce+
qed (use rotate_refuses in blast)

text \<open>A token that is neither current nor minted later is not accepted later.\<close>

lemma not_accepted:
  "current s f \<noteq> Some j \<Longrightarrow> j \<notin> set (minted ops) \<Longrightarrow> (f, j) \<notin> set (fst (exec ops s))"
proof (induction ops arbitrary: s)
  case (Cons a ops)
  show ?case
  proof (cases a)
    case (OpCreate e g k)
    then have "current (create e g k s) f \<noteq> Some j" using Cons.prems create_current by fastforce
    then show ?thesis using Cons OpCreate by simp
  next
    case (OpRotate e g p n)
    then have "current (snd (rotate e g p n s)) f \<noteq> Some j" using Cons.prems rotate_current by fastforce
    then have rest: "(f, j) \<notin> set (fst (exec ops (snd (rotate e g p n s))))"
      using Cons OpRotate by simp
    have "\<not> (fst (rotate e g p n s) \<and> (f, j) = (g, p))" using rotate_accepts Cons.prems(1) by blast
    with rest show ?thesis by (auto simp: OpRotate split_beta)
  next
    case (OpRevoke e g)
    then have "current (revoke e g s) f \<noteq> Some j" using Cons.prems revoke_current by blast
    then show ?thesis using Cons OpRevoke by simp
  qed
qed simp

lemma accepted_once:
  assumes "distinct (minted ops)" "\<And>f j. current s f = Some j \<Longrightarrow> j \<notin> set (minted ops)"
  shows "distinct (fst (exec ops s))"
  using assms
proof (induction ops arbitrary: s)
  case (Cons a ops)
  show ?case
  proof (cases a)
    case (OpCreate e f k)
    have "distinct (fst (exec ops (create e f k s)))"
    proof (rule Cons.IH)
      show "distinct (minted ops)" using Cons.prems OpCreate by simp
      show "j \<notin> set (minted ops)" if "current (create e f k s) g = Some j" for g j
        using create_current [OF that] Cons.prems OpCreate by auto
    qed
    then show ?thesis by (simp add: OpCreate)
  next
    case (OpRotate e f p n)
    let ?s = "snd (rotate e f p n s)"
    have rest: "distinct (fst (exec ops ?s))"
    proof (rule Cons.IH)
      show "distinct (minted ops)" using Cons.prems OpRotate by simp
      show "j \<notin> set (minted ops)" if "current ?s g = Some j" for g j
        using rotate_current [OF that] Cons.prems OpRotate by auto
    qed
    have "(f, p) \<notin> set (fst (exec ops ?s))" if "fst (rotate e f p n s)"
    proof (rule not_accepted)
      from rotate_accepts [OF that] Cons.prems(2) OpRotate
      have "p \<notin> set (minted (a # ops))" "current ?s f = Some n" by blast+
      then show "current ?s f \<noteq> Some p" "p \<notin> set (minted ops)" using OpRotate by auto
    qed
    with rest show ?thesis by (simp add: OpRotate split_beta)
  next
    case (OpRevoke e f)
    have "distinct (fst (exec ops (revoke e f s)))"
    proof (rule Cons.IH)
      show "distinct (minted ops)" using Cons.prems OpRevoke by simp
      show "j \<notin> set (minted ops)" if "current (revoke e f s) g = Some j" for g j
        using revoke_current [OF that] Cons.prems(2) OpRevoke by simp
    qed
    then show ?thesis by (simp add: OpRevoke)
  qed
qed simp

text \<open>A known family without a current token accepts nothing, whatever happens.\<close>

lemma dead_stays_dead:
  "known s f \<Longrightarrow> current s f = None \<Longrightarrow> (\<forall>j. (f, j) \<notin> set (fst (exec ops s))) \<and> current (snd (exec ops s)) f = None"
proof (induction ops arbitrary: s)
  case (Cons a ops)
  show ?case
  proof (cases a)
    case (OpCreate e g k)
    have "current (create e g k s) f = None"
    proof (rule ccontr)
      assume "current (create e g k s) f \<noteq> None"
      then show False using create_current Cons.prems by fastforce
    qed
    with Cons show ?thesis by (simp add: OpCreate create_known)
  next
    case (OpRotate e g p n)
    have refused: "\<not> (fst (rotate e g p n s) \<and> g = f)" using rotate_accepts Cons.prems(2) by fastforce
    have "current (snd (rotate e g p n s)) f = None"
    proof (rule ccontr)
      assume "current (snd (rotate e g p n s)) f \<noteq> None"
      then obtain k where k: "current (snd (rotate e g p n s)) f = Some k" by blast
      show False
      proof (cases "g = f")
        case True
        with refused have "\<not> fst (rotate e f p n s)" by blast
        from rotate_refuses [OF this] k True Cons.prems(2) show False by fastforce
      next
        case False
        then show False using rotate_other [of f g e p n s] k Cons.prems(2) by simp
      qed
    qed
    with Cons have "(\<forall>j. (f, j) \<notin> set (fst (exec ops (snd (rotate e g p n s))))) \<and>
        current (snd (exec ops (snd (rotate e g p n s)))) f = None" by (simp add: rotate_known)
    with refused show ?thesis by (auto simp: OpRotate split_beta)
  next
    case (OpRevoke e g)
    have "current (revoke e g s) f = None"
      using revoke_current [of e g s f] Cons.prems(2) by (cases "current (revoke e g s) f") auto
    with Cons show ?thesis by (simp add: OpRevoke revoke_known)
  qed
qed simp

end

section \<open>The store\<close>

record family =
  fam_subject :: uuid
  fam_last_jti :: string
  fam_last_used :: gotime
  fam_revoked :: "(gotime \<times> string) option"

type_synonym families = "uuid \<rightharpoonup> family"

datatype family_call = FamCreate | FamBegin | FamSelect | FamRevokeOnReuse | FamCommit | FamRotate | FamRevoke

datatype family_error = FamilyNotFound | FamilyRevoked | ReuseDetected | FamilyFailed family_call

record family_env =
  fe_fails :: "family_call \<Rightarrow> bool"
  fe_now :: gotime

text \<open>The primary key refuses a second family of one id.\<close>

definition Create :: "family_env \<Rightarrow> uuid \<Rightarrow> uuid \<Rightarrow> string \<Rightarrow> families \<Rightarrow> (family_error + unit) \<times> families" where
  "Create env familyID subj jti db =
     (if fe_fails env FamCreate \<or> db familyID \<noteq> None then (Inl (FamilyFailed FamCreate), db)
      else (Inr (), db(familyID \<mapsto>
        \<lparr>fam_subject = subj, fam_last_jti = jti, fam_last_used = fe_now env, fam_revoked = None\<rparr>)))"

definition ValidateAndRotate ::
  "family_env \<Rightarrow> uuid \<Rightarrow> string \<Rightarrow> string \<Rightarrow> families \<Rightarrow> (family_error + unit) \<times> families" where
  "ValidateAndRotate env familyID presentedJTI newJTI db =
     (if fe_fails env FamBegin then (Inl (FamilyFailed FamBegin), db)
      else if fe_fails env FamSelect then (Inl (FamilyFailed FamSelect), db)
      else case db familyID of
          None \<Rightarrow> (Inl FamilyNotFound, db)
        | Some row \<Rightarrow>
            if fam_revoked row \<noteq> None then (Inl FamilyRevoked, db)
            else if presentedJTI \<noteq> fam_last_jti row then
              (if fe_fails env FamRevokeOnReuse then (Inl (FamilyFailed FamRevokeOnReuse), db)
               else if fe_fails env FamCommit then (Inl (FamilyFailed FamCommit), db)
               else (Inl ReuseDetected, db(familyID \<mapsto> row\<lparr>fam_revoked := Some (fe_now env, ''reuse'')\<rparr>)))
            else if fe_fails env FamRotate then (Inl (FamilyFailed FamRotate), db)
            else if fe_fails env FamCommit then (Inl (FamilyFailed FamCommit), db)
            else (Inr (), db(familyID \<mapsto> row\<lparr>fam_last_jti := newJTI, fam_last_used := fe_now env\<rparr>)))"

definition Revoke :: "family_env \<Rightarrow> uuid \<Rightarrow> string \<Rightarrow> families \<Rightarrow> (family_error + unit) \<times> families" where
  "Revoke env familyID reason db =
     (if fe_fails env FamRevoke then (Inl (FamilyFailed FamRevoke), db)
      else (Inr (), case db familyID of
          None \<Rightarrow> db
        | Some row \<Rightarrow> db(familyID \<mapsto> row\<lparr>fam_revoked :=
            (case fam_revoked row of None \<Rightarrow> Some (fe_now env, reason) | Some r \<Rightarrow> Some r)\<rparr>)))"

text \<open>The token a family would accept.\<close>

definition current_jti :: "families \<Rightarrow> uuid \<Rightarrow> string option" where
  "current_jti db f =
     (case db f of None \<Rightarrow> None | Some row \<Rightarrow> if fam_revoked row = None then Some (fam_last_jti row) else None)"

lemma rotate_result:
  "fst (ValidateAndRotate env f p n db) = Inr () \<Longrightarrow>
     current_jti db f = Some p \<and> current_jti (snd (ValidateAndRotate env f p n db)) f = Some n"
  by (auto simp: ValidateAndRotate_def current_jti_def split: option.splits if_splits)

lemma rotate_reuse:
  "fst (ValidateAndRotate env f p n db) = Inl ReuseDetected \<Longrightarrow>
     (\<exists>j. current_jti db f = Some j \<and> j \<noteq> p) \<and>
     snd (ValidateAndRotate env f p n db) f \<noteq> None \<and> current_jti (snd (ValidateAndRotate env f p n db)) f = None"
  by (auto simp: ValidateAndRotate_def current_jti_def split: option.splits if_splits)

text \<open>Each operation comes with its environment, and a creation with its subject, a revocation with
  its reason.\<close>

type_synonym fam_op = "(family_env \<times> uuid \<times> string, uuid, string) ledger_op"

fun op_create :: "family_env \<times> uuid \<times> string \<Rightarrow> uuid \<Rightarrow> string \<Rightarrow> families \<Rightarrow> families" where
  "op_create (env, subj, reason) f j db = snd (Create env f subj j db)"

fun op_rotate :: "family_env \<times> uuid \<times> string \<Rightarrow> uuid \<Rightarrow> string \<Rightarrow> string \<Rightarrow> families \<Rightarrow> bool \<times> families" where
  "op_rotate (env, subj, reason) f p n db =
     (fst (ValidateAndRotate env f p n db) = Inr (), snd (ValidateAndRotate env f p n db))"

fun op_revoke :: "family_env \<times> uuid \<times> string \<Rightarrow> uuid \<Rightarrow> families \<Rightarrow> families" where
  "op_revoke (env, subj, reason) f db = snd (Revoke env f reason db)"

interpretation fam: family_ledger op_create op_rotate op_revoke current_jti "\<lambda>db f. db f \<noteq> None"
  by unfold_locales
    (auto simp: Create_def ValidateAndRotate_def Revoke_def current_jti_def split: option.splits if_splits)

text \<open>A run of operations: the redeemed tokens with their families, and the ledger after it.\<close>

fun ledger_run :: "fam_op list \<Rightarrow> families \<Rightarrow> (uuid \<times> string) list \<times> families" where
  "ledger_run [] db = ([], db)"
| "ledger_run (OpCreate (env, subj, reason) f j # ops) db = ledger_run ops (snd (Create env f subj j db))"
| "ledger_run (OpRotate (env, subj, reason) f p n # ops) db =
     (let r = ValidateAndRotate env f p n db; rest = ledger_run ops (snd r) in
      ((if fst r = Inr () then [(f, p)] else []) @ fst rest, snd rest))"
| "ledger_run (OpRevoke (env, subj, reason) f # ops) db = ledger_run ops (snd (Revoke env f reason db))"

lemma ledger_run_exec: "ledger_run ops db = fam.exec ops db"
  by (induction ops db rule: ledger_run.induct) (simp_all add: split_beta Let_def)

fun new_jtis :: "fam_op list \<Rightarrow> string list" where
  "new_jtis [] = []"
| "new_jtis (OpCreate e f j # ops) = j # new_jtis ops"
| "new_jtis (OpRotate e f p n # ops) = n # new_jtis ops"
| "new_jtis (OpRevoke e f # ops) = new_jtis ops"

lemma new_jtis_minted: "new_jtis ops = fam.minted ops"
  by (induction ops rule: new_jtis.induct) simp_all

lemma revoked_family_dead:
  "db f \<noteq> None \<Longrightarrow> current_jti db f = None \<Longrightarrow>
     (\<forall>j. (f, j) \<notin> set (fst (ledger_run ops db))) \<and> current_jti (snd (ledger_run ops db)) f = None"
  unfolding ledger_run_exec by (rule fam.dead_stays_dead)

text \<open>C26: When token identifiers are fresh, a refresh token is redeemed at most once in any run of
  creations, rotations and revocations, whichever database calls fail; and once a reuse is
  detected, no token of that family is redeemed again, and its current one is gone for good.\<close>

theorem refresh_token_once:
  assumes "distinct (new_jtis ops)" "\<And>f j. current_jti db f = Some j \<Longrightarrow> j \<notin> set (new_jtis ops)"
  shows "distinct (fst (ledger_run ops db)) \<and>
    (fst (ValidateAndRotate env f p n db) = Inl ReuseDetected \<longrightarrow>
       (let (acc, db') = ledger_run ops (snd (ValidateAndRotate env f p n db)) in
        (\<forall>j. (f, j) \<notin> set acc) \<and> current_jti db' f = None))"
proof
  show "distinct (fst (ledger_run ops db))"
    unfolding ledger_run_exec by (rule fam.accepted_once) (use assms in \<open>simp_all add: new_jtis_minted\<close>)
  show "fst (ValidateAndRotate env f p n db) = Inl ReuseDetected \<longrightarrow>
       (let (acc, db') = ledger_run ops (snd (ValidateAndRotate env f p n db)) in
        (\<forall>j. (f, j) \<notin> set acc) \<and> current_jti db' f = None)"
    using revoked_family_dead rotate_reuse by (fastforce simp: split_beta)
qed

abbreviation ok_env :: family_env where "ok_env \<equiv> \<lparr>fe_fails = \<lambda>_. False, fe_now = 0\<rparr>"

definition sample_ops :: "fam_op list" where
  "sample_ops = [OpCreate (ok_env, 9, []) 1 ''a'', OpRotate (ok_env, 9, []) 1 ''a'' ''b'', OpRotate (ok_env, 9, []) 1 ''a'' ''c'',
     OpRotate (ok_env, 9, []) 1 ''b'' ''d'']"

theorem refresh_token_once_witness:
  "distinct (fst (ledger_run sample_ops Map.empty)) \<and> fst (ledger_run sample_ops Map.empty) = [(1, ''a'')]"
  using refresh_token_once [of sample_ops Map.empty ok_env 1 "''a''" "''b''"]
  by (simp add: sample_ops_def Create_def ValidateAndRotate_def current_jti_def)

end
