(* ===== verification/Session.thy ===== *)
theory Session
  imports ApiKey Families Keystore
begin

text \<open>
  Login, refresh, minting and verification of tokens: \<open>internal/identity/auth/login.go\<close>,
  \<open>refresh.go\<close>, \<open>persons_store.go\<close>, \<open>internal/identity/mint/minter.go\<close> and
  \<open>internal/identity/tokenverify/verifier.go\<close>.  The JWT library, the PEM and JSON
  decoders and google/uuid are parameters; a handler runs at one instant, and the fresh UUIDs it draws are
  arguments.
\<close>

section \<open>Claims and the JWT library\<close>

record jwt_claims =
  jc_iss :: string
  jc_sub :: string
  jc_aud :: "string list"
  jc_id :: string
  jc_iat :: int
  jc_nbf :: int
  jc_exp :: int
  jc_org :: string
  jc_person :: string
  jc_user_type :: string
  jc_scopes :: "string list"
  jc_family :: string

record jwt_header =
  jh_kid :: "string option"
  jh_alg :: string

datatype token_error =
    TokenExpired | TokenSignature | TokenAudience | TokenIssuer | TokenAlgorithm | TokenMissingKid
  | TokenUnknownKid | TokenMalformed | TokenOther

datatype jwt_error =
    JwtExpired | JwtNotValidYet | JwtSignatureInvalid | JwtMalformed | JwtKeyfunc token_error | JwtOther

text \<open>A public key is its modulus and exponent.\<close>

type_synonym rsa_public = "nat \<times> int"

text \<open>What the code uses of golang-jwt, encoding/json and crypto/x509: signing under a key id, the
  header that the parser hands to the key function (\<open>None\<close> when it does not get that far), parsing
  with a key function and a list of methods, the decoding of a stored JWK into its kty, n and e,
  and the PEM and PKCS1 parsers.\<close>

record jwt_lib =
  jl_sign :: "string \<Rightarrow> string \<Rightarrow> jwt_claims \<Rightarrow> string option"
  jl_header :: "string \<Rightarrow> jwt_header option"
  jl_parse :: "string list \<Rightarrow> (jwt_header \<Rightarrow> token_error + rsa_public) \<Rightarrow> gotime \<Rightarrow> string \<Rightarrow> jwt_error + jwt_claims"
  jl_private :: "string \<Rightarrow> string option"
  jl_jwk :: "string \<Rightarrow> (string \<times> string \<times> string) option"
  jl_public_pem :: "string \<Rightarrow> rsa_public option"

section \<open>State, configuration, environment\<close>

record credential =
  cr_hash :: string
  cr_mfa :: bool
  cr_locked_until :: "gotime option"
  cr_failed :: int

record person =
  pe_id :: uuid
  pe_org :: uuid
  pe_email :: string
  pe_user_type :: string
  pe_active :: bool
  pe_last_login :: "gotime option"
  pe_cred :: "credential option"

record session_state =
  ss_persons :: "person list"
  ss_families :: families
  ss_keys :: key_rows
  ss_cache :: key_cache
  ss_valkey :: valkey

datatype person_call = LookupLogin | LookupID | MarkFailure | MarkSuccessPerson | MarkSuccessCredential
  | CreateBegin | CreatePersonRow | CreateCredentialRow | CreateCommit

record session_cfg =
  sc_argon :: argon_fun
  sc_lower :: "string \<Rightarrow> string"
  sc_citext :: "string \<Rightarrow> string"
  sc_uuid_str :: "uuid \<Rightarrow> string"
  sc_uuid_parse :: "string \<Rightarrow> uuid option"
  sc_jwt :: jwt_lib
  sc_issuer :: string
  sc_audience :: "string list"
  sc_access_ttl :: duration
  sc_refresh_ttl :: duration
  sc_limiter :: "login_limiter option"

record session_env =
  se_now :: gotime
  se_person_fails :: "person_call \<Rightarrow> bool"
  se_key_fails :: "key_call \<Rightarrow> bool"
  se_family_fails :: "family_call \<Rightarrow> bool"
  se_net :: rl_net
  se_new_family :: uuid
  se_new_access :: uuid
  se_new_refresh :: uuid

definition fam_env :: "session_env \<Rightarrow> family_env" where
  "fam_env env = \<lparr>fe_fails = se_family_fails env, fe_now = se_now env\<rparr>"

section \<open>Persons\<close>

datatype person_error = PersonNotFound | PersonLocked | PersonFailed

text \<open>The email column is CITEXT: it is compared in lower case.  An address is unique within an org
  only, and the first row is taken.\<close>

definition same_email :: "(string \<Rightarrow> string) \<Rightarrow> string \<Rightarrow> string \<Rightarrow> bool" where
  "same_email lower a b \<longleftrightarrow> to_lower lower a = to_lower lower b"

definition LookupForLogin ::
  "(string \<Rightarrow> string) \<Rightarrow> session_env \<Rightarrow> string \<Rightarrow> person list \<Rightarrow> person_error + (person \<times> credential)" where
  "LookupForLogin lower env email ps =
     (if se_person_fails env LookupLogin then Inl PersonFailed
      else case List.find (\<lambda>p. same_email lower (pe_email p) email \<and> pe_active p \<and> pe_cred p \<noteq> None) ps of
          None \<Rightarrow> Inl PersonNotFound
        | Some p \<Rightarrow>
            (let c = the (pe_cred p) in
             case cr_locked_until c of
               Some u \<Rightarrow> if se_now env < u then Inl PersonLocked else Inr (p, c)
             | None \<Rightarrow> Inr (p, c)))"

definition LookupByID :: "session_env \<Rightarrow> uuid \<Rightarrow> person list \<Rightarrow> person_error + person" where
  "LookupByID env pid ps =
     (if se_person_fails env LookupID then Inl PersonFailed
      else case List.find (\<lambda>p. pe_id p = pid \<and> pe_active p) ps of None \<Rightarrow> Inl PersonNotFound | Some p \<Rightarrow> Inr p)"

text \<open>Two statements without a transaction: the second is not run when the first fails.\<close>

definition MarkLoginSuccess :: "session_env \<Rightarrow> uuid \<Rightarrow> person list \<Rightarrow> person list" where
  "MarkLoginSuccess env pid ps =
     (if se_person_fails env MarkSuccessPerson then ps
      else let ps1 = map (\<lambda>p. if pe_id p = pid then p\<lparr>pe_last_login := Some (se_now env)\<rparr> else p) ps in
        if se_person_fails env MarkSuccessCredential then ps1
        else map (\<lambda>p. if pe_id p = pid
               then p\<lparr>pe_cred := map_option (\<lambda>c. c\<lparr>cr_failed := 0, cr_locked_until := None\<rparr>) (pe_cred p)\<rparr> else p) ps1)"

text \<open>The handler passes no lock: \<open>locked_until\<close> stays.\<close>

definition MarkLoginFailure :: "session_env \<Rightarrow> uuid \<Rightarrow> gotime option \<Rightarrow> person list \<Rightarrow> person list" where
  "MarkLoginFailure env pid lockUntil ps =
     (if se_person_fails env MarkFailure then ps
      else map (\<lambda>p. if pe_id p = pid
             then p\<lparr>pe_cred := map_option (\<lambda>c. c\<lparr>cr_failed := cr_failed c + 1,
                      cr_locked_until := (case lockUntil of None \<Rightarrow> cr_locked_until c | Some u \<Rightarrow> Some u)\<rparr>) (pe_cred p)\<rparr> else p) ps)"

text \<open>One transaction; the columns' defaults make the person active, without MFA and not locked.\<close>

definition user_types :: "string list" where
  "user_types = [''read_only'', ''regular'', ''power'', ''admin'', ''system'']"

definition CreatePersonWithPassword ::
  "session_cfg \<Rightarrow> session_env \<Rightarrow> bool \<Rightarrow> string \<Rightarrow> uuid \<Rightarrow> uuid \<Rightarrow> string \<Rightarrow> string \<Rightarrow> string \<Rightarrow> person list
     \<Rightarrow> (person_error + uuid) \<times> person list" where
  "CreatePersonWithPassword cfg env rand_fails salt personID orgID email password userType ps =
     (case HashPassword (sc_argon cfg) rand_fails salt password of
        None \<Rightarrow> (Inl PersonFailed, ps)
      | Some h \<Rightarrow>
          if se_person_fails env CreateBegin \<or> se_person_fails env CreatePersonRow
             \<or> list_ex (\<lambda>p. pe_id p = personID \<or> (pe_org p = orgID \<and> same_email (sc_citext cfg) (pe_email p) email)) ps
             \<or> userType \<notin> set user_types
             \<or> se_person_fails env CreateCredentialRow \<or> se_person_fails env CreateCommit
          then (Inl PersonFailed, ps)
          else (Inr personID,
                ps @ [\<lparr>pe_id = personID, pe_org = orgID, pe_email = email, pe_user_type = userType, pe_active = True,
                  pe_last_login = None,
                  pe_cred = Some \<lparr>cr_hash = h, cr_mfa = False, cr_locked_until = None, cr_failed = 0\<rparr>\<rparr>]))"

section \<open>Minting\<close>

record mint_subject =
  su_UserID :: uuid
  su_OrgID :: uuid
  su_PersonID :: uuid
  su_UserType :: string
  su_Scopes :: "string list"

record token_pair =
  tp_AccessToken :: string
  tp_RefreshToken :: string
  tp_AccessJTI :: string
  tp_RefreshJTI :: string
  tp_FamilyID :: string
  tp_AccessExp :: gotime
  tp_RefreshExp :: gotime

datatype mint_error = MintKey key_error | MintPrivateKey | MintSignAccess | MintSignRefresh

text \<open>A numeric date keeps whole seconds.\<close>

definition common_claims :: "session_cfg \<Rightarrow> session_env \<Rightarrow> mint_subject \<Rightarrow> uuid \<Rightarrow> jwt_claims" where
  "common_claims cfg env su family =
     \<lparr>jc_iss = sc_issuer cfg, jc_sub = sc_uuid_str cfg (su_UserID su), jc_aud = [], jc_id = [],
      jc_iat = se_now env div second, jc_nbf = se_now env div second, jc_exp = 0,
      jc_org = sc_uuid_str cfg (su_OrgID su), jc_person = sc_uuid_str cfg (su_PersonID su),
      jc_user_type = su_UserType su, jc_scopes = su_Scopes su, jc_family = sc_uuid_str cfg family\<rparr>"

definition refresh_claims :: "session_cfg \<Rightarrow> session_env \<Rightarrow> mint_subject \<Rightarrow> uuid \<Rightarrow> jwt_claims" where
  "refresh_claims cfg env su family =
     (common_claims cfg env su family)\<lparr>jc_aud := [''refresh''], jc_id := sc_uuid_str cfg (se_new_refresh env),
        jc_exp := (se_now env + sc_refresh_ttl cfg) div second\<rparr>"

definition access_claims :: "session_cfg \<Rightarrow> session_env \<Rightarrow> mint_subject \<Rightarrow> uuid \<Rightarrow> jwt_claims" where
  "access_claims cfg env su family =
     (common_claims cfg env su family)\<lparr>jc_aud := sc_audience cfg, jc_id := sc_uuid_str cfg (se_new_access env),
        jc_exp := (se_now env + sc_access_ttl cfg) div second\<rparr>"

definition MintPair :: "session_cfg \<Rightarrow> session_env \<Rightarrow> mint_subject \<Rightarrow> uuid \<Rightarrow> key_rows \<Rightarrow> mint_error + token_pair" where
  "MintPair cfg env su familyID rows =
     (let family = (if familyID = uuid_nil then se_new_family env else familyID) in
      case Active (se_key_fails env) rows of
        Inl e \<Rightarrow> Inl (MintKey e)
      | Inr sk \<Rightarrow>
          (case jl_private (sc_jwt cfg) (sk_PrivateKeyPEM sk) of
             None \<Rightarrow> Inl MintPrivateKey
           | Some priv \<Rightarrow>
               (case jl_sign (sc_jwt cfg) priv (sk_Kid sk) (access_claims cfg env su family) of
                  None \<Rightarrow> Inl MintSignAccess
                | Some access \<Rightarrow>
                    (case jl_sign (sc_jwt cfg) priv (sk_Kid sk) (refresh_claims cfg env su family) of
                       None \<Rightarrow> Inl MintSignRefresh
                     | Some refresh \<Rightarrow>
                         Inr \<lparr>tp_AccessToken = access, tp_RefreshToken = refresh,
                           tp_AccessJTI = sc_uuid_str cfg (se_new_access env), tp_RefreshJTI = sc_uuid_str cfg (se_new_refresh env),
                           tp_FamilyID = sc_uuid_str cfg family,
                           tp_AccessExp = se_now env + sc_access_ttl cfg, tp_RefreshExp = se_now env + sc_refresh_ttl cfg\<rparr>))))"

section \<open>Verification\<close>

definition mapJWTError :: "jwt_error \<Rightarrow> token_error" where
  "mapJWTError e =
     (case e of JwtExpired \<Rightarrow> TokenExpired | JwtNotValidYet \<Rightarrow> TokenExpired | JwtSignatureInvalid \<Rightarrow> TokenSignature
      | JwtMalformed \<Rightarrow> TokenMalformed | JwtKeyfunc t \<Rightarrow> t | JwtOther \<Rightarrow> TokenOther)"

text \<open>\<open>base64.RawURLEncoding\<close> differs from the standard alphabet in two digits.\<close>

definition b64url_decode :: "string \<Rightarrow> string option" where
  "b64url_decode s =
     (if CHR ''+'' \<in> set s \<or> CHR ''/'' \<in> set s then None
      else b64_decode (map (\<lambda>c. if c = CHR ''-'' then CHR ''+'' else if c = CHR ''_'' then CHR ''/'' else c) s))"

definition big_endian :: "string \<Rightarrow> nat" where
  "big_endian s = foldl (\<lambda>n c. 256 * n + of_char c) 0 s"

definition parseRSAPublicKeyFromJWK :: "jwt_lib \<Rightarrow> string \<Rightarrow> rsa_public option" where
  "parseRSAPublicKeyFromJWK lib jwk =
     (case jl_jwk lib jwk of
        None \<Rightarrow> None
      | Some (kty, n, e) \<Rightarrow>
          if kty \<noteq> ''RSA'' then None
          else (case b64url_decode n of
              None \<Rightarrow> None
            | Some nb \<Rightarrow>
                (case b64url_decode e of
                   None \<Rightarrow> None
                 | Some eb \<Rightarrow> if 2 ^ 63 \<le> big_endian eb then None else Some (big_endian nb, int (big_endian eb)))))"

text \<open>The key function: the key id selects the key, whose algorithm has to be the token's.\<close>

definition token_keyfunc :: "session_cfg \<Rightarrow> session_env \<Rightarrow> key_rows \<Rightarrow> key_cache \<Rightarrow> jwt_header \<Rightarrow> token_error + rsa_public" where
  "token_keyfunc cfg env rows c h =
     (case jh_kid h of
        None \<Rightarrow> Inl TokenMissingKid
      | Some kid \<Rightarrow>
          if kid = [] then Inl TokenMissingKid
          else (case fst (FindByKid (se_key_fails env) (se_now env) kid rows c) of
              Inl _ \<Rightarrow> Inl TokenUnknownKid
            | Inr sk \<Rightarrow>
                if jh_alg h \<noteq> sk_Alg sk then Inl TokenAlgorithm
                else if sk_Alg sk = ''RS256'' then
                  (case (if sk_PublicJWK sk \<noteq> [] then parseRSAPublicKeyFromJWK (sc_jwt cfg) (sk_PublicJWK sk)
                         else jl_public_pem (sc_jwt cfg) (sk_PrivateKeyPEM sk)) of
                     None \<Rightarrow> Inl TokenOther | Some pub \<Rightarrow> Inr pub)
                else Inl TokenAlgorithm))"

text \<open>The cache after the key function ran, if the parser called it with a key id.\<close>

definition token_cache :: "session_cfg \<Rightarrow> session_env \<Rightarrow> key_rows \<Rightarrow> key_cache \<Rightarrow> string \<Rightarrow> key_cache" where
  "token_cache cfg env rows c tok =
     (case jl_header (sc_jwt cfg) tok of
        Some h \<Rightarrow> (if jh_kid h = None \<or> jh_kid h = Some [] then c else snd (VerifySet (se_key_fails env) (se_now env) rows c))
      | None \<Rightarrow> c)"

definition audienceContains :: "string list \<Rightarrow> string \<Rightarrow> bool" where
  "audienceContains aud want = list_ex (\<lambda>a. a = want) aud"

definition VerifyToken ::
  "session_cfg \<Rightarrow> session_env \<Rightarrow> string \<Rightarrow> key_rows \<Rightarrow> key_cache \<Rightarrow> string \<Rightarrow> (token_error + jwt_claims) \<times> key_cache" where
  "VerifyToken cfg env audience rows c tok =
     ((case jl_parse (sc_jwt cfg) [''RS256''] (token_keyfunc cfg env rows c) (se_now env) tok of
         Inl e \<Rightarrow> Inl (mapJWTError e)
       | Inr claims \<Rightarrow>
           if jc_iss claims \<noteq> sc_issuer cfg then Inl TokenIssuer
           else if \<not> audienceContains (jc_aud claims) audience then Inl TokenAudience
           else Inr claims),
      token_cache cfg env rows c tok)"


section \<open>Requests and answers\<close>

datatype session_reply =
    AuthRefused nat string
  | LoginLimited "duration option"
  | LoginOk string string int string string
  | RefreshOk string string int

text \<open>\<open>Retry-After\<close> in whole seconds and at least one; none for a delay that is not positive.\<close>

definition writeAuthRateLimitErr :: "duration \<Rightarrow> session_reply" where
  "writeAuthRateLimitErr d = LoginLimited (if 0 < d then Some (max 1 (d div second)) else None)"

text \<open>\<open>int64(time.Until(exp).Seconds())\<close> at the instant of minting.\<close>

definition expires_in :: "session_env \<Rightarrow> token_pair \<Rightarrow> int" where
  "expires_in env p = time_sub (tp_AccessExp p) (se_now env) sdiv second"

section \<open>Login\<close>

definition recordLoginFailure :: "session_cfg \<Rightarrow> session_env \<Rightarrow> string \<Rightarrow> string \<Rightarrow> session_state \<Rightarrow> session_state" where
  "recordLoginFailure cfg env email ip st =
     st\<lparr>ss_valkey := snd (RecordLoginFailure (se_net env) (sc_lower cfg) (sc_limiter cfg) (se_now env) email ip (ss_valkey st))\<rparr>"

text \<open>The gate before the lookup; an error of the limiter counts as not limited.\<close>

definition login_gate :: "session_cfg \<Rightarrow> session_env \<Rightarrow> string \<Rightarrow> string \<Rightarrow> session_state \<Rightarrow> duration option" where
  "login_gate cfg env email ip st =
     locked_for (Check (se_net env) (sc_lower cfg) (sc_limiter cfg) (se_now env) email ip (ss_valkey st))"

definition login_subject :: "person \<Rightarrow> mint_subject" where
  "login_subject p = \<lparr>su_UserID = pe_id p, su_OrgID = pe_org p, su_PersonID = pe_id p, su_UserType = pe_user_type p, su_Scopes = []\<rparr>"

text \<open>From the checked credential on: mint, record the family, reset the counters, answer.\<close>

definition login_session :: "session_cfg \<Rightarrow> session_env \<Rightarrow> string \<Rightarrow> person \<Rightarrow> session_state \<Rightarrow> session_reply \<times> session_state" where
  "login_session cfg env email p st =
     (case MintPair cfg env (login_subject p) uuid_nil (ss_keys st) of
        Inl _ \<Rightarrow> (AuthRefused 500 ''mint_failed'', st)
      | Inr pair \<Rightarrow>
          (case sc_uuid_parse cfg (tp_FamilyID pair) of
             None \<Rightarrow> (AuthRefused 500 ''mint_failed'', st)
           | Some familyID \<Rightarrow>
               (case Create (fam_env env) familyID (pe_id p) (tp_RefreshJTI pair) (ss_families st) of
                  (Inl _, _) \<Rightarrow> (AuthRefused 500 ''family_create_failed'', st)
                | (Inr _, fams) \<Rightarrow>
                    (LoginOk (tp_AccessToken pair) (tp_RefreshToken pair) (expires_in env pair)
                       (sc_uuid_str cfg (pe_id p)) (sc_uuid_str cfg (pe_org p)),
                     st\<lparr>ss_families := fams, ss_persons := MarkLoginSuccess env (pe_id p) (ss_persons st),
                        ss_valkey := snd (ClearLogin (se_net env) (sc_lower cfg) (sc_limiter cfg) email (ss_valkey st))\<rparr>))))"

definition login :: "session_cfg \<Rightarrow> session_env \<Rightarrow> string \<Rightarrow> (string \<times> string) req_body \<Rightarrow> session_state \<Rightarrow> session_reply \<times> session_state" where
  "login cfg env ip body st =
     (case body of
        BodyUnreadable \<Rightarrow> (AuthRefused 400 ''body_read_failed'', st)
      | BodyTooLarge \<Rightarrow> (AuthRefused 400 ''body_read_failed'', st)
      | BodyNotJson \<Rightarrow> (AuthRefused 400 ''malformed_json'', st)
      | BodyJson (email0, password) \<Rightarrow>
          let email = trim_space email0 in
          if email = [] \<or> password = [] then (AuthRefused 401 ''invalid_credentials'', st)
          else (case login_gate cfg env email ip st of
              Some r \<Rightarrow> (writeAuthRateLimitErr r, st)
            | None \<Rightarrow>
                (case LookupForLogin (sc_citext cfg) env email (ss_persons st) of
                   Inl PersonFailed \<Rightarrow> (AuthRefused 500 ''lookup_failed'', st)
                 | Inl _ \<Rightarrow> (AuthRefused 401 ''invalid_credentials'', recordLoginFailure cfg env email ip st)
                 | Inr (p, c) \<Rightarrow>
                     if VerifyPassword (sc_argon cfg) password (cr_hash c) \<noteq> None then
                       (AuthRefused 401 ''invalid_credentials'',
                        recordLoginFailure cfg env email ip (st\<lparr>ss_persons := MarkLoginFailure env (pe_id p) None (ss_persons st)\<rparr>))
                     else if cr_mfa c then (AuthRefused 401 ''mfa_required'', st)
                     else login_session cfg env email p st)))"

section \<open>Refresh\<close>

definition claim_uuid :: "session_cfg \<Rightarrow> string \<Rightarrow> uuid" where
  "claim_uuid cfg s = (if s = [] then uuid_nil else case sc_uuid_parse cfg s of None \<Rightarrow> uuid_nil | Some u \<Rightarrow> u)"

text \<open>The subject of the new pair, with the current org of the person, or the refusal and the
  reason to revoke the family.\<close>

definition refresh_subject ::
  "session_cfg \<Rightarrow> session_env \<Rightarrow> jwt_claims \<Rightarrow> uuid \<Rightarrow> person list \<Rightarrow> person_error + mint_subject" where
  "refresh_subject cfg env claims subjectID ps =
     (let su = \<lparr>su_UserID = subjectID, su_OrgID = claim_uuid cfg (jc_org claims), su_PersonID = claim_uuid cfg (jc_person claims),
                su_UserType = jc_user_type claims, su_Scopes = jc_scopes claims\<rparr> in
      if su_PersonID su = uuid_nil then Inr su
      else map_sum id (\<lambda>p. su\<lparr>su_OrgID := pe_org p\<rparr>) (LookupByID env (su_PersonID su) ps))"

definition rotate_reply :: "family_error \<Rightarrow> session_reply" where
  "rotate_reply e =
     (case e of ReuseDetected \<Rightarrow> AuthRefused 401 ''reuse_detected'' | FamilyRevoked \<Rightarrow> AuthRefused 401 ''family_revoked''
      | FamilyNotFound \<Rightarrow> AuthRefused 401 ''family_not_found'' | FamilyFailed _ \<Rightarrow> AuthRefused 500 ''rotate_failed'')"

definition verify_reply :: "token_error \<Rightarrow> session_reply" where
  "verify_reply e =
     (case e of TokenExpired \<Rightarrow> AuthRefused 401 ''token_expired'' | TokenAudience \<Rightarrow> AuthRefused 403 ''audience_mismatch''
      | _ \<Rightarrow> AuthRefused 401 ''invalid_token'')"

definition refresh_claimed ::
  "session_cfg \<Rightarrow> session_env \<Rightarrow> jwt_claims \<Rightarrow> uuid \<Rightarrow> uuid \<Rightarrow> session_state \<Rightarrow> session_reply \<times> session_state" where
  "refresh_claimed cfg env claims familyID subjectID st =
     (case refresh_subject cfg env claims subjectID (ss_persons st) of
        Inl PersonNotFound \<Rightarrow>
          (AuthRefused 401 ''person_inactive'',
           st\<lparr>ss_families := snd (Revoke (fam_env env) familyID ''person_inactive'' (ss_families st))\<rparr>)
      | Inl _ \<Rightarrow> (AuthRefused 500 ''lookup_failed'', st)
      | Inr su \<Rightarrow>
          (case MintPair cfg env su familyID (ss_keys st) of
             Inl _ \<Rightarrow> (AuthRefused 500 ''mint_failed'', st)
           | Inr pair \<Rightarrow>
               (case ValidateAndRotate (fam_env env) familyID (jc_id claims) (tp_RefreshJTI pair) (ss_families st) of
                  (Inl e, fams) \<Rightarrow> (rotate_reply e, st\<lparr>ss_families := fams\<rparr>)
                | (Inr _, fams) \<Rightarrow>
                    (RefreshOk (tp_AccessToken pair) (tp_RefreshToken pair) (expires_in env pair), st\<lparr>ss_families := fams\<rparr>))))"

definition refresh :: "session_cfg \<Rightarrow> session_env \<Rightarrow> string req_body \<Rightarrow> session_state \<Rightarrow> session_reply \<times> session_state" where
  "refresh cfg env body st =
     (case body of
        BodyTooLarge \<Rightarrow> (AuthRefused 413 ''body_too_large'', st)
      | BodyUnreadable \<Rightarrow> (AuthRefused 400 ''body_read_failed'', st)
      | BodyNotJson \<Rightarrow> (AuthRefused 400 ''invalid_json'', st)
      | BodyJson tok \<Rightarrow>
          if tok = [] then (AuthRefused 400 ''missing_refresh_token'', st)
          else (case VerifyToken cfg env ''refresh'' (ss_keys st) (ss_cache st) tok of
              (Inl e, cache) \<Rightarrow> (verify_reply e, st\<lparr>ss_cache := cache\<rparr>)
            | (Inr claims, cache) \<Rightarrow>
                let st = st\<lparr>ss_cache := cache\<rparr> in
                if jc_family claims = [] then (AuthRefused 401 ''missing_family_id'', st)
                else (case sc_uuid_parse cfg (jc_family claims) of
                    None \<Rightarrow> (AuthRefused 401 ''malformed_family_id'', st)
                  | Some familyID \<Rightarrow>
                      (case sc_uuid_parse cfg (jc_sub claims) of
                         None \<Rightarrow> (AuthRefused 401 ''malformed_subject'', st)
                       | Some subjectID \<Rightarrow> refresh_claimed cfg env claims familyID subjectID st))))"

end
