(* ===== verification/SessionLaws.thy ===== *)
theory SessionLaws
  imports Session
begin

text \<open>
  What the session handlers guarantee: who gets a refreshed pair, and the round trip from a login
  through one refresh to the refusal of a reused token.  The contract of the JWT library is the
  predicate \<open>jwt_contract\<close>; a toy library that satisfies it carries the witnesses.
\<close>

section \<open>A refreshed pair\<close>

text \<open>What a refresh token has to be for a pair: verified for the audience, the current one of its
  family, and of an active person when it names one.\<close>

definition redeemable :: "session_cfg \<Rightarrow> session_env \<Rightarrow> string \<Rightarrow> session_state \<Rightarrow> jwt_claims \<Rightarrow> uuid \<Rightarrow> bool" where
  "redeemable cfg env tok st claims f \<longleftrightarrow>
     fst (VerifyToken cfg env ''refresh'' (ss_keys st) (ss_cache st) tok) = Inr claims
     \<and> sc_uuid_parse cfg (jc_family claims) = Some f \<and> current_jti (ss_families st) f = Some (jc_id claims)
     \<and> (claim_uuid cfg (jc_person claims) = uuid_nil \<or>
        (\<exists>p\<in>set (ss_persons st). pe_id p = claim_uuid cfg (jc_person claims) \<and> pe_active p))"

lemma VerifyToken_cases:
  obtains (ok) claims cache where "VerifyToken cfg env aud rows c tok = (Inr claims, cache)"
  | (bad) e cache where "VerifyToken cfg env aud rows c tok = (Inl e, cache)"
  by (cases "VerifyToken cfg env aud rows c tok"; cases "fst (VerifyToken cfg env aud rows c tok)") auto

lemma MintPair_Inr:
  "MintPair cfg env su f rows = Inr pair \<Longrightarrow>
     tp_RefreshJTI pair = sc_uuid_str cfg (se_new_refresh env) \<and> tp_AccessExp pair = se_now env + sc_access_ttl cfg
     \<and> tp_FamilyID pair = sc_uuid_str cfg (if f = uuid_nil then se_new_family env else f)"
  by (auto simp: MintPair_def Let_def split: sum.splits option.splits)

lemma LookupByID_Inr: "LookupByID env pid ps = Inr p \<Longrightarrow> p \<in> set ps \<and> pe_id p = pid \<and> pe_active p"
  by (auto simp: LookupByID_def find_Some_iff split: if_splits option.splits)

lemma refresh_subject_Inr:
  "refresh_subject cfg env claims s ps = Inr su \<Longrightarrow>
     claim_uuid cfg (jc_person claims) = uuid_nil \<or> (\<exists>p\<in>set ps. pe_id p = claim_uuid cfg (jc_person claims) \<and> pe_active p)"
  by (cases "LookupByID env (claim_uuid cfg (jc_person claims)) ps")
    (auto simp: refresh_subject_def Let_def dest: LookupByID_Inr split: if_splits)

lemma refresh_claimed_ok:
  assumes "fst (refresh_claimed cfg env claims f s st) = RefreshOk a r n"
  obtains su pair where "refresh_subject cfg env claims s (ss_persons st) = Inr su"
    "MintPair cfg env su f (ss_keys st) = Inr pair"
    "fst (ValidateAndRotate (fam_env env) f (jc_id claims) (tp_RefreshJTI pair) (ss_families st)) = Inr ()"
    "ss_families (snd (refresh_claimed cfg env claims f s st)) =
       snd (ValidateAndRotate (fam_env env) f (jc_id claims) (tp_RefreshJTI pair) (ss_families st))"
proof -
  obtain su where su: "refresh_subject cfg env claims s (ss_persons st) = Inr su"
    using assms by (auto simp: refresh_claimed_def split: sum.splits person_error.splits)
  obtain pair where pair: "MintPair cfg env su f (ss_keys st) = Inr pair"
    using assms su by (auto simp: refresh_claimed_def split: sum.splits)
  let ?v = "ValidateAndRotate (fam_env env) f (jc_id claims) (tp_RefreshJTI pair) (ss_families st)"
  have "fst ?v = Inr ()" "ss_families (snd (refresh_claimed cfg env claims f s st)) = snd ?v"
    using assms su pair
    by (cases ?v; cases "fst ?v"; auto simp: refresh_claimed_def rotate_reply_def split: family_error.splits)+
  with su pair that show thesis by blast
qed

lemma refresh_ok:
  assumes "fst (refresh cfg env body st) = RefreshOk a r n"
  obtains tok claims f where "body = BodyJson tok" "redeemable cfg env tok st claims f"
    "current_jti (ss_families (snd (refresh cfg env body st))) f = Some (sc_uuid_str cfg (se_new_refresh env))"
proof -
  obtain tok where tok: "body = BodyJson tok" "tok \<noteq> []"
    using assms by (auto simp: refresh_def split: req_body.splits if_splits)
  obtain claims cache where v: "VerifyToken cfg env ''refresh'' (ss_keys st) (ss_cache st) tok = (Inr claims, cache)"
    using assms tok by (cases rule: VerifyToken_cases)
      (auto simp: refresh_def verify_reply_def split: token_error.splits)
  let ?st = "st\<lparr>ss_cache := cache\<rparr>"
  have ne: "jc_family claims \<noteq> []" using assms tok v by (auto simp: refresh_def Let_def)
  obtain f where f: "sc_uuid_parse cfg (jc_family claims) = Some f"
    using assms tok v ne by (cases "sc_uuid_parse cfg (jc_family claims)") (auto simp: refresh_def Let_def)
  obtain s where s: "sc_uuid_parse cfg (jc_sub claims) = Some s"
    using assms tok v ne f by (cases "sc_uuid_parse cfg (jc_sub claims)") (auto simp: refresh_def Let_def)
  have eq: "refresh cfg env body st = refresh_claimed cfg env claims f s ?st"
    using tok v ne f s by (simp add: refresh_def Let_def)
  from assms eq have "fst (refresh_claimed cfg env claims f s ?st) = RefreshOk a r n" by simp
  then obtain su pair where step: "refresh_subject cfg env claims s (ss_persons ?st) = Inr su"
    "MintPair cfg env su f (ss_keys ?st) = Inr pair"
    "fst (ValidateAndRotate (fam_env env) f (jc_id claims) (tp_RefreshJTI pair) (ss_families ?st)) = Inr ()"
    "ss_families (snd (refresh_claimed cfg env claims f s ?st)) =
       snd (ValidateAndRotate (fam_env env) f (jc_id claims) (tp_RefreshJTI pair) (ss_families ?st))"
    by (rule refresh_claimed_ok)
  from rotate_result [OF step(3)] MintPair_Inr [OF step(2)] step(4) eq
  have "current_jti (ss_families st) f = Some (jc_id claims)"
    "current_jti (ss_families (snd (refresh cfg env body st))) f = Some (sc_uuid_str cfg (se_new_refresh env))" by simp_all
  then show thesis using that [OF tok(1)] v f refresh_subject_Inr [OF step(1)] by (simp add: redeemable_def)
qed

text \<open>A person who is gone: the family is revoked when its revocation does not fail.\<close>

lemma Revoke_dead: "db f \<noteq> None \<Longrightarrow> \<not> fe_fails env FamRevoke \<Longrightarrow>
    snd (Revoke env f r db) f \<noteq> None \<and> current_jti (snd (Revoke env f r db)) f = None"
  by (auto simp: Revoke_def current_jti_def split: option.splits)

text \<open>A verified token of a family on record whose person has no active row.\<close>

definition departed :: "session_cfg \<Rightarrow> session_env \<Rightarrow> string \<Rightarrow> session_state \<Rightarrow> jwt_claims \<Rightarrow> uuid \<Rightarrow> bool" where
  "departed cfg env tok st claims f \<longleftrightarrow>
     fst (VerifyToken cfg env ''refresh'' (ss_keys st) (ss_cache st) tok) = Inr claims \<and> tok \<noteq> []
     \<and> jc_family claims \<noteq> [] \<and> sc_uuid_parse cfg (jc_family claims) = Some f \<and> sc_uuid_parse cfg (jc_sub claims) \<noteq> None
     \<and> ss_families st f \<noteq> None \<and> claim_uuid cfg (jc_person claims) \<noteq> uuid_nil
     \<and> (\<forall>p\<in>set (ss_persons st). pe_id p = claim_uuid cfg (jc_person claims) \<longrightarrow> \<not> pe_active p)"

lemma refresh_departed:
  assumes "departed cfg env tok st claims f" "\<not> se_person_fails env LookupID" "\<not> se_family_fails env FamRevoke"
  shows "fst (refresh cfg env (BodyJson tok) st) = AuthRefused 401 ''person_inactive''"
    and "ss_families (snd (refresh cfg env (BodyJson tok) st)) = snd (Revoke (fam_env env) f ''person_inactive'' (ss_families st))"
proof -
  obtain s where s: "sc_uuid_parse cfg (jc_sub claims) = Some s" using assms(1) by (auto simp: departed_def)
  obtain cache where v: "VerifyToken cfg env ''refresh'' (ss_keys st) (ss_cache st) tok = (Inr claims, cache)"
    using assms(1) by (cases "VerifyToken cfg env ''refresh'' (ss_keys st) (ss_cache st) tok") (auto simp: departed_def)
  have "refresh_subject cfg env claims s (ss_persons st) = Inl PersonNotFound"
    using assms(1,2) by (auto simp: departed_def refresh_subject_def Let_def LookupByID_def find_Some_iff split: option.splits)
  moreover have "refresh cfg env (BodyJson tok) st = refresh_claimed cfg env claims f s (st\<lparr>ss_cache := cache\<rparr>)"
    using assms(1) v s by (simp add: departed_def refresh_def)
  ultimately show "fst (refresh cfg env (BodyJson tok) st) = AuthRefused 401 ''person_inactive''"
    "ss_families (snd (refresh cfg env (BodyJson tok) st)) = snd (Revoke (fam_env env) f ''person_inactive'' (ss_families st))"
    by (simp_all add: refresh_claimed_def)
qed

text \<open>A refresh answers with a pair only to a token that verifies for the refresh audience, is the
  current one of its family and names no person or an active one, and the pair's own token is
  then the current one; the token of a person who is no longer active is refused with 401 and
  its family accepts nothing any more, whatever is tried afterwards.\<close>

theorem refresh_requires_active_person:
  assumes "\<not> se_person_fails env LookupID" "\<not> se_family_fails env FamRevoke"
  shows "(fst (refresh cfg env body st) = RefreshOk a r n \<longrightarrow>
      (\<exists>tok claims f. body = BodyJson tok \<and> redeemable cfg env tok st claims f
        \<and> current_jti (ss_families (snd (refresh cfg env body st))) f = Some (sc_uuid_str cfg (se_new_refresh env))))
    \<and> (departed cfg env tok st claims f \<longrightarrow>
      fst (refresh cfg env (BodyJson tok) st) = AuthRefused 401 ''person_inactive''
      \<and> (\<forall>j. (f, j) \<notin> set (fst (ledger_run ops (ss_families (snd (refresh cfg env (BodyJson tok) st)))))))"
proof (intro conjI impI)
  show "\<exists>tok claims f. body = BodyJson tok \<and> redeemable cfg env tok st claims f
      \<and> current_jti (ss_families (snd (refresh cfg env body st))) f = Some (sc_uuid_str cfg (se_new_refresh env))"
    if "fst (refresh cfg env body st) = RefreshOk a r n" using that by (rule refresh_ok) blast
  assume d: "departed cfg env tok st claims f"
  show "fst (refresh cfg env (BodyJson tok) st) = AuthRefused 401 ''person_inactive''"
    using refresh_departed(1) [OF d assms] .
  have "snd (Revoke (fam_env env) f x (ss_families st)) f \<noteq> None \<and> current_jti (snd (Revoke (fam_env env) f x (ss_families st))) f = None" for x
    using d assms(2) by (intro Revoke_dead) (simp_all add: departed_def fam_env_def)
  then show "\<forall>j. (f, j) \<notin> set (fst (ledger_run ops (ss_families (snd (refresh cfg env (BodyJson tok) st)))))"
    unfolding refresh_departed(2) [OF d assms] using revoked_family_dead by blast
qed

section \<open>A toy JWT library\<close>

text \<open>Claims as a list of strings, each in hexadecimal and ended by a dot.\<close>

definition toy_pack :: "string list \<Rightarrow> string" where
  "toy_pack xs = concat (map (\<lambda>s. hex_encode s @ ''.'') xs)"

definition toy_unpack :: "string \<Rightarrow> string list option" where
  "toy_unpack s = those (map hex_decode (butlast (split_on CHR ''.'' s)))"

definition toy_int :: "int \<Rightarrow> string list" where
  "toy_int i = [dec_nat (nat i), dec_nat (nat (- i))]"

definition toy_unint :: "string \<Rightarrow> string \<Rightarrow> int" where
  "toy_unint a b = int (digits_val 0 a) - int (digits_val 0 b)"

definition toy_claims :: "jwt_claims \<Rightarrow> string list" where
  "toy_claims c = [jc_iss c, jc_sub c, toy_pack (jc_aud c), jc_id c, jc_org c, jc_person c, jc_user_type c, toy_pack (jc_scopes c), jc_family c]
     @ toy_int (jc_iat c) @ toy_int (jc_nbf c) @ toy_int (jc_exp c)"

definition toy_unclaims :: "string list \<Rightarrow> jwt_claims option" where
  "toy_unclaims xs =
     (case xs of
        [iss, sub, aud, jti, org, per, ut, sc, fam, a, b, c, d, e, f] \<Rightarrow>
          (case (toy_unpack aud, toy_unpack sc) of
             (Some aud, Some sc) \<Rightarrow> Some \<lparr>jc_iss = iss, jc_sub = sub, jc_aud = aud, jc_id = jti, jc_iat = toy_unint a b, jc_nbf = toy_unint c d,
                jc_exp = toy_unint e f, jc_org = org, jc_person = per, jc_user_type = ut, jc_scopes = sc, jc_family = fam\<rparr>
           | _ \<Rightarrow> None)
      | _ \<Rightarrow> None)"

lemma those_map_Some: "those (map Some xs) = Some xs"
  by (induction xs) simp_all

lemma hex_digit_no_dot: "d < 16 \<Longrightarrow> CHR ''.'' \<noteq> hex_digit d"
proof
  assume "d < 16" "CHR ''.'' = hex_digit d"
  then have "hex_val CHR ''.'' = Some d" by simp
  then show False by (simp add: hex_val_def)
qed

lemma hex_no_dot: "CHR ''.'' \<notin> set (hex_encode s)"
proof (induction s)
  case (Cons c s)
  have "(of_char c :: nat) < 16 * 16" by simp
  then have "(of_char c :: nat) div 16 < 16" "(of_char c :: nat) mod 16 < 16"
    by (rule less_mult_imp_div_less) simp
  with Cons show ?case by (simp add: Let_def hex_digit_no_dot)
qed simp

lemma toy_unpack_pack [simp]: "toy_unpack (toy_pack xs) = Some xs"
proof -
  have "split_on CHR ''.'' (toy_pack xs) = map hex_encode xs @ [[]]"
    by (induction xs) (simp_all add: toy_pack_def split_on_append hex_no_dot)
  then show ?thesis by (simp add: toy_unpack_def comp_def those_map_Some)
qed

lemma toy_unint_int: "toy_unint (dec_nat (nat i)) (dec_nat (nat (- i))) = i"
  by (simp add: toy_unint_def)

lemma toy_unclaims_claims [simp]: "toy_unclaims (toy_claims c) = Some c"
  by (cases c) (simp add: toy_unclaims_def toy_claims_def toy_int_def toy_unint_int)

text \<open>A token is the key, the key id and the claims; there is one key.\<close>

definition toy_jwt :: jwt_lib where
  "toy_jwt = \<lparr>
     jl_sign = \<lambda>priv kid c. Some (toy_pack (priv # kid # toy_claims c)),
     jl_header = \<lambda>tok. (case toy_unpack tok of Some (priv # kid # xs) \<Rightarrow> Some \<lparr>jh_kid = Some kid, jh_alg = ''RS256''\<rparr> | _ \<Rightarrow> None),
     jl_parse = \<lambda>methods kf now tok.
       (case toy_unpack tok of
          Some (priv # kid # xs) \<Rightarrow>
            (case kf \<lparr>jh_kid = Some kid, jh_alg = ''RS256''\<rparr> of
               Inl e \<Rightarrow> Inl (JwtKeyfunc e)
             | Inr pub \<Rightarrow>
                 if pub \<noteq> (0, 0) then Inl JwtSignatureInvalid
                 else (case toy_unclaims xs of
                     None \<Rightarrow> Inl JwtMalformed
                   | Some c \<Rightarrow> if jc_exp c * second \<le> now then Inl JwtExpired
                        else if now < jc_nbf c * second then Inl JwtNotValidYet else Inr c))
        | _ \<Rightarrow> Inl JwtMalformed),
     jl_private = (\<lambda>_. Some []), jl_jwk = (\<lambda>_. Some (''RSA'', [], [])), jl_public_pem = (\<lambda>_. None)\<rparr>"


section \<open>From login to refresh\<close>

text \<open>What the round trip relies on of golang-jwt: signing with a parsed key succeeds, and a token
  signed under a key id parses back to its claims when the key function yields the matching
  public key, between its not-before and its expiry.  The strings survive JSON because they are
  ASCII, the numeric dates because a float64 holds them.\<close>

definition ascii :: "string \<Rightarrow> bool" where
  "ascii s = list_all (\<lambda>c. (of_char c :: nat) < 128) s"

definition claims_fit :: "jwt_claims \<Rightarrow> bool" where
  "claims_fit c \<longleftrightarrow> list_all ascii ([jc_iss c, jc_sub c, jc_id c, jc_org c, jc_person c, jc_user_type c, jc_family c] @ jc_aud c @ jc_scopes c)
     \<and> list_all (\<lambda>i. \<bar>i\<bar> < 2 ^ 53) [jc_iat c, jc_nbf c, jc_exp c]"

definition jwt_contract :: "jwt_lib \<Rightarrow> (string \<Rightarrow> rsa_public \<Rightarrow> bool) \<Rightarrow> bool" where
  "jwt_contract lib pair \<longleftrightarrow>
     (\<forall>pem priv kid c. jl_private lib pem = Some priv \<and> claims_fit c \<longrightarrow> jl_sign lib priv kid c \<noteq> None)
     \<and> (\<forall>priv kid c tok. jl_sign lib priv kid c = Some tok \<and> claims_fit c \<longrightarrow>
          tok \<noteq> [] \<and> jl_header lib tok = Some \<lparr>jh_kid = Some kid, jh_alg = ''RS256''\<rparr>
          \<and> (\<forall>kf now pub. kf \<lparr>jh_kid = Some kid, jh_alg = ''RS256''\<rparr> = Inr pub \<and> pair priv pub
               \<and> jc_nbf c * second \<le> now \<and> now < jc_exp c * second \<longrightarrow> jl_parse lib [''RS256''] kf now tok = Inr c))"

lemma jwt_contractD:
  assumes "jwt_contract lib pair" "claims_fit c"
  shows "jl_private lib pem = Some priv \<Longrightarrow> jl_sign lib priv kid c \<noteq> None"
    and "jl_sign lib priv kid c = Some tok \<Longrightarrow> tok \<noteq> [] \<and> jl_header lib tok = Some \<lparr>jh_kid = Some kid, jh_alg = ''RS256''\<rparr>"
    and "jl_sign lib priv kid c = Some tok \<Longrightarrow> kf \<lparr>jh_kid = Some kid, jh_alg = ''RS256''\<rparr> = Inr pub \<Longrightarrow> pair priv pub \<Longrightarrow>
           jc_nbf c * second \<le> now \<Longrightarrow> now < jc_exp c * second \<Longrightarrow> jl_parse lib [''RS256''] kf now tok = Inr c"
  using assms unfolding jwt_contract_def by blast+

text \<open>The verify set of a process that is not behind the table.\<close>

definition cache_synced :: "key_rows \<Rightarrow> key_cache \<Rightarrow> bool" where
  "cache_synced rows c \<longleftrightarrow> kc_verifySet c = None \<or> kc_verifySet c = Some (query_verify_set rows)"

lemma VerifySet_synced:
  "cache_synced rows c \<Longrightarrow> fst (VerifySet (\<lambda>_. False) now rows c) = Inr (query_verify_set rows)
     \<and> cache_synced rows (snd (VerifySet (\<lambda>_. False) now rows c))"
  by (auto simp: cache_synced_def VerifySet_def split: if_splits)

lemma FindByKid_VerifySet:
  "fst (VerifySet fail now rows c) = Inr ks \<Longrightarrow> List.find (\<lambda>k. sk_Kid k = kid) ks = Some k \<Longrightarrow>
     fst (FindByKid fail now kid rows c) = Inr k"
  by (cases "VerifySet fail now rows c") (simp add: FindByKid_def)

lemma FindByKid_synced:
  assumes "keys_ok rows" "k \<in> set rows" "sk_Status k \<noteq> StatusExpired" "cache_synced rows c"
  shows "fst (FindByKid (\<lambda>_. False) now (sk_Kid k) rows c) = Inr (k\<lparr>sk_PrivateKeyPEM := []\<rparr>)"
proof -
  have "List.find (\<lambda>x. sk_Kid x = sk_Kid k) (query_verify_set rows) = Some (k\<lparr>sk_PrivateKeyPEM := []\<rparr>)"
    using FindByKid_found [OF assms(1-3), of 0 0]
    by (simp add: FindByKid_def VerifySet_def empty_cache_def split: option.splits)
  with VerifySet_synced [OF assms(4)] show ?thesis by (intro FindByKid_VerifySet) simp_all
qed

text \<open>A signing key whose stored halves belong together.\<close>

definition signing_ok :: "session_cfg \<Rightarrow> (string \<Rightarrow> rsa_public \<Rightarrow> bool) \<Rightarrow> key_rows \<Rightarrow> SigningKey \<Rightarrow> string \<Rightarrow> bool" where
  "signing_ok cfg pair rows k priv \<longleftrightarrow> keys_ok rows \<and> Active (\<lambda>_. False) rows = Inr k \<and> sk_Alg k = ''RS256'' \<and> sk_Kid k \<noteq> []
     \<and> sk_PublicJWK k \<noteq> [] \<and> jl_private (sc_jwt cfg) (sk_PrivateKeyPEM k) = Some priv
     \<and> (\<exists>pub. parseRSAPublicKeyFromJWK (sc_jwt cfg) (sk_PublicJWK k) = Some pub \<and> pair priv pub)"

lemma Active_member: "Active fail rows = Inr k \<Longrightarrow> k \<in> set rows \<and> sk_Status k = StatusActive"
proof -
  assume a: "Active fail rows = Inr k"
  then obtain ks where "filter (\<lambda>k. sk_Status k = StatusActive) rows = k # ks"
    by (auto simp: Active_def split: if_splits list.splits)
  then have "k \<in> set (filter (\<lambda>k. sk_Status k = StatusActive) rows)" by simp
  then show ?thesis by simp
qed

lemma VerifyToken_signed:
  assumes "jwt_contract (sc_jwt cfg) pair" "signing_ok cfg pair rows k priv" "cache_synced rows c"
    and "jl_sign (sc_jwt cfg) priv (sk_Kid k) cl = Some tok" "claims_fit cl" "jc_iss cl = sc_issuer cfg" "aud \<in> set (jc_aud cl)"
    and "se_key_fails env = (\<lambda>_. False)" "jc_nbf cl * second \<le> se_now env" "se_now env < jc_exp cl * second"
  shows "fst (VerifyToken cfg env aud rows c tok) = Inr cl \<and> cache_synced rows (snd (VerifyToken cfg env aud rows c tok))"
proof -
  obtain pub where pub: "parseRSAPublicKeyFromJWK (sc_jwt cfg) (sk_PublicJWK k) = Some pub" "pair priv pub"
    using assms(2) by (auto simp: signing_ok_def)
  have k: "k \<in> set rows" "sk_Status k \<noteq> StatusExpired" "keys_ok rows" "sk_Kid k \<noteq> []"
    using assms(2) by (auto simp: signing_ok_def dest: Active_member)
  from FindByKid_synced [OF k(3,1,2) assms(3)]
  have "token_keyfunc cfg env rows c \<lparr>jh_kid = Some (sk_Kid k), jh_alg = ''RS256''\<rparr> = Inr pub"
    using assms(2,8) k(4) pub by (simp add: token_keyfunc_def signing_ok_def)
  then have "jl_parse (sc_jwt cfg) [''RS256''] (token_keyfunc cfg env rows c) (se_now env) tok = Inr cl"
    using jwt_contractD(3) assms(1,4,5,9,10) pub(2) by blast
  moreover have "cache_synced rows (token_cache cfg env rows c tok)"
    using VerifySet_synced [OF assms(3)] assms(3,8) jwt_contractD(2) [OF assms(1,5,4)] k(4) by (simp add: token_cache_def)
  ultimately show ?thesis using assms(6,7)
    by (auto simp: VerifyToken_def audienceContains_def list_ex_iff)
qed

lemma MintPair_signed:
  assumes "MintPair cfg env su f rows = Inr pair" "signing_ok cfg P rows k priv"
  shows "jl_sign (sc_jwt cfg) priv (sk_Kid k) (refresh_claims cfg env su (if f = uuid_nil then se_new_family env else f)) = Some (tp_RefreshToken pair)"
proof -
  have "Active (se_key_fails env) rows = Inr k"
    using assms by (cases "se_key_fails env KeyActive") (auto simp: MintPair_def signing_ok_def Active_def)
  then show ?thesis using assms by (auto simp: MintPair_def Let_def signing_ok_def split: option.splits)
qed

lemma MintPair_succeeds:
  assumes "jwt_contract (sc_jwt cfg) P" "signing_ok cfg P rows k priv" "se_key_fails env = (\<lambda>_. False)"
    and "claims_fit (access_claims cfg env su (if f = uuid_nil then se_new_family env else f))"
    and "claims_fit (refresh_claims cfg env su (if f = uuid_nil then se_new_family env else f))"
  obtains pair where "MintPair cfg env su f rows = Inr pair"
proof -
  let ?s = "\<lambda>c. jl_sign (sc_jwt cfg) priv (sk_Kid k) c"
  have p: "jl_private (sc_jwt cfg) (sk_PrivateKeyPEM k) = Some priv" using assms(2) by (simp add: signing_ok_def)
  obtain a r where "?s (access_claims cfg env su (if f = uuid_nil then se_new_family env else f)) = Some a"
    "?s (refresh_claims cfg env su (if f = uuid_nil then se_new_family env else f)) = Some r"
    using jwt_contractD(1) [OF assms(1,4) p] jwt_contractD(1) [OF assms(1,5) p] by blast
  then show thesis using that assms(2,3) p by (simp add: MintPair_def Let_def signing_ok_def)
qed


definition plain_cfg :: "session_cfg \<Rightarrow> bool" where
  "plain_cfg cfg \<longleftrightarrow> ascii (sc_issuer cfg) \<and> list_all ascii (sc_audience cfg)
     \<and> (\<forall>u. ascii (sc_uuid_str cfg u) \<and> sc_uuid_str cfg u \<noteq> [] \<and> sc_uuid_parse cfg (sc_uuid_str cfg u) = Some u)"

definition dates_fit :: "session_cfg \<Rightarrow> session_env \<Rightarrow> bool" where
  "dates_fit cfg env \<longleftrightarrow> list_all (\<lambda>t. \<bar>t div second\<bar> < 2 ^ 53) [se_now env, se_now env + sc_access_ttl cfg, se_now env + sc_refresh_ttl cfg]"

definition no_failures :: "session_env \<Rightarrow> bool" where
  "no_failures env \<longleftrightarrow> se_key_fails env = (\<lambda>_. False) \<and> (\<forall>c. \<not> se_person_fails env c) \<and> (\<forall>c. \<not> se_family_fails env c)"

lemma claims_fit_minted:
  assumes "plain_cfg cfg" "dates_fit cfg env" "ascii (su_UserType su)" "list_all ascii (su_Scopes su)"
  shows "claims_fit (access_claims cfg env su f)" "claims_fit (refresh_claims cfg env su f)"
proof -
  have "ascii ''refresh''" by (simp add: ascii_def)
  then show "claims_fit (access_claims cfg env su f)" "claims_fit (refresh_claims cfg env su f)"
    using assms by (simp_all add: claims_fit_def access_claims_def refresh_claims_def common_claims_def plain_cfg_def dates_fit_def)
qed

lemma claim_uuid_str: "plain_cfg cfg \<Longrightarrow> claim_uuid cfg (sc_uuid_str cfg u) = u"
  by (simp add: claim_uuid_def plain_cfg_def)

lemma LookupByID_active:
  "p \<in> set ps \<Longrightarrow> pe_id p = i \<Longrightarrow> pe_active p \<Longrightarrow> \<not> se_person_fails env LookupID \<Longrightarrow> \<exists>q. LookupByID env i ps = Inr q"
  by (auto simp: LookupByID_def find_None_iff split: option.split)

lemma refresh_subject_minted:
  assumes "plain_cfg cfg" "no_failures env" "p \<in> set ps" "pe_id p = su_PersonID su" "pe_active p"
  obtains su' where "refresh_subject cfg env (refresh_claims cfg env0 su f) s ps = Inr su'"
    "su_UserType su' = su_UserType su" "su_Scopes su' = su_Scopes su"
proof -
  let ?c = "refresh_claims cfg env0 su f"
  obtain q where "LookupByID env (su_PersonID su) ps = Inr q"
    using LookupByID_active [OF assms(3-5)] assms(2) unfolding no_failures_def by blast
  moreover have "claim_uuid cfg (jc_person ?c) = su_PersonID su"
    using assms(1) by (simp add: refresh_claims_def common_claims_def claim_uuid_str)
  ultimately have "\<exists>su'. refresh_subject cfg env ?c s ps = Inr su' \<and> su_UserType su' = su_UserType su \<and> su_Scopes su' = su_Scopes su"
    by (simp add: refresh_subject_def Let_def refresh_claims_def common_claims_def)
  then show thesis using that by blast
qed

lemma rotate_current_jti:
  "current_jti db f = Some p \<Longrightarrow> (\<And>c. \<not> fe_fails env c) \<Longrightarrow> fst (ValidateAndRotate env f p n db) = Inr ()"
  by (auto simp: ValidateAndRotate_def current_jti_def split: option.splits if_splits)

lemma rotate_other_jti:
  "current_jti db f = Some j \<Longrightarrow> j \<noteq> p \<Longrightarrow> (\<And>c. \<not> fe_fails env c) \<Longrightarrow> fst (ValidateAndRotate env f p n db) = Inl ReuseDetected"
  by (auto simp: ValidateAndRotate_def current_jti_def split: option.splits if_splits)

text \<open>One refresh with a minted token: a new pair when it is the current one, the death of the family
  when another one is.\<close>

definition refresh_setup ::
  "session_cfg \<Rightarrow> (string \<Rightarrow> rsa_public \<Rightarrow> bool) \<Rightarrow> SigningKey \<Rightarrow> string \<Rightarrow> person \<Rightarrow> session_state \<Rightarrow> bool" where
  "refresh_setup cfg P k priv p st \<longleftrightarrow> jwt_contract (sc_jwt cfg) P \<and> signing_ok cfg P (ss_keys st) k priv
     \<and> cache_synced (ss_keys st) (ss_cache st) \<and> plain_cfg cfg \<and> ascii (pe_user_type p)
     \<and> (\<exists>q\<in>set (ss_persons st). pe_id q = pe_id p \<and> pe_active q)"

definition usable_at :: "session_cfg \<Rightarrow> session_env \<Rightarrow> session_env \<Rightarrow> bool" where
  "usable_at cfg env0 env \<longleftrightarrow> no_failures env \<and> dates_fit cfg env \<and> se_now env0 div second * second \<le> se_now env
     \<and> se_now env < (se_now env0 + sc_refresh_ttl cfg) div second * second"

lemma refresh_minted:
  assumes "refresh_setup cfg P k priv p st" "usable_at cfg env0 env" "dates_fit cfg env0"
    and "jl_sign (sc_jwt cfg) priv (sk_Kid k) (refresh_claims cfg env0 (login_subject p) f) = Some tok"
  obtains su pair cache where "MintPair cfg env su f (ss_keys st) = Inr pair" "cache_synced (ss_keys st) cache"
    "refresh cfg env (BodyJson tok) st =
      (case ValidateAndRotate (fam_env env) f (sc_uuid_str cfg (se_new_refresh env0)) (tp_RefreshJTI pair) (ss_families st) of
         (Inl e, fams) \<Rightarrow> (rotate_reply e, st\<lparr>ss_cache := cache, ss_families := fams\<rparr>)
       | (Inr _, fams) \<Rightarrow> (RefreshOk (tp_AccessToken pair) (tp_RefreshToken pair) (expires_in env pair),
           st\<lparr>ss_cache := cache, ss_families := fams\<rparr>))"
proof -
  note ctx = assms(1) [unfolded refresh_setup_def]
  let ?c = "refresh_claims cfg env0 (login_subject p) f"
  have fit: "claims_fit ?c" using ctx assms(3) by (intro claims_fit_minted) (simp_all add: login_subject_def)
  have sel: "jc_iss ?c = sc_issuer cfg" "jc_aud ?c = [''refresh'']" "jc_nbf ?c = se_now env0 div second"
    "jc_exp ?c = (se_now env0 + sc_refresh_ttl cfg) div second" "jc_family ?c = sc_uuid_str cfg f" "jc_sub ?c = sc_uuid_str cfg (pe_id p)"
    "jc_id ?c = sc_uuid_str cfg (se_new_refresh env0)"
    by (simp_all add: refresh_claims_def common_claims_def login_subject_def)
  have "fst (VerifyToken cfg env ''refresh'' (ss_keys st) (ss_cache st) tok) = Inr ?c
      \<and> cache_synced (ss_keys st) (snd (VerifyToken cfg env ''refresh'' (ss_keys st) (ss_cache st) tok))"
    using ctx assms(2,4) fit by (intro VerifyToken_signed [where cl = ?c and pair = P]) (auto simp: sel usable_at_def no_failures_def)
  then obtain cache where v: "VerifyToken cfg env ''refresh'' (ss_keys st) (ss_cache st) tok = (Inr ?c, cache)" "cache_synced (ss_keys st) cache"
    by (cases "VerifyToken cfg env ''refresh'' (ss_keys st) (ss_cache st) tok") auto
  obtain q where "q \<in> set (ss_persons st)" "pe_id q = su_PersonID (login_subject p)" "pe_active q"
    using ctx by (auto simp: login_subject_def)
  then obtain su where su: "refresh_subject cfg env ?c (pe_id p) (ss_persons st) = Inr su"
    "su_UserType su = pe_user_type p" "su_Scopes su = []"
    using ctx assms(2) refresh_subject_minted [of cfg env q "ss_persons st" "login_subject p" env0 f "pe_id p"]
    by (auto simp: usable_at_def login_subject_def)
  have "claims_fit (access_claims cfg env su g)" "claims_fit (refresh_claims cfg env su g)" for g
    using claims_fit_minted [of cfg env su g] ctx assms(2) su by (simp_all add: usable_at_def)
  moreover have "jwt_contract (sc_jwt cfg) P" "signing_ok cfg P (ss_keys st) k priv" "se_key_fails env = (\<lambda>_. False)"
    using ctx assms(2) by (simp_all add: usable_at_def no_failures_def)
  ultimately obtain pair where pair: "MintPair cfg env su f (ss_keys st) = Inr pair"
    using MintPair_succeeds by metis
  have "tok \<noteq> []" using jwt_contractD(2) [OF _ fit assms(4)] ctx by blast
  with v su pair ctx have "refresh cfg env (BodyJson tok) st =
      (case ValidateAndRotate (fam_env env) f (sc_uuid_str cfg (se_new_refresh env0)) (tp_RefreshJTI pair) (ss_families st) of
         (Inl e, fams) \<Rightarrow> (rotate_reply e, st\<lparr>ss_cache := cache, ss_families := fams\<rparr>)
       | (Inr _, fams) \<Rightarrow> (RefreshOk (tp_AccessToken pair) (tp_RefreshToken pair) (expires_in env pair),
           st\<lparr>ss_cache := cache, ss_families := fams\<rparr>))"
    by (simp add: refresh_def Let_def sel plain_cfg_def refresh_claimed_def)
  with that pair v(2) show thesis by blast
qed


lemma refresh_current:
  assumes "refresh_setup cfg P k priv p st" "usable_at cfg env0 env" "dates_fit cfg env0"
    and "jl_sign (sc_jwt cfg) priv (sk_Kid k) (refresh_claims cfg env0 (login_subject p) f) = Some tok"
    and "current_jti (ss_families st) f = Some (sc_uuid_str cfg (se_new_refresh env0))"
  obtains a r n st' where "refresh cfg env (BodyJson tok) st = (RefreshOk a r n, st')" "refresh_setup cfg P k priv p st'"
    "current_jti (ss_families st') f = Some (sc_uuid_str cfg (se_new_refresh env))"
proof -
  from refresh_minted [OF assms(1-4)] obtain su pair cache where r:
    "MintPair cfg env su f (ss_keys st) = Inr pair" "cache_synced (ss_keys st) cache"
    "refresh cfg env (BodyJson tok) st =
      (case ValidateAndRotate (fam_env env) f (sc_uuid_str cfg (se_new_refresh env0)) (tp_RefreshJTI pair) (ss_families st) of
         (Inl e, fams) \<Rightarrow> (rotate_reply e, st\<lparr>ss_cache := cache, ss_families := fams\<rparr>)
       | (Inr _, fams) \<Rightarrow> (RefreshOk (tp_AccessToken pair) (tp_RefreshToken pair) (expires_in env pair),
           st\<lparr>ss_cache := cache, ss_families := fams\<rparr>))" by blast
  let ?v = "ValidateAndRotate (fam_env env) f (sc_uuid_str cfg (se_new_refresh env0)) (tp_RefreshJTI pair) (ss_families st)"
  have ok: "fst ?v = Inr ()"
    using rotate_current_jti [OF assms(5)] assms(2) by (simp add: usable_at_def no_failures_def fam_env_def)
  show thesis
  proof (rule that)
    show "refresh cfg env (BodyJson tok) st = (RefreshOk (tp_AccessToken pair) (tp_RefreshToken pair) (expires_in env pair),
        st\<lparr>ss_cache := cache, ss_families := snd ?v\<rparr>)" using r(3) ok by (cases ?v) simp
    show "refresh_setup cfg P k priv p (st\<lparr>ss_cache := cache, ss_families := snd ?v\<rparr>)"
      using assms(1) r(2) by (simp add: refresh_setup_def)
    show "current_jti (ss_families (st\<lparr>ss_cache := cache, ss_families := snd ?v\<rparr>)) f = Some (sc_uuid_str cfg (se_new_refresh env))"
      using rotate_result [OF ok] MintPair_Inr [OF r(1)] by simp
  qed
qed

lemma refresh_reused:
  assumes "refresh_setup cfg P k priv p st" "usable_at cfg env0 env" "dates_fit cfg env0"
    and "jl_sign (sc_jwt cfg) priv (sk_Kid k) (refresh_claims cfg env0 (login_subject p) f) = Some tok"
    and "current_jti (ss_families st) f = Some j" "j \<noteq> sc_uuid_str cfg (se_new_refresh env0)"
  shows "\<exists>st'. refresh cfg env (BodyJson tok) st = (AuthRefused 401 ''reuse_detected'', st') \<and>
    (\<forall>ops j. (f, j) \<notin> set (fst (ledger_run ops (ss_families st'))))"
proof -
  from refresh_minted [OF assms(1-4)] obtain pair cache where r:
    "refresh cfg env (BodyJson tok) st =
      (case ValidateAndRotate (fam_env env) f (sc_uuid_str cfg (se_new_refresh env0)) (tp_RefreshJTI pair) (ss_families st) of
         (Inl e, fams) \<Rightarrow> (rotate_reply e, st\<lparr>ss_cache := cache, ss_families := fams\<rparr>)
       | (Inr _, fams) \<Rightarrow> (RefreshOk (tp_AccessToken pair) (tp_RefreshToken pair) (expires_in env pair),
           st\<lparr>ss_cache := cache, ss_families := fams\<rparr>))" by blast
  let ?v = "ValidateAndRotate (fam_env env) f (sc_uuid_str cfg (se_new_refresh env0)) (tp_RefreshJTI pair) (ss_families st)"
  have re: "fst ?v = Inl ReuseDetected"
    using rotate_other_jti [OF assms(5,6)] assms(2) by (simp add: usable_at_def no_failures_def fam_env_def)
  then have "refresh cfg env (BodyJson tok) st = (AuthRefused 401 ''reuse_detected'', st\<lparr>ss_cache := cache, ss_families := snd ?v\<rparr>)"
    using r by (cases ?v) (simp add: rotate_reply_def)
  moreover have "\<forall>ops j. (f, j) \<notin> set (fst (ledger_run ops (snd ?v)))"
    using rotate_reuse [OF re] revoked_family_dead by blast
  ultimately show ?thesis by simp
qed

lemma map_keeps:
  "p \<in> set ps \<Longrightarrow> pe_active p \<Longrightarrow> (\<And>p. pe_id (g p) = pe_id p \<and> pe_active (g p) = pe_active p) \<Longrightarrow>
     \<exists>q\<in>set (map g ps). pe_id q = pe_id p \<and> pe_active q"
  by auto

lemma MarkLoginSuccess_keeps:
  assumes "p \<in> set ps" "pe_active p"
  shows "\<exists>q\<in>set (MarkLoginSuccess env i ps). pe_id q = pe_id p \<and> pe_active q"
  using assms unfolding MarkLoginSuccess_def Let_def map_map
  by (cases "se_person_fails env MarkSuccessPerson"; cases "se_person_fails env MarkSuccessCredential")
    (simp_all only: if_True if_False, blast, blast, (rule map_keeps, assumption+, simp)+)

lemma Create_current: "Create env f s j db = (Inr (), db') \<Longrightarrow> current_jti db' f = Some j"
  by (auto simp: Create_def current_jti_def split: if_splits)

lemma uuid_str_inj: "plain_cfg cfg \<Longrightarrow> sc_uuid_str cfg u = sc_uuid_str cfg v \<longleftrightarrow> u = v"
  by (metis claim_uuid_str)

lemma login_session_ok:
  assumes "login_session cfg env email p st = (LoginOk a tok n pid oid, st1)"
  obtains pair f where "MintPair cfg env (login_subject p) uuid_nil (ss_keys st) = Inr pair" "tp_RefreshToken pair = tok"
    "sc_uuid_parse cfg (tp_FamilyID pair) = Some f"
    "Create (fam_env env) f (pe_id p) (tp_RefreshJTI pair) (ss_families st) = (Inr (), ss_families st1)"
    "ss_persons st1 = MarkLoginSuccess env (pe_id p) (ss_persons st)" "ss_keys st1 = ss_keys st" "ss_cache st1 = ss_cache st"
proof -
  obtain pair where pair: "MintPair cfg env (login_subject p) uuid_nil (ss_keys st) = Inr pair"
    using assms by (auto simp: login_session_def split: sum.splits)
  obtain f where f: "sc_uuid_parse cfg (tp_FamilyID pair) = Some f"
    using assms pair by (auto simp: login_session_def split: option.splits)
  obtain r fams where c: "Create (fam_env env) f (pe_id p) (tp_RefreshJTI pair) (ss_families st) = (r, fams)" by fastforce
  have "r = Inr ()" using assms pair f c by (cases r) (auto simp: login_session_def)
  with assms pair f c that show thesis by (auto simp: login_session_def)
qed

text \<open>What a login has to show: the password of the first active row with the address, which is
  neither locked nor protected by a second factor, while no limiter bucket is locked.\<close>

definition login_proof :: "session_cfg \<Rightarrow> session_env \<Rightarrow> string \<Rightarrow> string \<Rightarrow> string \<Rightarrow> session_state \<Rightarrow> person \<Rightarrow> bool" where
  "login_proof cfg env ip email0 pw st p \<longleftrightarrow>
     List.find (\<lambda>p. same_email (sc_citext cfg) (pe_email p) (trim_space email0) \<and> pe_active p \<and> pe_cred p \<noteq> None) (ss_persons st) = Some p
     \<and> (\<exists>c. pe_cred p = Some c \<and> (case cr_locked_until c of None \<Rightarrow> True | Some u \<Rightarrow> u \<le> se_now env)
          \<and> VerifyPassword (sc_argon cfg) pw (cr_hash c) = None \<and> \<not> cr_mfa c)
     \<and> login_gate cfg env (trim_space email0) ip st = None"

lemma LookupForLogin_Inr:
  "LookupForLogin lower env email ps = Inr (p, c) \<Longrightarrow>
     List.find (\<lambda>p. same_email lower (pe_email p) email \<and> pe_active p \<and> pe_cred p \<noteq> None) ps = Some p
     \<and> pe_cred p = Some c \<and> (case cr_locked_until c of None \<Rightarrow> True | Some u \<Rightarrow> u \<le> se_now env)"
  by (auto simp: LookupForLogin_def Let_def find_Some_iff split: if_splits option.splits)

lemma login_ok:
  assumes "login cfg env ip body st = (LoginOk a tok n pid oid, st1)"
  obtains email pw p where "body = BodyJson (email, pw)" "login_proof cfg env ip email pw st p"
    "login_session cfg env (trim_space email) p st = (LoginOk a tok n pid oid, st1)"
proof -
  obtain email0 pw where b: "body = BodyJson (email0, pw)"
    using assms by (auto simp: login_def split: req_body.splits)
  let ?e = "trim_space email0"
  have ne: "?e \<noteq> []" "pw \<noteq> []" using assms b by (auto simp: login_def Let_def)
  have g: "login_gate cfg env ?e ip st = None"
    using assms b ne by (cases "login_gate cfg env ?e ip st") (auto simp: login_def Let_def writeAuthRateLimitErr_def)
  obtain p c where l: "LookupForLogin (sc_citext cfg) env ?e (ss_persons st) = Inr (p, c)"
    using assms b ne g
    by (cases "LookupForLogin (sc_citext cfg) env ?e (ss_persons st)") (auto simp: login_def Let_def split: person_error.splits)
  have v: "VerifyPassword (sc_argon cfg) pw (cr_hash c) = None" "\<not> cr_mfa c"
    using assms b ne g l by (auto simp: login_def Let_def split: if_splits)
  have "login_session cfg env ?e p st = (LoginOk a tok n pid oid, st1)"
    using assms b ne g l v by (simp add: login_def)
  with LookupForLogin_Inr [OF l] g b v that show thesis unfolding login_proof_def by blast
qed

lemma login_proof_person: "login_proof cfg env ip email pw st p \<Longrightarrow> p \<in> set (ss_persons st) \<and> pe_active p"
  by (auto simp: login_proof_def find_Some_iff)




definition toy_pair :: "string \<Rightarrow> rsa_public \<Rightarrow> bool" where
  "toy_pair priv pub \<longleftrightarrow> pub = (0, 0)"

lemma toy_public: "parseRSAPublicKeyFromJWK toy_jwt jwk = Some (0, 0)"
  using b64_decode_encode [of "[]"]
  by (simp add: parseRSAPublicKeyFromJWK_def toy_jwt_def b64url_decode_def big_endian_def b64_encode_def)

lemma toy_unpack_ne: "xs \<noteq> [] \<Longrightarrow> toy_pack xs \<noteq> []"
  by (cases xs) (simp_all add: toy_pack_def)

lemma toy_jwt_contract: "jwt_contract toy_jwt toy_pair"
  by (simp add: jwt_contract_def toy_jwt_def toy_pair_def toy_unpack_ne not_le not_less)

definition toy_cfg :: session_cfg where
  "toy_cfg = \<lparr>sc_argon = toy_argon, sc_lower = id, sc_citext = id, sc_uuid_str = (\<lambda>u. dec_nat (unat u)),
     sc_uuid_parse = (\<lambda>s. Some (of_nat (digits_val 0 s))), sc_jwt = toy_jwt, sc_issuer = ''canary'', sc_audience = [''canary''],
     sc_access_ttl = 900 * second, sc_refresh_ttl = 604800 * second, sc_limiter = None\<rparr>"

definition toy_env :: "gotime \<Rightarrow> uuid \<Rightarrow> session_env" where
  "toy_env now jti = \<lparr>se_now = now, se_person_fails = (\<lambda>_. False), se_key_fails = (\<lambda>_. False), se_family_fails = (\<lambda>_. False),
     se_net = up, se_new_family = 5, se_new_access = 6, se_new_refresh = jti\<rparr>"

definition toy_person :: person where
  "toy_person = \<lparr>pe_id = 1, pe_org = 2, pe_email = ''a@b'', pe_user_type = ''admin'', pe_active = True, pe_last_login = None,
     pe_cred = Some \<lparr>cr_hash = the (HashPassword toy_argon False ''salt'' ''pw''), cr_mfa = False, cr_locked_until = None, cr_failed = 0\<rparr>\<rparr>"

definition toy_state :: session_state where
  "toy_state = \<lparr>ss_persons = [toy_person], ss_families = Map.empty, ss_keys = [sample_key 1 ''k1''],
     ss_cache = empty_cache minute, ss_valkey = (\<lambda>_. None)\<rparr>"

lemma ascii_digits: "list_all is_digit s \<Longrightarrow> ascii s"
  by (auto simp: ascii_def is_digit_def list_all_iff)

lemma seconds_fit: "0 \<le> x \<Longrightarrow> x < 10 ^ 21 \<Longrightarrow> \<bar>x div second\<bar> < 2 ^ 53"
  using zdiv_mono1 [of x "10 ^ 21" second] by (simp add: second_def pos_imp_zdiv_nonneg_iff)

lemma toy_setup:
  "plain_cfg toy_cfg" "signing_ok toy_cfg toy_pair [sample_key 1 ''k1''] (sample_key 1 ''k1'') []"
  "0 \<le> t \<Longrightarrow> t < 10 ^ 20 \<Longrightarrow> dates_fit toy_cfg (toy_env t j)"
proof -
  show "plain_cfg toy_cfg"
    by (simp add: plain_cfg_def toy_cfg_def ascii_digits dec_nat_digits) (simp add: ascii_def)
  show "signing_ok toy_cfg toy_pair [sample_key 1 ''k1''] (sample_key 1 ''k1'') []"
    by (simp add: signing_ok_def toy_cfg_def toy_pair_def toy_public sample_key_def keys_ok_def active_keys_def Active_def)
      (simp add: toy_jwt_def)
  show "dates_fit toy_cfg (toy_env t j)" if "0 \<le> t" "t < 10 ^ 20"
    using that seconds_fit [of t] seconds_fit [of "t + 900 * second"] seconds_fit [of "t + 604800 * second"]
    by (simp add: dates_fit_def toy_cfg_def toy_env_def second_def)
qed

lemma toy_login:
  "\<exists>a tok n pid oid st1. login toy_cfg (toy_env 0 7) [] (BodyJson (''a@b'', ''pw'')) toy_state = (LoginOk a tok n pid oid, st1)"
proof -
  obtain h where h: "HashPassword toy_argon False ''salt'' ''pw'' = Some h" by (simp add: HashPassword_def)
  from VerifyPassword_HashPassword [OF h length_toy_argon, of "''pw''"]
  have v: "VerifyPassword toy_argon ''pw'' h = None" by simp
  have t: "trim_space ''a@b'' = ''a@b''" by (rule trim_space_id) (auto dest: space_byte_code)
  have m: "\<exists>pair. MintPair toy_cfg (toy_env 0 7) (login_subject toy_person) uuid_nil [sample_key 1 ''k1''] = Inr pair"
    by (simp add: MintPair_def toy_cfg_def toy_env_def Active_def sample_key_def toy_jwt_def Let_def)
  then obtain pair where m: "MintPair toy_cfg (toy_env 0 7) (login_subject toy_person) uuid_nil [sample_key 1 ''k1''] = Inr pair" by blast
  show ?thesis
    using h v t m
    by (simp add: login_def login_session_def login_gate_def Check_def locked_for_def LookupForLogin_def same_email_def
        toy_state_def toy_cfg_def toy_env_def toy_person_def Create_def fam_env_def Let_def)
qed




text \<open>The same person, deactivated between two refreshes.\<close>

definition toy_token :: string where
  "toy_token = toy_pack ([] # ''k1'' # toy_claims (refresh_claims toy_cfg (toy_env 0 7) (login_subject toy_person) 5))"

definition toy_logged_in :: "bool \<Rightarrow> session_state" where
  "toy_logged_in active = toy_state\<lparr>ss_persons := [toy_person\<lparr>pe_active := active\<rparr>],
     ss_families := [5 \<mapsto> \<lparr>fam_subject = 1, fam_last_jti = dec_nat 7, fam_last_used = 0, fam_revoked = None\<rparr>]\<rparr>"

lemma toy_token_verified:
  "fst (VerifyToken toy_cfg (toy_env hour 8) ''refresh'' (ss_keys (toy_logged_in b)) (ss_cache (toy_logged_in b)) toy_token) =
     Inr (refresh_claims toy_cfg (toy_env 0 7) (login_subject toy_person) 5)"
proof -
  let ?c = "refresh_claims toy_cfg (toy_env 0 7) (login_subject toy_person) 5"
  have "ascii (su_UserType (login_subject toy_person))" "list_all ascii (su_Scopes (login_subject toy_person))"
    by (simp_all add: login_subject_def toy_person_def ascii_def)
  from claims_fit_minted(2) [OF toy_setup(1) toy_setup(3) this] have fit: "claims_fit ?c" by simp
  show ?thesis
  proof (rule conjunct1, rule VerifyToken_signed [where pair = toy_pair and k = "sample_key 1 ''k1''" and priv = "[]", OF _ _ _ _ fit])
    show "jwt_contract (sc_jwt toy_cfg) toy_pair" by (simp add: toy_cfg_def toy_jwt_contract)
    show "signing_ok toy_cfg toy_pair (ss_keys (toy_logged_in b)) (sample_key 1 ''k1'') []"
      using toy_setup(2) by (simp add: toy_logged_in_def toy_state_def)
    show "cache_synced (ss_keys (toy_logged_in b)) (ss_cache (toy_logged_in b))"
      by (simp add: toy_logged_in_def toy_state_def cache_synced_def empty_cache_def)
    show "jl_sign (sc_jwt toy_cfg) [] (sk_Kid (sample_key 1 ''k1'')) ?c = Some toy_token"
      by (simp add: toy_token_def toy_cfg_def toy_jwt_def sample_key_def)
  qed (simp_all add: refresh_claims_def common_claims_def toy_cfg_def toy_env_def hour_def second_def)
qed

theorem refresh_requires_active_person_witness:
  "fst (refresh toy_cfg (toy_env hour 8) (BodyJson toy_token) (toy_logged_in False)) = AuthRefused 401 ''person_inactive''
   \<and> (5, dec_nat 7) \<notin> set (fst (ledger_run [OpRotate (ok_env, 1, []) 5 (dec_nat 7) ''8'']
        (ss_families (snd (refresh toy_cfg (toy_env hour 8) (BodyJson toy_token) (toy_logged_in False))))))"
proof -
  have "toy_token \<noteq> []" by (simp add: toy_token_def toy_unpack_ne)
  then have "departed toy_cfg (toy_env hour 8) toy_token (toy_logged_in False)
      (refresh_claims toy_cfg (toy_env 0 7) (login_subject toy_person) 5) 5"
    using toy_token_verified [of False]
    by (simp add: departed_def refresh_claims_def common_claims_def toy_cfg_def claim_uuid_def toy_logged_in_def
        toy_state_def login_subject_def toy_person_def)
  moreover have "\<not> se_person_fails (toy_env hour 8) LookupID" "\<not> se_family_fails (toy_env hour 8) FamRevoke"
    by (simp_all add: toy_env_def)
  ultimately show ?thesis using refresh_requires_active_person by blast
qed

end
