(* ===== verification/Merkle.thy ===== *)
theory Merkle
  imports Chain GoText
begin

text \<open>
  The Merkle tree of the anchor worker, internal/protocol/sub3/merkle.go: construction of the
  root and of one inclusion proof per leaf, and proof verification.  \<open>sha256.Sum256\<close> is the
  parameter \<open>sha\<close>, a function on byte strings.
\<close>

section \<open>Definitions\<close>

record proof_node =
  SiblingHash :: string
  Position :: string

record merkle_result =
  Root :: string
  Proofs :: "proof_node list list"

datatype merkle_error = NoLeaves | DecodeLeft string | DecodeRight string

definition merkleParent :: "(string \<Rightarrow> string) \<Rightarrow> string \<Rightarrow> string \<Rightarrow> merkle_error + string" where
  "merkleParent sha left right =
     (case hex_decode left of
        None \<Rightarrow> Inl (DecodeLeft left)
      | Some lb \<Rightarrow>
          (case hex_decode right of
             None \<Rightarrow> Inl (DecodeRight right)
           | Some rb \<Rightarrow> Inr (hex_encode (sha (lb @ rb)))))"

record level_node =
  ln_hash :: string
  ln_leafs :: "nat list"

text \<open>\<open>proofs[li] = append(proofs[li], node)\<close> for every leaf index of a node.\<close>

definition append_proof :: "proof_node list list \<Rightarrow> nat list \<Rightarrow> proof_node \<Rightarrow> proof_node list list" where
  "append_proof proofs idxs nd = foldl (\<lambda>ps i. ps[i := ps ! i @ [nd]]) proofs idxs"

text \<open>One pass over a level: the next level and the extended proofs.\<close>

fun merkle_level ::
  "(string \<Rightarrow> string) \<Rightarrow> level_node list \<Rightarrow> proof_node list list
     \<Rightarrow> merkle_error + (level_node list \<times> proof_node list list)" where
  "merkle_level sha [] proofs = Inr ([], proofs)"
| "merkle_level sha [left] proofs =
     bind_res (merkleParent sha (ln_hash left) (ln_hash left)) (\<lambda>p.
       Inr ([\<lparr>ln_hash = p, ln_leafs = ln_leafs left\<rparr>],
            append_proof proofs (ln_leafs left) \<lparr>SiblingHash = ln_hash left, Position = ''right''\<rparr>))"
| "merkle_level sha (left # right # rest) proofs =
     bind_res (merkleParent sha (ln_hash left) (ln_hash right)) (\<lambda>p.
       let proofs1 = append_proof proofs (ln_leafs left) \<lparr>SiblingHash = ln_hash right, Position = ''right''\<rparr>;
           proofs2 = append_proof proofs1 (ln_leafs right) \<lparr>SiblingHash = ln_hash left, Position = ''left''\<rparr> in
       bind_res (merkle_level sha rest proofs2) (\<lambda>(next, proofs3).
         Inr (\<lparr>ln_hash = p, ln_leafs = ln_leafs left @ ln_leafs right\<rparr> # next, proofs3)))"

lemma merkle_level_length:
  "merkle_level sha level proofs = Inr (next, proofs') \<Longrightarrow> length next = (length level + 1) div 2"
  by (induction sha level proofs arbitrary: "next" proofs' rule: merkle_level.induct)
     (auto simp: bind_res_Inr_iff Let_def)

function merkle_climb ::
  "(string \<Rightarrow> string) \<Rightarrow> level_node list \<Rightarrow> proof_node list list
     \<Rightarrow> merkle_error + (level_node list \<times> proof_node list list)" where
  "merkle_climb sha level proofs =
     (if 1 < length level then
        (case merkle_level sha level proofs of
           Inl e \<Rightarrow> Inl e
         | Inr (next, proofs') \<Rightarrow> merkle_climb sha next proofs')
      else Inr (level, proofs))"
  by pat_completeness auto
termination
  by (relation "measure (\<lambda>(sha, level, proofs). length level)") (auto dest!: merkle_level_length)

declare merkle_climb.simps [simp del]

definition initial_level :: "string list \<Rightarrow> level_node list" where
  "initial_level leaves = map (\<lambda>i. \<lparr>ln_hash = leaves ! i, ln_leafs = [i]\<rparr>) [0 ..< length leaves]"

definition BuildMerkleTree :: "(string \<Rightarrow> string) \<Rightarrow> string list \<Rightarrow> merkle_error + merkle_result" where
  "BuildMerkleTree sha leaves =
     (if leaves = [] then Inl NoLeaves
      else bind_res
        (merkle_climb sha (initial_level leaves) (replicate (length leaves) []))
        (\<lambda>(level, proofs). Inr \<lparr>Root = ln_hash (hd level), Proofs = proofs\<rparr>))"

fun proof_run :: "(string \<Rightarrow> string) \<Rightarrow> string \<Rightarrow> proof_node list \<Rightarrow> string option" where
  "proof_run sha current [] = Some current"
| "proof_run sha current (nd # nds) =
     (if Position nd = ''left'' then
        (case merkleParent sha (SiblingHash nd) current of
           Inl e \<Rightarrow> None | Inr c \<Rightarrow> proof_run sha c nds)
      else if Position nd = ''right'' then
        (case merkleParent sha current (SiblingHash nd) of
           Inl e \<Rightarrow> None | Inr c \<Rightarrow> proof_run sha c nds)
      else None)"

definition VerifyProof :: "(string \<Rightarrow> string) \<Rightarrow> string \<Rightarrow> string \<Rightarrow> proof_node list \<Rightarrow> bool" where
  "VerifyProof sha merkleRoot leafHash proof = (proof_run sha leafHash proof = Some merkleRoot)"

section \<open>Completeness\<close>

lemma proof_run_append:
  "proof_run sha c (p @ q) = Option.bind (proof_run sha c p) (\<lambda>d. proof_run sha d q)"
  by (induction sha c p rule: proof_run.induct) (auto split: sum.splits)

lemma append_proof_length [simp]: "length (append_proof ps is nd) = length ps"
  unfolding append_proof_def by (induction "is" arbitrary: ps) auto

lemma append_proof_nth:
  "distinct is \<Longrightarrow> set is \<subseteq> {..<length ps} \<Longrightarrow>
   append_proof ps is nd ! i = (if i \<in> set is then ps ! i @ [nd] else ps ! i)"
proof (induction "is" arbitrary: ps)
  case (Cons j js)
  have "append_proof ps (j # js) nd = append_proof (ps[j := ps ! j @ [nd]]) js nd"
    by (simp add: append_proof_def)
  with Cons show ?case by (auto simp: nth_list_update)
qed (simp add: append_proof_def)

text \<open>Every leaf index under a node carries a proof that runs from its leaf to the node.\<close>

definition level_ok :: "(string \<Rightarrow> string) \<Rightarrow> string list \<Rightarrow> level_node list \<Rightarrow> proof_node list list \<Rightarrow> bool" where
  "level_ok sha leaves level proofs \<longleftrightarrow>
     length proofs = length leaves \<and>
     distinct (concat (map ln_leafs level)) \<and> set (concat (map ln_leafs level)) \<subseteq> {..<length leaves} \<and>
     (\<forall>nd \<in> set level. \<forall>i \<in> set (ln_leafs nd). proof_run sha (leaves ! i) (proofs ! i) = Some (ln_hash nd))"

lemma merkle_level_ok:
  assumes "merkle_level sha level proofs = Inr (next, proofs')" and "level_ok sha leaves level proofs"
  shows "level_ok sha leaves next proofs' \<and> concat (map ln_leafs next) = concat (map ln_leafs level) \<and>
     (\<forall>i. i \<notin> set (concat (map ln_leafs level)) \<longrightarrow> proofs' ! i = proofs ! i)"
  using assms
proof (induction sha level proofs arbitrary: "next" proofs' rule: merkle_level.induct)
  case (1 sha proofs)
  then show ?case by simp
next
  case (2 sha left proofs)
  from "2.prems"(1) obtain p where p: "merkleParent sha (ln_hash left) (ln_hash left) = Inr p"
    and n: "next = [\<lparr>ln_hash = p, ln_leafs = ln_leafs left\<rparr>]"
    and pr: "proofs' = append_proof proofs (ln_leafs left) \<lparr>SiblingHash = ln_hash left, Position = ''right''\<rparr>"
    by (auto simp: bind_res_Inr_iff)
  from "2.prems"(2) have "distinct (ln_leafs left)" "set (ln_leafs left) \<subseteq> {..<length proofs}"
    by (auto simp: level_ok_def)
  note nth = append_proof_nth [OF this]
  from "2.prems"(2) p show ?case
    by (auto simp: level_ok_def n pr nth proof_run_append)
next
  case (3 sha left right rest proofs)
  let ?l = "\<lparr>SiblingHash = ln_hash right, Position = ''right''\<rparr>"
  let ?r = "\<lparr>SiblingHash = ln_hash left, Position = ''left''\<rparr>"
  define ps2 where "ps2 = append_proof (append_proof proofs (ln_leafs left) ?l) (ln_leafs right) ?r"
  from "3.prems"(1) obtain p nx where p: "merkleParent sha (ln_hash left) (ln_hash right) = Inr p"
    and rest: "merkle_level sha rest ps2 = Inr (nx, proofs')"
    and n: "next = \<lparr>ln_hash = p, ln_leafs = ln_leafs left @ ln_leafs right\<rparr> # nx"
    by (auto simp: bind_res_Inr_iff Let_def ps2_def)
  from "3.prems"(2) have d: "distinct (ln_leafs left)" "set (ln_leafs left) \<subseteq> {..<length proofs}"
      "distinct (ln_leafs right)" "set (ln_leafs right) \<subseteq> {..<length (append_proof proofs (ln_leafs left) ?l)}"
    and disj: "set (ln_leafs left) \<inter> set (ln_leafs right) = {}"
      "set (concat (map ln_leafs rest)) \<inter> (set (ln_leafs left) \<union> set (ln_leafs right)) = {}"
    by (auto simp: level_ok_def)
  have nth: "ps2 ! i = (if i \<in> set (ln_leafs right) then proofs ! i @ [?r]
        else if i \<in> set (ln_leafs left) then proofs ! i @ [?l] else proofs ! i)" for i
    using disj(1) by (auto simp: ps2_def append_proof_nth [OF d(3,4)] append_proof_nth [OF d(1,2)])
  have ok2: "level_ok sha leaves rest ps2"
    using "3.prems"(2) disj(2) by (auto simp: level_ok_def nth) (simp add: ps2_def)
  have IH: "level_ok sha leaves nx proofs' \<and> concat (map ln_leafs nx) = concat (map ln_leafs rest) \<and>
      (\<forall>i. i \<notin> set (concat (map ln_leafs rest)) \<longrightarrow> proofs' ! i = ps2 ! i)"
    using "3.IH" [OF refl ps2_def rest ok2] .
  have same: "proofs' ! i = ps2 ! i" if "i \<in> set (ln_leafs left) \<union> set (ln_leafs right)" for i
    using IH that disj(2) by blast
  have run: "proof_run sha (leaves ! i) (proofs' ! i) = Some p"
    if "i \<in> set (ln_leafs left) \<union> set (ln_leafs right)" for i
    using "3.prems"(2) that same [OF that] disj(1) p
    by (auto simp: level_ok_def nth proof_run_append)
  have "level_ok sha leaves next proofs'"
    unfolding level_ok_def
  proof (intro conjI ballI)
    show "length proofs' = length leaves" using IH by (simp add: level_ok_def)
    show "distinct (concat (map ln_leafs next))" "set (concat (map ln_leafs next)) \<subseteq> {..<length leaves}"
      using IH "3.prems"(2) by (auto simp: n level_ok_def)
    fix nd i assume nd: "nd \<in> set next" and i: "i \<in> set (ln_leafs nd)"
    then show "proof_run sha (leaves ! i) (proofs' ! i) = Some (ln_hash nd)"
      using run IH by (auto simp: n level_ok_def)
  qed
  moreover have "concat (map ln_leafs next) = concat (map ln_leafs (left # right # rest))"
    using IH by (simp add: n)
  moreover have "\<forall>i. i \<notin> set (concat (map ln_leafs (left # right # rest))) \<longrightarrow> proofs' ! i = proofs ! i"
    using IH by (simp add: nth)
  ultimately show ?case by blast
qed

lemma merkle_climb_ok:
  assumes "merkle_climb sha level proofs = Inr (tip, proofs')" and "level_ok sha leaves level proofs"
    and "level \<noteq> []"
  shows "length tip = 1 \<and> level_ok sha leaves tip proofs' \<and>
     concat (map ln_leafs tip) = concat (map ln_leafs level)"
  using assms
proof (induction sha level proofs rule: merkle_climb.induct)
  case (1 sha level proofs)
  show ?case
  proof (cases "1 < length level")
    case False
    with "1.prems" show ?thesis by (cases level) (auto simp: merkle_climb.simps)
  next
    case True
    with "1.prems"(1) obtain nx ps where l: "merkle_level sha level proofs = Inr (nx, ps)"
      and c: "merkle_climb sha nx ps = Inr (tip, proofs')"
      by (subst (asm) merkle_climb.simps) (auto split: sum.splits)
    from merkle_level_length [OF l] True have "nx \<noteq> []" by auto
    with "1.IH" [OF True l refl c] merkle_level_ok [OF l "1.prems"(2)] show ?thesis by simp
  qed
qed

lemma initial_level_leafs: "concat (map ln_leafs (initial_level leaves)) = [0 ..< length leaves]"
  by (simp add: initial_level_def comp_def)

lemma initial_level_ok: "level_ok sha leaves (initial_level leaves) (replicate (length leaves) [])"
  unfolding level_ok_def initial_level_leafs by (auto simp: initial_level_def)

lemma BuildMerkleTree_sound:
  assumes "BuildMerkleTree sha leaves = Inr res"
  shows "length (Proofs res) = length leaves \<and>
     (\<forall>i < length leaves. VerifyProof sha (Root res) (leaves ! i) (Proofs res ! i))"
proof -
  from assms obtain tip ps where ne: "leaves \<noteq> []"
    and c: "merkle_climb sha (initial_level leaves) (replicate (length leaves) []) = Inr (tip, ps)"
    and res: "res = \<lparr>Root = ln_hash (hd tip), Proofs = ps\<rparr>"
    by (auto simp: BuildMerkleTree_def bind_res_Inr_iff split: if_splits)
  have ne': "initial_level leaves \<noteq> []" using ne by (simp add: initial_level_def)
  note ok = merkle_climb_ok [OF c initial_level_ok ne', unfolded initial_level_leafs]
  then obtain nd where tip: "tip = [nd]" by (cases tip) auto
  from ok tip show ?thesis
    by (simp add: res level_ok_def VerifyProof_def)
qed

section \<open>When construction succeeds\<close>

definition hex_ok :: "string \<Rightarrow> bool" where
  "hex_ok s \<longleftrightarrow> hex_decode s \<noteq> None"

lemma merkleParent_ok: "hex_ok a \<Longrightarrow> hex_ok b \<Longrightarrow> \<exists>p. merkleParent sha a b = Inr p \<and> hex_ok p"
  by (auto simp: merkleParent_def hex_ok_def)

lemma merkle_level_succeeds:
  "\<forall>nd \<in> set level. hex_ok (ln_hash nd) \<Longrightarrow>
   \<exists>next proofs'. merkle_level sha level proofs = Inr (next, proofs') \<and> (\<forall>nd \<in> set next. hex_ok (ln_hash nd))"
proof (induction sha level proofs rule: merkle_level.induct)
  case (2 sha left proofs)
  with merkleParent_ok [of "ln_hash left" "ln_hash left" sha] show ?case by auto
next
  case (3 sha left right rest proofs)
  obtain p where p: "merkleParent sha (ln_hash left) (ln_hash right) = Inr p" "hex_ok p"
    using merkleParent_ok "3.prems" by (meson list.set_intros)
  from "3.IH" [OF refl refl] "3.prems" p show ?case
    by (auto simp: Let_def)
qed simp

lemma merkle_climb_succeeds:
  "\<forall>nd \<in> set level. hex_ok (ln_hash nd) \<Longrightarrow> \<exists>r. merkle_climb sha level proofs = Inr r"
proof (induction sha level proofs rule: merkle_climb.induct)
  case (1 sha level proofs)
  obtain nx ps where l: "merkle_level sha level proofs = Inr (nx, ps)" "\<forall>nd \<in> set nx. hex_ok (ln_hash nd)"
    using merkle_level_succeeds [OF "1.prems"] by blast
  from "1.IH" [OF _ l(1) refl l(2)] l(1) show ?case
    by (subst merkle_climb.simps) auto
qed

lemma BuildMerkleTree_succeeds:
  assumes "leaves \<noteq> []" "\<forall>l \<in> set leaves. hex_ok l"
  shows "\<exists>res. BuildMerkleTree sha leaves = Inr res"
proof -
  have "\<forall>nd \<in> set (initial_level leaves). hex_ok (ln_hash nd)"
    using assms(2) by (auto simp: initial_level_def)
  from merkle_climb_succeeds [OF this, of sha "replicate (length leaves) []"]
  obtain tip ps where "merkle_climb sha (initial_level leaves) (replicate (length leaves) []) = Inr (tip, ps)"
    by auto
  then show ?thesis using assms(1) by (simp add: BuildMerkleTree_def)
qed

section \<open>Unforgeability\<close>

text \<open>The bytes a proof step hashes, and the first step at which two proofs hash different bytes to
  the same value.\<close>

definition step_bytes :: "string \<Rightarrow> proof_node \<Rightarrow> string" where
  "step_bytes current nd =
     (let c = the (hex_decode current); s = the (hex_decode (SiblingHash nd)) in
      if Position nd = ''left'' then s @ c else c @ s)"

fun proof_clash ::
  "(string \<Rightarrow> string) \<Rightarrow> string \<Rightarrow> proof_node list \<Rightarrow> string \<Rightarrow> proof_node list \<Rightarrow> (string \<times> string) option" where
  "proof_clash sha a (nd # p) b (nd' # q) =
     (if clash sha (step_bytes a nd) (step_bytes b nd') then Some (step_bytes a nd, step_bytes b nd')
      else proof_clash sha (hex_encode (sha (step_bytes a nd))) p (hex_encode (sha (step_bytes b nd'))) q)"
| "proof_clash sha a p b q = None"

text \<open>What it finds is a collision.\<close>

lemma proof_clash_sound: "proof_clash sha a p b q = Some (x, y) \<Longrightarrow> clash sha x y"
  by (induction sha a p b q rule: proof_clash.induct) (auto split: if_splits)

lemma proof_run_step:
  "proof_run sha a (nd # p) = Some r \<Longrightarrow>
     (Position nd = ''left'' \<or> Position nd = ''right'') \<and> hex_decode a \<noteq> None \<and> hex_decode (SiblingHash nd) \<noteq> None
     \<and> proof_run sha (hex_encode (sha (step_bytes a nd))) p = Some r"
  by (auto simp: step_bytes_def merkleParent_def Let_def split: if_splits sum.splits option.splits)

text \<open>Two runs with the same positions from values of the same length that end in the same hash start
  from the same bytes, or a step of theirs clashes.\<close>

lemma proof_run_binding:
  assumes "proof_run sha a p = Some r" "proof_run sha b q = Some r"
    and "map Position p = map Position q"
    and "hex_decode a = Some da" "hex_decode b = Some db" "length da = length db"
    and "\<And>x. length (sha x) = 32"
  shows "da = db \<or> proof_clash sha a p b q \<noteq> None"
  using assms(1-6)
proof (induction p arbitrary: a b q da db)
  case Nil
  then show ?case by auto
next
  case (Cons nd p)
  then obtain nd' q' where q: "q = nd' # q'" and pos: "Position nd = Position nd'"
      "map Position p = map Position q'" by (cases q) auto
  let ?x = "step_bytes a nd" and ?y = "step_bytes b nd'"
  from proof_run_step [OF Cons.prems(1)] obtain s where s: "hex_decode (SiblingHash nd) = Some s"
    "proof_run sha (hex_encode (sha ?x)) p = Some r" by blast
  from proof_run_step [OF Cons.prems(2) [unfolded q]] obtain s' where s': "hex_decode (SiblingHash nd') = Some s'"
    "proof_run sha (hex_encode (sha ?y)) q' = Some r" by blast
  have "da = db" if "?x = ?y"
    using that pos(1) Cons.prems(4-6) s(1) s'(1) by (auto simp: step_bytes_def append_eq_append_conv split: if_splits)
  moreover have "sha ?x = sha ?y \<or> proof_clash sha (hex_encode (sha ?x)) p (hex_encode (sha ?y)) q' \<noteq> None"
    using Cons.IH [OF s(2) s'(2) pos(2)] assms(7) by simp
  ultimately show ?case by (auto simp: q clash_def)
qed

section \<open>Properties\<close>

text \<open>C5: Every batch of hexadecimal leaves has a tree, with one proof per leaf, and each proof
  verifies its leaf against the root.\<close>

theorem merkle_complete:
  assumes "leaves \<noteq> []" and "\<forall>l \<in> set leaves. hex_ok l"
  shows "\<exists>res. BuildMerkleTree sha leaves = Inr res \<and> length (Proofs res) = length leaves \<and>
     (\<forall>i < length leaves. VerifyProof sha (Root res) (leaves ! i) (Proofs res ! i))"
  using BuildMerkleTree_succeeds [OF assms, of sha] BuildMerkleTree_sound [of sha leaves] by blast

theorem merkle_complete_witness:
  "\<exists>res. BuildMerkleTree (\<lambda>x. x) [''ab'', ''CD'', ''01''] = Inr res \<and> length (Proofs res) = 3 \<and>
     VerifyProof (\<lambda>x. x) (Root res) ''CD'' (Proofs res ! 1)"
proof -
  have "\<forall>l \<in> set [''ab'', ''CD'', ''01'']. hex_ok l" by code_simp
  from merkle_complete [OF _ this, of "\<lambda>x. x"] show ?thesis by fastforce
qed

text \<open>C6: A proof of the shape of a leaf's own proof cannot verify another 32-byte leaf against
  the root, unless some step of the two proofs hashes two different inputs to the same value, and
  then the first such pair of inputs is found by running the proofs side by side.\<close>

theorem merkle_unforgeable:
  assumes "BuildMerkleTree sha leaves = Inr res" and "i < length leaves"
    and "hex_decode (leaves ! i) = Some d" "length d = 32"
    and "VerifyProof sha (Root res) forged p" and "map Position p = map Position (Proofs res ! i)"
    and "hex_decode forged = Some f" "length f = 32"
    and "\<And>x. length (sha x) = 32"
  shows "f = d \<or> (\<exists>x y. proof_clash sha forged p (leaves ! i) (Proofs res ! i) = Some (x, y) \<and> clash sha x y)"
proof -
  have "proof_run sha (leaves ! i) (Proofs res ! i) = Some (Root res)"
    using BuildMerkleTree_sound [OF assms(1)] assms(2) by (simp add: VerifyProof_def)
  from proof_run_binding [OF assms(5) [unfolded VerifyProof_def] this assms(6,7,3) _ assms(9)] assms(4,8)
  show ?thesis using proof_clash_sound by fastforce
qed

lemma two_leaf_tree:
  assumes "hex_decode a = Some da" "hex_decode b = Some db"
  shows "BuildMerkleTree sha [a, b] = Inr \<lparr>Root = hex_encode (sha (da @ db)),
     Proofs = [[\<lparr>SiblingHash = b, Position = ''right''\<rparr>], [\<lparr>SiblingHash = a, Position = ''left''\<rparr>]]\<rparr>"
proof -
  have "initial_level [a, b] = [\<lparr>ln_hash = a, ln_leafs = [0]\<rparr>, \<lparr>ln_hash = b, ln_leafs = [1]\<rparr>]"
    by (simp add: initial_level_def upt_rec)
  then show ?thesis
    using assms by (simp add: BuildMerkleTree_def merkle_climb.simps merkleParent_def append_proof_def Let_def)
qed

theorem merkle_unforgeable_witness:
  "\<exists>x y. proof_clash (\<lambda>x. replicate 32 CHR ''s'') (hex_encode (replicate 32 CHR ''z''))
      [\<lparr>SiblingHash = hex_encode (replicate 32 CHR ''y''), Position = ''right''\<rparr>] (hex_encode (replicate 32 CHR ''x''))
      [\<lparr>SiblingHash = hex_encode (replicate 32 CHR ''y''), Position = ''right''\<rparr>] = Some (x, y)
    \<and> clash (\<lambda>x::string. replicate 32 CHR ''s'') x y"
proof -
  let ?l = "hex_encode (replicate 32 CHR ''x'')" and ?m = "hex_encode (replicate 32 CHR ''y'')"
  let ?z = "hex_encode (replicate 32 CHR ''z'')"
  let ?sha = "\<lambda>x::string. replicate 32 CHR ''s''"
  let ?r = "\<lparr>Root = hex_encode (?sha []),
     Proofs = [[\<lparr>SiblingHash = ?m, Position = ''right''\<rparr>], [\<lparr>SiblingHash = ?l, Position = ''left''\<rparr>]]\<rparr>"
  have tree: "BuildMerkleTree ?sha [?l, ?m] = Inr ?r"
    by (rule two_leaf_tree) (rule hex_decode_encode)+
  have "VerifyProof ?sha (Root ?r) ?z [\<lparr>SiblingHash = ?m, Position = ''right''\<rparr>]"
    by (simp add: VerifyProof_def merkleParent_def del: hex_encode.simps)
  from merkle_unforgeable [OF tree _ _ _ this, of 0 "replicate 32 CHR ''x''" "replicate 32 CHR ''z''"] show ?thesis
    by (simp del: hex_encode.simps)
qed

end
