(* ===== verification/Anchor.thy ===== *)
theory Anchor
  imports Seal Merkle
begin

text \<open>
  Sub 3, the anchor worker: internal/protocol/sub3/store.go, worker.go and the stub of
  ordinals.go.  One cycle fetches unanchored evidence, groups it by merchant, and for every
  merchant with enough rows builds a tree, inscribes its root and records anchor and proofs.
  The inscriber is the parameter \<open>inscribe\<close>; failing database calls are named by \<open>fail\<close>,
  rows locked by another worker by \<open>locked\<close>, and fresh anchor ids come from \<open>ids\<close>.
\<close>

section \<open>Data\<close>

record EvidenceRow =
  er_event_hash :: string
  er_chain_hash :: string
  er_merchant :: uuid

record InscribeResult =
  InscriptionID :: string
  TxID :: string
  BlockHeight :: go_int64

record anchor_row =
  an_id :: uuid
  an_root :: string
  an_inscription :: "string option"
  an_tx :: "string option"
  an_height :: "go_int64 option"
  an_network :: string
  an_count :: nat
  an_status :: string
  an_at :: gotime

record evidence_anchor =
  ea_event :: string
  ea_anchor :: uuid
  ea_leaf :: nat
  ea_proof :: "proof_node list"

record anchor_db =
  ad_evidence :: evidence_table
  ad_anchors :: "anchor_row list"
  ad_links :: "evidence_anchor list"

record AnchorResult =
  AnchorID :: uuid
  ar_merchant :: uuid
  ar_root :: string
  ar_inscription :: string
  ar_count :: nat
  ar_status :: string

datatype anchor_call =
    FetchBegin | FetchQuery | FetchCommit
  | WriteBegin uuid | InsertAnchor uuid | InsertProof uuid nat | WriteCommit uuid | InsertFailed uuid

datatype anchor_error = MerkleFailed merkle_error | InscribeFailed | AnchorDB anchor_call

text \<open>The inscriber's answer: \<open>None\<close> is an error.\<close>

type_synonym inscriber = "string \<Rightarrow> string \<Rightarrow> InscribeResult option"

section \<open>The stub inscriber and the choice of implementation\<close>

definition stub_inscribe :: "(string \<Rightarrow> string) \<Rightarrow> inscriber" where
  "stub_inscribe sha merkleRoot network =
     (let shortHash = hex_encode (take 8 (sha merkleRoot)) in
      Some \<lparr>InscriptionID = ''stub:'' @ shortHash, TxID = ''stub-tx-'' @ shortHash, BlockHeight = 0\<rparr>)"

definition NewOrdinalsBot :: "(string \<Rightarrow> string) \<Rightarrow> (string \<Rightarrow> inscriber) \<Rightarrow> string \<Rightarrow> inscriber" where
  "NewOrdinalsBot sha ordinalsBot apiKey = (if apiKey = [] then stub_inscribe sha else ordinalsBot apiKey)"

section \<open>Fetch\<close>

text \<open>\<open>ORDER BY merchant_id, ingested_at LIMIT n FOR UPDATE SKIP LOCKED\<close>.\<close>

definition unanchored :: "(string \<Rightarrow> bool) \<Rightarrow> anchor_db \<Rightarrow> evidence list" where
  "unanchored locked db =
     sort_key (\<lambda>e. uint (ev_merchant e)) (sort_key ev_ingested
       (filter (\<lambda>e. \<not> list_ex (\<lambda>l. ea_event l = ev_event_hash e) (ad_links db) \<and> \<not> locked (ev_event_hash e))
          (ad_evidence db)))"

definition lockAndFetchUnanchored :: "(string \<Rightarrow> bool) \<Rightarrow> nat \<Rightarrow> anchor_db \<Rightarrow> EvidenceRow list" where
  "lockAndFetchUnanchored locked batchSize db =
     map (\<lambda>e. \<lparr>er_event_hash = ev_event_hash e, er_chain_hash = ev_chain e, er_merchant = ev_merchant e\<rparr>)
       (take batchSize (unanchored locked db))"

text \<open>\<open>groups\<close> and \<open>merchantOrder\<close>: the groups in the order their merchants were first seen.\<close>

fun add_to_group :: "EvidenceRow \<Rightarrow> (uuid \<times> EvidenceRow list) list \<Rightarrow> (uuid \<times> EvidenceRow list) list" where
  "add_to_group r [] = [(er_merchant r, [r])]"
| "add_to_group r ((m, rs) # gs) =
     (if m = er_merchant r then (m, rs @ [r]) # gs else (m, rs) # add_to_group r gs)"

definition group_rows :: "EvidenceRow list \<Rightarrow> (uuid \<times> EvidenceRow list) list" where
  "group_rows rows = foldl (\<lambda>gs r. add_to_group r gs) [] rows"

section \<open>Write\<close>

definition nullif :: "string \<Rightarrow> string option" where
  "nullif s = (if s = [] then None else Some s)"

text \<open>\<open>ON CONFLICT (event_hash, anchor_id) DO NOTHING\<close>.\<close>

definition insert_link :: "evidence_anchor \<Rightarrow> evidence_anchor list \<Rightarrow> evidence_anchor list" where
  "insert_link l ls =
     (if list_ex (\<lambda>k. ea_event k = ea_event l \<and> ea_anchor k = ea_anchor l) ls then ls else ls @ [l])"

fun insert_proofs ::
  "(nat \<Rightarrow> bool) \<Rightarrow> uuid \<Rightarrow> nat \<Rightarrow> EvidenceRow list \<Rightarrow> proof_node list list \<Rightarrow> evidence_anchor list
     \<Rightarrow> nat + evidence_anchor list" where
  "insert_proofs fails aid i [] proofs ls = Inr ls"
| "insert_proofs fails aid i (r # rs) proofs ls =
     (if fails i then Inl i
      else insert_proofs fails aid (Suc i) rs proofs
             (insert_link \<lparr>ea_event = er_event_hash r, ea_anchor = aid, ea_leaf = i, ea_proof = proofs ! i\<rparr> ls))"

definition anchor_status :: "InscribeResult \<Rightarrow> string" where
  "anchor_status ir = (if InscriptionID ir \<noteq> [] then ''inscribed'' else ''pending'')"

definition new_anchor :: "uuid \<Rightarrow> gotime \<Rightarrow> string \<Rightarrow> string \<Rightarrow> nat \<Rightarrow> InscribeResult \<Rightarrow> anchor_row" where
  "new_anchor aid now network rt n ir =
     \<lparr>an_id = aid, an_root = rt, an_inscription = nullif (InscriptionID ir), an_tx = nullif (TxID ir),
      an_height = (if BlockHeight ir = 0 then None else Some (BlockHeight ir)),
      an_network = network, an_count = n, an_status = anchor_status ir, an_at = now\<rparr>"

definition writeAnchorResults ::
  "(anchor_call \<Rightarrow> bool) \<Rightarrow> uuid \<Rightarrow> gotime \<Rightarrow> string \<Rightarrow> uuid \<Rightarrow> EvidenceRow list \<Rightarrow> merkle_result
     \<Rightarrow> InscribeResult \<Rightarrow> anchor_db \<Rightarrow> (anchor_error + AnchorResult) \<times> anchor_db" where
  "writeAnchorResults fail aid now network merchant rows tree ir db =
     (if fail (WriteBegin merchant) then (Inl (AnchorDB (WriteBegin merchant)), db)
      else if fail (InsertAnchor merchant) then (Inl (AnchorDB (InsertAnchor merchant)), db)
      else case insert_proofs (\<lambda>i. fail (InsertProof merchant i)) aid 0 rows (Proofs tree) (ad_links db) of
          Inl i \<Rightarrow> (Inl (AnchorDB (InsertProof merchant i)), db)
        | Inr links \<Rightarrow>
            if fail (WriteCommit merchant) then (Inl (AnchorDB (WriteCommit merchant)), db)
            else (Inr \<lparr>AnchorID = aid, ar_merchant = merchant, ar_root = Root tree,
                       ar_inscription = InscriptionID ir, ar_count = length rows, ar_status = anchor_status ir\<rparr>,
                  db\<lparr>ad_anchors := ad_anchors db @ [new_anchor aid now network (Root tree) (length rows) ir],
                     ad_links := links\<rparr>))"

text \<open>The record of a failed attempt is best effort.\<close>

definition WriteFailed ::
  "(anchor_call \<Rightarrow> bool) \<Rightarrow> uuid \<Rightarrow> gotime \<Rightarrow> string \<Rightarrow> uuid \<Rightarrow> string \<Rightarrow> nat \<Rightarrow> anchor_db \<Rightarrow> anchor_db" where
  "WriteFailed fail aid now network merchant rt n db =
     (if fail (InsertFailed merchant) then db
      else db\<lparr>ad_anchors := ad_anchors db @
             [\<lparr>an_id = aid, an_root = rt, an_inscription = None, an_tx = None, an_height = None,
               an_network = network, an_count = n, an_status = ''failed'', an_at = now\<rparr>]\<rparr>)"

definition inscribeAndWriteForMerchant ::
  "(string \<Rightarrow> string) \<Rightarrow> (anchor_call \<Rightarrow> bool) \<Rightarrow> inscriber \<Rightarrow> uuid \<Rightarrow> gotime \<Rightarrow> string \<Rightarrow> uuid
     \<Rightarrow> EvidenceRow list \<Rightarrow> anchor_db \<Rightarrow> (anchor_error + AnchorResult) \<times> anchor_db" where
  "inscribeAndWriteForMerchant sha fail inscribe aid now network merchant rows db =
     (case BuildMerkleTree sha (map er_chain_hash rows) of
        Inl e \<Rightarrow> (Inl (MerkleFailed e), db)
      | Inr tree \<Rightarrow>
          (case inscribe (Root tree) network of
             None \<Rightarrow> (Inl InscribeFailed, WriteFailed fail aid now network merchant (Root tree) (length rows) db)
           | Some ir \<Rightarrow> writeAnchorResults fail aid now network merchant rows tree ir db))"

text \<open>Groups below \<open>minBatch\<close> are skipped, and a failing merchant does not stop the others.\<close>

fun anchor_groups ::
  "(string \<Rightarrow> string) \<Rightarrow> (anchor_call \<Rightarrow> bool) \<Rightarrow> inscriber \<Rightarrow> (uuid \<Rightarrow> uuid) \<Rightarrow> gotime \<Rightarrow> string \<Rightarrow> nat
     \<Rightarrow> (uuid \<times> EvidenceRow list) list \<Rightarrow> anchor_db \<Rightarrow> AnchorResult list \<times> anchor_db" where
  "anchor_groups sha fail inscribe ids now network minBatch [] db = ([], db)"
| "anchor_groups sha fail inscribe ids now network minBatch ((m, rows) # gs) db =
     (if length rows < minBatch then anchor_groups sha fail inscribe ids now network minBatch gs db
      else case inscribeAndWriteForMerchant sha fail inscribe (ids m) now network m rows db of
          (Inl e, db') \<Rightarrow> anchor_groups sha fail inscribe ids now network minBatch gs db'
        | (Inr r, db') \<Rightarrow>
            (case anchor_groups sha fail inscribe ids now network minBatch gs db' of
               (rs, db'') \<Rightarrow> (r # rs, db'')))"

definition WriteAnchor ::
  "(string \<Rightarrow> string) \<Rightarrow> (anchor_call \<Rightarrow> bool) \<Rightarrow> (string \<Rightarrow> bool) \<Rightarrow> inscriber \<Rightarrow> (uuid \<Rightarrow> uuid) \<Rightarrow> gotime \<Rightarrow> string
     \<Rightarrow> nat \<Rightarrow> nat \<Rightarrow> anchor_db \<Rightarrow> (anchor_error + AnchorResult list) \<times> anchor_db" where
  "WriteAnchor sha fail locked inscribe ids now network batchSize minBatch db =
     (if fail FetchBegin then (Inl (AnchorDB FetchBegin), db)
      else if fail FetchQuery then (Inl (AnchorDB FetchQuery), db)
      else
        let rows = lockAndFetchUnanchored locked batchSize db in
        if rows = [] then (Inr [], db)
        else if fail FetchCommit then (Inl (AnchorDB FetchCommit), db)
        else case anchor_groups sha fail inscribe ids now network minBatch (group_rows rows) db of
            (rs, db') \<Rightarrow> (Inr rs, db'))"

section \<open>The worker\<close>

record WorkerConfig =
  Network :: string
  BatchSize :: nat
  MinBatch :: nat

definition NewWorker :: "WorkerConfig \<Rightarrow> WorkerConfig" where
  "NewWorker cfg =
     \<lparr>Network = (if Network cfg = [] then ''signet'' else Network cfg),
      BatchSize = (if BatchSize cfg = 0 then 50 else BatchSize cfg),
      MinBatch = (if MinBatch cfg = 0 then 2 else MinBatch cfg)\<rparr>"

text \<open>What one tick meets.\<close>

record tick_env =
  te_fail :: "anchor_call \<Rightarrow> bool"
  te_locked :: "string \<Rightarrow> bool"
  te_inscribe :: inscriber
  te_ids :: "uuid \<Rightarrow> uuid"
  te_now :: gotime

definition tick :: "(string \<Rightarrow> string) \<Rightarrow> WorkerConfig \<Rightarrow> tick_env \<Rightarrow> anchor_db \<Rightarrow> anchor_db" where
  "tick sha cfg env db =
     snd (WriteAnchor sha (te_fail env) (te_locked env) (te_inscribe env) (te_ids env) (te_now env)
            (Network cfg) (BatchSize cfg) (MinBatch cfg) db)"

fun ticks :: "(string \<Rightarrow> string) \<Rightarrow> WorkerConfig \<Rightarrow> tick_env list \<Rightarrow> anchor_db \<Rightarrow> anchor_db" where
  "ticks sha cfg [] db = db"
| "ticks sha cfg (e # es) db = ticks sha cfg es (tick sha cfg e db)"

section \<open>Groups\<close>

definition groups_ok :: "EvidenceRow set \<Rightarrow> (uuid \<times> EvidenceRow list) list \<Rightarrow> bool" where
  "groups_ok S gs \<longleftrightarrow> (\<forall>(m, rs) \<in> set gs. rs \<noteq> [] \<and> set rs \<subseteq> S \<and> (\<forall>r \<in> set rs. er_merchant r = m))"

lemma groups_ok_add: "groups_ok S gs \<Longrightarrow> r \<in> S \<Longrightarrow> groups_ok S (add_to_group r gs)"
  by (induction r gs rule: add_to_group.induct) (auto simp: groups_ok_def)

lemma groups_ok_group_rows: "groups_ok (set rows) (group_rows rows)"
proof -
  have "groups_ok S gs \<Longrightarrow> set rs \<subseteq> S \<Longrightarrow> groups_ok S (foldl (\<lambda>gs r. add_to_group r gs) gs rs)" for S gs rs
    by (induction rs arbitrary: gs) (auto simp: groups_ok_add)
  from this [of "set rows" "[]" rows] show ?thesis by (simp add: group_rows_def groups_ok_def)
qed

lemma group_size_add:
  "\<forall>(m, rs) \<in> set gs. length rs \<le> length (filter (\<lambda>x. er_merchant x = m) seen) \<Longrightarrow>
   \<forall>(m, rs) \<in> set (add_to_group r gs). length rs \<le> length (filter (\<lambda>x. er_merchant x = m) (seen @ [r]))"
  by (induction r gs rule: add_to_group.induct) (auto intro: le_SucI)

lemma group_size:
  "(m, rs) \<in> set (group_rows rows) \<Longrightarrow> length rs \<le> length (filter (\<lambda>x. er_merchant x = m) rows)"
proof -
  have "\<forall>(m, rs) \<in> set gs. length rs \<le> length (filter (\<lambda>x. er_merchant x = m) seen) \<Longrightarrow>
     \<forall>(m, rs) \<in> set (foldl (\<lambda>gs r. add_to_group r gs) gs xs). length rs \<le> length (filter (\<lambda>x. er_merchant x = m) (seen @ xs))"
    for gs seen xs
  proof (induction xs arbitrary: gs seen)
    case (Cons x xs)
    from Cons.IH [OF group_size_add [OF Cons.prems, of x]] show ?case by simp
  qed simp
  from this [of "[]" "[]" rows] have "\<forall>(m, rs) \<in> set (group_rows rows). length rs \<le> length (filter (\<lambda>x. er_merchant x = m) rows)"
    by (simp add: group_rows_def)
  then show "(m, rs) \<in> set (group_rows rows) \<Longrightarrow> length rs \<le> length (filter (\<lambda>x. er_merchant x = m) rows)"
    by auto
qed

section \<open>What an anchored event has\<close>

text \<open>The link of an event points to an anchor whose root is the root of a tree over leaves of the
  event's own merchant, among them the event's chain hash at the recorded index, and carries
  that leaf's proof.\<close>

definition link_ok :: "(string \<Rightarrow> string) \<Rightarrow> evidence_table \<Rightarrow> anchor_row list \<Rightarrow> evidence_anchor \<Rightarrow> bool" where
  "link_ok sha evs anchors l \<longleftrightarrow>
     (\<exists>e a leaves tree. e \<in> set evs \<and> a \<in> set anchors \<and> ev_event_hash e = ea_event l \<and> an_id a = ea_anchor l \<and>
        an_status a \<noteq> ''failed'' \<and> an_root a = Root tree \<and> BuildMerkleTree sha leaves = Inr tree \<and>
        set leaves \<subseteq> ev_chain ` set (merchant_rows (ev_merchant e) evs) \<and>
        ea_leaf l < length leaves \<and> leaves ! ea_leaf l = ev_chain e \<and> ea_proof l = Proofs tree ! ea_leaf l)"

definition anchors_ok :: "(string \<Rightarrow> string) \<Rightarrow> anchor_db \<Rightarrow> bool" where
  "anchors_ok sha db \<longleftrightarrow> (\<forall>l \<in> set (ad_links db). link_ok sha (ad_evidence db) (ad_anchors db) l)"

lemma link_ok_mono: "link_ok sha evs as l \<Longrightarrow> set as \<subseteq> set bs \<Longrightarrow> link_ok sha evs bs l"
  unfolding link_ok_def by blast

text \<open>The rows of a group come from evidence of its merchant.\<close>

definition rows_from :: "evidence_table \<Rightarrow> uuid \<Rightarrow> EvidenceRow list \<Rightarrow> bool" where
  "rows_from evs m rows \<longleftrightarrow>
     (\<forall>r \<in> set rows. \<exists>e \<in> set (merchant_rows m evs). er_event_hash r = ev_event_hash e \<and> er_chain_hash r = ev_chain e)"

lemma insert_proofs_links:
  assumes "insert_proofs fails aid i rows proofs ls = Inr ls'" and "l \<in> set ls'"
  shows "l \<in> set ls \<or> (\<exists>j < length rows. l = \<lparr>ea_event = er_event_hash (rows ! j), ea_anchor = aid,
           ea_leaf = i + j, ea_proof = proofs ! (i + j)\<rparr>)"
  using assms
proof (induction fails aid i rows proofs ls rule: insert_proofs.induct)
  case (2 fails aid i r rs proofs ls)
  let ?l = "\<lparr>ea_event = er_event_hash r, ea_anchor = aid, ea_leaf = i, ea_proof = proofs ! i\<rparr>"
  from "2.prems"(1) have nf: "\<not> fails i"
    and run: "insert_proofs fails aid (Suc i) rs proofs (insert_link ?l ls) = Inr ls'"
    by (auto split: if_splits)
  from "2.IH" [OF nf run "2.prems"(2)] show ?case
  proof
    assume "l \<in> set (insert_link ?l ls)"
    then have "l \<in> set ls \<or> l = ?l" by (auto simp: insert_link_def split: if_splits)
    then show ?thesis by (auto intro: exI [of _ 0])
  next
    assume "\<exists>j<length rs. l = \<lparr>ea_event = er_event_hash (rs ! j), ea_anchor = aid,
        ea_leaf = Suc i + j, ea_proof = proofs ! (Suc i + j)\<rparr>"
    then obtain j where "j < length rs" "l = \<lparr>ea_event = er_event_hash (rs ! j), ea_anchor = aid,
        ea_leaf = Suc i + j, ea_proof = proofs ! (Suc i + j)\<rparr>" by blast
    then show ?thesis by (intro disjI2 exI [of _ "Suc j"]) simp
  qed
qed simp

lemma writeAnchorResults_snd:
  "snd (writeAnchorResults fail aid now network m rows tree ir db) = db \<or>
   (\<exists>links. insert_proofs (\<lambda>i. fail (InsertProof m i)) aid 0 rows (Proofs tree) (ad_links db) = Inr links \<and>
      snd (writeAnchorResults fail aid now network m rows tree ir db) =
        db\<lparr>ad_anchors := ad_anchors db @ [new_anchor aid now network (Root tree) (length rows) ir], ad_links := links\<rparr>)"
  by (cases "insert_proofs (\<lambda>i. fail (InsertProof m i)) aid 0 rows (Proofs tree) (ad_links db)")
     (simp_all add: writeAnchorResults_def)

lemma written_links_ok:
  assumes ok: "anchors_ok sha db" and rows: "rows_from (ad_evidence db) m rows"
    and tree: "BuildMerkleTree sha (map er_chain_hash rows) = Inr tree"
    and ins: "insert_proofs fails aid 0 rows (Proofs tree) (ad_links db) = Inr links" and l: "l \<in> set links"
    and a: "an_id a = aid" "an_root a = Root tree" "an_status a \<noteq> ''failed''"
  shows "link_ok sha (ad_evidence db) (ad_anchors db @ [a]) l"
  using insert_proofs_links [OF ins l]
proof
  assume "l \<in> set (ad_links db)"
  with ok have "link_ok sha (ad_evidence db) (ad_anchors db) l" by (simp add: anchors_ok_def)
  then show ?thesis by (rule link_ok_mono) auto
next
  assume "\<exists>j<length rows. l = \<lparr>ea_event = er_event_hash (rows ! j), ea_anchor = aid,
      ea_leaf = 0 + j, ea_proof = Proofs tree ! (0 + j)\<rparr>"
  then obtain j where j: "j < length rows" and l: "l = \<lparr>ea_event = er_event_hash (rows ! j), ea_anchor = aid,
      ea_leaf = j, ea_proof = Proofs tree ! j\<rparr>" by auto
  from rows j obtain e where e: "e \<in> set (merchant_rows m (ad_evidence db))"
    "er_event_hash (rows ! j) = ev_event_hash e" "er_chain_hash (rows ! j) = ev_chain e"
    unfolding rows_from_def by (metis nth_mem)
  then have em: "e \<in> set (ad_evidence db)" "ev_merchant e = m" by (auto simp: merchant_rows_def)
  have "set (map er_chain_hash rows) \<subseteq> ev_chain ` set (merchant_rows m (ad_evidence db))"
    using rows by (force simp: rows_from_def)
  with e em j l a tree show ?thesis
    unfolding link_ok_def
    by (intro exI [of _ e] exI [of _ a] exI [of _ "map er_chain_hash rows"] exI [of _ tree]) simp
qed

lemma writeAnchorResults_ok:
  assumes ok: "anchors_ok sha db" and rows: "rows_from (ad_evidence db) m rows"
    and tree: "BuildMerkleTree sha (map er_chain_hash rows) = Inr tree"
    and run: "writeAnchorResults fail aid now network m rows tree ir db = (res, db')"
  shows "anchors_ok sha db' \<and> ad_evidence db' = ad_evidence db"
proof -
  let ?a = "new_anchor aid now network (Root tree) (length rows) ir"
  have a: "an_id ?a = aid" "an_root ?a = Root tree" "an_status ?a \<noteq> ''failed''"
    by (simp_all add: new_anchor_def anchor_status_def)
  from writeAnchorResults_snd [of fail aid now network m rows tree ir db] run
  consider "db' = db"
    | links where "insert_proofs (\<lambda>i. fail (InsertProof m i)) aid 0 rows (Proofs tree) (ad_links db) = Inr links"
        "db' = db\<lparr>ad_anchors := ad_anchors db @ [?a], ad_links := links\<rparr>"
    unfolding run snd_conv by blast
  then show ?thesis
  proof cases
    case 1
    with ok show ?thesis by simp
  next
    case (2 links)
    with written_links_ok [OF ok rows tree 2(1) _ a] show ?thesis by (simp add: anchors_ok_def)
  qed
qed

lemma anchors_ok_failed_row:
  "anchors_ok sha db \<Longrightarrow> anchors_ok sha (WriteFailed fail aid now network m rt n db) \<and>
     ad_evidence (WriteFailed fail aid now network m rt n db) = ad_evidence db"
  by (auto simp: anchors_ok_def WriteFailed_def intro: link_ok_mono)

lemma inscribe_ok:
  assumes "anchors_ok sha db" "rows_from (ad_evidence db) m rows"
    and "inscribeAndWriteForMerchant sha fail inscribe aid now network m rows db = (res, db')"
  shows "anchors_ok sha db' \<and> ad_evidence db' = ad_evidence db"
  using assms(3) anchors_ok_failed_row [OF assms(1)] writeAnchorResults_ok [OF assms(1,2)] assms(1)
  by (auto simp: inscribeAndWriteForMerchant_def split: sum.splits option.splits)

lemma anchor_groups_ok:
  assumes "anchors_ok sha db" and "\<forall>(m, rows) \<in> set gs. rows_from (ad_evidence db) m rows"
  shows "anchors_ok sha (snd (anchor_groups sha fail inscribe ids now network minBatch gs db)) \<and>
     ad_evidence (snd (anchor_groups sha fail inscribe ids now network minBatch gs db)) = ad_evidence db"
  using assms
proof (induction gs arbitrary: db)
  case (Cons g gs)
  obtain m rows where g: "g = (m, rows)" by fastforce
  obtain res db' where r: "inscribeAndWriteForMerchant sha fail inscribe (ids m) now network m rows db = (res, db')"
    by fastforce
  have "rows_from (ad_evidence db) m rows" using Cons.prems(2) g by simp
  from inscribe_ok [OF Cons.prems(1) this r] Cons.IH [of db'] Cons.IH [OF Cons.prems(1)] Cons.prems(2) show ?case
    by (cases res) (auto simp: g r case_prod_beta)
qed simp

lemma group_rows_from:
  assumes "(m, rs) \<in> set (group_rows (lockAndFetchUnanchored locked n db))"
  shows "rows_from (ad_evidence db) m rs"
proof -
  have "er_merchant r = m \<and> r \<in> set (lockAndFetchUnanchored locked n db)" if "r \<in> set rs" for r
    using groups_ok_group_rows [of "lockAndFetchUnanchored locked n db"] assms that by (fastforce simp: groups_ok_def)
  moreover have "set (take n (unanchored locked db)) \<subseteq> set (ad_evidence db)"
    using set_take_subset [of n "unanchored locked db"] by (auto simp: unanchored_def)
  ultimately show ?thesis
    by (fastforce simp: rows_from_def merchant_rows_def lockAndFetchUnanchored_def)
qed

lemma tick_ok: "anchors_ok sha db \<Longrightarrow> anchors_ok sha (tick sha cfg env db) \<and> ad_evidence (tick sha cfg env db) = ad_evidence db"
  unfolding tick_def WriteAnchor_def Let_def
  by (simp add: case_prod_beta)
     (intro impI anchor_groups_ok, auto dest: group_rows_from)

lemma ticks_ok: "anchors_ok sha db \<Longrightarrow> anchors_ok sha (ticks sha cfg es db) \<and> ad_evidence (ticks sha cfg es db) = ad_evidence db"
  by (induction sha cfg es db rule: ticks.induct) (simp_all add: tick_ok)

lemma anchor_groups_all_small:
  "\<forall>(m, rs) \<in> set gs. length rs < minBatch \<Longrightarrow>
   anchor_groups sha fail inscribe ids now network minBatch gs db = ([], db)"
  by (induction gs) auto

lemma tick_all_small:
  assumes "\<forall>m. length (filter (\<lambda>r. er_merchant r = m) (lockAndFetchUnanchored (te_locked env) (BatchSize cfg) db)) < MinBatch cfg"
  shows "tick sha cfg env db = db"
proof -
  have "\<forall>(m, rs) \<in> set (group_rows (lockAndFetchUnanchored (te_locked env) (BatchSize cfg) db)). length rs < MinBatch cfg"
    using group_size assms by (fastforce intro: le_less_trans)
  from anchor_groups_all_small [OF this] show ?thesis
    by (simp add: tick_def WriteAnchor_def Let_def)
qed

lemma link_ok_verifies:
  assumes "link_ok sha evs anchors l"
  shows "\<exists>e \<in> set evs. \<exists>a \<in> set anchors. ev_event_hash e = ea_event l \<and> an_id a = ea_anchor l \<and>
     an_status a \<noteq> ''failed'' \<and> VerifyProof sha (an_root a) (ev_chain e) (ea_proof l)"
proof -
  from assms obtain e a leaves tree where "e \<in> set evs" "a \<in> set anchors" "ev_event_hash e = ea_event l"
    "an_id a = ea_anchor l" "an_status a \<noteq> ''failed''" "an_root a = Root tree"
    and t: "BuildMerkleTree sha leaves = Inr tree" "ea_leaf l < length leaves"
      "leaves ! ea_leaf l = ev_chain e" "ea_proof l = Proofs tree ! ea_leaf l"
    unfolding link_ok_def by blast
  moreover have "VerifyProof sha (Root tree) (ev_chain e) (ea_proof l)"
    using BuildMerkleTree_sound [OF t(1)] t(2-4) by metis
  ultimately show ?thesis by metis
qed

section \<open>Properties\<close>

text \<open>C2: However many anchor cycles run and whatever fails in them, every recorded proof
  verifies its event's chain hash against the root of an anchor that did not fail, and the tree
  of that anchor has leaves of the event's merchant only.\<close>

theorem anchor_cycles_sound:
  assumes "ad_links db = []" and "l \<in> set (ad_links (ticks sha cfg es db))"
  shows "(\<exists>e \<in> set (ad_evidence db). \<exists>a \<in> set (ad_anchors (ticks sha cfg es db)).
      ev_event_hash e = ea_event l \<and> an_id a = ea_anchor l \<and> an_status a \<noteq> ''failed'' \<and>
      VerifyProof sha (an_root a) (ev_chain e) (ea_proof l)) \<and>
    link_ok sha (ad_evidence db) (ad_anchors (ticks sha cfg es db)) l"
proof -
  have "anchors_ok sha db" using assms(1) by (simp add: anchors_ok_def)
  from ticks_ok [OF this, of cfg es] have ok: "anchors_ok sha (ticks sha cfg es db)"
    and ev: "ad_evidence (ticks sha cfg es db) = ad_evidence db" by simp_all
  have "link_ok sha (ad_evidence db) (ad_anchors (ticks sha cfg es db)) l"
    using bspec [OF ok [unfolded anchors_ok_def] assms(2)] by (simp only: ev)
  with link_ok_verifies show ?thesis by blast
qed

definition sample_evidence :: "string \<Rightarrow> uuid \<Rightarrow> evidence" where
  "sample_evidence h m = \<lparr>ev_event_id = 0, ev_event_hash = h, ev_chain = h, ev_prev = None,
     ev_source = ''square'', ev_merchant = m, ev_payload = [], ev_ingested = 0\<rparr>"

definition sample_env :: tick_env where
  "sample_env = \<lparr>te_fail = (\<lambda>c. False), te_locked = (\<lambda>h. False), te_inscribe = stub_inscribe (\<lambda>x. x),
     te_ids = (\<lambda>m. m), te_now = 0\<rparr>"

definition sample_db :: "(string \<times> uuid) list \<Rightarrow> anchor_db" where
  "sample_db es = \<lparr>ad_evidence = map (\<lambda>(h, m). sample_evidence h m) es, ad_anchors = [], ad_links = []\<rparr>"

lemma sample_tick:
  "ad_links (ticks (\<lambda>x. x) (NewWorker \<lparr>Network = [], BatchSize = 0, MinBatch = 0\<rparr>) [sample_env]
      (sample_db [(''aa'', 1), (''bb'', 1)]))
   = [\<lparr>ea_event = ''aa'', ea_anchor = 1, ea_leaf = 0, ea_proof = [\<lparr>SiblingHash = ''bb'', Position = ''right''\<rparr>]\<rparr>,
      \<lparr>ea_event = ''bb'', ea_anchor = 1, ea_leaf = 1, ea_proof = [\<lparr>SiblingHash = ''aa'', Position = ''left''\<rparr>]\<rparr>]"
proof -
  have d: "hex_decode ''aa'' = Some [char_of (170::nat)]" "hex_decode ''bb'' = Some [char_of (187::nat)]"
    by code_simp+
  show ?thesis
    by (simp add: NewWorker_def tick_def WriteAnchor_def sample_env_def sample_db_def lockAndFetchUnanchored_def
        unanchored_def sample_evidence_def group_rows_def inscribeAndWriteForMerchant_def
        two_leaf_tree [OF d] stub_inscribe_def Let_def writeAnchorResults_def insert_link_def)
qed

theorem anchor_cycles_sound_witness:
  "\<exists>e \<in> set (ad_evidence (sample_db [(''aa'', 1), (''bb'', 1)])).
     \<exists>a \<in> set (ad_anchors (ticks (\<lambda>x. x) (NewWorker \<lparr>Network = [], BatchSize = 0, MinBatch = 0\<rparr>) [sample_env]
        (sample_db [(''aa'', 1), (''bb'', 1)]))).
     ev_event_hash e = ''aa'' \<and> VerifyProof (\<lambda>x. x) (an_root a) (ev_chain e) [\<lparr>SiblingHash = ''bb'', Position = ''right''\<rparr>]"
proof -
  let ?l = "\<lparr>ea_event = ''aa'', ea_anchor = 1, ea_leaf = 0, ea_proof = [\<lparr>SiblingHash = ''bb'', Position = ''right''\<rparr>]\<rparr>"
  have "ad_links (sample_db [(''aa'', 1), (''bb'', 1)]) = []" by (simp add: sample_db_def)
  from anchor_cycles_sound [OF this, where l = ?l and sha = "\<lambda>x. x" and es = "[sample_env]"
      and cfg = "NewWorker \<lparr>Network = [], BatchSize = 0, MinBatch = 0\<rparr>"]
  show ?thesis unfolding sample_tick by fastforce
qed

text \<open>When the first batch of unanchored rows holds fewer than the minimum of every merchant
  in it, no number of cycles anchors anything, also not the merchants that have enough rows
  behind the batch.\<close>

theorem anchor_starvation:
  assumes "\<forall>env \<in> set es. \<forall>m. length (filter (\<lambda>r. er_merchant r = m)
     (lockAndFetchUnanchored (te_locked env) (BatchSize cfg) db)) < MinBatch cfg"
  shows "ticks sha cfg es db = db"
  using assms by (induction es) (simp_all add: tick_all_small)

theorem anchor_starvation_witness:
  "ticks (\<lambda>x. x) \<lparr>Network = ''signet'', BatchSize = 2, MinBatch = 2\<rparr> (replicate 100 sample_env)
     (sample_db [(''aa'', 1), (''bb'', 2), (''cc'', 3), (''dd'', 3), (''ee'', 3)])
   = sample_db [(''aa'', 1), (''bb'', 2), (''cc'', 3), (''dd'', 3), (''ee'', 3)]"
  by (rule anchor_starvation)
     (simp add: sample_env_def sample_db_def lockAndFetchUnanchored_def unanchored_def sample_evidence_def)

end
