(* ===== verification/OneShot.thy ===== *)
theory OneShot
  imports Prelude
begin

text \<open>
  The contract of things that can be used once: a payment token, a login challenge.  A request
  may use one of them; once used, it stays used, whatever requests follow.
\<close>

locale one_shot =
  fixes act :: "'e \<Rightarrow> 's \<Rightarrow> 'k option \<times> 's"
    and spent :: "'s \<Rightarrow> 'k \<Rightarrow> bool" and inv :: "'s \<Rightarrow> bool"
  assumes act_inv: "inv s \<Longrightarrow> inv (snd (act e s))"
    and act_spends: "inv s \<Longrightarrow> fst (act e s) = Some k \<Longrightarrow> \<not> spent s k \<and> spent (snd (act e s)) k"
    and act_keeps: "inv s \<Longrightarrow> spent s k \<Longrightarrow> spent (snd (act e s)) k"
begin

text \<open>What a sequence of requests uses, in order.\<close>

fun spend_run :: "'e list \<Rightarrow> 's \<Rightarrow> 'k list \<times> 's" where
  "spend_run [] s = ([], s)"
| "spend_run (e # es) s =
     (let r = act e s; rest = spend_run es (snd r) in
      ((case fst r of None \<Rightarrow> fst rest | Some k \<Rightarrow> k # fst rest), snd rest))"

lemma spent_never_again: "inv s \<Longrightarrow> spent s k \<Longrightarrow> k \<notin> set (fst (spend_run es s))"
proof (induction es arbitrary: s)
  case (Cons e es)
  then have "k \<notin> set (fst (spend_run es (snd (act e s))))" using act_keeps act_inv by blast
  moreover have "fst (act e s) \<noteq> Some k" using act_spends Cons.prems by blast
  ultimately show ?case by (auto simp: Let_def split: option.splits)
qed simp

lemma spent_once: "inv s \<Longrightarrow> distinct (fst (spend_run es s))"
proof (induction es arbitrary: s)
  case (Cons e es)
  show ?case
  proof (cases "fst (act e s)")
    case (Some k)
    then have "spent (snd (act e s)) k" using act_spends Cons.prems by blast
    then show ?thesis using Cons Some spent_never_again act_inv by (simp add: Let_def)
  qed (simp add: Let_def Cons act_inv)
qed simp

end

end
