(* ===== verification/Validate.thy ===== *)
theory Validate
  imports Anchor Credentials OneShot
begin

text \<open>
  The paid verification of anchored events (\<open>internal/protocol/validate\<close> and its wiring in
  \<open>cmd/gateway/main.go\<close>): the token table, the stub of the payment challenge, the parsing of the
  L402 header, and the two handlers.  \<open>hmac\<close> is HMAC-SHA256 and \<open>sha\<close> is SHA-256.
\<close>

section \<open>The store\<close>

record VerificationToken =
  vt_event :: string
  vt_price :: go_int64
  vt_status :: string
  vt_preimage :: "string option"
  vt_created :: gotime
  vt_expires :: gotime
  vt_consumed :: "gotime option"

type_synonym val_tokens = "uuid \<rightharpoonup> VerificationToken"

record AnchorProof =
  ap_event :: string
  ap_anchor :: uuid
  ap_root :: string
  ap_inscription :: "string option"
  ap_tx :: "string option"
  ap_height :: "go_int64 option"
  ap_network :: string
  ap_status :: string
  ap_leaf :: nat
  ap_proof :: "proof_node list"
  ap_at :: gotime

datatype val_call = InsertTok | GetTok | ConsumeTok | RecheckTok | GetProof | ListAnch

datatype val_error = ValNotFound | ValAlreadyConsumed | ValExpired | ValNotAnchored | ValFailed val_call

record val_env =
  ve_now :: gotime
  ve_fails :: "val_call \<Rightarrow> bool"
  ve_new_token :: uuid

text \<open>The columns' defaults: pending, for 24 hours.\<close>

definition InsertToken :: "val_env \<Rightarrow> string \<Rightarrow> go_int64 \<Rightarrow> val_tokens \<Rightarrow> (val_error + uuid) \<times> val_tokens" where
  "InsertToken env eventHash price toks =
     (if ve_fails env InsertTok \<or> toks (ve_new_token env) \<noteq> None then (Inl (ValFailed InsertTok), toks)
      else (Inr (ve_new_token env), toks(ve_new_token env \<mapsto>
        \<lparr>vt_event = eventHash, vt_price = price, vt_status = ''pending'', vt_preimage = None, vt_created = ve_now env,
         vt_expires = ve_now env + day, vt_consumed = None\<rparr>)))"

definition GetToken :: "val_env \<Rightarrow> val_call \<Rightarrow> uuid \<Rightarrow> val_tokens \<Rightarrow> val_error + VerificationToken" where
  "GetToken env site tokenID toks =
     (if ve_fails env site then Inl (ValFailed site)
      else case toks tokenID of None \<Rightarrow> Inl ValNotFound | Some t \<Rightarrow> Inr t)"

text \<open>The conditional update; when it matches no row, the row is read again to tell why.\<close>

definition consumable :: "val_env \<Rightarrow> VerificationToken \<Rightarrow> bool" where
  "consumable env t \<longleftrightarrow> vt_status t = ''pending'' \<and> ve_now env < vt_expires t"

definition ConsumeToken :: "val_env \<Rightarrow> uuid \<Rightarrow> val_tokens \<Rightarrow> (val_error + unit) \<times> val_tokens" where
  "ConsumeToken env tokenID toks =
     (if ve_fails env ConsumeTok then (Inl (ValFailed ConsumeTok), toks)
      else if (case toks tokenID of None \<Rightarrow> False | Some t \<Rightarrow> consumable env t) then
        (Inr (), toks(tokenID \<mapsto> (the (toks tokenID))\<lparr>vt_status := ''consumed'', vt_consumed := Some (ve_now env)\<rparr>))
      else (case GetToken env RecheckTok tokenID toks of
          Inl e \<Rightarrow> (Inl e, toks)
        | Inr t \<Rightarrow>
            (Inl (if vt_status t = ''consumed'' then ValAlreadyConsumed
                  else if vt_status t = ''expired'' then ValExpired
                  else if vt_expires t < ve_now env then ValExpired else ValAlreadyConsumed), toks)))"

text \<open>The event's links with their anchors; a link without an anchor sorts first.\<close>

definition anchor_joins :: "string \<Rightarrow> anchor_db \<Rightarrow> (evidence_anchor \<times> anchor_row option) list" where
  "anchor_joins eventHash db =
     map (\<lambda>l. (l, List.find (\<lambda>a. an_id a = ea_anchor l) (ad_anchors db)))
       (filter (\<lambda>l. ea_event l = eventHash) (ad_links db))"

definition newest_join :: "(evidence_anchor \<times> anchor_row option) list \<Rightarrow> (evidence_anchor \<times> anchor_row) option" where
  "newest_join js =
     (if js = [] \<or> list_ex (\<lambda>j. snd j = None) js then None
      else first_row (sort_desc (\<lambda>j. an_at (snd j)) (map (\<lambda>j. (fst j, the (snd j))) js)))"

definition GetAnchorProof :: "val_env \<Rightarrow> string \<Rightarrow> anchor_db \<Rightarrow> val_error + AnchorProof" where
  "GetAnchorProof env eventHash db =
     (if ve_fails env GetProof then Inl (ValFailed GetProof)
      else if \<not> list_ex (\<lambda>e. ev_event_hash e = eventHash) (ad_evidence db) then Inl ValNotFound
      else case newest_join (anchor_joins eventHash db) of
          None \<Rightarrow> Inl ValNotAnchored
        | Some (l, a) \<Rightarrow>
            Inr \<lparr>ap_event = eventHash, ap_anchor = ea_anchor l, ap_root = an_root a, ap_inscription = an_inscription a,
              ap_tx = an_tx a, ap_height = an_height a, ap_network = an_network a, ap_status = an_status a,
              ap_leaf = ea_leaf l, ap_proof = ea_proof l, ap_at = an_at a\<rparr>)"

definition ListAnchors :: "val_env \<Rightarrow> int \<Rightarrow> anchor_db \<Rightarrow> val_error + anchor_row list" where
  "ListAnchors env limit db =
     (let n = (if limit \<le> 0 \<or> 200 < limit then 50 else limit) in
      if ve_fails env ListAnch then Inl (ValFailed ListAnch)
      else Inr (take (nat n) (sort_desc an_at (ad_anchors db))))"

section \<open>The payment stub\<close>

record val_cfg =
  vc_hmac :: "string \<Rightarrow> string \<Rightarrow> string"
  vc_sha :: "string \<Rightarrow> string"
  vc_uuid_str :: "uuid \<Rightarrow> string"
  vc_uuid_parse :: "string \<Rightarrow> uuid option"
  vc_secret :: string
  vc_price :: go_int64
  vc_allow_unauth :: bool

definition val_sign :: "val_cfg \<Rightarrow> uuid \<Rightarrow> string" where
  "val_sign cfg tokenID = hex_encode (vc_hmac cfg (vc_secret cfg) (vc_uuid_str cfg tokenID))"

definition IssueChallenge :: "val_cfg \<Rightarrow> uuid \<Rightarrow> string \<times> string" where
  "IssueChallenge cfg tokenID =
     (val_sign cfg tokenID, ''lnbcrt'' @ fmt_int (vc_price cfg) @ ''n1stub'' @ take 8 (vc_uuid_str cfg tokenID))"

definition VerifyMacaroon :: "val_cfg \<Rightarrow> uuid \<Rightarrow> string \<Rightarrow> bool" where
  "VerifyMacaroon cfg tokenID macaroon =
     (case (hex_decode (val_sign cfg tokenID), hex_decode macaroon) of
        (Some expected, Some provided) \<Rightarrow> expected = provided
      | _ \<Rightarrow> False)"

section \<open>The header\<close>

text \<open>\<open>strings.SplitN (s, sep, 2)\<close>: \<open>None\<close> when the separator does not occur.\<close>

definition split_first :: "char \<Rightarrow> string \<Rightarrow> (string \<times> string) option" where
  "split_first c s = (if c \<in> set s then Some (takeWhile (\<lambda>x. x \<noteq> c) s, tl (dropWhile (\<lambda>x. x \<noteq> c) s)) else None)"

definition trim_quotes :: "string \<Rightarrow> string" where
  "trim_quotes s = trim_right_char CHR 0x22 (dropWhile (\<lambda>c. c = CHR 0x22) s)"

definition quoted_param :: "string \<Rightarrow> (string \<times> string) option" where
  "quoted_param part =
     map_option (\<lambda>(k, v). (trim_space k, trim_quotes (trim_space v))) (split_first CHR ''='' (trim_space part))"

definition parseQuotedParams :: "string \<Rightarrow> (string \<rightharpoonup> string)" where
  "parseQuotedParams s = map_of (rev (List.map_filter quoted_param (split_on CHR '','' s)))"

definition parseL402Header :: "val_cfg \<Rightarrow> string \<Rightarrow> (uuid \<times> string) option" where
  "parseL402Header cfg header =
     (let params = parseQuotedParams (if prefix ''L402 '' header then drop 5 header else header) in
      case (params ''macaroon'', params ''token_id'') of
        (Some mac, Some tid) \<Rightarrow> map_option (\<lambda>t. (t, mac)) (vc_uuid_parse cfg tid)
      | _ \<Rightarrow> None)"

definition isValidEventHash :: "string \<Rightarrow> bool" where
  "isValidEventHash s \<longleftrightarrow> length s = 64 \<and> hex_decode s \<noteq> None"

section \<open>The handlers\<close>

record verification_response =
  vr_proof :: AnchorProof
  vr_verified :: bool
  vr_price :: go_int64

datatype val_reply =
    ValErr nat string
  | ValPending string
  | ValChallenge string uuid go_int64 string
  | ValProof verification_response

record val_state =
  vs_db :: anchor_db
  vs_tokens :: val_tokens

definition consumeAndRespond :: "val_cfg \<Rightarrow> val_env \<Rightarrow> uuid \<Rightarrow> val_state \<Rightarrow> val_reply \<times> val_state" where
  "consumeAndRespond cfg env tokenID st =
     (case GetToken env GetTok tokenID (vs_tokens st) of
        Inl ValNotFound \<Rightarrow> (ValErr 404 ''token_not_found'', st)
      | Inl _ \<Rightarrow> (ValErr 500 ''lookup_failed'', st)
      | Inr tok \<Rightarrow>
          if vt_status tok = ''consumed'' then (ValErr 410 ''token_consumed'', st)
          else if vt_status tok = ''expired'' then (ValErr 410 ''token_expired'', st)
          else (case GetAnchorProof env (vt_event tok) (vs_db st) of
              Inl ValNotAnchored \<Rightarrow> (ValPending (vt_event tok), st)
            | Inl ValNotFound \<Rightarrow> (ValErr 404 ''event_not_found'', st)
            | Inl _ \<Rightarrow> (ValErr 500 ''proof_lookup_failed'', st)
            | Inr pf \<Rightarrow>
                (case ConsumeToken env tokenID (vs_tokens st) of
                   (Inl ValAlreadyConsumed, _) \<Rightarrow> (ValErr 410 ''token_consumed'', st)
                 | (Inl ValExpired, _) \<Rightarrow> (ValErr 410 ''token_expired'', st)
                 | (Inl _, _) \<Rightarrow> (ValErr 500 ''consume_failed'', st)
                 | (Inr _, toks) \<Rightarrow>
                     (ValProof \<lparr>vr_proof = pf, vr_verified = VerifyProof (vc_sha cfg) (ap_root pf) (ap_event pf) (ap_proof pf),
                        vr_price = vt_price tok\<rparr>, st\<lparr>vs_tokens := toks\<rparr>))))"

text \<open>The token of a valid L402 header; \<open>None\<close> for any other header.\<close>

definition authorized_token :: "val_cfg \<Rightarrow> string \<Rightarrow> uuid option" where
  "authorized_token cfg auth =
     (if prefix ''L402 '' auth then
        (case parseL402Header cfg auth of
           Some (t, mac) \<Rightarrow> if VerifyMacaroon cfg t mac then Some t else None
         | None \<Rightarrow> None)
      else None)"

definition www_authenticate :: "val_cfg \<Rightarrow> uuid \<Rightarrow> string" where
  "www_authenticate cfg tokenID =
     (case IssueChallenge cfg tokenID of (mac, invoice) \<Rightarrow>
        ''L402 macaroon='' @ [CHR 0x22] @ mac @ [CHR 0x22] @ '', invoice='' @ [CHR 0x22] @ invoice @ [CHR 0x22] @
        '', token_id='' @ [CHR 0x22] @ vc_uuid_str cfg tokenID @ [CHR 0x22])"

definition issueChallenge ::
  "val_cfg \<Rightarrow> val_env \<Rightarrow> string \<Rightarrow> string req_body \<Rightarrow> val_state \<Rightarrow> val_reply \<times> val_state" where
  "issueChallenge cfg env auth body st =
     (case body of
        BodyUnreadable \<Rightarrow> (ValErr 400 ''body_read_failed'', st)
      | BodyTooLarge \<Rightarrow> (ValErr 400 ''body_read_failed'', st)
      | BodyNotJson \<Rightarrow> (ValErr 400 ''malformed_json'', st)
      | BodyJson eventHash \<Rightarrow>
          if \<not> isValidEventHash eventHash then (ValErr 400 ''invalid_event_hash'', st)
          else (case authorized_token cfg auth of
              Some t \<Rightarrow> consumeAndRespond cfg env t st
            | None \<Rightarrow>
                (case GetAnchorProof env eventHash (vs_db st) of
                   Inl ValNotFound \<Rightarrow> (ValErr 404 ''not_found'', st)
                 | Inl ValNotAnchored \<Rightarrow> (ValPending eventHash, st)
                 | Inl _ \<Rightarrow> (ValErr 500 ''lookup_failed'', st)
                 | Inr pf \<Rightarrow>
                     (case InsertToken env (ap_event pf) (vc_price cfg) (vs_tokens st) of
                        (Inl _, _) \<Rightarrow> (ValErr 500 ''token_create_failed'', st)
                      | (Inr t, toks) \<Rightarrow>
                          (ValChallenge (www_authenticate cfg t) t (vc_price cfg) (snd (IssueChallenge cfg t)),
                           st\<lparr>vs_tokens := toks\<rparr>)))))"

definition consumeToken :: "val_cfg \<Rightarrow> val_env \<Rightarrow> string \<Rightarrow> string \<Rightarrow> val_state \<Rightarrow> val_reply \<times> val_state" where
  "consumeToken cfg env auth rawID st =
     (case vc_uuid_parse cfg rawID of
        None \<Rightarrow> (ValErr 400 ''invalid_token_id'', st)
      | Some tokenID \<Rightarrow>
          if vc_allow_unauth cfg then consumeAndRespond cfg env tokenID st
          else if \<not> prefix ''L402 '' auth then (ValErr 401 ''missing_authorization'', st)
          else (case parseL402Header cfg auth of
              None \<Rightarrow> (ValErr 401 ''malformed_authorization'', st)
            | Some (hdrTokenID, macaroon) \<Rightarrow>
                if hdrTokenID \<noteq> tokenID then (ValErr 401 ''token_id_mismatch'', st)
                else if \<not> VerifyMacaroon cfg tokenID macaroon then (ValErr 401 ''invalid_macaroon'', st)
                else consumeAndRespond cfg env tokenID st))"

datatype val_request = PostVerify string "string req_body" | GetVerify string string

fun val_serve :: "val_cfg \<Rightarrow> val_env \<times> val_request \<Rightarrow> val_state \<Rightarrow> val_reply \<times> val_state" where
  "val_serve cfg (env, PostVerify auth body) st = issueChallenge cfg env auth body st"
| "val_serve cfg (env, GetVerify auth rawID) st = consumeToken cfg env auth rawID st"


text \<open>The wiring: \<open>None\<close> stops the process at startup.  \<open>random\<close> are 32 bytes of crypto/rand.\<close>

definition buildValidateHandler ::
  "bool \<Rightarrow> string \<Rightarrow> string \<Rightarrow> string \<Rightarrow> string \<Rightarrow> (string \<times> go_int64 \<times> bool) option" where
  "buildValidateHandler isProd secretHex priceStr allowStr random =
     (let decoded = hex_decode secretHex;
          valid = (case decoded of Some d \<Rightarrow> length d = 32 | None \<Rightarrow> False);
          secret = (if secretHex = [] then random else if valid then the decoded else replicate 32 (char_of (0 :: nat)));
          price = (case scan_int priceStr of Some (p, _) \<Rightarrow> if 0 < p then p else 100 | None \<Rightarrow> 100);
          allowUnauth = (allowStr = ''true'') in
      if isProd \<and> (\<not> valid \<or> allowUnauth) then None
      else Some (secret, price, allowUnauth))"

section \<open>Each token pays once\<close>

definition val_spent :: "val_state \<Rightarrow> uuid \<Rightarrow> bool" where
  "val_spent st k \<longleftrightarrow> (case vs_tokens st k of None \<Rightarrow> False | Some t \<Rightarrow> vt_status t \<noteq> ''pending'')"

fun charged_token :: "val_cfg \<Rightarrow> val_request \<Rightarrow> uuid option" where
  "charged_token cfg (PostVerify auth body) = authorized_token cfg auth"
| "charged_token cfg (GetVerify auth rawID) = vc_uuid_parse cfg rawID"

definition val_act :: "val_cfg \<Rightarrow> val_env \<times> val_request \<Rightarrow> val_state \<Rightarrow> uuid option \<times> val_state" where
  "val_act cfg e st =
     (case val_serve cfg e st of
        (ValProof _, st') \<Rightarrow> (charged_token cfg (snd e), st')
      | (_, st') \<Rightarrow> (None, st'))"

lemma ConsumeToken_Inr:
  "fst (ConsumeToken env t toks) = Inr () \<Longrightarrow> \<exists>tok. toks t = Some tok \<and> consumable env tok \<and>
     snd (ConsumeToken env t toks) = toks(t \<mapsto> tok\<lparr>vt_status := ''consumed'', vt_consumed := Some (ve_now env)\<rparr>)"
  by (auto simp: ConsumeToken_def split: if_splits option.splits sum.splits)

lemma consume_cases:
  obtains (refused) "\<forall>r. fst (consumeAndRespond cfg env t st) \<noteq> ValProof r" "snd (consumeAndRespond cfg env t st) = st"
  | (proved) tok pf where "vs_tokens st t = Some tok" "consumable env tok" "GetAnchorProof env (vt_event tok) (vs_db st) = Inr pf"
      "consumeAndRespond cfg env t st =
         (ValProof \<lparr>vr_proof = pf, vr_verified = VerifyProof (vc_sha cfg) (ap_root pf) (ap_event pf) (ap_proof pf), vr_price = vt_price tok\<rparr>,
          st\<lparr>vs_tokens := (vs_tokens st)(t \<mapsto> tok\<lparr>vt_status := ''consumed'', vt_consumed := Some (ve_now env)\<rparr>)\<rparr>)"
proof (cases "\<exists>tok pf. GetToken env GetTok t (vs_tokens st) = Inr tok \<and> vt_status tok \<noteq> ''consumed'' \<and> vt_status tok \<noteq> ''expired''
    \<and> GetAnchorProof env (vt_event tok) (vs_db st) = Inr pf \<and> fst (ConsumeToken env t (vs_tokens st)) = Inr ()")
  case True
  then obtain tok pf where p: "GetToken env GetTok t (vs_tokens st) = Inr tok" "vt_status tok \<noteq> ''consumed''" "vt_status tok \<noteq> ''expired''"
    "GetAnchorProof env (vt_event tok) (vs_db st) = Inr pf" "fst (ConsumeToken env t (vs_tokens st)) = Inr ()" by blast
  have t: "vs_tokens st t = Some tok" using p(1) by (auto simp: GetToken_def split: if_splits option.splits)
  with ConsumeToken_Inr [OF p(5)] have "consumable env tok"
    "ConsumeToken env t (vs_tokens st) = (Inr (), (vs_tokens st)(t \<mapsto> tok\<lparr>vt_status := ''consumed'', vt_consumed := Some (ve_now env)\<rparr>))"
    using p(5) by (cases "ConsumeToken env t (vs_tokens st)"; simp)+
  with p t show thesis by (intro proved [of tok pf]) (simp_all add: consumeAndRespond_def)
next
  case False
  then show thesis
    by (intro refused)
      (auto simp: consumeAndRespond_def split: sum.splits val_error.splits prod.splits if_splits)
qed


text \<open>A header that carries the keyed hash of a token id.\<close>

definition bears_macaroon :: "val_cfg \<Rightarrow> string \<Rightarrow> uuid \<Rightarrow> bool" where
  "bears_macaroon cfg auth t \<longleftrightarrow>
     (\<exists>mac. parseL402Header cfg auth = Some (t, mac) \<and> hex_decode mac = Some (vc_hmac cfg (vc_secret cfg) (vc_uuid_str cfg t)))"

fun authorizes :: "val_cfg \<Rightarrow> val_request \<Rightarrow> uuid \<Rightarrow> bool" where
  "authorizes cfg (PostVerify auth body) t = bears_macaroon cfg auth t"
| "authorizes cfg (GetVerify auth rawID) t = (vc_uuid_parse cfg rawID = Some t \<and> (vc_allow_unauth cfg \<or> bears_macaroon cfg auth t))"

lemma VerifyMacaroon_iff: "VerifyMacaroon cfg t mac \<longleftrightarrow> hex_decode mac = Some (vc_hmac cfg (vc_secret cfg) (vc_uuid_str cfg t))"
  by (auto simp: VerifyMacaroon_def val_sign_def split: option.splits)

lemma authorized_token_bears: "authorized_token cfg auth = Some t \<Longrightarrow> bears_macaroon cfg auth t"
  by (auto simp: authorized_token_def bears_macaroon_def VerifyMacaroon_iff split: if_splits option.splits)

text \<open>A request consumes the token it is charged to, or leaves every token as it is.\<close>

lemma serve_cases:
  obtains (other) "\<forall>r. fst (val_serve cfg (env, req) st) \<noteq> ValProof r"
      "vs_db (snd (val_serve cfg (env, req) st)) = vs_db st"
      "\<forall>k. vs_tokens st k \<noteq> None \<longrightarrow> vs_tokens (snd (val_serve cfg (env, req) st)) k = vs_tokens st k"
  | (consumes) t where "charged_token cfg req = Some t" "val_serve cfg (env, req) st = consumeAndRespond cfg env t st"
      "authorizes cfg req t"
proof (cases req)
  case (PostVerify auth body)
  show thesis
  proof (cases "\<exists>h. body = BodyJson h \<and> isValidEventHash h \<and> authorized_token cfg auth \<noteq> None")
    case True
    then obtain h t where h: "body = BodyJson h" "isValidEventHash h" "authorized_token cfg auth = Some t" by blast
    with PostVerify authorized_token_bears [OF h(3)] show thesis by (intro consumes [of t]) (simp_all add: issueChallenge_def)
  next
    case False
    then have "fst (issueChallenge cfg env auth body st) \<noteq> ValProof r" "vs_db (snd (issueChallenge cfg env auth body st)) = vs_db st"
      "vs_tokens st k \<noteq> None \<Longrightarrow> vs_tokens (snd (issueChallenge cfg env auth body st)) k = vs_tokens st k" for r k
      by (auto simp: issueChallenge_def InsertToken_def split: req_body.splits option.splits sum.splits val_error.splits prod.splits)
    with PostVerify show thesis by (intro other) simp_all
  qed
next
  case (GetVerify auth rawID)
  show thesis
  proof (cases "\<exists>t. vc_uuid_parse cfg rawID = Some t \<and> (vc_allow_unauth cfg \<or> authorized_token cfg auth = Some t)")
    case True
    then obtain t where t: "vc_uuid_parse cfg rawID = Some t" "vc_allow_unauth cfg \<or> authorized_token cfg auth = Some t" by blast
    have "consumeToken cfg env auth rawID st = consumeAndRespond cfg env t st"
      using t by (auto simp: consumeToken_def authorized_token_def split: if_splits option.splits)
    then show thesis using t GetVerify authorized_token_bears by (intro consumes [of t]) auto
  next
    case False
    then have "snd (consumeToken cfg env auth rawID st) = st \<and> fst (consumeToken cfg env auth rawID st) \<noteq> ValProof r" for r
      by (auto simp: consumeToken_def authorized_token_def split: option.splits)
    with GetVerify show thesis by (intro other) simp_all
  qed
qed

lemma val_act_spends: "fst (val_act cfg (env, req) st) = Some k \<Longrightarrow> \<not> val_spent st k \<and> val_spent (snd (val_act cfg (env, req) st)) k"
proof (cases cfg env req st rule: serve_cases)
  case other
  then show "fst (val_act cfg (env, req) st) = Some k \<Longrightarrow> ?thesis"
    by (cases "val_serve cfg (env, req) st"; cases "fst (val_serve cfg (env, req) st)") (auto simp: val_act_def)
next
  case (consumes t)
  assume k: "fst (val_act cfg (env, req) st) = Some k"
  show ?thesis
  proof (cases cfg env t st rule: consume_cases)
    case refused
    with k consumes(2) show ?thesis
      by (cases "consumeAndRespond cfg env t st"; cases "fst (consumeAndRespond cfg env t st)") (auto simp: val_act_def)
  next
    case (proved tok pf)
    with k consumes show ?thesis by (simp add: val_act_def val_spent_def consumable_def)
  qed
qed

lemma val_act_snd: "snd (val_act cfg e st) = snd (val_serve cfg e st)"
  by (auto simp: val_act_def split: prod.split val_reply.split)

lemma val_act_keeps: "val_spent st k \<Longrightarrow> val_spent (snd (val_act cfg (env, req) st)) k"
proof (cases cfg env req st rule: serve_cases)
  case other
  then show "val_spent st k \<Longrightarrow> ?thesis" by (cases "vs_tokens st k") (auto simp: val_act_snd val_spent_def)
next
  case (consumes t)
  assume s: "val_spent st k"
  show ?thesis
  proof (cases cfg env t st rule: consume_cases)
    case refused
    with s consumes(2) show ?thesis by (simp add: val_act_snd)
  next
    case (proved tok pf)
    with s consumes(2) show ?thesis by (simp add: val_act_snd val_spent_def)
  qed
qed

interpretation val: one_shot "val_act cfg" val_spent "\<lambda>_. True" for cfg
proof (unfold_locales, rule TrueI)
  show "\<not> val_spent s k \<and> val_spent (snd (val_act cfg e s)) k" if "fst (val_act cfg e s) = Some k" for e s k
    using val_act_spends that by (cases e) blast
  show "val_spent (snd (val_act cfg e s)) k" if "val_spent s k" for e s k
    using val_act_keeps that by (cases e) blast
qed

text \<open>The tokens charged by a sequence of requests, each served at its own time and with its own failures.\<close>

fun val_run :: "val_cfg \<Rightarrow> (val_env \<times> val_request) list \<Rightarrow> val_state \<Rightarrow> uuid list" where
  "val_run cfg [] st = []"
| "val_run cfg (e # es) st =
     (case val_act cfg e st of (None, st') \<Rightarrow> val_run cfg es st' | (Some t, st') \<Rightarrow> t # val_run cfg es st')"

lemma val_run_spend: "val_run cfg es st = fst (val.spend_run cfg es st)"
  by (induction cfg es st rule: val_run.induct) (auto simp: Let_def split: prod.splits option.splits)

lemma serve_proof:
  assumes "fst (val_serve cfg (env, req) st) = ValProof r"
  obtains t tok where "authorizes cfg req t" "vs_tokens st t = Some tok" "consumable env tok"
    "GetAnchorProof env (vt_event tok) (vs_db st) = Inr (vr_proof r)" "vr_price r = vt_price tok"
    "vr_verified r = VerifyProof (vc_sha cfg) (ap_root (vr_proof r)) (ap_event (vr_proof r)) (ap_proof (vr_proof r))"
    "val_spent (snd (val_serve cfg (env, req) st)) t"
proof (cases cfg env req st rule: serve_cases)
  case other
  with assms show thesis by blast
next
  case (consumes t)
  show thesis
  proof (cases cfg env t st rule: consume_cases)
    case refused
    with assms consumes(2) show thesis by simp
  next
    case (proved tok pf)
    with assms consumes show thesis by (intro that [of t tok]) (auto simp: val_spent_def)
  qed
qed


section \<open>What the proof is a proof of\<close>

lemma newest_join_in:
  assumes "newest_join (anchor_joins h db) = Some (l, a)"
  shows "l \<in> set (ad_links db) \<and> ea_event l = h \<and> List.find (\<lambda>a. an_id a = ea_anchor l) (ad_anchors db) = Some a"
proof -
  from assms have n: "\<forall>j\<in>set (anchor_joins h db). snd j \<noteq> None"
    and "(l, a) \<in> set (map (\<lambda>j. (fst j, the (snd j))) (anchor_joins h db))"
    by (auto simp: newest_join_def list_ex_iff dest!: first_row_sort_desc_in split: if_splits)
  then show ?thesis by (fastforce simp: anchor_joins_def)
qed

lemma GetAnchorProof_Inr:
  assumes "GetAnchorProof env h db = Inr pf"
  obtains l a where "l \<in> set (ad_links db)" "ea_event l = h" "List.find (\<lambda>a. an_id a = ea_anchor l) (ad_anchors db) = Some a"
    "ap_event pf = h" "ap_root pf = an_root a" "ap_proof pf = ea_proof l"
proof -
  from assms obtain l a where "newest_join (anchor_joins h db) = Some (l, a)" "ap_event pf = h" "ap_root pf = an_root a"
    "ap_proof pf = ea_proof l" by (auto simp: GetAnchorProof_def split: if_splits option.splits)
  then show thesis using that newest_join_in by blast
qed

lemma find_distinct: "distinct (map f xs) \<Longrightarrow> x \<in> set xs \<Longrightarrow> List.find (\<lambda>y. f y = f x) xs = Some x"
  by (induction xs) (auto simp: image_iff)

lemma anchor_proof_of_chain:
  assumes "anchors_ok sha db" "distinct (map an_id (ad_anchors db))" "GetAnchorProof env h db = Inr pf"
  shows "\<exists>e\<in>set (ad_evidence db). ev_event_hash e = h \<and> VerifyProof sha (ap_root pf) (ev_chain e) (ap_proof pf)"
proof -
  from assms(3) obtain l a where l: "l \<in> set (ad_links db)" "ea_event l = h"
    "List.find (\<lambda>a. an_id a = ea_anchor l) (ad_anchors db) = Some a" "ap_event pf = h" "ap_root pf = an_root a" "ap_proof pf = ea_proof l"
    by (rule GetAnchorProof_Inr)
  have "link_ok sha (ad_evidence db) (ad_anchors db) l" using assms(1) l(1) by (simp add: anchors_ok_def)
  from link_ok_verifies [OF this] obtain e b where e: "e \<in> set (ad_evidence db)" "b \<in> set (ad_anchors db)" "ev_event_hash e = ea_event l"
    "an_id b = ea_anchor l" "VerifyProof sha (an_root b) (ev_chain e) (ea_proof l)" by blast
  have "a = b" using find_distinct [OF assms(2) e(2)] l(3) e(4) by simp
  with e l show ?thesis by auto
qed

definition sealed_hashes :: "evidence \<Rightarrow> bool" where
  "sealed_hashes e \<longleftrightarrow>
     (case (hex_decode (ev_event_hash e), hex_decode (ev_chain e)) of
        (Some f, Some d) \<Rightarrow> length f = 32 \<and> length d = 32 \<and> f \<noteq> d
      | _ \<Rightarrow> False)"

text \<open>The answer to a paid verification says \<open>verified = false\<close> for every event that was honestly
  anchored, although the proof in it does verify the event's chain hash: the leaves of the trees
  are chain hashes, the handler verifies the event hash.  (Unless a step of the proof hashes
  different bytes to the same value.)\<close>

theorem honest_anchor_unverified:
  assumes "ad_links db = []" "vs_db st = ticks (vc_sha cfg) wcfg es db" "distinct (map an_id (ad_anchors (vs_db st)))"
    and "\<forall>e\<in>set (ad_evidence db). sealed_hashes e" "\<And>x. length (vc_sha cfg x) = 32"
    and "fst (val_serve cfg (env, req) st) = ValProof r"
    and "\<forall>e\<in>set (ad_evidence db). ev_event_hash e = ap_event (vr_proof r) \<longrightarrow>
           proof_clash (vc_sha cfg) (ev_event_hash e) (ap_proof (vr_proof r)) (ev_chain e) (ap_proof (vr_proof r)) = None"
  shows "\<not> vr_verified r \<and> (\<exists>e\<in>set (ad_evidence db). ev_event_hash e = ap_event (vr_proof r)
    \<and> VerifyProof (vc_sha cfg) (ap_root (vr_proof r)) (ev_chain e) (ap_proof (vr_proof r)))"
proof -
  have "anchors_ok (vc_sha cfg) db" using assms(1) by (simp add: anchors_ok_def)
  from ticks_ok [OF this, of wcfg es] have ok: "anchors_ok (vc_sha cfg) (vs_db st)" "ad_evidence (vs_db st) = ad_evidence db"
    by (simp_all add: assms(2))
  obtain tok :: VerificationToken where t: "GetAnchorProof env (vt_event tok) (vs_db st) = Inr (vr_proof r)"
    "vr_verified r = VerifyProof (vc_sha cfg) (ap_root (vr_proof r)) (ap_event (vr_proof r)) (ap_proof (vr_proof r))"
    using assms(6) by (rule serve_proof) (rule that)
  define pf where "pf = vr_proof r"
  with t have g: "GetAnchorProof env (vt_event tok) (vs_db st) = Inr pf" "vr_proof r = pf"
    "vr_verified r = VerifyProof (vc_sha cfg) (ap_root pf) (ap_event pf) (ap_proof pf)" by simp_all
  have ev: "ap_event pf = vt_event tok" using g(1) by (rule GetAnchorProof_Inr) blast
  from anchor_proof_of_chain [OF ok(1) assms(3) g(1)] obtain e where
    e: "e \<in> set (ad_evidence db)" "ev_event_hash e = ap_event pf" "VerifyProof (vc_sha cfg) (ap_root pf) (ev_chain e) (ap_proof pf)"
    unfolding ok(2) ev by blast
  from assms(4) e(1) have "sealed_hashes e" by blast
  then obtain f d where h: "hex_decode (ev_event_hash e) = Some f" "hex_decode (ev_chain e) = Some d"
    "length f = 32" "length d = 32" "f \<noteq> d"
    by (cases "hex_decode (ev_event_hash e)"; cases "hex_decode (ev_chain e)") (auto simp: sealed_hashes_def)
  have "\<not> VerifyProof (vc_sha cfg) (ap_root pf) (ap_event pf) (ap_proof pf)"
  proof
    assume "VerifyProof (vc_sha cfg) (ap_root pf) (ap_event pf) (ap_proof pf)"
    then have "f = d \<or> proof_clash (vc_sha cfg) (ev_event_hash e) (ap_proof pf) (ev_chain e) (ap_proof pf) \<noteq> None"
      using e(2,3) h(3,4) by (intro proof_run_binding [OF _ _ refl h(1,2) _ assms(5)]) (simp_all add: VerifyProof_def)
    with h(5) assms(7) e(1,2) g(2) show False by simp
  qed
  with e g show ?thesis by auto
qed


text \<open>Two sealed events of one merchant, anchored by one cycle under a toy hash that keeps the first
  halves of two 32-byte children.\<close>

definition toy_sha :: "string \<Rightarrow> string" where
  "toy_sha x = take 32 (take 16 x @ take 16 (drop 32 x) @ replicate 32 CHR ''z'')"

definition toy_hash :: "char \<Rightarrow> string" where
  "toy_hash c = hex_encode (replicate 32 c)"

definition toy_event :: "char \<Rightarrow> char \<Rightarrow> evidence" where
  "toy_event h c = \<lparr>ev_event_id = 0, ev_event_hash = toy_hash h, ev_chain = toy_hash c, ev_prev = None,
     ev_source = ''square'', ev_merchant = 1, ev_payload = [], ev_ingested = 0\<rparr>"

definition toy_db :: anchor_db where
  "toy_db = \<lparr>ad_evidence = [toy_event CHR ''a'' CHR ''c'', toy_event CHR ''b'' CHR ''d''], ad_anchors = [], ad_links = []\<rparr>"

definition toy_wcfg :: WorkerConfig where
  "toy_wcfg = \<lparr>Network = ''signet'', BatchSize = 50, MinBatch = 2\<rparr>"

definition toy_anchored :: anchor_db where
  "toy_anchored = ticks toy_sha toy_wcfg [sample_env] toy_db"

lemma toy_hash_decode [simp]: "hex_decode (toy_hash c) = Some (replicate 32 c)"
  by (simp add: toy_hash_def del: hex_encode.simps)

lemma toy_hash_inj [simp]: "toy_hash c = toy_hash d \<longleftrightarrow> c = d"
proof
  assume "toy_hash c = toy_hash d"
  then have "Some (replicate 32 c) = Some (replicate 32 d)" by (metis toy_hash_decode)
  then show "c = d" by (simp add: replicate_eq_replicate)
qed simp

lemma toy_links:
  "\<exists>a. ad_anchors toy_anchored = [a] \<and> an_id a = 1 \<and> an_root a = hex_encode (toy_sha (replicate 32 CHR ''c'' @ replicate 32 CHR ''d'')) \<and>
   ad_evidence toy_anchored = ad_evidence toy_db \<and>
   ad_links toy_anchored =
     [\<lparr>ea_event = toy_hash CHR ''a'', ea_anchor = 1, ea_leaf = 0, ea_proof = [\<lparr>SiblingHash = toy_hash CHR ''d'', Position = ''right''\<rparr>]\<rparr>,
      \<lparr>ea_event = toy_hash CHR ''b'', ea_anchor = 1, ea_leaf = 1, ea_proof = [\<lparr>SiblingHash = toy_hash CHR ''c'', Position = ''left''\<rparr>]\<rparr>]"
proof -
  note tree = two_leaf_tree [OF toy_hash_decode toy_hash_decode]
  show ?thesis
    by (simp add: toy_anchored_def toy_wcfg_def tick_def WriteAnchor_def sample_env_def toy_db_def lockAndFetchUnanchored_def
        unanchored_def toy_event_def group_rows_def inscribeAndWriteForMerchant_def tree stub_inscribe_def Let_def
        writeAnchorResults_def insert_link_def new_anchor_def)
qed


theorem honest_anchor_unverified_witness:
  "\<not> VerifyProof toy_sha (hex_encode (toy_sha (replicate 32 CHR ''c'' @ replicate 32 CHR ''d''))) (toy_hash CHR ''a'')
        [\<lparr>SiblingHash = toy_hash CHR ''d'', Position = ''right''\<rparr>]"
proof -
  let ?cfg = "\<lparr>vc_hmac = \<lambda>k m. m, vc_sha = toy_sha, vc_uuid_str = \<lambda>u. [], vc_uuid_parse = \<lambda>s. Some 4, vc_secret = [],
     vc_price = 100, vc_allow_unauth = True\<rparr>"
  let ?env = "\<lparr>ve_now = 0, ve_fails = \<lambda>_. False, ve_new_token = 9\<rparr>"
  let ?tok = "\<lparr>vt_event = toy_hash CHR ''a'', vt_price = 100, vt_status = ''pending'', vt_preimage = None, vt_created = 0,
     vt_expires = 5, vt_consumed = None\<rparr>"
  let ?st = "\<lparr>vs_db = toy_anchored, vs_tokens = [4 \<mapsto> ?tok]\<rparr>"
  let ?p = "[\<lparr>SiblingHash = toy_hash CHR ''d'', Position = ''right''\<rparr>]"
  let ?root = "hex_encode (toy_sha (replicate 32 CHR ''c'' @ replicate 32 CHR ''d''))"
  obtain a where a: "ad_anchors toy_anchored = [a]" "an_id a = 1" "an_root a = ?root" "ad_evidence toy_anchored = ad_evidence toy_db"
    "ad_links toy_anchored =
     [\<lparr>ea_event = toy_hash CHR ''a'', ea_anchor = 1, ea_leaf = 0, ea_proof = ?p\<rparr>,
      \<lparr>ea_event = toy_hash CHR ''b'', ea_anchor = 1, ea_leaf = 1, ea_proof = [\<lparr>SiblingHash = toy_hash CHR ''c'', Position = ''left''\<rparr>]\<rparr>]"
    using toy_links by blast
  have g: "\<exists>pf. GetAnchorProof ?env (toy_hash CHR ''a'') toy_anchored = Inr pf \<and> ap_root pf = ?root
      \<and> ap_event pf = toy_hash CHR ''a'' \<and> ap_proof pf = ?p"
    using a by (simp add: GetAnchorProof_def anchor_joins_def newest_join_def toy_db_def toy_event_def sort_desc_def)
  then obtain pf where pf: "GetAnchorProof ?env (toy_hash CHR ''a'') toy_anchored = Inr pf" "ap_root pf = ?root"
    "ap_event pf = toy_hash CHR ''a''" "ap_proof pf = ?p" by blast
  have served: "fst (val_serve ?cfg (?env, GetVerify [] []) ?st) =
      ValProof \<lparr>vr_proof = pf, vr_verified = VerifyProof toy_sha ?root (toy_hash CHR ''a'') ?p, vr_price = 100\<rparr>"
    using pf by (simp add: consumeToken_def consumeAndRespond_def GetToken_def ConsumeToken_def consumable_def)
  have "\<not> VerifyProof toy_sha ?root (toy_hash CHR ''a'') ?p \<and> (\<exists>e\<in>set (ad_evidence toy_db). ev_event_hash e = ap_event pf
      \<and> VerifyProof toy_sha (ap_root pf) (ev_chain e) (ap_proof pf))"
  proof (rule honest_anchor_unverified [of toy_db ?st ?cfg toy_wcfg "[sample_env]" ?env "GetVerify [] []"
        "\<lparr>vr_proof = pf, vr_verified = VerifyProof toy_sha ?root (toy_hash CHR ''a'') ?p, vr_price = 100\<rparr>", simplified])
    show "ad_links toy_db = []" by (simp add: toy_db_def)
    show "toy_anchored = tick toy_sha toy_wcfg sample_env toy_db" by (simp add: toy_anchored_def)
    show "distinct (map an_id (ad_anchors toy_anchored))" using a(1) by simp
  qed (use served pf in \<open>simp_all add: toy_db_def toy_event_def sealed_hashes_def toy_sha_def clash_def step_bytes_def\<close>)
  then show ?thesis by blast
qed


section \<open>From the challenge to the proof\<close>

definition plain_char :: "char \<Rightarrow> bool" where
  "plain_char c \<longleftrightarrow> c \<noteq> CHR '','' \<and> c \<noteq> CHR 0x22"

definition canonical_uuids :: "val_cfg \<Rightarrow> bool" where
  "canonical_uuids cfg \<longleftrightarrow>
     (\<forall>u. vc_uuid_parse cfg (vc_uuid_str cfg u) = Some u \<and> list_all (\<lambda>c. c \<in> set ''0123456789abcdef-'') (vc_uuid_str cfg u))"

lemma trim_quotes_quoted: "list_all plain_char v \<Longrightarrow> trim_quotes (CHR 0x22 # v @ [CHR 0x22]) = v"
proof -
  assume v: "list_all plain_char v"
  show ?thesis
  proof (cases v rule: rev_cases)
    case (snoc w c)
    then have "c \<noteq> CHR 0x22" "hd v \<noteq> CHR 0x22" "v \<noteq> []"
      using v by (cases w; auto simp: plain_char_def)+
    then have "dropWhile (\<lambda>c. c = CHR 0x22) (CHR 0x22 # v @ [CHR 0x22]) = v @ [CHR 0x22]" by (cases v) simp_all
    then show ?thesis using \<open>c \<noteq> CHR 0x22\<close> snoc by (simp add: trim_quotes_def trim_right_char_def)
  qed (simp add: trim_quotes_def trim_right_char_def)
qed

lemma quote_no_space: "\<not> space_byte CHR 0x22"
  by (auto dest: space_byte_code)

lemma quoted_param_plain:
  assumes "k \<noteq> []" "\<not> space_byte (hd k)" "\<not> space_byte (last k)" "CHR ''='' \<notin> set k" "list_all plain_char v"
  shows "quoted_param (k @ CHR ''='' # CHR 0x22 # v @ [CHR 0x22]) = Some (k, v)"
    and "quoted_param (CHR '' '' # k @ CHR ''='' # CHR 0x22 # v @ [CHR 0x22]) = Some (k, v)"
proof -
  let ?p = "k @ CHR ''='' # CHR 0x22 # v @ [CHR 0x22]"
  have "trim_space ?p = ?p" using assms(1,2) quote_no_space by (intro trim_space_id) simp_all
  moreover have "takeWhile (\<lambda>x. x \<noteq> CHR ''='') ?p = k" "dropWhile (\<lambda>x. x \<noteq> CHR ''='') ?p = CHR ''='' # CHR 0x22 # v @ [CHR 0x22]"
    using assms(4) by (auto simp: takeWhile_append dropWhile_append)
  moreover have "trim_space k = k" using assms(1-3) by (rule trim_space_id)
  moreover have "trim_space (CHR 0x22 # v @ [CHR 0x22]) = CHR 0x22 # v @ [CHR 0x22]"
    using quote_no_space by (intro trim_space_id) simp_all
  ultimately show "quoted_param ?p = Some (k, v)"
    using assms(5) by (simp add: quoted_param_def split_first_def trim_quotes_quoted)
  then show "quoted_param (CHR '' '' # ?p) = Some (k, v)"
    by (simp add: quoted_param_def trim_space_lead)
qed

lemma hex_plain: "list_all plain_char (hex_encode s)"
proof (induction s)
  case (Cons c s)
  have "plain_char (hex_digit d)" if "d < 16" for d
  proof -
    have "hex_val (hex_digit d) = Some d" using that by simp
    moreover have "hex_val CHR '','' = None" "hex_val CHR 0x22 = None" by (simp_all add: hex_val_def)
    ultimately show ?thesis by (auto simp: plain_char_def)
  qed
  moreover have "(of_char c :: nat) < 16 * 16" by simp
  then have "(of_char c :: nat) div 16 < 16" "(of_char c :: nat) mod 16 < 16"
    by (rule less_mult_imp_div_less) simp
  ultimately show ?case using Cons by simp
qed simp

lemma digit_plain: "list_all is_digit s \<Longrightarrow> list_all plain_char s"
  by (auto simp: list_all_iff is_digit_def plain_char_def)

lemma fmt_int_plain: "list_all plain_char (fmt_int i)"
  using digit_plain [OF dec_nat_digits] by (auto simp: fmt_int_def plain_char_def)

lemma uuid_plain: "canonical_uuids cfg \<Longrightarrow> list_all plain_char (vc_uuid_str cfg u)"
  unfolding canonical_uuids_def list_all_iff plain_char_def by fastforce

lemma split_comma: "list_all plain_char v \<Longrightarrow> CHR '','' \<notin> set v"
  by (auto simp: list_all_iff plain_char_def)

lemma parse_challenge:
  assumes "canonical_uuids cfg"
  shows "prefix ''L402 '' (www_authenticate cfg t)" "parseL402Header cfg (www_authenticate cfg t) = Some (t, val_sign cfg t)"
proof -
  let ?q = "\<lambda>k v. k @ CHR ''='' # CHR 0x22 # v @ [CHR 0x22]"
  let ?m = "val_sign cfg t" and ?i = "''lnbcrt'' @ fmt_int (vc_price cfg) @ ''n1stub'' @ take 8 (vc_uuid_str cfg t)"
    and ?t = "vc_uuid_str cfg t"
  let ?body = "?q ''macaroon'' ?m @ CHR '','' # (CHR '' '' # ?q ''invoice'' ?i) @ CHR '','' # (CHR '' '' # ?q ''token_id'' ?t)"
  have h: "www_authenticate cfg t = ''L402 '' @ ?body"
    by (simp add: www_authenticate_def IssueChallenge_def)
  then show "prefix ''L402 '' (www_authenticate cfg t)" by simp
  have u: "list_all plain_char ?t" using assms by (rule uuid_plain)
  have "list_all plain_char (take 8 ?t)" using u by (auto simp: list_all_iff dest: in_set_takeD)
  then have pl: "list_all plain_char ?m" "list_all plain_char ?i" "list_all plain_char ?t"
    using u fmt_int_plain by (simp_all add: val_sign_def hex_plain) (simp add: plain_char_def)
  have split: "split_on CHR '','' ?body = [?q ''macaroon'' ?m, CHR '' '' # ?q ''invoice'' ?i, CHR '' '' # ?q ''token_id'' ?t]"
    using pl [THEN split_comma] by (subst split_on_append, simp)+ (simp add: split_on_none)
  have ns: "\<not> space_byte c" if "c \<in> set ''mnietd''" for c using that by (auto dest: space_byte_code)
  have "quoted_param (?q ''macaroon'' ?m) = Some (''macaroon'', ?m)"
    "quoted_param (CHR '' '' # ?q ''invoice'' ?i) = Some (''invoice'', ?i)"
    "quoted_param (CHR '' '' # ?q ''token_id'' ?t) = Some (''token_id'', ?t)"
    using pl by (intro quoted_param_plain; simp add: ns del: append_Cons append.simps)+
  then have "List.map_filter quoted_param (split_on CHR '','' ?body) = [(''macaroon'', ?m), (''invoice'', ?i), (''token_id'', ?t)]"
    unfolding split by (simp add: map_filter_simps del: append_Cons)
  then have "parseQuotedParams ?body = map_of [(''token_id'', ?t), (''invoice'', ?i), (''macaroon'', ?m)]"
    unfolding parseQuotedParams_def by simp
  moreover have "drop 5 (''L402 '' @ ?body) = ?body" by simp
  ultimately show "parseL402Header cfg (www_authenticate cfg t) = Some (t, val_sign cfg t)"
    using assms unfolding h parseL402Header_def canonical_uuids_def by (simp add: Let_def)
qed


definition calls_succeed :: "val_env \<Rightarrow> bool" where
  "calls_succeed env \<longleftrightarrow> (\<forall>c. \<not> ve_fails env c)"

lemma GetAnchorProof_env: "calls_succeed env \<Longrightarrow> calls_succeed env' \<Longrightarrow> GetAnchorProof env h db = GetAnchorProof env' h db"
  by (simp add: GetAnchorProof_def calls_succeed_def)

lemma get_with_challenge:
  "canonical_uuids cfg \<Longrightarrow> val_serve cfg (env, GetVerify (www_authenticate cfg t) (vc_uuid_str cfg t)) st = consumeAndRespond cfg env t st"
proof -
  assume c: "canonical_uuids cfg"
  then have "vc_uuid_parse cfg (vc_uuid_str cfg t) = Some t" by (simp add: canonical_uuids_def)
  then show ?thesis by (simp add: consumeToken_def parse_challenge [OF c] VerifyMacaroon_iff) (simp add: val_sign_def)
qed

text \<open>C38: A challenge can be answered by echoing it: the request for an anchored event is answered 402
  with a header from which the code reads back the token id and its keyed hash; a GET with that
  header within 24 hours yields the proof of the event at the quoted price, and a further GET is
  answered 410.\<close>

theorem challenge_then_proof:
  assumes "canonical_uuids cfg" "isValidEventHash h" "authorized_token cfg auth = None"
    and "calls_succeed env" "calls_succeed env1" "calls_succeed env2"
    and "GetAnchorProof env h (vs_db st) = Inr pf" "vs_tokens st (ve_new_token env) = None" "ve_now env1 < ve_now env + day"
  shows "\<exists>hdr inv st1 st2 ok.
    val_serve cfg (env, PostVerify auth (BodyJson h)) st = (ValChallenge hdr (ve_new_token env) (vc_price cfg) inv, st1) \<and>
    parseL402Header cfg hdr = Some (ve_new_token env, val_sign cfg (ve_new_token env)) \<and>
    val_serve cfg (env1, GetVerify hdr (vc_uuid_str cfg (ve_new_token env))) st1 =
      (ValProof \<lparr>vr_proof = pf, vr_verified = ok, vr_price = vc_price cfg\<rparr>, st2) \<and>
    val_serve cfg (env2, GetVerify hdr (vc_uuid_str cfg (ve_new_token env))) st2 = (ValErr 410 ''token_consumed'', st2)"
proof -
  let ?t = "ve_new_token env"
  let ?tok = "\<lparr>vt_event = h, vt_price = vc_price cfg, vt_status = ''pending'', vt_preimage = None, vt_created = ve_now env,
     vt_expires = ve_now env + day, vt_consumed = None\<rparr>"
  let ?st1 = "st\<lparr>vs_tokens := (vs_tokens st)(?t \<mapsto> ?tok)\<rparr>"
  let ?st2 = "st\<lparr>vs_tokens := (vs_tokens st)(?t \<mapsto> ?tok\<lparr>vt_status := ''consumed'', vt_consumed := Some (ve_now env1)\<rparr>)\<rparr>"
  have pf: "ap_event pf = h" using assms(7) by (rule GetAnchorProof_Inr) simp
  have g1: "GetAnchorProof env1 h (vs_db st) = Inr pf" using GetAnchorProof_env [OF assms(5,4)] assms(7) by simp
  have "val_serve cfg (env, PostVerify auth (BodyJson h)) st =
      (ValChallenge (www_authenticate cfg ?t) ?t (vc_price cfg) (snd (IssueChallenge cfg ?t)), ?st1)"
    using assms(2-4,7,8) pf by (simp add: issueChallenge_def InsertToken_def calls_succeed_def)
  moreover have "consumeAndRespond cfg env1 ?t ?st1 =
      (ValProof \<lparr>vr_proof = pf, vr_verified = VerifyProof (vc_sha cfg) (ap_root pf) (ap_event pf) (ap_proof pf), vr_price = vc_price cfg\<rparr>, ?st2)"
    using assms(5,9) g1 by (simp add: consumeAndRespond_def GetToken_def ConsumeToken_def consumable_def calls_succeed_def)
  moreover have "consumeAndRespond cfg env2 ?t ?st2 = (ValErr 410 ''token_consumed'', ?st2)"
    using assms(6) by (simp add: consumeAndRespond_def GetToken_def calls_succeed_def)
  ultimately show ?thesis using get_with_challenge [OF assms(1)] parse_challenge(2) [OF assms(1)] by auto
qed

definition toy_vcfg :: val_cfg where
  "toy_vcfg = \<lparr>vc_hmac = \<lambda>k m. k @ m, vc_sha = toy_sha, vc_uuid_str = \<lambda>u. dec_nat (unat u),
     vc_uuid_parse = \<lambda>s. Some (of_nat (digits_val 0 s)), vc_secret = ''k'', vc_price = 100, vc_allow_unauth = False\<rparr>"

definition toy_venv :: "gotime \<Rightarrow> val_env" where
  "toy_venv t = \<lparr>ve_now = t, ve_fails = \<lambda>_. False, ve_new_token = 9\<rparr>"

lemma toy_canonical: "canonical_uuids toy_vcfg"
proof -
  have "c \<in> set ''0123456789abcdef-''" if "is_digit c" for c
  proof -
    have "of_char c \<in> set [48 ..< 58 :: nat]" using that unfolding is_digit_def set_upt by auto
    then have "c \<in> char_of ` set [48 ..< 58 :: nat]" by (metis char_of_char image_eqI)
    also have "char_of ` set [48 ..< 58 :: nat] \<subseteq> set ''0123456789abcdef-''" by code_simp
    finally show ?thesis .
  qed
  then have "list_all (\<lambda>c. c \<in> set ''0123456789abcdef-'') (dec_nat n)" for n
    using dec_nat_digits [of n] by (simp add: list_all_iff)
  then show ?thesis by (simp add: canonical_uuids_def toy_vcfg_def)
qed

lemma toy_proof: "\<exists>pf. GetAnchorProof (toy_venv 0) (toy_hash CHR ''a'') toy_anchored = Inr pf"
  using toy_links
  by (auto simp: toy_venv_def GetAnchorProof_def anchor_joins_def newest_join_def toy_db_def toy_event_def sort_desc_def)

theorem challenge_then_proof_witness:
  "\<exists>hdr inv st1 st2 pf ok.
    val_serve toy_vcfg (toy_venv 0, PostVerify [] (BodyJson (toy_hash CHR ''a''))) \<lparr>vs_db = toy_anchored, vs_tokens = Map.empty\<rparr> =
      (ValChallenge hdr 9 100 inv, st1) \<and>
    val_serve toy_vcfg (toy_venv hour, GetVerify hdr (dec_nat 9)) st1 = (ValProof \<lparr>vr_proof = pf, vr_verified = ok, vr_price = 100\<rparr>, st2) \<and>
    val_serve toy_vcfg (toy_venv (2 * hour), GetVerify hdr (dec_nat 9)) st2 = (ValErr 410 ''token_consumed'', st2)"
proof -
  obtain pf where pf: "GetAnchorProof (toy_venv 0) (toy_hash CHR ''a'') toy_anchored = Inr pf" using toy_proof by blast
  have v: "isValidEventHash (toy_hash CHR ''a'')" "authorized_token toy_vcfg [] = None"
    by (simp_all add: isValidEventHash_def authorized_token_def toy_hash_def del: hex_encode.simps)
  have s: "calls_succeed (toy_venv t)" "ve_new_token (toy_venv t) = 9" "ve_now (toy_venv t) = t" "vc_price toy_vcfg = 100"
      "vc_uuid_str toy_vcfg 9 = dec_nat 9" for t
    by (simp_all add: calls_succeed_def toy_venv_def toy_vcfg_def)
  show ?thesis
    using challenge_then_proof [OF toy_canonical v(1,2) s(1) s(1) s(1), of 0 "\<lparr>vs_db = toy_anchored, vs_tokens = Map.empty\<rparr>" pf hour "2 * hour"]
      pf s(2-) by (simp add: hour_def day_def) blast
qed


end
