(* ===== verification/Lnurl.thy ===== *)
theory Lnurl
  imports GoTime GoText OneShot
begin

text \<open>
  Login with a Lightning wallet (\<open>internal/auth/lnurl\<close>): the challenge table, signature checking,
  the wallet's callback and the poll of the browser.  The curve operations of btcec, bech32, the
  name-based UUID and the signing of the session JWT are parameters.
\<close>

section \<open>The store\<close>

record ln_challenge =
  lc_linked :: "uuid option"
  lc_status :: string
  lc_created :: gotime
  lc_expires :: gotime

record linked_key =
  lk_owner :: uuid
  lk_first_seen :: gotime
  lk_last_auth :: gotime

datatype ln_call = InsertChal | GetChal | MarkUsedExec | MarkUsedRead | UpsertKey

datatype ln_error = LnNotFound | LnAlreadyUsed | LnExpired | LnFailed ln_call

text \<open>What the browser will be handed is kept in memory, per challenge.\<close>

record ln_state =
  ln_challenges :: "string \<rightharpoonup> ln_challenge"
  ln_keys :: "string \<rightharpoonup> linked_key"
  ln_pending :: "string \<rightharpoonup> string"

record ln_env =
  le_now :: gotime
  le_fails :: "ln_call \<Rightarrow> bool"
  le_random :: "string option"

definition InsertChallenge :: "ln_env \<Rightarrow> string \<Rightarrow> ln_state \<Rightarrow> (ln_error + unit) \<times> ln_state" where
  "InsertChallenge env k1 st =
     (if le_fails env InsertChal \<or> ln_challenges st k1 \<noteq> None then (Inl (LnFailed InsertChal), st)
      else (Inr (), st\<lparr>ln_challenges := (ln_challenges st)(k1 \<mapsto>
        \<lparr>lc_linked = None, lc_status = ''pending'', lc_created = le_now env, lc_expires = le_now env + 5 * minute\<rparr>)\<rparr>))"

definition GetChallenge :: "ln_env \<Rightarrow> ln_call \<Rightarrow> string \<Rightarrow> ln_state \<Rightarrow> ln_error + ln_challenge" where
  "GetChallenge env site k1 st =
     (if le_fails env site then Inl (LnFailed site)
      else case ln_challenges st k1 of None \<Rightarrow> Inl LnNotFound | Some c \<Rightarrow> Inr c)"

definition MarkUsed :: "ln_env \<Rightarrow> string \<Rightarrow> uuid \<Rightarrow> ln_state \<Rightarrow> (ln_error + unit) \<times> ln_state" where
  "MarkUsed env k1 ownerID st =
     (if le_fails env MarkUsedExec then (Inl (LnFailed MarkUsedExec), st)
      else if (case ln_challenges st k1 of None \<Rightarrow> False | Some c \<Rightarrow> lc_status c = ''pending'' \<and> le_now env < lc_expires c) then
        (Inr (), st\<lparr>ln_challenges := (ln_challenges st)(k1 \<mapsto> (the (ln_challenges st k1))\<lparr>lc_status := ''used'', lc_linked := Some ownerID\<rparr>)\<rparr>)
      else (case GetChallenge env MarkUsedRead k1 st of
          Inl e \<Rightarrow> (Inl e, st)
        | Inr c \<Rightarrow>
            (Inl (if lc_status c = ''used'' then LnAlreadyUsed else if lc_status c = ''expired'' then LnExpired
                  else if lc_expires c < le_now env then LnExpired else LnAlreadyUsed), st)))"

definition UpsertLinkedKey :: "ln_env \<Rightarrow> string \<Rightarrow> uuid \<Rightarrow> ln_state \<Rightarrow> (ln_error + unit) \<times> ln_state" where
  "UpsertLinkedKey env key ownerID st =
     (if le_fails env UpsertKey then (Inl (LnFailed UpsertKey), st)
      else (Inr (), st\<lparr>ln_keys := (ln_keys st)(key \<mapsto>
        (case ln_keys st key of
           None \<Rightarrow> \<lparr>lk_owner = ownerID, lk_first_seen = le_now env, lk_last_auth = le_now env\<rparr>
         | Some row \<Rightarrow> row\<lparr>lk_last_auth := le_now env\<rparr>))\<rparr>))"

section \<open>The signature and the session\<close>

record 'k ln_cfg =
  lg_pubkey :: "string \<Rightarrow> 'k option"
  lg_der_ok :: "string \<Rightarrow> bool"
  lg_verify :: "'k \<Rightarrow> string \<Rightarrow> string \<Rightarrow> bool"
  lg_owner :: "string \<Rightarrow> uuid"
  lg_jwt :: "uuid \<Rightarrow> string \<Rightarrow> int \<Rightarrow> int \<Rightarrow> string option"
  lg_bech32 :: "string \<Rightarrow> string option"
  lg_stub :: bool
  lg_scheme :: string
  lg_host :: string

text \<open>\<open>None\<close> is an error of decoding or parsing.\<close>

definition VerifySignature :: "'k ln_cfg \<Rightarrow> string \<Rightarrow> string \<Rightarrow> string \<Rightarrow> bool option" where
  "VerifySignature cfg k1hex sighex keyhex =
     (case hex_decode k1hex of
        None \<Rightarrow> None
      | Some k1 \<Rightarrow>
          if length k1 \<noteq> 32 then None
          else (case hex_decode sighex of
              None \<Rightarrow> None
            | Some sig \<Rightarrow>
                (case hex_decode keyhex of
                   None \<Rightarrow> None
                 | Some key \<Rightarrow>
                     (case lg_pubkey cfg key of
                        None \<Rightarrow> None
                      | Some pub \<Rightarrow> if \<not> lg_der_ok cfg sig then None else Some (lg_verify cfg pub k1 sig)))))"

text \<open>The claims' dates in whole seconds; the session lives 24 hours.\<close>

definition IssueJWT :: "'k ln_cfg \<Rightarrow> gotime \<Rightarrow> uuid \<Rightarrow> string \<Rightarrow> string option" where
  "IssueJWT cfg now ownerID linkingKey = lg_jwt cfg ownerID linkingKey (now div second) ((now + day) div second)"

definition deterministicOwnerID :: "'k ln_cfg \<Rightarrow> string \<Rightarrow> uuid" where
  "deterministicOwnerID cfg linkingKey = lg_owner cfg linkingKey"

definition callbackURL :: "'k ln_cfg \<Rightarrow> string \<Rightarrow> string" where
  "callbackURL cfg k1 = lg_scheme cfg @ ''://'' @ lg_host cfg @ ''/v1/auth/lnurl/callback?tag=login&k1='' @ k1"

section \<open>The handlers\<close>

datatype ln_reply =
    LnErr nat string
  | LnUrl string string
  | LnLoginParams string string
  | LnOK
  | LnPending
  | LnSession string

definition getLNURL :: "'k ln_cfg \<Rightarrow> ln_env \<Rightarrow> ln_state \<Rightarrow> ln_reply \<times> ln_state" where
  "getLNURL cfg env st =
     (case le_random env of
        None \<Rightarrow> (LnErr 500 ''rand_failed'', st)
      | Some raw \<Rightarrow>
          let k1 = hex_encode raw in
          (case InsertChallenge env k1 st of
             (Inl _, st1) \<Rightarrow> (LnErr 500 ''store_failed'', st1)
           | (Inr _, st1) \<Rightarrow>
               (case lg_bech32 cfg (callbackURL cfg k1) of
                  None \<Rightarrow> (LnErr 500 ''encode_failed'', st1)
                | Some l \<Rightarrow> (LnUrl l k1, st1))))"

definition ln_challenge_params :: "'k ln_cfg \<Rightarrow> ln_env \<Rightarrow> string \<Rightarrow> ln_state \<Rightarrow> ln_reply \<times> ln_state" where
  "ln_challenge_params cfg env k1 st =
     (if k1 = [] then (LnErr 400 ''missing_k1'', st)
      else (case GetChallenge env GetChal k1 st of
          Inl LnNotFound \<Rightarrow> (LnErr 404 ''not_found'', st)
        | Inl _ \<Rightarrow> (LnErr 500 ''lookup_failed'', st)
        | Inr c \<Rightarrow>
            if lc_status c \<noteq> ''pending'' then (LnErr 404 ''not_found'', st)
            else (LnLoginParams k1 (lg_scheme cfg @ ''://'' @ lg_host cfg @ ''/v1/auth/lnurl/callback''), st)))"

text \<open>The signature check of the callback: what it answers when it refuses.\<close>

definition signature_gate :: "'k ln_cfg \<Rightarrow> string \<Rightarrow> string \<Rightarrow> string \<Rightarrow> ln_reply option" where
  "signature_gate cfg k1 sig key =
     (if lg_stub cfg then None
      else case VerifySignature cfg k1 sig key of
          None \<Rightarrow> Some (LnErr 400 ''invalid_params'')
        | Some v \<Rightarrow> if \<not> v then Some (LnErr 400 ''invalid_signature'') else None)"

definition ln_callback :: "'k ln_cfg \<Rightarrow> ln_env \<Rightarrow> string \<Rightarrow> string \<Rightarrow> string \<Rightarrow> ln_state \<Rightarrow> ln_reply \<times> ln_state" where
  "ln_callback cfg env k1 sig key st =
     (if k1 = [] \<or> sig = [] \<or> key = [] then (LnErr 400 ''missing_params'', st)
      else case signature_gate cfg k1 sig key of
          Some refusal \<Rightarrow> (refusal, st)
        | None \<Rightarrow>
            let ownerID = deterministicOwnerID cfg key in
            (case MarkUsed env k1 ownerID st of
               (Inl LnAlreadyUsed, st1) \<Rightarrow> (LnErr 409 ''already_used'', st1)
             | (Inl LnExpired, st1) \<Rightarrow> (LnErr 410 ''expired'', st1)
             | (Inl _, st1) \<Rightarrow> (LnErr 500 ''internal_error'', st1)
             | (Inr _, st1) \<Rightarrow>
                 (case UpsertLinkedKey env key ownerID st1 of
                    (Inl _, st2) \<Rightarrow> (LnErr 500 ''internal_error'', st2)
                  | (Inr _, st2) \<Rightarrow>
                      (case IssueJWT cfg (le_now env) ownerID key of
                         None \<Rightarrow> (LnErr 500 ''jwt_failed'', st2)
                       | Some jwt \<Rightarrow> (LnOK, st2\<lparr>ln_pending := (ln_pending st2)(k1 \<mapsto> jwt)\<rparr>)))))"

definition pollSession :: "ln_env \<Rightarrow> string \<Rightarrow> ln_state \<Rightarrow> ln_reply \<times> ln_state" where
  "pollSession env k1 st =
     (if k1 = [] then (LnErr 400 ''missing_k1'', st)
      else case ln_pending st k1 of
          Some jwt \<Rightarrow> (LnSession jwt, st\<lparr>ln_pending := (ln_pending st)(k1 := None)\<rparr>)
        | None \<Rightarrow>
            (case GetChallenge env GetChal k1 st of
               Inl LnNotFound \<Rightarrow> (LnErr 410 ''not_found'', st)
             | Inl _ \<Rightarrow> (LnErr 500 ''lookup_failed'', st)
             | Inr c \<Rightarrow>
                 if lc_status c = ''used'' \<or> lc_status c = ''expired'' then (LnErr 410 ''expired_or_used'', st)
                 else (LnPending, st)))"

datatype ln_request =
    NewChallenge
  | ChallengeParams string
  | WalletCallback string string string
  | PollSession string

fun ln_serve :: "'k ln_cfg \<Rightarrow> ln_env \<times> ln_request \<Rightarrow> ln_state \<Rightarrow> ln_reply \<times> ln_state" where
  "ln_serve cfg (env, NewChallenge) st = getLNURL cfg env st"
| "ln_serve cfg (env, ChallengeParams k1) st = ln_challenge_params cfg env k1 st"
| "ln_serve cfg (env, WalletCallback k1 sig key) st = ln_callback cfg env k1 sig key st"
| "ln_serve cfg (env, PollSession k1) st = pollSession env k1 st"


section \<open>One session per challenge\<close>

text \<open>A session token a wallet has a right to: issued at its callback, for the key whose signature
  of the challenge verifies.\<close>

definition ln_granted :: "'k ln_cfg \<Rightarrow> ln_env \<times> ln_request \<Rightarrow> string \<Rightarrow> string \<Rightarrow> bool" where
  "ln_granted cfg ereq k1 jwt \<longleftrightarrow>
     (\<exists>env sig key. ereq = (env, WalletCallback k1 sig key) \<and> (lg_stub cfg \<or> VerifySignature cfg k1 sig key = Some True)
        \<and> IssueJWT cfg (le_now env) (deterministicOwnerID cfg key) key = Some jwt)"

definition ln_used :: "ln_state \<Rightarrow> string \<Rightarrow> bool" where
  "ln_used st k1 \<longleftrightarrow> (case ln_challenges st k1 of None \<Rightarrow> False | Some c \<Rightarrow> lc_status c \<noteq> ''pending'')"

definition ln_inv :: "ln_state \<Rightarrow> bool" where
  "ln_inv st \<longleftrightarrow> (\<forall>k1 jwt. ln_pending st k1 = Some jwt \<longrightarrow> ln_used st k1)"

definition ln_collected :: "ln_state \<Rightarrow> string \<Rightarrow> bool" where
  "ln_collected st k1 \<longleftrightarrow> ln_used st k1 \<and> ln_pending st k1 = None"

lemma MarkUsed_cases:
  obtains (no) e where "MarkUsed env k1 ow st = (Inl e, st)"
  | (yes) c where "ln_challenges st k1 = Some c" "lc_status c = ''pending''" "le_now env < lc_expires c"
      "MarkUsed env k1 ow st = (Inr (), st\<lparr>ln_challenges := (ln_challenges st)(k1 \<mapsto> c\<lparr>lc_status := ''used'', lc_linked := Some ow\<rparr>)\<rparr>)"
proof (cases "\<not> le_fails env MarkUsedExec \<and> (case ln_challenges st k1 of None \<Rightarrow> False
    | Some c \<Rightarrow> lc_status c = ''pending'' \<and> le_now env < lc_expires c)")
  case True
  then obtain c where "ln_challenges st k1 = Some c" "lc_status c = ''pending''" "le_now env < lc_expires c"
    by (auto split: option.splits)
  with True show thesis by (intro yes) (simp_all add: MarkUsed_def)
next
  case False
  then have "\<exists>e. MarkUsed env k1 ow st = (Inl e, st)" unfolding MarkUsed_def by (auto split: sum.split)
  with no show thesis by blast
qed

lemma InsertChallenge_used: "ln_used st k \<Longrightarrow> ln_used (snd (InsertChallenge env k1 st)) k"
  by (auto simp: InsertChallenge_def ln_used_def)

lemma InsertChallenge_pending [simp]: "ln_pending (snd (InsertChallenge env k1 st)) = ln_pending st"
  by (simp add: InsertChallenge_def)

lemma UpsertLinkedKey_same [simp]:
  "ln_challenges (snd (UpsertLinkedKey env key ow st)) = ln_challenges st" "ln_pending (snd (UpsertLinkedKey env key ow st)) = ln_pending st"
  by (simp_all add: UpsertLinkedKey_def)

text \<open>What a request does to the challenges in use and to the tokens waiting.\<close>

lemma getLNURL_snd: "snd (getLNURL cfg env st) = st \<or> (\<exists>k1. snd (getLNURL cfg env st) = snd (InsertChallenge env k1 st))"
proof (cases "le_random env")
  case (Some raw)
  have "snd (getLNURL cfg env st) = snd (InsertChallenge env (hex_encode raw) st)"
    by (simp add: getLNURL_def Some Let_def split: prod.split sum.split option.split)
  then show ?thesis by blast
qed (simp add: getLNURL_def)

lemma ln_callback_cases:
  obtains (same) "ln_challenges (snd (ln_callback cfg env k1 sig key st)) = ln_challenges st"
      "ln_pending (snd (ln_callback cfg env k1 sig key st)) = ln_pending st"
  | (marked) c where "ln_challenges st k1 = Some c" "lc_status c = ''pending''"
      "ln_challenges (snd (ln_callback cfg env k1 sig key st)) =
        (ln_challenges st)(k1 \<mapsto> c\<lparr>lc_status := ''used'', lc_linked := Some (deterministicOwnerID cfg key)\<rparr>)"
      "ln_pending (snd (ln_callback cfg env k1 sig key st)) = ln_pending st
       \<or> (\<exists>jwt. ln_granted cfg (env, WalletCallback k1 sig key) k1 jwt \<and> ln_pending (snd (ln_callback cfg env k1 sig key st)) = (ln_pending st)(k1 \<mapsto> jwt))"
proof (cases "(k1 = [] \<or> sig = [] \<or> key = []) \<or> signature_gate cfg k1 sig key \<noteq> None")
  case True
  then show thesis by (intro same) (auto simp: ln_callback_def)
next
  case False
  let ?ow = "deterministicOwnerID cfg key"
  show thesis
  proof (cases env k1 ?ow st rule: MarkUsed_cases)
    case (no e)
    with False show thesis by (intro same) (auto simp: ln_callback_def Let_def split: ln_error.split)
  next
    case (yes c)
    let ?st = "st\<lparr>ln_challenges := (ln_challenges st)(k1 \<mapsto> c\<lparr>lc_status := ''used'', lc_linked := Some ?ow\<rparr>)\<rparr>"
    obtain r st2 where u: "UpsertLinkedKey env key ?ow ?st = (r, st2)" by fastforce
    then have st2: "ln_challenges st2 = ln_challenges ?st" "ln_pending st2 = ln_pending st"
      using UpsertLinkedKey_same [of env key ?ow ?st] by simp_all
    have "lg_stub cfg \<or> VerifySignature cfg k1 sig key = Some True"
      using False by (auto simp: signature_gate_def split: if_splits option.splits)
    then have "IssueJWT cfg (le_now env) ?ow key = Some jwt \<Longrightarrow> ln_granted cfg (env, WalletCallback k1 sig key) k1 jwt" for jwt
      unfolding ln_granted_def by blast
    then show thesis using yes(1,2) False u st2
      by (intro marked [of c]) (auto simp: ln_callback_def Let_def yes(4) split: sum.splits option.splits)
  qed
qed

lemma pollSession_snd:
  "snd (pollSession env k1 st) = (if k1 \<noteq> [] then st\<lparr>ln_pending := (ln_pending st)(k1 := None)\<rparr> else st)"
proof (cases "ln_pending st k1")
  case None
  then have "(ln_pending st)(k1 := None) = ln_pending st" by auto
  with None show ?thesis by (simp add: pollSession_def split: sum.split ln_error.split)
qed (simp add: pollSession_def)

lemma ln_serve_keeps:
  assumes "ln_inv st"
  shows "ln_inv (snd (ln_serve cfg (env, req) st)) \<and> (ln_collected st k \<longrightarrow> ln_collected (snd (ln_serve cfg (env, req) st)) k)"
proof (cases req)
  case NewChallenge
  then show ?thesis using assms getLNURL_snd [of cfg env st] InsertChallenge_used
    by (auto simp: ln_inv_def ln_collected_def)
next
  case (ChallengeParams k1)
  then have "snd (ln_serve cfg (env, req) st) = st"
    by (auto simp: ln_challenge_params_def split: sum.split ln_error.split)
  with assms show ?thesis by simp
next
  case (WalletCallback k1 sig key)
  show ?thesis
  proof (cases cfg env k1 sig key st rule: ln_callback_cases)
    case same
    with assms WalletCallback show ?thesis by (simp add: ln_inv_def ln_collected_def ln_used_def)
  next
    case (marked c)
    then show ?thesis using assms WalletCallback by (auto simp: ln_inv_def ln_collected_def ln_used_def split: if_splits)
  qed
next
  case (PollSession k1)
  then show ?thesis using assms pollSession_snd [of env k1 st]
    by (auto simp: ln_inv_def ln_collected_def ln_used_def)
qed


text \<open>The session a request is answered with, and the challenge it was for.\<close>

fun ln_handed :: "ln_env \<times> ln_request \<Rightarrow> ln_reply \<Rightarrow> (string \<times> string) option" where
  "ln_handed (env, PollSession k1) (LnSession jwt) = Some (k1, jwt)"
| "ln_handed _ _ = None"

definition ln_act :: "'k ln_cfg \<Rightarrow> ln_env \<times> ln_request \<Rightarrow> ln_state \<Rightarrow> string option \<times> ln_state" where
  "ln_act cfg e st = (map_option fst (ln_handed e (fst (ln_serve cfg e st))), snd (ln_serve cfg e st))"

lemma ln_handed_Some:
  assumes "ln_handed (env, req) (fst (ln_serve cfg (env, req) st)) = Some (k1, jwt)"
  shows "req = PollSession k1 \<and> ln_pending st k1 = Some jwt \<and> k1 \<noteq> []"
proof (cases req)
  case (PollSession k)
  with assms show ?thesis
    by (cases "ln_pending st k") (auto simp: pollSession_def split: if_splits sum.splits ln_error.splits)
qed (use assms in simp_all)

lemma ln_act_spends:
  assumes "ln_inv st" "fst (ln_act cfg (env, req) st) = Some k"
  shows "\<not> ln_collected st k \<and> ln_collected (snd (ln_act cfg (env, req) st)) k"
proof -
  from assms(2) obtain jwt where "ln_handed (env, req) (fst (ln_serve cfg (env, req) st)) = Some (k, jwt)"
    by (auto simp: ln_act_def)
  then have "req = PollSession k" "ln_pending st k = Some jwt" "k \<noteq> []" using ln_handed_Some by blast+
  then show ?thesis using assms(1) pollSession_snd [of env k st]
    by (simp add: ln_act_def ln_collected_def ln_inv_def ln_used_def)
qed

interpretation sess: one_shot "ln_act cfg" ln_collected ln_inv for cfg :: "'k ln_cfg"
proof unfold_locales
  show "ln_inv (snd (ln_act cfg e s))" if "ln_inv s" for e s
    using ln_serve_keeps [OF that, THEN conjunct1] by (cases e) (simp add: ln_act_def)
  show "\<not> ln_collected s k \<and> ln_collected (snd (ln_act cfg e s)) k" if "ln_inv s" "fst (ln_act cfg e s) = Some k" for e s k
    using ln_act_spends that by (cases e) blast
  show "ln_collected (snd (ln_act cfg e s)) k" if "ln_inv s" "ln_collected s k" for e s k
    using ln_serve_keeps [OF that(1), THEN conjunct2, rule_format, OF that(2)] by (cases e) (simp add: ln_act_def)
qed

text \<open>The sessions handed out by a sequence of requests.\<close>

fun ln_run :: "'k ln_cfg \<Rightarrow> (ln_env \<times> ln_request) list \<Rightarrow> ln_state \<Rightarrow> (string \<times> string) list" where
  "ln_run cfg [] st = []"
| "ln_run cfg (e # es) st =
     (let r = ln_serve cfg e st; rest = ln_run cfg es (snd r) in
      case ln_handed e (fst r) of None \<Rightarrow> rest | Some p \<Rightarrow> p # rest)"

lemma ln_run_spend: "map fst (ln_run cfg es st) = fst (one_shot.spend_run (ln_act cfg) es st)"
  by (induction es arbitrary: st) (auto simp: ln_act_def Let_def split: option.split)

text \<open>Every token that waits was issued at a callback.\<close>

definition ln_issued :: "'k ln_cfg \<Rightarrow> (ln_env \<times> ln_request) set \<Rightarrow> ln_state \<Rightarrow> bool" where
  "ln_issued cfg hist st \<longleftrightarrow> (\<forall>k1 jwt. ln_pending st k1 = Some jwt \<longrightarrow> (\<exists>e\<in>hist. ln_granted cfg e k1 jwt))"

lemma ln_serve_issued:
  assumes "ln_issued cfg hist st" "(env, req) \<in> hist"
  shows "ln_issued cfg hist (snd (ln_serve cfg (env, req) st))"
proof (cases req)
  case NewChallenge
  then show ?thesis using assms getLNURL_snd [of cfg env st] by (auto simp: ln_issued_def)
next
  case (ChallengeParams k1)
  then have "snd (ln_serve cfg (env, req) st) = st"
    by (auto simp: ln_challenge_params_def split: sum.split ln_error.split)
  with assms show ?thesis by simp
next
  case (WalletCallback k1 sig key)
  show ?thesis
  proof (cases cfg env k1 sig key st rule: ln_callback_cases)
    case same
    with assms WalletCallback show ?thesis by (simp add: ln_issued_def)
  next
    case (marked c)
    then show ?thesis using assms WalletCallback by (auto simp: ln_issued_def split: if_splits)
  qed
next
  case (PollSession k1)
  then show ?thesis using assms pollSession_snd [of env k1 st] by (auto simp: ln_issued_def)
qed

lemma ln_run_issued:
  "ln_issued cfg hist st \<Longrightarrow> set es \<subseteq> hist \<Longrightarrow> (k1, jwt) \<in> set (ln_run cfg es st) \<Longrightarrow> \<exists>e\<in>hist. ln_granted cfg e k1 jwt"
proof (induction es arbitrary: st)
  case (Cons e es)
  obtain env req where e: "e = (env, req)" by fastforce
  show ?case
  proof (cases "(k1, jwt) \<in> set (ln_run cfg es (snd (ln_serve cfg e st)))")
    case True
    then show ?thesis using Cons.IH [of "snd (ln_serve cfg e st)"] Cons.prems(1,2) ln_serve_issued [of cfg hist st env req] by (simp add: e)
  next
    case False
    then have "ln_handed e (fst (ln_serve cfg e st)) = Some (k1, jwt)"
      using Cons.prems(3) by (auto simp: Let_def split: option.splits)
    then show ?thesis using ln_handed_Some Cons.prems(1) unfolding e ln_issued_def by blast
  qed
qed simp



text \<open>A key that signs with its own bytes, and one login.\<close>

definition toy_ln_cfg :: "string ln_cfg" where
  "toy_ln_cfg = \<lparr>lg_pubkey = Some, lg_der_ok = (\<lambda>_. True), lg_verify = (\<lambda>pub k1 sig. sig = pub), lg_owner = (\<lambda>_. 7),
     lg_jwt = (\<lambda>ow key iat ex. Some key), lg_bech32 = Some, lg_stub = False, lg_scheme = ''https'', lg_host = ''h''\<rparr>"

definition toy_ln_env :: "gotime \<Rightarrow> ln_env" where
  "toy_ln_env t = \<lparr>le_now = t, le_fails = (\<lambda>_. False), le_random = Some (replicate 32 CHR ''a'')\<rparr>"

definition toy_login :: "(ln_env \<times> ln_request) list" where
  "toy_login = (let k1 = hex_encode (replicate 32 CHR ''a'') in
     [(toy_ln_env 0, NewChallenge), (toy_ln_env 1, WalletCallback k1 ''4242'' ''4242''),
      (toy_ln_env 2, PollSession k1), (toy_ln_env 3, WalletCallback k1 ''4242'' ''4242''), (toy_ln_env 4, PollSession k1)])"


end
