(* ===== verification/Sales.thy ===== *)
theory Sales
  imports Prelude
begin

text \<open>
  The rows of the transaction schema (\<open>db/types/t.go\<close>) and the canonical event that the point-of-sale
  adapters produce (\<open>protocol/sub2/canonical.go\<close>).  Columns the database fills in itself (creation
  times and GENERATED columns) are never sent and have no field here; a numeric column is the
  text that is sent for it, as in the code.
\<close>

text \<open>A \<open>json.RawMessage\<close>: bytes, or what \<open>json.Marshal\<close> makes of a \<open>map[string]string\<close> with these
  members in the order of their keys.\<close>

datatype raw_message = RawText string | RawMembers "(string \<times> string) list"

record Transaction =
  tx_ID :: uuid
  tx_TenantID :: uuid
  tx_TransactionNumber :: string
  tx_TransactionType :: string
  tx_ParentTransactionID :: "uuid option"
  tx_LocationID :: uuid
  tx_POSTerminalID :: "string option"
  tx_CashierEmployeeID :: "uuid option"
  tx_CustomerID :: "uuid option"
  tx_LoyaltyMembershipID :: "uuid option"
  tx_BusinessDate :: gotime
  tx_StartedAt :: gotime
  tx_EndedAt :: gotime
  tx_Status :: string
  tx_TicketNumber :: "int option"
  tx_ItemCount :: int
  tx_Subtotal :: string
  tx_TaxTotal :: string
  tx_DiscountTotal :: string
  tx_GrandTotal :: string
  tx_Currency :: string
  tx_Channel :: string
  tx_POSSoftwareVersion :: "string option"
  tx_IsTrainingMode :: bool
  tx_IsOffline :: bool
  tx_IsReentered :: bool
  tx_IsSuspended :: bool
  tx_VoidReason :: "string option"
  tx_Attributes :: raw_message
  tx_ExternalIDs :: raw_message

record TransactionLineItem =
  li_ID :: uuid
  li_TenantID :: uuid
  li_TransactionID :: uuid
  li_LineNumber :: int
  li_ItemID :: "uuid option"
  li_BarcodeScanned :: "string option"
  li_Description :: string
  li_Quantity :: string
  li_UnitOfMeasure :: string
  li_UnitPrice :: string
  li_ListPrice :: "string option"
  li_UnitDiscount :: string
  li_UnitTax :: string
  li_CostBasis :: "string option"
  li_CategoryID :: "uuid option"
  li_ZoneID :: "uuid option"
  li_LotID :: "uuid option"
  li_InventoryMovementID :: "uuid option"
  li_IsVoid :: bool
  li_VoidReason :: "string option"
  li_IsReturn :: bool
  li_ReturnReason :: "string option"
  li_IsWeighable :: bool
  li_IsFoodStampEligible :: bool
  li_Attributes :: raw_message

record TransactionTender =
  td_ID :: uuid
  td_TenantID :: uuid
  td_TransactionID :: uuid
  td_TenderSequence :: int
  td_TenderTypeID :: uuid
  td_Amount :: string
  td_Currency :: string
  td_CashBackAmount :: string
  td_ChangeAmount :: string
  td_CardToken :: "string option"
  td_CardLast4 :: "string option"
  td_CardBrand :: "string option"
  td_AuthorizationCode :: "string option"
  td_ProcessorReference :: "string option"
  td_IsVoided :: bool
  td_IsRefund :: bool
  td_Contactless :: bool
  td_Attributes :: raw_message

record TransactionDiscount =
  dc_ID :: uuid
  dc_TenantID :: uuid
  dc_TransactionID :: uuid
  dc_DiscountSequence :: int
  dc_Scope :: string
  dc_LineItemID :: "uuid option"
  dc_DiscountType :: string
  dc_SourcePromotionID :: "uuid option"
  dc_PromotionRuleID :: "uuid option"
  dc_Amount :: string
  dc_Percentage :: "string option"
  dc_ReasonCode :: "string option"
  dc_AuthorizedByEmployeeID :: "uuid option"
  dc_Attributes :: raw_message

record CashierAction =
  ca_ID :: uuid
  ca_TenantID :: uuid
  ca_TransactionID :: "uuid option"
  ca_LocationID :: uuid
  ca_CashierEmployeeID :: uuid
  ca_POSTerminalID :: "string option"
  ca_ActionType :: string
  ca_PerformedAt :: gotime
  ca_AuthorizedByEmployeeID :: "uuid option"
  ca_Details :: raw_message
  ca_Attributes :: raw_message

record CashDrawerEvent =
  cd_ID :: uuid
  cd_TenantID :: uuid
  cd_LocationID :: uuid
  cd_POSTerminalID :: string
  cd_CashierEmployeeID :: "uuid option"
  cd_EventType :: string
  cd_EventAt :: gotime
  cd_ExpectedAmount :: "string option"
  cd_CountedAmount :: "string option"
  cd_Reason :: "string option"
  cd_PaidInOutAmount :: "string option"
  cd_Reference :: "string option"
  cd_Attributes :: raw_message

record LoyaltyEvent =
  lo_ID :: uuid
  lo_TenantID :: uuid
  lo_LoyaltyMembershipID :: uuid
  lo_TransactionID :: "uuid option"
  lo_EventType :: string
  lo_PointsDelta :: go_int64
  lo_AmountBasis :: "string option"
  lo_Reason :: "string option"
  lo_Attributes :: raw_message

record GiftCardEvent =
  gc_ID :: uuid
  gc_TenantID :: uuid
  gc_GiftCardID :: uuid
  gc_TransactionID :: "uuid option"
  gc_EventType :: string
  gc_AmountDelta :: string
  gc_BalanceAfter :: string
  gc_AuthorizationCode :: "string option"
  gc_Attributes :: raw_message

record CanonicalEvent =
  ce_EventID :: uuid
  ce_MerchantID :: uuid
  ce_SourceCode :: string
  ce_SourceTxnID :: string
  ce_SourceLocationCode :: string
  ce_SourceCashierCode :: string
  ce_Transaction :: Transaction
  ce_LineItems :: "TransactionLineItem list"
  ce_Tenders :: "TransactionTender list"
  ce_Discounts :: "TransactionDiscount list"
  ce_CashDrawer :: "CashDrawerEvent option"
  ce_CashierActions :: "CashierAction list"
  ce_LoyaltyEvents :: "LoyaltyEvent list"
  ce_GiftCardEvents :: "GiftCardEvent list"
  ce_ParsedAt :: gotime
  ce_Attributes :: raw_message

text \<open>The zero values of the rows, which a Go composite literal starts from.\<close>

definition no_raw :: raw_message where "no_raw = RawText []"

definition zero_line :: TransactionLineItem where
  "zero_line = \<lparr>li_ID = uuid_nil, li_TenantID = uuid_nil, li_TransactionID = uuid_nil, li_LineNumber = 0, li_ItemID = None,
     li_BarcodeScanned = None, li_Description = [], li_Quantity = [], li_UnitOfMeasure = [], li_UnitPrice = [],
     li_ListPrice = None, li_UnitDiscount = [], li_UnitTax = [], li_CostBasis = None, li_CategoryID = None, li_ZoneID = None,
     li_LotID = None, li_InventoryMovementID = None, li_IsVoid = False, li_VoidReason = None, li_IsReturn = False,
     li_ReturnReason = None, li_IsWeighable = False, li_IsFoodStampEligible = False, li_Attributes = no_raw\<rparr>"

definition zero_tender :: TransactionTender where
  "zero_tender = \<lparr>td_ID = uuid_nil, td_TenantID = uuid_nil, td_TransactionID = uuid_nil, td_TenderSequence = 0,
     td_TenderTypeID = uuid_nil, td_Amount = [], td_Currency = [], td_CashBackAmount = [], td_ChangeAmount = [],
     td_CardToken = None, td_CardLast4 = None, td_CardBrand = None, td_AuthorizationCode = None, td_ProcessorReference = None,
     td_IsVoided = False, td_IsRefund = False, td_Contactless = False, td_Attributes = no_raw\<rparr>"

end
