(* ===== verification/Sub2.thy ===== *)
theory Sub2
  imports Sales Seal
begin

text \<open>
  Sub 2, Parse and Route (\<open>protocol/sub2\<close>): an event of the stream is parsed by the adapter of its
  source, its references are resolved, and the sale is written with all its rows in one
  transaction; a sale that is already there is taken for a redelivery.
\<close>

section \<open>The tables\<close>

record sale_tables =
  sd_tx :: "Transaction list"
  sd_lines :: "TransactionLineItem list"
  sd_tenders :: "TransactionTender list"
  sd_discounts :: "TransactionDiscount list"
  sd_drawers :: "CashDrawerEvent list"
  sd_actions :: "CashierAction list"
  sd_loyalty :: "LoyaltyEvent list"
  sd_gifts :: "GiftCardEvent list"

text \<open>The reference data a sale points into: the tenant of a merchant (a nullable column), and
  locations, employees and default tender types by their codes.\<close>

record sale_refs =
  sr_merchants :: "uuid \<rightharpoonup> uuid option"
  sr_locations :: "uuid \<times> string \<rightharpoonup> uuid"
  sr_employees :: "uuid \<times> string \<rightharpoonup> uuid"
  sr_tender_types :: "uuid \<times> string \<rightharpoonup> uuid"

datatype persist_site =
    TenantQ | LocationQ | EmployeeQ | BeginTx | TxIns | LineIns nat | TenderTypeQ | TenderIns nat
  | DiscountIns nat | DrawerIns | ActionIns nat | LoyaltyIns nat | GiftIns nat | CommitTx

datatype persist_error = TenantUnknown | LocationUnknown | PersistFailed persist_site

text \<open>What a call meets: failing statements, fresh identifiers, the texts the database reads as a
  numeric.\<close>

record persist_env =
  pv_fails :: "persist_site \<Rightarrow> bool"
  pv_new :: "persist_site \<Rightarrow> uuid"
  pv_numeric :: "string \<Rightarrow> bool"

section \<open>References\<close>

definition lookupTenant :: "persist_env \<Rightarrow> sale_refs \<Rightarrow> uuid \<Rightarrow> persist_error + uuid" where
  "lookupTenant env refs merchantID =
     (if pv_fails env TenantQ then Inl (PersistFailed TenantQ)
      else case sr_merchants refs merchantID of
          None \<Rightarrow> Inl TenantUnknown
        | Some None \<Rightarrow> Inl TenantUnknown
        | Some (Some t) \<Rightarrow> if t = uuid_nil then Inl TenantUnknown else Inr t)"

definition lookupLocation :: "persist_env \<Rightarrow> sale_refs \<Rightarrow> uuid \<Rightarrow> string \<Rightarrow> persist_error + uuid" where
  "lookupLocation env refs tenantID code =
     (if code = [] then Inl LocationUnknown
      else if pv_fails env LocationQ then Inl (PersistFailed LocationQ)
      else case sr_locations refs (tenantID, code) of None \<Rightarrow> Inl LocationUnknown | Some l \<Rightarrow> Inr l)"

definition lookupEmployee :: "persist_env \<Rightarrow> sale_refs \<Rightarrow> uuid \<Rightarrow> string \<Rightarrow> persist_error + uuid" where
  "lookupEmployee env refs tenantID code =
     (if pv_fails env EmployeeQ then Inl (PersistFailed EmployeeQ)
      else Inr (case sr_employees refs (tenantID, code) of None \<Rightarrow> uuid_nil | Some e \<Rightarrow> e))"

text \<open>The cashier stays unset for an empty or unknown code.\<close>

definition resolve_cashier :: "persist_env \<Rightarrow> sale_refs \<Rightarrow> uuid \<Rightarrow> string \<Rightarrow> persist_error + uuid option" where
  "resolve_cashier env refs tenantID code =
     (if code = [] then Inr None
      else bind_res (lookupEmployee env refs tenantID code) (\<lambda>e. Inr (if e = uuid_nil then None else Some e)))"

definition resolveTenderTypeID :: "persist_env \<Rightarrow> sale_refs \<Rightarrow> uuid \<Rightarrow> string \<Rightarrow> uuid option" where
  "resolveTenderTypeID env refs tenantID source =
     (if source = [] \<or> pv_fails env TenderTypeQ then None else sr_tender_types refs (tenantID, source))"

section \<open>Inserts\<close>

definition nullableJSON :: "raw_message \<Rightarrow> raw_message" where
  "nullableJSON raw = (if raw = RawText [] then RawText ''{}'' else raw)"

text \<open>The rows as they are stored: an empty document becomes \<open>{}\<close>.\<close>

definition stored_header :: "Transaction \<Rightarrow> Transaction" where
  "stored_header t = t\<lparr>tx_Attributes := nullableJSON (tx_Attributes t), tx_ExternalIDs := nullableJSON (tx_ExternalIDs t)\<rparr>"

definition stored_line :: "TransactionLineItem \<Rightarrow> TransactionLineItem" where
  "stored_line r = r\<lparr>li_Attributes := nullableJSON (li_Attributes r)\<rparr>"

definition stored_tender :: "TransactionTender \<Rightarrow> TransactionTender" where
  "stored_tender r = r\<lparr>td_Attributes := nullableJSON (td_Attributes r)\<rparr>"

definition stored_discount :: "TransactionDiscount \<Rightarrow> TransactionDiscount" where
  "stored_discount r = r\<lparr>dc_Attributes := nullableJSON (dc_Attributes r)\<rparr>"

definition stored_drawer :: "CashDrawerEvent \<Rightarrow> CashDrawerEvent" where
  "stored_drawer r = r\<lparr>cd_Attributes := nullableJSON (cd_Attributes r)\<rparr>"

definition stored_action :: "CashierAction \<Rightarrow> CashierAction" where
  "stored_action r = r\<lparr>ca_Details := nullableJSON (ca_Details r), ca_Attributes := nullableJSON (ca_Attributes r)\<rparr>"

definition stored_loyalty :: "LoyaltyEvent \<Rightarrow> LoyaltyEvent" where
  "stored_loyalty r = r\<lparr>lo_Attributes := nullableJSON (lo_Attributes r)\<rparr>"

definition stored_gift :: "GiftCardEvent \<Rightarrow> GiftCardEvent" where
  "stored_gift r = r\<lparr>gc_Attributes := nullableJSON (gc_Attributes r)\<rparr>"

definition opt_numeric :: "persist_env \<Rightarrow> string option \<Rightarrow> bool" where
  "opt_numeric env v = (case v of None \<Rightarrow> True | Some s \<Rightarrow> pv_numeric env s)"

text \<open>One INSERT: it fails on its own, on a value the columns do not take, or on a constraint; the
  last is told apart by its code.\<close>

datatype 't insert_result = Inserted 't | UniqueViolation | InsertFailed

definition insert_row :: "bool \<Rightarrow> bool \<Rightarrow> ('r \<Rightarrow> bool) \<Rightarrow> 'r \<Rightarrow> 'r list \<Rightarrow> 'r list insert_result" where
  "insert_row failing valid clashes row tab =
     (if failing \<or> \<not> valid then InsertFailed
      else if list_ex clashes tab then UniqueViolation
      else Inserted (tab @ [row]))"

text \<open>The unique key of a sale; the business date is the day of its time.\<close>

definition sale_key :: "Transaction \<Rightarrow> uuid \<times> uuid \<times> int \<times> string" where
  "sale_key t = (tx_TenantID t, tx_LocationID t, tx_BusinessDate t div (86400 * 10 ^ 9), tx_TransactionNumber t)"

definition insertTransaction :: "persist_env \<Rightarrow> Transaction \<Rightarrow> Transaction list \<Rightarrow> Transaction list insert_result" where
  "insertTransaction env t =
     insert_row (pv_fails env TxIns)
       (list_all (pv_numeric env) [tx_Subtotal t, tx_TaxTotal t, tx_DiscountTotal t, tx_GrandTotal t])
       (\<lambda>r. tx_ID r = tx_ID t \<or> sale_key r = sale_key t)
       (stored_header t)"

definition insertLineItem :: "persist_env \<Rightarrow> nat \<Rightarrow> TransactionLineItem \<Rightarrow> TransactionLineItem list \<Rightarrow> TransactionLineItem list insert_result" where
  "insertLineItem env i li =
     insert_row (pv_fails env (LineIns i))
       (list_all (pv_numeric env) [li_Quantity li, li_UnitPrice li, li_UnitDiscount li, li_UnitTax li]
        \<and> opt_numeric env (li_ListPrice li) \<and> opt_numeric env (li_CostBasis li))
       (\<lambda>r. li_ID r = li_ID li \<or> (li_TenantID r, li_TransactionID r, li_LineNumber r) = (li_TenantID li, li_TransactionID li, li_LineNumber li))
       (stored_line li)"

definition insertTender :: "persist_env \<Rightarrow> nat \<Rightarrow> TransactionTender \<Rightarrow> TransactionTender list \<Rightarrow> TransactionTender list insert_result" where
  "insertTender env i t =
     insert_row (pv_fails env (TenderIns i))
       (list_all (pv_numeric env) [td_Amount t, td_CashBackAmount t, td_ChangeAmount t])
       (\<lambda>r. td_ID r = td_ID t \<or> (td_TenantID r, td_TransactionID r, td_TenderSequence r) = (td_TenantID t, td_TransactionID t, td_TenderSequence t))
       (stored_tender t)"

definition insertDiscount :: "persist_env \<Rightarrow> nat \<Rightarrow> TransactionDiscount \<Rightarrow> TransactionDiscount list \<Rightarrow> TransactionDiscount list insert_result" where
  "insertDiscount env i d =
     insert_row (pv_fails env (DiscountIns i))
       (pv_numeric env (dc_Amount d) \<and> opt_numeric env (dc_Percentage d)) (\<lambda>r. dc_ID r = dc_ID d)
       (stored_discount d)"

definition insertCashDrawerEvent :: "persist_env \<Rightarrow> CashDrawerEvent \<Rightarrow> CashDrawerEvent list \<Rightarrow> CashDrawerEvent list insert_result" where
  "insertCashDrawerEvent env e =
     insert_row (pv_fails env DrawerIns)
       (list_all (opt_numeric env) [cd_ExpectedAmount e, cd_CountedAmount e, cd_PaidInOutAmount e]) (\<lambda>r. cd_ID r = cd_ID e)
       (stored_drawer e)"

definition insertCashierAction :: "persist_env \<Rightarrow> nat \<Rightarrow> CashierAction \<Rightarrow> CashierAction list \<Rightarrow> CashierAction list insert_result" where
  "insertCashierAction env i a =
     insert_row (pv_fails env (ActionIns i)) True (\<lambda>r. ca_ID r = ca_ID a)
       (stored_action a)"

definition insertLoyaltyEvent :: "persist_env \<Rightarrow> nat \<Rightarrow> LoyaltyEvent \<Rightarrow> LoyaltyEvent list \<Rightarrow> LoyaltyEvent list insert_result" where
  "insertLoyaltyEvent env i l =
     insert_row (pv_fails env (LoyaltyIns i)) (opt_numeric env (lo_AmountBasis l)) (\<lambda>r. lo_ID r = lo_ID l)
       (stored_loyalty l)"

definition insertGiftCardEvent :: "persist_env \<Rightarrow> nat \<Rightarrow> GiftCardEvent \<Rightarrow> GiftCardEvent list \<Rightarrow> GiftCardEvent list insert_result" where
  "insertGiftCardEvent env i g =
     insert_row (pv_fails env (GiftIns i))
       (pv_numeric env (gc_AmountDelta g) \<and> pv_numeric env (gc_BalanceAfter g)) (\<lambda>r. gc_ID r = gc_ID g)
       (stored_gift g)"

text \<open>The loop over the rows of one kind: prepare a row, insert it, stop at the first error.
  \<open>None\<close> from the preparation skips the row.\<close>

fun insert_loop ::
  "(nat \<Rightarrow> 'r \<Rightarrow> 'r option) \<Rightarrow> (nat \<Rightarrow> 'r \<Rightarrow> 'r list \<Rightarrow> 'r list insert_result) \<Rightarrow> (nat \<Rightarrow> persist_site)
     \<Rightarrow> nat \<Rightarrow> 'r list \<Rightarrow> 'r list \<Rightarrow> persist_error + 'r list" where
  "insert_loop prep ins site i [] tab = Inr tab"
| "insert_loop prep ins site i (r # rs) tab =
     (case prep i r of
        None \<Rightarrow> insert_loop prep ins site (Suc i) rs tab
      | Some row \<Rightarrow>
          (case ins i row tab of
             Inserted tab' \<Rightarrow> insert_loop prep ins site (Suc i) rs tab'
           | _ \<Rightarrow> Inl (PersistFailed (site i))))"

definition fresh_id :: "persist_env \<Rightarrow> persist_site \<Rightarrow> uuid \<Rightarrow> uuid" where
  "fresh_id env site i = (if i = uuid_nil then pv_new env site else i)"

definition stamp_line :: "persist_env \<Rightarrow> uuid \<Rightarrow> uuid \<Rightarrow> nat \<Rightarrow> TransactionLineItem \<Rightarrow> TransactionLineItem option" where
  "stamp_line env tenantID txID i li =
     Some (li\<lparr>li_TenantID := tenantID, li_TransactionID := txID, li_ID := fresh_id env (LineIns i) (li_ID li)\<rparr>)"

text \<open>A tender without a type takes the default of its source; it is dropped when there is none.\<close>

definition stamp_tender :: "persist_env \<Rightarrow> uuid \<Rightarrow> uuid \<Rightarrow> uuid option \<Rightarrow> nat \<Rightarrow> TransactionTender \<Rightarrow> TransactionTender option" where
  "stamp_tender env tenantID txID dflt i t =
     (let t = t\<lparr>td_TenantID := tenantID, td_TransactionID := txID, td_ID := fresh_id env (TenderIns i) (td_ID t)\<rparr> in
      if td_TenderTypeID t = uuid_nil then map_option (\<lambda>d. t\<lparr>td_TenderTypeID := d\<rparr>) dflt else Some t)"

definition stamp_discount :: "persist_env \<Rightarrow> uuid \<Rightarrow> uuid \<Rightarrow> nat \<Rightarrow> TransactionDiscount \<Rightarrow> TransactionDiscount option" where
  "stamp_discount env tenantID txID i d =
     Some (d\<lparr>dc_TenantID := tenantID, dc_TransactionID := txID, dc_ID := fresh_id env (DiscountIns i) (dc_ID d)\<rparr>)"

definition stamp_drawer :: "persist_env \<Rightarrow> uuid \<Rightarrow> uuid \<Rightarrow> CashDrawerEvent \<Rightarrow> CashDrawerEvent" where
  "stamp_drawer env tenantID locationID e =
     e\<lparr>cd_TenantID := tenantID, cd_LocationID := locationID, cd_ID := fresh_id env DrawerIns (cd_ID e)\<rparr>"

definition stamp_action :: "persist_env \<Rightarrow> uuid \<Rightarrow> uuid \<Rightarrow> uuid \<Rightarrow> nat \<Rightarrow> CashierAction \<Rightarrow> CashierAction option" where
  "stamp_action env tenantID locationID txID i a =
     Some (a\<lparr>ca_TenantID := tenantID, ca_LocationID := locationID, ca_TransactionID := Some txID,
             ca_ID := fresh_id env (ActionIns i) (ca_ID a)\<rparr>)"

definition stamp_loyalty :: "persist_env \<Rightarrow> uuid \<Rightarrow> uuid \<Rightarrow> nat \<Rightarrow> LoyaltyEvent \<Rightarrow> LoyaltyEvent option" where
  "stamp_loyalty env tenantID txID i l =
     Some (l\<lparr>lo_TenantID := tenantID, lo_TransactionID := Some txID, lo_ID := fresh_id env (LoyaltyIns i) (lo_ID l)\<rparr>)"

definition stamp_gift :: "persist_env \<Rightarrow> uuid \<Rightarrow> uuid \<Rightarrow> nat \<Rightarrow> GiftCardEvent \<Rightarrow> GiftCardEvent option" where
  "stamp_gift env tenantID txID i g =
     Some (g\<lparr>gc_TenantID := tenantID, gc_TransactionID := Some txID, gc_ID := fresh_id env (GiftIns i) (gc_ID g)\<rparr>)"

section \<open>Persist\<close>

text \<open>The rows below the header, in the order of the code.\<close>

definition insert_children ::
  "persist_env \<Rightarrow> sale_refs \<Rightarrow> uuid \<Rightarrow> uuid \<Rightarrow> uuid \<Rightarrow> CanonicalEvent \<Rightarrow> sale_tables \<Rightarrow> persist_error + sale_tables" where
  "insert_children env refs tenantID locationID txID evt db =
     bind_res (insert_loop (stamp_line env tenantID txID) (insertLineItem env) LineIns 0 (ce_LineItems evt) (sd_lines db)) (\<lambda>lines.
     bind_res (insert_loop (stamp_tender env tenantID txID (resolveTenderTypeID env refs tenantID (ce_SourceCode evt)))
                 (insertTender env) TenderIns 0 (ce_Tenders evt) (sd_tenders db)) (\<lambda>tenders.
     bind_res (insert_loop (stamp_discount env tenantID txID) (insertDiscount env) DiscountIns 0 (ce_Discounts evt) (sd_discounts db)) (\<lambda>discounts.
     bind_res (case ce_CashDrawer evt of
                 None \<Rightarrow> Inr (sd_drawers db)
               | Some e \<Rightarrow> (case insertCashDrawerEvent env (stamp_drawer env tenantID locationID e) (sd_drawers db) of
                     Inserted tab \<Rightarrow> Inr tab | _ \<Rightarrow> Inl (PersistFailed DrawerIns))) (\<lambda>drawers.
     bind_res (insert_loop (stamp_action env tenantID locationID txID) (insertCashierAction env) ActionIns 0 (ce_CashierActions evt) (sd_actions db)) (\<lambda>actions.
     bind_res (insert_loop (stamp_loyalty env tenantID txID) (insertLoyaltyEvent env) LoyaltyIns 0 (ce_LoyaltyEvents evt) (sd_loyalty db)) (\<lambda>loyalty.
     bind_res (insert_loop (stamp_gift env tenantID txID) (insertGiftCardEvent env) GiftIns 0 (ce_GiftCardEvents evt) (sd_gifts db)) (\<lambda>gifts.
       Inr (db\<lparr>sd_lines := lines, sd_tenders := tenders, sd_discounts := discounts, sd_drawers := drawers,
               sd_actions := actions, sd_loyalty := loyalty, sd_gifts := gifts\<rparr>))))))))"

text \<open>The header with its references filled in.\<close>

definition stamp_header :: "persist_env \<Rightarrow> uuid \<Rightarrow> uuid \<Rightarrow> uuid option \<Rightarrow> Transaction \<Rightarrow> Transaction" where
  "stamp_header env tenantID locationID cashier t =
     t\<lparr>tx_TenantID := tenantID, tx_LocationID := locationID, tx_CashierEmployeeID := cashier, tx_ID := fresh_id env TxIns (tx_ID t)\<rparr>"

definition resolve_refs :: "persist_env \<Rightarrow> sale_refs \<Rightarrow> CanonicalEvent \<Rightarrow> persist_error + (uuid \<times> uuid \<times> uuid option)" where
  "resolve_refs env refs evt =
     bind_res (lookupTenant env refs (ce_MerchantID evt)) (\<lambda>tenantID.
     bind_res (lookupLocation env refs tenantID (ce_SourceLocationCode evt)) (\<lambda>locationID.
     bind_res (resolve_cashier env refs tenantID (ce_SourceCashierCode evt)) (\<lambda>cashier.
       Inr (tenantID, locationID, cashier))))"

text \<open>A unique violation of the header is a sale already there; everything else that goes wrong
  leaves the tables as they were.\<close>

definition Persist :: "persist_env \<Rightarrow> sale_refs \<Rightarrow> CanonicalEvent \<Rightarrow> sale_tables \<Rightarrow> (persist_error + unit) \<times> sale_tables" where
  "Persist env refs evt db =
     (case resolve_refs env refs evt of
        Inl e \<Rightarrow> (Inl e, db)
      | Inr (tenantID, locationID, cashier) \<Rightarrow>
          let t = stamp_header env tenantID locationID cashier (ce_Transaction evt) in
          if pv_fails env BeginTx then (Inl (PersistFailed BeginTx), db)
          else (case insertTransaction env t (sd_tx db) of
              UniqueViolation \<Rightarrow> (Inr (), db)
            | InsertFailed \<Rightarrow> (Inl (PersistFailed TxIns), db)
            | Inserted txs \<Rightarrow>
                (case insert_children env refs tenantID locationID (tx_ID t) evt (db\<lparr>sd_tx := txs\<rparr>) of
                   Inl e \<Rightarrow> (Inl e, db)
                 | Inr db' \<Rightarrow> if pv_fails env CommitTx then (Inl (PersistFailed CommitTx), db) else (Inr (), db'))))"

section \<open>Dispatch and the worker\<close>

text \<open>What an adapter makes of an envelope.\<close>

datatype parse_result = ParseError | ParseNothing | Parsed CanonicalEvent

datatype dispatch_error = UnknownSource | ParseDiscard | ParseFailed | PersistError persist_error

definition fill_envelope :: "event \<Rightarrow> CanonicalEvent \<Rightarrow> CanonicalEvent" where
  "fill_envelope env c =
     c\<lparr>ce_EventID := (if ce_EventID c = uuid_nil then EventID env else ce_EventID c),
       ce_MerchantID := (if ce_MerchantID c = uuid_nil then MerchantID env else ce_MerchantID c),
       ce_SourceCode := (if ce_SourceCode c = [] then SourceCode env else ce_SourceCode c)\<rparr>"

type_synonym adapter_lookup = "string \<Rightarrow> (event \<Rightarrow> parse_result) option"

definition Dispatch :: "adapter_lookup \<Rightarrow> persist_env \<Rightarrow> sale_refs \<Rightarrow> event \<Rightarrow> sale_tables \<Rightarrow> (dispatch_error + unit) \<times> sale_tables" where
  "Dispatch lookup penv refs env db =
     (case lookup (SourceCode env) of
        None \<Rightarrow> (Inl UnknownSource, db)
      | Some parser \<Rightarrow>
          (case parser env of
             ParseError \<Rightarrow> (Inl ParseFailed, db)
           | ParseNothing \<Rightarrow> (Inl ParseDiscard, db)
           | Parsed c \<Rightarrow> (case Persist penv refs (fill_envelope env c) db of (r, db') \<Rightarrow> (map_err PersistError r, db'))))"

text \<open>A dead letter: the message's id, why, and its text.\<close>

record dead_letter =
  dl_original :: nat
  dl_reason :: string
  dl_event :: event_field

record sub2_state =
  s2_tables :: sale_tables
  s2_stream :: "event_field stream"
  s2_dlq :: "dead_letter list"

text \<open>What one message meets: what \<open>Persist\<close> meets, a failing acknowledgement, a failing dead letter.\<close>

record sub2_env =
  se2_persist :: persist_env
  se2_ack_fails :: bool
  se2_dlq_fails :: bool

definition sub2_ack :: "sub2_env \<Rightarrow> nat \<Rightarrow> sub2_state \<Rightarrow> sub2_state" where
  "sub2_ack env i s = (if se2_ack_fails env then s else s\<lparr>s2_stream := xack i (s2_stream s)\<rparr>)"

definition sub2_deadletter :: "sub2_env \<Rightarrow> event_field entry \<Rightarrow> string \<Rightarrow> sub2_state \<Rightarrow> sub2_state" where
  "sub2_deadletter env msg reason s =
     (if se2_dlq_fails env then s
      else s\<lparr>s2_dlq := s2_dlq s @ [\<lparr>dl_original = fst msg, dl_reason = reason, dl_event = snd msg\<rparr>]\<rparr>)"

definition sub2_handle :: "adapter_lookup \<Rightarrow> sale_refs \<Rightarrow> sub2_env \<Rightarrow> event_field entry \<Rightarrow> sub2_state \<Rightarrow> sub2_state" where
  "sub2_handle lookup refs env msg s =
     (case snd msg of
        NoEventField \<Rightarrow> sub2_ack env (fst msg) (sub2_deadletter env msg ''missing-event-field'' s)
      | BadEventJSON t \<Rightarrow> sub2_ack env (fst msg) (sub2_deadletter env msg ''unmarshal-failed'' s)
      | EventJSON evt \<Rightarrow>
          (case Dispatch lookup (se2_persist env) refs evt (s2_tables s) of (r, db) \<Rightarrow>
             let s1 = s\<lparr>s2_tables := db\<rparr> in
             (case r of
                Inr _ \<Rightarrow> sub2_ack env (fst msg) s1
              | Inl ParseDiscard \<Rightarrow> sub2_ack env (fst msg) s1
              | Inl UnknownSource \<Rightarrow> sub2_ack env (fst msg) s1
              | Inl ParseFailed \<Rightarrow> sub2_ack env (fst msg) (sub2_deadletter env msg ''parse-failed'' s1)
              | Inl (PersistError e) \<Rightarrow> s1)))"

fun sub2_handle_all :: "adapter_lookup \<Rightarrow> sale_refs \<Rightarrow> (nat \<Rightarrow> sub2_env) \<Rightarrow> event_field entry list \<Rightarrow> sub2_state \<Rightarrow> sub2_state" where
  "sub2_handle_all lookup refs envs [] s = s"
| "sub2_handle_all lookup refs envs (m # ms) s =
     sub2_handle_all lookup refs envs ms (sub2_handle lookup refs (envs (fst m)) m s)"

definition sub2_processBatch :: "adapter_lookup \<Rightarrow> sale_refs \<Rightarrow> bool \<Rightarrow> (nat \<Rightarrow> sub2_env) \<Rightarrow> sub2_state \<Rightarrow> sub2_state" where
  "sub2_processBatch lookup refs read_fails envs s =
     (if read_fails then s
      else case xreadgroup 10 (s2_stream s) of (msgs, st) \<Rightarrow>
        sub2_handle_all lookup refs envs msgs (s\<lparr>s2_stream := st\<rparr>))"

section \<open>The abstract record of sales\<close>

text \<open>What Sub 2 promises: a log of sales, each with all its rows, where a sale whose key or
  identifier is there already changes nothing.  The tables are the columns of this log.\<close>

record sale =
  sl_tx :: Transaction
  sl_lines :: "TransactionLineItem list"
  sl_tenders :: "TransactionTender list"
  sl_discounts :: "TransactionDiscount list"
  sl_drawers :: "CashDrawerEvent list"
  sl_actions :: "CashierAction list"
  sl_loyalty :: "LoyaltyEvent list"
  sl_gifts :: "GiftCardEvent list"

definition tables_of :: "sale list \<Rightarrow> sale_tables" where
  "tables_of sales =
     \<lparr>sd_tx = map sl_tx sales, sd_lines = concat (map sl_lines sales), sd_tenders = concat (map sl_tenders sales),
      sd_discounts = concat (map sl_discounts sales), sd_drawers = concat (map sl_drawers sales),
      sd_actions = concat (map sl_actions sales), sd_loyalty = concat (map sl_loyalty sales), sd_gifts = concat (map sl_gifts sales)\<rparr>"

definition record_sale :: "sale \<Rightarrow> sale list \<Rightarrow> sale list" where
  "record_sale s sales =
     (if \<exists>x\<in>set sales. tx_ID (sl_tx x) = tx_ID (sl_tx s) \<or> sale_key (sl_tx x) = sale_key (sl_tx s) then sales else sales @ [s])"

fun prepared :: "(nat \<Rightarrow> 'r \<Rightarrow> 'r option) \<Rightarrow> ('r \<Rightarrow> 'r) \<Rightarrow> nat \<Rightarrow> 'r list \<Rightarrow> 'r list" where
  "prepared prep keep i [] = []"
| "prepared prep keep i (r # rs) =
     (case prep i r of None \<Rightarrow> [] | Some row \<Rightarrow> [keep row]) @ prepared prep keep (Suc i) rs"

text \<open>The sale an event stands for, once its references are resolved.\<close>

definition sale_rows :: "persist_env \<Rightarrow> sale_refs \<Rightarrow> CanonicalEvent \<Rightarrow> uuid \<times> uuid \<times> uuid option \<Rightarrow> sale" where
  "sale_rows env refs evt res =
     (case res of (tenantID, locationID, cashier) \<Rightarrow>
        let t = stamp_header env tenantID locationID cashier (ce_Transaction evt) in
        \<lparr>sl_tx = stored_header t,
         sl_lines = prepared (stamp_line env tenantID (tx_ID t)) stored_line 0 (ce_LineItems evt),
         sl_tenders = prepared (stamp_tender env tenantID (tx_ID t) (resolveTenderTypeID env refs tenantID (ce_SourceCode evt)))
            stored_tender 0 (ce_Tenders evt),
         sl_discounts = prepared (stamp_discount env tenantID (tx_ID t)) stored_discount 0 (ce_Discounts evt),
         sl_drawers = (case ce_CashDrawer evt of None \<Rightarrow> []
            | Some e \<Rightarrow> [stored_drawer (stamp_drawer env tenantID locationID e)]),
         sl_actions = prepared (stamp_action env tenantID locationID (tx_ID t))
            stored_action 0 (ce_CashierActions evt),
         sl_loyalty = prepared (stamp_loyalty env tenantID (tx_ID t)) stored_loyalty 0 (ce_LoyaltyEvents evt),
         sl_gifts = prepared (stamp_gift env tenantID (tx_ID t)) stored_gift 0 (ce_GiftCardEvents evt)\<rparr>)"

definition sale_of :: "persist_env \<Rightarrow> sale_refs \<Rightarrow> CanonicalEvent \<Rightarrow> sale option" where
  "sale_of env refs evt = (case resolve_refs env refs evt of Inl _ \<Rightarrow> None | Inr res \<Rightarrow> Some (sale_rows env refs evt res))"

lemma insert_row_Inserted: "insert_row f v c row tab = Inserted tab' \<Longrightarrow> tab' = tab @ [row] \<and> \<not> list_ex c tab"
  by (auto simp: insert_row_def split: if_splits)

lemma insert_row_UniqueViolation: "insert_row f v c row tab = UniqueViolation \<Longrightarrow> list_ex c tab"
  by (auto simp: insert_row_def split: if_splits)

lemma insert_loop_Inr:
  assumes "insert_loop prep ins site i rs tab = Inr tab'"
    and "\<And>i row tab tab'. ins i row tab = Inserted tab' \<Longrightarrow> tab' = tab @ [keep row]"
  shows "tab' = tab @ prepared prep keep i rs"
  using assms(1)
proof (induction rs arbitrary: i tab)
  case (Cons r rs)
  then show ?case using assms(2) by (fastforce split: option.splits insert_result.splits)
qed simp

lemma insert_children_Inr:
  assumes "insert_children env refs tn loc txID evt db = Inr db'"
  shows "db' = db\<lparr>sd_lines := sd_lines db @ prepared (stamp_line env tn txID) stored_line 0 (ce_LineItems evt),
     sd_tenders := sd_tenders db @ prepared (stamp_tender env tn txID (resolveTenderTypeID env refs tn (ce_SourceCode evt)))
        stored_tender 0 (ce_Tenders evt),
     sd_discounts := sd_discounts db @ prepared (stamp_discount env tn txID) stored_discount 0 (ce_Discounts evt),
     sd_drawers := sd_drawers db @ (case ce_CashDrawer evt of None \<Rightarrow> []
        | Some e \<Rightarrow> [stored_drawer (stamp_drawer env tn loc e)]),
     sd_actions := sd_actions db @ prepared (stamp_action env tn loc txID)
        stored_action 0 (ce_CashierActions evt),
     sd_loyalty := sd_loyalty db @ prepared (stamp_loyalty env tn txID) stored_loyalty 0 (ce_LoyaltyEvents evt),
     sd_gifts := sd_gifts db @ prepared (stamp_gift env tn txID) stored_gift 0 (ce_GiftCardEvents evt)\<rparr>"
proof -
  from assms obtain lines tenders discounts drawers actions loyalty gifts where
    l: "insert_loop (stamp_line env tn txID) (insertLineItem env) LineIns 0 (ce_LineItems evt) (sd_lines db) = Inr lines"
    and t: "insert_loop (stamp_tender env tn txID (resolveTenderTypeID env refs tn (ce_SourceCode evt))) (insertTender env) TenderIns 0
        (ce_Tenders evt) (sd_tenders db) = Inr tenders"
    and d: "insert_loop (stamp_discount env tn txID) (insertDiscount env) DiscountIns 0 (ce_Discounts evt) (sd_discounts db) = Inr discounts"
    and w: "(case ce_CashDrawer evt of None \<Rightarrow> Inr (sd_drawers db)
        | Some e \<Rightarrow> (case insertCashDrawerEvent env (stamp_drawer env tn loc e) (sd_drawers db) of
            Inserted tab \<Rightarrow> Inr tab | _ \<Rightarrow> Inl (PersistFailed DrawerIns))) = Inr drawers"
    and a: "insert_loop (stamp_action env tn loc txID) (insertCashierAction env) ActionIns 0 (ce_CashierActions evt) (sd_actions db) = Inr actions"
    and o: "insert_loop (stamp_loyalty env tn txID) (insertLoyaltyEvent env) LoyaltyIns 0 (ce_LoyaltyEvents evt) (sd_loyalty db) = Inr loyalty"
    and g: "insert_loop (stamp_gift env tn txID) (insertGiftCardEvent env) GiftIns 0 (ce_GiftCardEvents evt) (sd_gifts db) = Inr gifts"
    and db': "db' = db\<lparr>sd_lines := lines, sd_tenders := tenders, sd_discounts := discounts, sd_drawers := drawers,
        sd_actions := actions, sd_loyalty := loyalty, sd_gifts := gifts\<rparr>"
    unfolding insert_children_def bind_res_Inr_iff by blast
  have "drawers = sd_drawers db @ (case ce_CashDrawer evt of None \<Rightarrow> []
      | Some e \<Rightarrow> [stored_drawer (stamp_drawer env tn loc e)])"
    using w by (auto simp: insertCashDrawerEvent_def dest!: insert_row_Inserted split: option.splits insert_result.splits)
  moreover note
    insert_loop_Inr [OF l, where keep = stored_line]
    insert_loop_Inr [OF t, where keep = stored_tender]
    insert_loop_Inr [OF d, where keep = stored_discount]
    insert_loop_Inr [OF a, where keep = stored_action]
    insert_loop_Inr [OF o, where keep = stored_loyalty]
    insert_loop_Inr [OF g, where keep = stored_gift]
  ultimately show ?thesis unfolding db'
    by (simp add: insertLineItem_def insertTender_def insertDiscount_def insertCashierAction_def insertLoyaltyEvent_def
        insertGiftCardEvent_def insert_row_Inserted)
qed


lemma sale_key_stored [simp]: "sale_key (stored_header t) = sale_key t" "tx_ID (stored_header t) = tx_ID t"
  by (simp_all add: sale_key_def stored_header_def)

lemma tables_of_fields [simp]:
  "sd_tx (tables_of sales) = map sl_tx sales"
  by (simp add: tables_of_def)

lemma tables_of_append:
  "tables_of (sales @ [s]) =
     \<lparr>sd_tx = sd_tx (tables_of sales) @ [sl_tx s], sd_lines = sd_lines (tables_of sales) @ sl_lines s,
      sd_tenders = sd_tenders (tables_of sales) @ sl_tenders s, sd_discounts = sd_discounts (tables_of sales) @ sl_discounts s,
      sd_drawers = sd_drawers (tables_of sales) @ sl_drawers s, sd_actions = sd_actions (tables_of sales) @ sl_actions s,
      sd_loyalty = sd_loyalty (tables_of sales) @ sl_loyalty s, sd_gifts = sd_gifts (tables_of sales) @ sl_gifts s\<rparr>"
  by (simp add: tables_of_def)

lemma sale_rows_tx: "sl_tx (sale_rows env refs evt (tn, loc, cash)) = stored_header (stamp_header env tn loc cash (ce_Transaction evt))"
  by (simp add: sale_rows_def Let_def)

text \<open>What a call of \<open>Persist\<close> does: nothing, or it finds the sale there, or it adds it whole.\<close>

lemma Persist_cases:
  obtains (failed) e where "Persist env refs evt db = (Inl e, db)"
  | (known) res x where "Persist env refs evt db = (Inr (), db)" "resolve_refs env refs evt = Inr res" "x \<in> set (sd_tx db)"
      "tx_ID x = tx_ID (sl_tx (sale_rows env refs evt res)) \<or> sale_key x = sale_key (sl_tx (sale_rows env refs evt res))"
  | (added) res where "Persist env refs evt db = (Inr (), snd (Persist env refs evt db))" "resolve_refs env refs evt = Inr res"
      "\<And>sales. db = tables_of sales \<Longrightarrow> snd (Persist env refs evt db) = tables_of (sales @ [sale_rows env refs evt res])"
      "\<forall>x\<in>set (sd_tx db). tx_ID x \<noteq> tx_ID (sl_tx (sale_rows env refs evt res)) \<and> sale_key x \<noteq> sale_key (sl_tx (sale_rows env refs evt res))"
proof (cases "resolve_refs env refs evt")
  case (Inl e)
  then show thesis by (intro failed [of e]) (simp add: Persist_def)
next
  case (Inr res)
  obtain tn loc cash where res: "res = (tn, loc, cash)" by (cases res)
  define t where "t = stamp_header env tn loc cash (ce_Transaction evt)"
  have P: "Persist env refs evt db =
     (if pv_fails env BeginTx then (Inl (PersistFailed BeginTx), db)
      else (case insertTransaction env t (sd_tx db) of
          UniqueViolation \<Rightarrow> (Inr (), db)
        | InsertFailed \<Rightarrow> (Inl (PersistFailed TxIns), db)
        | Inserted txs \<Rightarrow>
            (case insert_children env refs tn loc (tx_ID t) evt (db\<lparr>sd_tx := txs\<rparr>) of
               Inl e \<Rightarrow> (Inl e, db)
             | Inr db' \<Rightarrow> if pv_fails env CommitTx then (Inl (PersistFailed CommitTx), db) else (Inr (), db'))))"
    unfolding t_def Persist_def Inr res Let_def by simp
  have tx: "sl_tx (sale_rows env refs evt res) = stored_header t" by (simp add: res t_def sale_rows_tx)
  show thesis
  proof (cases "pv_fails env BeginTx")
    case True
    then show thesis by (intro failed) (simp add: P)
  next
    case False
    show thesis
    proof (cases "insertTransaction env t (sd_tx db)")
      case UniqueViolation
      then obtain x where "x \<in> set (sd_tx db)" "tx_ID x = tx_ID t \<or> sale_key x = sale_key t"
        unfolding insertTransaction_def by (auto dest!: insert_row_UniqueViolation simp: list_ex_iff)
      then show thesis using False UniqueViolation Inr by (intro known [of res x]) (simp_all add: P tx)
    next
      case InsertFailed
      then show thesis using False by (intro failed) (simp add: P)
    next
      case (Inserted txs)
      then have txs: "txs = sd_tx db @ [stored_header t]" and new: "\<forall>x\<in>set (sd_tx db). tx_ID x \<noteq> tx_ID t \<and> sale_key x \<noteq> sale_key t"
        unfolding insertTransaction_def by (auto dest!: insert_row_Inserted simp: list_ex_iff)
      show thesis
      proof (cases "insert_children env refs tn loc (tx_ID t) evt (db\<lparr>sd_tx := txs\<rparr>)")
        case (Inl e)
        then show thesis using False Inserted by (intro failed) (simp add: P)
      next
        case (Inr db')
        show thesis
        proof (cases "pv_fails env CommitTx")
          case True
          then show thesis using False Inserted Inr by (intro failed) (simp add: P)
        next
          case commits: False
          have P': "Persist env refs evt db = (Inr (), db')" using False Inserted Inr commits by (simp add: P)
          have "db' = tables_of (sales @ [sale_rows env refs evt res])" if "db = tables_of sales" for sales
            using insert_children_Inr [OF Inr] that
            by (simp add: tables_of_append txs res sale_rows_def Let_def t_def [symmetric])
          show thesis
          proof (rule added)
            show "Persist env refs evt db = (Inr (), snd (Persist env refs evt db))" unfolding P' by simp
            show "snd (Persist env refs evt db) = tables_of (sales @ [sale_rows env refs evt res])" if "db = tables_of sales" for sales
              unfolding P' snd_conv using that by (rule \<open>\<And>sales. db = tables_of sales \<Longrightarrow> db' = tables_of (sales @ [sale_rows env refs evt res])\<close>)
          qed (use \<open>resolve_refs env refs evt = Inr res\<close> new in \<open>simp_all add: tx\<close>)
        qed
      qed
    qed
  qed
qed

text \<open>C4: \<open>Persist\<close> implements the abstract record of sales: on tables that are the columns of a log of
  sales, a failing call leaves the log as it is, whatever step failed, and a successful one appends
  the event's sale with all its rows, unless a sale of the same key is there.\<close>

theorem Persist_refines_record:
  assumes "Persist env refs evt (tables_of sales) = (r, db')"
  shows "(case r of Inl _ \<Rightarrow> db' = tables_of sales
     | Inr _ \<Rightarrow> \<exists>s. sale_of env refs evt = Some s \<and> db' = tables_of (record_sale s sales))"
proof (cases env refs evt "tables_of sales" rule: Persist_cases)
  case (failed e)
  then have "r = Inl e" "db' = tables_of sales" using assms by simp_all
  then show ?thesis by simp
next
  case (known res x)
  then have "record_sale (sale_rows env refs evt res) sales = sales" by (auto simp: record_sale_def)
  moreover have "r = Inr ()" "db' = tables_of sales" using known(1) assms by simp_all
  ultimately show ?thesis using known(2) by (simp add: sale_of_def)
next
  case (added res)
  then have "record_sale (sale_rows env refs evt res) sales = sales @ [sale_rows env refs evt res]"
    by (auto simp: record_sale_def)
  moreover have "db' = tables_of (sales @ [sale_rows env refs evt res])" using added(3) [OF refl] assms by simp
  moreover have "r = Inr ()" using added(1) assms by simp
  ultimately show ?thesis using added(2) by (simp add: sale_of_def)
qed


section \<open>Runs of the worker\<close>

text \<open>The key of the sale an event stands for, read off the reference data.\<close>

definition canonical_key :: "sale_refs \<Rightarrow> CanonicalEvent \<Rightarrow> (uuid \<times> uuid \<times> int \<times> string) option" where
  "canonical_key refs c =
     (case sr_merchants refs (ce_MerchantID c) of
        Some (Some t) \<Rightarrow>
          (case sr_locations refs (t, ce_SourceLocationCode c) of
             None \<Rightarrow> None
           | Some l \<Rightarrow> Some (t, l, tx_BusinessDate (ce_Transaction c) div (86400 * 10 ^ 9), tx_TransactionNumber (ce_Transaction c)))
      | _ \<Rightarrow> None)"

lemma canonical_key_resolved:
  "resolve_refs env refs c = Inr res \<Longrightarrow> canonical_key refs c = Some (sale_key (sl_tx (sale_rows env' refs c res)))"
  by (cases res) (auto simp: resolve_refs_def bind_res_Inr_iff lookupTenant_def lookupLocation_def canonical_key_def sale_rows_tx
      sale_key_def stamp_header_def stored_header_def split: if_splits option.splits)

text \<open>The canonical event the source's adapter makes of an envelope.\<close>

definition canonical_of :: "adapter_lookup \<Rightarrow> event \<Rightarrow> CanonicalEvent option" where
  "canonical_of lookup evt =
     (case lookup (SourceCode evt) of None \<Rightarrow> None
      | Some parser \<Rightarrow> (case parser evt of Parsed c \<Rightarrow> Some (fill_envelope evt c) | _ \<Rightarrow> None))"

text \<open>A sale in the log comes from an event of the stream; an event is in the log when a sale of its
  key is.\<close>

definition sale_from :: "adapter_lookup \<Rightarrow> sale_refs \<Rightarrow> event \<Rightarrow> sale \<Rightarrow> bool" where
  "sale_from lookup refs evt s \<longleftrightarrow> (\<exists>c env. canonical_of lookup evt = Some c \<and> sale_of env refs c = Some s)"

definition in_log :: "adapter_lookup \<Rightarrow> sale_refs \<Rightarrow> event \<Rightarrow> sale_tables \<Rightarrow> bool" where
  "in_log lookup refs evt db \<longleftrightarrow>
     (\<forall>c. canonical_of lookup evt = Some c \<longrightarrow> (\<exists>t\<in>set (sd_tx db). canonical_key refs c = Some (sale_key t)))"

text \<open>New identifiers are new, and adapters leave the identifier of the header to the store.\<close>

definition new_ids :: "(nat \<Rightarrow> sub2_env) \<Rightarrow> nat set \<Rightarrow> sale_tables \<Rightarrow> bool" where
  "new_ids envs I db \<longleftrightarrow> inj_on (\<lambda>i. pv_new (se2_persist (envs i)) TxIns) I
     \<and> (\<forall>i\<in>I. \<forall>t\<in>set (sd_tx db). pv_new (se2_persist (envs i)) TxIns \<noteq> tx_ID t)"

definition leaves_ids :: "adapter_lookup \<Rightarrow> bool" where
  "leaves_ids lookup \<longleftrightarrow> (\<forall>evt c. canonical_of lookup evt = Some c \<longrightarrow> tx_ID (ce_Transaction c) = uuid_nil)"

text \<open>A run: events are published, and the worker takes batches with new identifiers.\<close>

inductive sub2_run :: "adapter_lookup \<Rightarrow> sale_refs \<Rightarrow> sub2_state \<Rightarrow> bool" for lookup refs where
  start: "sub2_run lookup refs \<lparr>s2_tables = tables_of [], s2_stream = \<lparr>st_entries = [], st_delivered = 0, st_pending = []\<rparr>, s2_dlq = []\<rparr>"
| publish: "sub2_run lookup refs s \<Longrightarrow> sub2_run lookup refs (s\<lparr>s2_stream := xadd e (s2_stream s)\<rparr>)"
| batch: "sub2_run lookup refs s \<Longrightarrow> new_ids envs (set (map fst (fst (xreadgroup 10 (s2_stream s))))) (s2_tables s)
    \<Longrightarrow> sub2_run lookup refs (sub2_processBatch lookup refs rf envs s)"

definition sales_ok :: "adapter_lookup \<Rightarrow> sale_refs \<Rightarrow> event_field entry list \<Rightarrow> sale list \<Rightarrow> bool" where
  "sales_ok lookup refs entries sales \<longleftrightarrow> distinct (map (\<lambda>s. sale_key (sl_tx s)) sales)
     \<and> (\<forall>s\<in>set sales. \<exists>i evt. (i, EventJSON evt) \<in> set entries \<and> sale_from lookup refs evt s)"

definition sub2_inv :: "adapter_lookup \<Rightarrow> sale_refs \<Rightarrow> sub2_state \<Rightarrow> bool" where
  "sub2_inv lookup refs s \<longleftrightarrow> stream_ok (s2_stream s)
     \<and> (\<exists>sales. s2_tables s = tables_of sales \<and> sales_ok lookup refs (st_entries (s2_stream s)) sales)
     \<and> (\<forall>i evt. (i, EventJSON evt) \<in> set (st_entries (s2_stream s)) \<and> i < st_delivered (s2_stream s)
          \<and> i \<notin> set (st_pending (s2_stream s)) \<longrightarrow> in_log lookup refs evt (s2_tables s))"

text \<open>What dispatching an event does to the log.\<close>

lemma Dispatch_log:
  assumes "Dispatch lookup penv refs evt (tables_of sales) = (r, db)" and "leaves_ids lookup"
    and "\<forall>t\<in>set sales. pv_new penv TxIns \<noteq> tx_ID (sl_tx t)"
  obtains (same) "db = tables_of sales" "(\<forall>e. r \<noteq> Inl (PersistError e)) \<longrightarrow> in_log lookup refs evt db"
  | (new) s where "db = tables_of (sales @ [s])" "sale_from lookup refs evt s" "tx_ID (sl_tx s) = pv_new penv TxIns"
      "\<forall>t\<in>set sales. sale_key (sl_tx t) \<noteq> sale_key (sl_tx s)" "in_log lookup refs evt db"
proof (cases "canonical_of lookup evt")
  case None
  then have "db = tables_of sales" using assms(1)
    by (auto simp: Dispatch_def canonical_of_def split: option.splits parse_result.splits)
  then show thesis using None by (intro same) (simp_all add: in_log_def)
next
  case (Some c)
  then have D: "Dispatch lookup penv refs evt (tables_of sales) =
      (case Persist penv refs c (tables_of sales) of (r, db') \<Rightarrow> (map_err PersistError r, db'))"
    by (auto simp: Dispatch_def canonical_of_def split: option.splits parse_result.splits)
  have c0: "tx_ID (ce_Transaction c) = uuid_nil" using assms(2) Some by (simp add: leaves_ids_def)
  have id: "tx_ID (sl_tx (sale_rows penv refs c res)) = pv_new penv TxIns" for res
    by (cases res) (simp add: sale_rows_tx stamp_header_def fresh_id_def c0)
  show thesis
  proof (cases penv refs c "tables_of sales" rule: Persist_cases)
    case (failed e)
    then show thesis using assms(1) D by (intro same) auto
  next
    case (known res x)
    then have "canonical_key refs c = Some (sale_key x)"
      using assms(3) id canonical_key_resolved [OF known(2)] by auto
    then show thesis using assms(1) D known Some by (intro same) (auto simp: in_log_def)
  next
    case (added res)
    let ?s = "sale_rows penv refs c res"
    have db: "db = tables_of (sales @ [?s])" using added(3) [OF refl] added(1) assms(1) D by (simp add: prod_eq_iff split_beta)
    show thesis
    proof (rule new [OF db])
      show "sale_from lookup refs evt ?s" 
        unfolding sale_from_def sale_of_def using Some added(2) by (intro exI [of _ c] exI [of _ penv]) simp
      show "\<forall>t\<in>set sales. sale_key (sl_tx t) \<noteq> sale_key (sl_tx ?s)" using added(4) by auto
      show "in_log lookup refs evt db" using Some canonical_key_resolved [OF added(2)] db by (auto simp: in_log_def)
    qed (rule id)
  qed
qed

lemma in_log_append: "in_log lookup refs evt (tables_of sales) \<Longrightarrow> in_log lookup refs evt (tables_of (sales @ [s]))"
  by (auto simp: in_log_def)

lemma sub2_ack_fields [simp]: "s2_tables (sub2_ack env i s) = s2_tables s"
  "st_entries (s2_stream (sub2_ack env i s)) = st_entries (s2_stream s)"
  "st_delivered (s2_stream (sub2_ack env i s)) = st_delivered (s2_stream s)"
  by (simp_all add: sub2_ack_def xack_def)

lemma sub2_deadletter_fields [simp]: "s2_tables (sub2_deadletter env m why s) = s2_tables s"
  "s2_stream (sub2_deadletter env m why s) = s2_stream s"
  by (simp_all add: sub2_deadletter_def)

lemma sub2_ack_pending: "set (st_pending (s2_stream s)) - {i} \<subseteq> set (st_pending (s2_stream (sub2_ack env i s)))"
  "set (st_pending (s2_stream (sub2_ack env i s))) \<subseteq> set (st_pending (s2_stream s))"
  by (auto simp: sub2_ack_def in_pending_xack)


lemma sub2_handle_tables:
  "s2_tables (sub2_handle lookup refs env (i, e) s) =
     (case e of EventJSON evt \<Rightarrow> snd (Dispatch lookup (se2_persist env) refs evt (s2_tables s)) | _ \<Rightarrow> s2_tables s)"
  by (auto simp: sub2_handle_def Let_def split: event_field.split prod.split sum.split dispatch_error.split)

lemma sub2_handle_stream:
  "s2_stream (sub2_handle lookup refs env (i, e) s) = s2_stream s
   \<or> s2_stream (sub2_handle lookup refs env (i, e) s) = xack i (s2_stream s)
     \<and> (\<forall>evt. e = EventJSON evt \<longrightarrow> (\<forall>x. fst (Dispatch lookup (se2_persist env) refs evt (s2_tables s)) \<noteq> Inl (PersistError x)))"
  by (auto simp: sub2_handle_def sub2_ack_def Let_def split: event_field.split prod.split sum.split dispatch_error.split)

lemma xack_fields [simp]: "st_entries (xack i s) = st_entries s" "st_delivered (xack i s) = st_delivered s"
  by (simp_all add: xack_def)

lemma stream_entry_unique:
  "stream_ok s \<Longrightarrow> (i, e) \<in> set (st_entries s) \<Longrightarrow> (i, e') \<in> set (st_entries s) \<Longrightarrow> e = e'"
  by (metis distinct_upt eq_key_imp_eq_value stream_ok_def)

lemma sub2_handle_inv:
  assumes inv: "sub2_inv lookup refs s" and l: "leaves_ids lookup"
    and e: "(i, e) \<in> set (st_entries (s2_stream s))"
    and id: "\<forall>t\<in>set (sd_tx (s2_tables s)). pv_new (se2_persist env) TxIns \<noteq> tx_ID t"
  defines "s' \<equiv> sub2_handle lookup refs env (i, e) s"
  shows "sub2_inv lookup refs s' \<and> st_entries (s2_stream s') = st_entries (s2_stream s)
    \<and> (\<forall>t\<in>set (sd_tx (s2_tables s')). t \<in> set (sd_tx (s2_tables s)) \<or> tx_ID t = pv_new (se2_persist env) TxIns)"
proof -
  let ?E = "st_entries (s2_stream s)"
  from inv obtain sales where sales: "s2_tables s = tables_of sales" "sales_ok lookup refs ?E sales" and ok: "stream_ok (s2_stream s)"
    and log: "\<And>j evt. (j, EventJSON evt) \<in> set ?E \<Longrightarrow> j < st_delivered (s2_stream s) \<Longrightarrow> j \<notin> set (st_pending (s2_stream s))
        \<Longrightarrow> in_log lookup refs evt (s2_tables s)"
    unfolding sub2_inv_def by blast
  have stream: "st_entries (s2_stream s') = ?E" "st_delivered (s2_stream s') = st_delivered (s2_stream s)" "stream_ok (s2_stream s')"
    using sub2_handle_stream [of lookup refs env i e s] stream_ok_xack ok unfolding s'_def by auto
  have acked: "j = i \<and> (\<forall>evt. e = EventJSON evt \<longrightarrow> (\<forall>x. fst (Dispatch lookup (se2_persist env) refs evt (s2_tables s)) \<noteq> Inl (PersistError x)))"
    if "j \<in> set (st_pending (s2_stream s))" "j \<notin> set (st_pending (s2_stream s'))" for j
    using sub2_handle_stream [of lookup refs env i e s] that unfolding s'_def by (auto simp: in_pending_xack)
  have "\<exists>sales'. s2_tables s' = tables_of sales' \<and> sales_ok lookup refs ?E sales'
      \<and> (\<forall>t\<in>set (sd_tx (s2_tables s')). t \<in> set (sd_tx (s2_tables s)) \<or> tx_ID t = pv_new (se2_persist env) TxIns)
      \<and> (\<forall>evt. in_log lookup refs evt (s2_tables s) \<longrightarrow> in_log lookup refs evt (s2_tables s'))
      \<and> (\<forall>evt. e = EventJSON evt \<and> (\<forall>x. fst (Dispatch lookup (se2_persist env) refs evt (s2_tables s)) \<noteq> Inl (PersistError x))
           \<longrightarrow> in_log lookup refs evt (s2_tables s'))"
  proof (cases "\<exists>evt. e = EventJSON evt")
    case False
    then have "s2_tables s' = s2_tables s" unfolding s'_def sub2_handle_tables by (auto split: event_field.split)
    then show ?thesis using sales False by (intro exI [of _ sales]) simp
  next
    case True
    then obtain evt where evt: "e = EventJSON evt" by blast
    obtain r db where D: "Dispatch lookup (se2_persist env) refs evt (tables_of sales) = (r, db)" by fastforce
    have s': "s2_tables s' = db" using D sales evt unfolding s'_def sub2_handle_tables by simp
    have id': "\<forall>t\<in>set sales. pv_new (se2_persist env) TxIns \<noteq> tx_ID (sl_tx t)" using id sales by simp
    show ?thesis
    proof (cases rule: Dispatch_log [OF D l id', case_names same new])
      case same
      then show ?thesis using sales evt D s' by (intro exI [of _ sales]) simp
    next
      case (new sl)
      then have "sales_ok lookup refs ?E (sales @ [sl])" using sales(2) e evt unfolding sales_ok_def by fastforce
      with new sales show ?thesis using s' evt by (intro exI [of _ "sales @ [sl]"]) (auto intro: in_log_append)
    qed
  qed
  then obtain sales' where new: "s2_tables s' = tables_of sales'" "sales_ok lookup refs ?E sales'"
      "\<forall>t\<in>set (sd_tx (s2_tables s')). t \<in> set (sd_tx (s2_tables s)) \<or> tx_ID t = pv_new (se2_persist env) TxIns"
    and mono: "\<And>evt. in_log lookup refs evt (s2_tables s) \<Longrightarrow> in_log lookup refs evt (s2_tables s')"
    and done': "\<And>evt. e = EventJSON evt \<Longrightarrow> (\<forall>x. fst (Dispatch lookup (se2_persist env) refs evt (s2_tables s)) \<noteq> Inl (PersistError x))
        \<Longrightarrow> in_log lookup refs evt (s2_tables s')"
    by blast
  have "in_log lookup refs evt (s2_tables s')"
    if "(j, EventJSON evt) \<in> set ?E" "j < st_delivered (s2_stream s)" "j \<notin> set (st_pending (s2_stream s'))" for j evt
  proof (cases "j \<in> set (st_pending (s2_stream s))")
    case True
    then have "j = i" using acked that(3) by blast
    then have "e = EventJSON evt" using stream_entry_unique [OF ok e] that(1) by blast
    then show ?thesis using done' acked [OF True that(3)] by blast
  next
    case False
    then show ?thesis using log mono that(1,2) by blast
  qed
  then show ?thesis unfolding sub2_inv_def using stream new by auto
qed

lemma sub2_handle_all_inv:
  assumes "sub2_inv lookup refs s" "leaves_ids lookup" "set ms \<subseteq> set (st_entries (s2_stream s))" "distinct (map fst ms)"
    and "new_ids envs (set (map fst ms)) (s2_tables s)"
  shows "sub2_inv lookup refs (sub2_handle_all lookup refs envs ms s)"
  using assms
proof (induction ms arbitrary: s)
  case (Cons m ms)
  obtain i e where m: "m = (i, e)" by fastforce
  let ?s = "sub2_handle lookup refs (envs i) (i, e) s"
  have inj: "inj_on (\<lambda>i. pv_new (se2_persist (envs i)) TxIns) (insert i (set (map fst ms)))"
    and new: "\<forall>j\<in>insert i (set (map fst ms)). \<forall>t\<in>set (sd_tx (s2_tables s)). pv_new (se2_persist (envs j)) TxIns \<noteq> tx_ID t"
    using Cons.prems(5) by (simp_all add: new_ids_def m)
  have step: "sub2_inv lookup refs ?s" "st_entries (s2_stream ?s) = st_entries (s2_stream s)"
    "\<forall>t\<in>set (sd_tx (s2_tables ?s)). t \<in> set (sd_tx (s2_tables s)) \<or> tx_ID t = pv_new (se2_persist (envs i)) TxIns"
    using sub2_handle_inv [OF Cons.prems(1,2), of i e "envs i"] Cons.prems(3) new m by auto
  have "pv_new (se2_persist (envs j)) TxIns \<noteq> tx_ID t" if "j \<in> set (map fst ms)" "t \<in> set (sd_tx (s2_tables ?s))" for j t
  proof -
    have "j \<noteq> i" using Cons.prems(4) that(1) m by auto
    then have "pv_new (se2_persist (envs j)) TxIns \<noteq> pv_new (se2_persist (envs i)) TxIns"
      using inj_onD [OF inj, of j i] that(1) by blast
    then show ?thesis using step(3) new that by fastforce
  qed
  then have "new_ids envs (set (map fst ms)) (s2_tables ?s)"
    using inj by (auto simp: new_ids_def intro: inj_on_subset)
  then show ?case using Cons.IH [OF step(1) Cons.prems(2)] Cons.prems(3,4) step(2) m by simp
qed simp

lemma sub2_run_inv: "sub2_run lookup refs s \<Longrightarrow> leaves_ids lookup \<Longrightarrow> sub2_inv lookup refs s"
proof (induction rule: sub2_run.induct)
  case start
  then show ?case by (simp add: sub2_inv_def stream_ok_def sales_ok_def exI [of _ "[]"])
next
  case (publish s e)
  then have inv: "sub2_inv lookup refs s" by blast
  have entries: "st_entries (xadd e (s2_stream s)) = st_entries (s2_stream s) @ [(length (st_entries (s2_stream s)), e)]"
    by (simp add: xadd_def)
  have "\<exists>sales. s2_tables s = tables_of sales \<and> sales_ok lookup refs (st_entries (xadd e (s2_stream s))) sales"
    using inv unfolding sub2_inv_def sales_ok_def entries by fastforce
  moreover have "st_delivered (s2_stream s) \<le> length (st_entries (s2_stream s))"
    using inv by (simp add: sub2_inv_def stream_ok_def)
  ultimately show ?case using inv stream_ok_xadd unfolding sub2_inv_def entries by (auto simp: entries)
next
  case (batch s envs rf)
  then have inv: "sub2_inv lookup refs s" by blast
  obtain msgs st where x: "xreadgroup 10 (s2_stream s) = (msgs, st)" by fastforce
  let ?s = "s\<lparr>s2_stream := st\<rparr>"
  have ok: "stream_ok (s2_stream s)" using inv by (simp add: sub2_inv_def)
  note st = stream_ok_xreadgroup [OF ok x]
  have sub: "st_entries st = st_entries (s2_stream s)" "set msgs \<subseteq> set (st_entries st)" "st_delivered st = st_delivered (s2_stream s) + length msgs"
    using x set_take_subset [of 10 "drop (st_delivered (s2_stream s)) (st_entries (s2_stream s))"]
      set_drop_subset [of "st_delivered (s2_stream s)" "st_entries (s2_stream s)"]
    by (auto simp: xreadgroup_def Let_def simp del: set_take_subset set_drop_subset)
  have "sub2_inv lookup refs ?s"
    unfolding sub2_inv_def
  proof (intro conjI allI impI)
    show "\<exists>sales. s2_tables ?s = tables_of sales \<and> sales_ok lookup refs (st_entries (s2_stream ?s)) sales"
      using inv by (simp add: sub2_inv_def sub)
    show "stream_ok (s2_stream ?s)" using st by simp
    fix i evt
    assume "(i, EventJSON evt) \<in> set (st_entries (s2_stream ?s)) \<and> i < st_delivered (s2_stream ?s) \<and> i \<notin> set (st_pending (s2_stream ?s))"
    then have i: "(i, EventJSON evt) \<in> set (st_entries (s2_stream s))" "i < st_delivered (s2_stream s) + length msgs"
      "i \<notin> set (st_pending (s2_stream s))" "i \<notin> set (map fst msgs)"
      using st by (auto simp: sub)
    have "i < st_delivered (s2_stream s)"
    proof (rule ccontr)
      assume "\<not> i < st_delivered (s2_stream s)"
      then have "i \<in> set (map fst msgs)"
        using i(2) xreadgroup_ids [OF ok x] by simp
      with i(4) show False by blast
    qed
    then show "in_log lookup refs evt (s2_tables ?s)" using inv i by (auto simp: sub2_inv_def)
  qed
  then have "sub2_inv lookup refs (sub2_handle_all lookup refs envs msgs ?s)"
    using sub2_handle_all_inv [of lookup refs ?s msgs envs] batch st sub x by simp
  then show ?case using inv by (simp add: sub2_processBatch_def x)
qed


text \<open>C3: Sub 2 records every sale once: after any run, with any failures of the database and of the
  acknowledgements, the tables are the columns of a log of sales with pairwise different keys,
  each the sale of an event of the stream, and every delivered event that is no longer pending
  and that its adapter took for a sale is in the log.\<close>

theorem sub2_exactly_once:
  assumes "sub2_run lookup refs s" and "leaves_ids lookup"
  shows "(\<exists>sales. s2_tables s = tables_of sales \<and> distinct (map (\<lambda>x. sale_key (sl_tx x)) sales)
       \<and> (\<forall>x\<in>set sales. \<exists>i evt. (i, EventJSON evt) \<in> set (st_entries (s2_stream s)) \<and> sale_from lookup refs evt x))
    \<and> (\<forall>i evt. (i, EventJSON evt) \<in> set (st_entries (s2_stream s)) \<and> i < st_delivered (s2_stream s)
         \<and> i \<notin> set (st_pending (s2_stream s)) \<longrightarrow> in_log lookup refs evt (s2_tables s))"
  using sub2_run_inv [OF assms] unfolding sub2_inv_def sales_ok_def by blast



text \<open>A source whose every event is the same sale, published twice and taken in one batch.\<close>

definition toy_header :: Transaction where
  "toy_header = \<lparr>tx_ID = uuid_nil, tx_TenantID = uuid_nil, tx_TransactionNumber = ''T1'', tx_TransactionType = ''sale'',
     tx_ParentTransactionID = None, tx_LocationID = uuid_nil, tx_POSTerminalID = None, tx_CashierEmployeeID = None,
     tx_CustomerID = None, tx_LoyaltyMembershipID = None, tx_BusinessDate = 0, tx_StartedAt = 0, tx_EndedAt = 0,
     tx_Status = ''completed'', tx_TicketNumber = None, tx_ItemCount = 1, tx_Subtotal = ''5'', tx_TaxTotal = ''0'',
     tx_DiscountTotal = ''0'', tx_GrandTotal = ''5'', tx_Currency = ''USD'', tx_Channel = ''pos'', tx_POSSoftwareVersion = None,
     tx_IsTrainingMode = False, tx_IsOffline = False, tx_IsReentered = False, tx_IsSuspended = False, tx_VoidReason = None,
     tx_Attributes = no_raw, tx_ExternalIDs = no_raw\<rparr>"

definition toy_canonical :: CanonicalEvent where
  "toy_canonical = \<lparr>ce_EventID = uuid_nil, ce_MerchantID = uuid_nil, ce_SourceCode = [], ce_SourceTxnID = ''T1'',
     ce_SourceLocationCode = ''L'', ce_SourceCashierCode = [], ce_Transaction = toy_header,
     ce_LineItems = [zero_line\<lparr>li_LineNumber := 1, li_Quantity := ''1'', li_UnitPrice := ''5'', li_UnitDiscount := ''0'', li_UnitTax := ''0''\<rparr>],
     ce_Tenders = [], ce_Discounts = [], ce_CashDrawer = None, ce_CashierActions = [], ce_LoyaltyEvents = [], ce_GiftCardEvents = [],
     ce_ParsedAt = 0, ce_Attributes = no_raw\<rparr>"

definition toy_lookup :: adapter_lookup where
  "toy_lookup = [''pos'' \<mapsto> (\<lambda>evt. Parsed toy_canonical)]"

definition toy_event2 :: event where
  "toy_event2 = \<lparr>EventID = 1, EventHash = [], SourceCode = ''pos'', MerchantID = 7, Timestamp = 0, IngestedAt = 0, Payload = [], Nonce = []\<rparr>"

definition toy_refs :: sale_refs where
  "toy_refs = \<lparr>sr_merchants = [7 \<mapsto> Some 70], sr_locations = [(70, ''L'') \<mapsto> 71], sr_employees = Map.empty, sr_tender_types = Map.empty\<rparr>"

definition toy_envs :: "nat \<Rightarrow> sub2_env" where
  "toy_envs i = \<lparr>se2_persist = \<lparr>pv_fails = \<lambda>_. False, pv_new = (\<lambda>site. of_nat i + 100), pv_numeric = (\<lambda>s. s \<noteq> [])\<rparr>,
     se2_ack_fails = False, se2_dlq_fails = False\<rparr>"

definition toy_published :: sub2_state where
  "toy_published = \<lparr>s2_tables = tables_of [],
     s2_stream = xadd (EventJSON toy_event2) (xadd (EventJSON toy_event2) \<lparr>st_entries = [], st_delivered = 0, st_pending = []\<rparr>), s2_dlq = []\<rparr>"

lemma toy_leaves_ids: "leaves_ids toy_lookup"
  by (auto simp: leaves_ids_def canonical_of_def toy_lookup_def fill_envelope_def toy_canonical_def toy_header_def
      split: if_splits option.splits parse_result.splits)

lemma toy_run: "sub2_run toy_lookup toy_refs (sub2_processBatch toy_lookup toy_refs False toy_envs toy_published)"
proof (rule sub2_run.batch)
  show "sub2_run toy_lookup toy_refs toy_published"
    using sub2_run.publish [OF sub2_run.publish [OF sub2_run.start], of toy_lookup toy_refs "EventJSON toy_event2" "EventJSON toy_event2"]
    by (simp add: toy_published_def)
  show "new_ids toy_envs (set (map fst (fst (xreadgroup 10 (s2_stream toy_published))))) (s2_tables toy_published)"
    by (simp add: new_ids_def toy_envs_def toy_published_def xreadgroup_def xadd_def Let_def tables_of_def)
qed

lemmas toy_eval = toy_envs_def toy_refs_def toy_canonical_def toy_header_def zero_line_def Persist_def resolve_refs_def lookupTenant_def
  lookupLocation_def resolve_cashier_def stamp_header_def insertTransaction_def insert_row_def insert_children_def stamp_line_def
  insertLineItem_def opt_numeric_def fresh_id_def stored_header_def stored_line_def tables_of_def resolveTenderTypeID_def

lemma toy_first: "Persist (se2_persist (toy_envs 0)) toy_refs (fill_envelope toy_event2 toy_canonical) (tables_of []) =
   (Inr (), tables_of [sale_rows (se2_persist (toy_envs 0)) toy_refs (fill_envelope toy_event2 toy_canonical) (70, 71, None)])"
  by (simp add: toy_eval fill_envelope_def toy_event2_def sale_rows_def Let_def)

definition toy_sale :: sale where
  "toy_sale = sale_rows (se2_persist (toy_envs 0)) toy_refs (fill_envelope toy_event2 toy_canonical) (70, 71, None)"

lemma toy_second: "Persist (se2_persist (toy_envs (Suc 0))) toy_refs (fill_envelope toy_event2 toy_canonical) (tables_of [toy_sale]) =
   (Inr (), tables_of [toy_sale])"
  by (simp add: toy_eval fill_envelope_def toy_event2_def sale_rows_def sale_key_def toy_sale_def Let_def)

lemma toy_batch:
  "sub2_processBatch toy_lookup toy_refs False toy_envs toy_published =
     toy_published\<lparr>s2_tables := tables_of [toy_sale], s2_stream := (s2_stream toy_published)\<lparr>st_delivered := 2\<rparr>\<rparr>"
proof -
  have dispatch: "Dispatch toy_lookup (se2_persist (toy_envs 0)) toy_refs toy_event2 (tables_of []) = (Inr (), tables_of [toy_sale])"
    "Dispatch toy_lookup (se2_persist (toy_envs (Suc 0))) toy_refs toy_event2 (tables_of [toy_sale]) = (Inr (), tables_of [toy_sale])"
    using toy_first toy_second by (simp_all add: Dispatch_def toy_lookup_def toy_event2_def toy_sale_def)
  have handle: "sub2_handle toy_lookup toy_refs (toy_envs i) (i, EventJSON toy_event2) s =
      s\<lparr>s2_tables := db, s2_stream := xack i (s2_stream s)\<rparr>"
    if "Dispatch toy_lookup (se2_persist (toy_envs i)) toy_refs toy_event2 (s2_tables s) = (Inr (), db)" for i s db
    unfolding sub2_handle_def using that by (simp add: Let_def sub2_ack_def) (simp add: toy_envs_def)
  have msgs: "xreadgroup 10 (s2_stream toy_published) =
      ([(0, EventJSON toy_event2), (1, EventJSON toy_event2)], (s2_stream toy_published)\<lparr>st_delivered := 2, st_pending := [0, 1]\<rparr>)"
    by (simp add: toy_published_def xreadgroup_def xadd_def Let_def)
  have "s2_tables toy_published = tables_of []" by (simp add: toy_published_def)
  then show ?thesis
    unfolding sub2_processBatch_def msgs by (simp add: handle dispatch xack_def) (simp add: toy_published_def xadd_def)
qed

theorem sub2_exactly_once_witness:
  "\<exists>s sales. sub2_run toy_lookup toy_refs s \<and> length (st_entries (s2_stream s)) = 2 \<and> st_pending (s2_stream s) = []
    \<and> length (sd_tx (s2_tables s)) = 1 \<and> s2_tables s = tables_of sales \<and> distinct (map (\<lambda>x. sale_key (sl_tx x)) sales)"
proof -
  let ?s = "sub2_processBatch toy_lookup toy_refs False toy_envs toy_published"
  have "length (st_entries (s2_stream ?s)) = 2 \<and> st_pending (s2_stream ?s) = [] \<and> length (sd_tx (s2_tables ?s)) = 1"
    by (simp add: toy_batch) (simp add: toy_published_def xadd_def)
  then show ?thesis using sub2_exactly_once [OF toy_run toy_leaves_ids] toy_run by blast
qed

theorem Persist_refines_record_witness:
  "\<exists>s db'. snd (Persist (se2_persist (toy_envs 0)) toy_refs (fill_envelope toy_event2 toy_canonical) (tables_of [])) = db'
    \<and> sale_of (se2_persist (toy_envs 0)) toy_refs (fill_envelope toy_event2 toy_canonical) = Some s \<and> db' = tables_of (record_sale s [])"
  using Persist_refines_record [OF toy_first] toy_first by auto

end
