(* ===== verification/Adapters.thy ===== *)
theory Adapters
  imports Sub2 Money Float64
begin

text \<open>
  The point-of-sale adapters (\<open>adapters\<close>): the registry, and the parsers of Square and Counterpoint.
  Decoding a payload into the source's structures, encoding/json's reflection, is a parameter; the
  structures it fills are records here, without the fields that the parsers never read.
\<close>

section \<open>The registry\<close>

text \<open>An adapter is its source code and its parser.\<close>

record source_adapter =
  sa_SourceCode :: string
  sa_Parse :: "event \<Rightarrow> parse_result"

type_synonym registry = "string \<rightharpoonup> source_adapter"

datatype register_error = NilAdapter | EmptySourceCode | AlreadyRegistered string

definition Register :: "source_adapter option \<Rightarrow> registry \<Rightarrow> register_error + registry" where
  "Register a reg =
     (case a of
        None \<Rightarrow> Inl NilAdapter
      | Some ad \<Rightarrow>
          if sa_SourceCode ad = [] then Inl EmptySourceCode
          else if reg (sa_SourceCode ad) \<noteq> None then Inl (AlreadyRegistered (sa_SourceCode ad))
          else Inr (reg(sa_SourceCode ad \<mapsto> ad)))"

text \<open>A panic is \<open>None\<close>.\<close>

definition MustRegister :: "source_adapter option \<Rightarrow> registry \<Rightarrow> registry option" where
  "MustRegister a reg = (case Register a reg of Inl _ \<Rightarrow> None | Inr r \<Rightarrow> Some r)"

definition registry_lookup :: "registry \<Rightarrow> adapter_lookup" where
  "registry_lookup reg code = map_option sa_Parse (reg code)"

section \<open>Rendering amounts\<close>

definition zeroPad2 :: "go_int64 \<Rightarrow> string" where
  "zeroPad2 n = (if n < 10 then CHR ''0'' # fmt_int n else fmt_int n)"

definition centsToDecimalString :: "go_int64 \<Rightarrow> string" where
  "centsToDecimalString cents =
     (let neg = (if cents < 0 then ''-'' else []); c = (if cents < 0 then wrap64 (- cents) else cents) in
      neg @ fmt_int (c sdiv 100) @ ''.'' @ zeroPad2 (c smod 100))"

text \<open>\<open>strconv.FormatFloat(v, 'f', 4, 64)\<close>: the exact value rounded to four decimals, ties to even.\<close>

definition decimalString :: "float64 \<Rightarrow> string" where
  "decimalString v =
     (let n = round_even (\<bar>v\<bar> * 10000) in
      (if v < 0 then ''-'' else []) @ fmt_int (n div 10000) @ ''.'' @ fmt_pad 4 (nat (n mod 10000)))"

definition strPtrOrNil :: "string \<Rightarrow> string option" where
  "strPtrOrNil s = (if s = [] then None else Some s)"

fun firstNonEmpty :: "string list \<Rightarrow> string" where
  "firstNonEmpty [] = []"
| "firstNonEmpty (v # vs) = (if v \<noteq> [] then v else firstNonEmpty vs)"

section \<open>Square\<close>

record squareMoney =
  sm_Amount :: go_int64
  sm_Currency :: string

record squareCard =
  sc_CardBrand :: string
  sc_Last4 :: string
  sc_EntryMethod :: string
  sc_AuthCode :: string

record squareCash =
  sh_BuyerSupplied :: squareMoney
  sh_ChangeBack :: squareMoney

record squarePayment =
  sp_ID :: string
  sp_LocationID :: string
  sp_AmountMoney :: squareMoney
  sp_CreatedAt :: gotime
  sp_CardDetails :: "squareCard option"
  sp_CashDetails :: "squareCash option"
  sp_EmployeeID :: string
  sp_TeamMemberID :: string

record squareRefund =
  sf_ID :: string
  sf_PaymentID :: string
  sf_LocationID :: string
  sf_AmountMoney :: squareMoney
  sf_Reason :: string
  sf_CreatedAt :: gotime

record squareEnvelope =
  sq_Type :: string
  sq_CreatedAt :: gotime
  sq_Payment :: "squarePayment option"
  sq_Refund :: "squareRefund option"

definition square_external_ids :: "string \<Rightarrow> string \<Rightarrow> raw_message" where
  "square_external_ids squareID parentID =
     RawMembers ((if parentID \<noteq> [] then [(''square_parent_payment_id'', parentID)] else []) @ [(''square_payment_id'', squareID)])"

text \<open>What a payment and a refund have in common after the first branch of \<open>parsePayment\<close>.\<close>

record square_fields =
  sqf_money :: squareMoney
  sqf_txn :: string
  sqf_location :: string
  sqf_employee :: string
  sqf_time :: gotime
  sqf_void :: string
  sqf_card :: "squareCard option"
  sqf_cash :: "squareCash option"
  sqf_parent :: string

definition square_fields_of :: "squareEnvelope \<Rightarrow> string \<Rightarrow> square_fields option" where
  "square_fields_of sq txnType =
     (if txnType = ''sale'' then
        map_option (\<lambda>p. \<lparr>sqf_money = sp_AmountMoney p, sqf_txn = sp_ID p, sqf_location = sp_LocationID p,
          sqf_employee = firstNonEmpty [sp_EmployeeID p, sp_TeamMemberID p], sqf_time = sp_CreatedAt p, sqf_void = [],
          sqf_card = sp_CardDetails p, sqf_cash = sp_CashDetails p, sqf_parent = []\<rparr>) (sq_Payment sq)
      else
        map_option (\<lambda>r. \<lparr>sqf_money = sf_AmountMoney r, sqf_txn = sf_ID r, sqf_location = sf_LocationID r,
          sqf_employee = [], sqf_time = sf_CreatedAt r, sqf_void = sf_Reason r, sqf_card = None, sqf_cash = None,
          sqf_parent = sf_PaymentID r\<rparr>) (sq_Refund sq))"

text \<open>The header that both adapters start from; the fields not named in their literals are zero.\<close>

definition pos_header ::
  "string \<Rightarrow> string \<Rightarrow> gotime \<Rightarrow> int \<Rightarrow> string \<times> string \<times> string \<times> string \<Rightarrow> string \<Rightarrow> string option \<Rightarrow> string option
     \<Rightarrow> string \<Rightarrow> raw_message \<Rightarrow> Transaction" where
  "pos_header number txnType time items amounts currency terminal void payload ext =
     (case amounts of (subtotal, tax, discount, grand) \<Rightarrow>
      \<lparr>tx_ID = uuid_nil, tx_TenantID = uuid_nil, tx_TransactionNumber = number, tx_TransactionType = txnType,
       tx_ParentTransactionID = None, tx_LocationID = uuid_nil, tx_POSTerminalID = terminal, tx_CashierEmployeeID = None,
       tx_CustomerID = None, tx_LoyaltyMembershipID = None, tx_BusinessDate = time, tx_StartedAt = time, tx_EndedAt = time,
       tx_Status = ''completed'', tx_TicketNumber = None, tx_ItemCount = items, tx_Subtotal = subtotal, tx_TaxTotal = tax,
       tx_DiscountTotal = discount, tx_GrandTotal = grand, tx_Currency = currency, tx_Channel = ''pos'',
       tx_POSSoftwareVersion = None, tx_IsTrainingMode = False, tx_IsOffline = False, tx_IsReentered = False,
       tx_IsSuspended = False, tx_VoidReason = void, tx_Attributes = RawText payload, tx_ExternalIDs = ext\<rparr>)"

definition square_tender :: "square_fields \<Rightarrow> string \<Rightarrow> string \<Rightarrow> string \<Rightarrow> TransactionTender" where
  "square_tender f txnType amount currency =
     (let t0 = zero_tender\<lparr>td_TenderSequence := 1, td_Amount := amount, td_Currency := currency, td_IsRefund := (txnType = ''refund'')\<rparr>;
          t1 = (case sqf_card f of None \<Rightarrow> t0
             | Some c \<Rightarrow> t0\<lparr>td_CardBrand := strPtrOrNil (sc_CardBrand c), td_CardLast4 := strPtrOrNil (sc_Last4 c),
                 td_AuthorizationCode := strPtrOrNil (sc_AuthCode c), td_Contactless := (sc_EntryMethod c = ''CONTACTLESS'')\<rparr>) in
      (case sqf_cash f of None \<Rightarrow> t1
       | Some h \<Rightarrow> t1\<lparr>td_ChangeAmount := centsToDecimalString (sm_Amount (sh_ChangeBack h))\<rparr>))"

definition parsePayment :: "gotime \<Rightarrow> event \<Rightarrow> squareEnvelope \<Rightarrow> string \<Rightarrow> parse_result" where
  "parsePayment now env sq txnType =
     (case square_fields_of sq txnType of
        None \<Rightarrow> ParseError
      | Some f \<Rightarrow>
          if sqf_txn f = [] then ParseError
          else if sqf_location f = [] then ParseError
          else
            let t1 = (if sqf_time f = zero_time then sq_CreatedAt sq else sqf_time f);
                t2 = (if t1 = zero_time then IngestedAt env else t1);
                currency = (if sm_Currency (sqf_money f) = [] then ''USD'' else sm_Currency (sqf_money f));
                amount = centsToDecimalString (sm_Amount (sqf_money f)) in
            Parsed \<lparr>ce_EventID = EventID env, ce_MerchantID = MerchantID env, ce_SourceCode = ''square'',
              ce_SourceTxnID = sqf_txn f, ce_SourceLocationCode = sqf_location f, ce_SourceCashierCode = sqf_employee f,
              ce_Transaction = pos_header (sqf_txn f) txnType t2 0 (amount, ''0'', ''0'', amount) currency None
                (strPtrOrNil (sqf_void f)) (Payload env) (square_external_ids (sqf_txn f) (sqf_parent f)),
              ce_LineItems = [], ce_Tenders = [square_tender f txnType amount currency], ce_Discounts = [], ce_CashDrawer = None,
              ce_CashierActions = [], ce_LoyaltyEvents = [], ce_GiftCardEvents = [], ce_ParsedAt = now,
              ce_Attributes = RawText (Payload env)\<rparr>)"

definition square_Parse :: "(string \<Rightarrow> squareEnvelope option) \<Rightarrow> gotime \<Rightarrow> event \<Rightarrow> parse_result" where
  "square_Parse decode now env =
     (case decode (Payload env) of
        None \<Rightarrow> ParseError
      | Some sq \<Rightarrow>
          if sq_Type sq \<in> {''payment.created'', ''payment.updated''} then parsePayment now env sq ''sale''
          else if sq_Type sq \<in> {''refund.created'', ''refund.updated''} then parsePayment now env sq ''refund''
          else ParseNothing)"

section \<open>Counterpoint\<close>

record cpLine =
  cl_LineNumber :: go_int64
  cl_ItemNumber :: string
  cl_Description :: string
  cl_Quantity :: float64
  cl_UnitOfMeasure :: string
  cl_Price :: float64
  cl_DiscountAmount :: float64
  cl_TaxAmount :: float64

record cpPay =
  cy_PaymentSequence :: go_int64
  cy_PaymentType :: string
  cy_Amount :: float64
  cy_AuthorizationCode :: string

record cpDocument =
  cp_DocumentNumber :: string
  cp_DocumentType :: string
  cp_DocumentDate :: gotime
  cp_StoreNumber :: string
  cp_TerminalNumber :: string
  cp_CashierNumber :: string
  cp_Currency :: string
  cp_Subtotal :: float64
  cp_TaxAmount :: float64
  cp_DiscountAmount :: float64
  cp_Total :: float64
  cp_Lines :: "cpLine list"
  cp_Payments :: "cpPay list"

definition int32InRange :: "go_int64 \<Rightarrow> int option" where
  "int32InRange v = (if v < - (2 ^ 31) \<or> 2 ^ 31 - 1 < v then None else Some v)"

definition quantityInInt32Range :: "float64 \<Rightarrow> bool" where
  "quantityInInt32Range v \<longleftrightarrow> \<not> (v < of_int (- (2 ^ 31)) \<or> of_int (2 ^ 31 - 1) < v)"

definition counterpoint_external_ids :: "string \<Rightarrow> string \<Rightarrow> raw_message" where
  "counterpoint_external_ids docNum docType =
     RawMembers [(''counterpoint_document_number'', docNum), (''counterpoint_document_type'', docType)]"

definition cp_line_item :: "string \<Rightarrow> cpLine \<Rightarrow> TransactionLineItem option" where
  "cp_line_item txnType line =
     (case int32InRange (cl_LineNumber line) of
        None \<Rightarrow> None
      | Some n \<Rightarrow>
          if \<not> quantityInInt32Range (cl_Quantity line) then None
          else Some (zero_line\<lparr>li_LineNumber := n, li_BarcodeScanned := strPtrOrNil (cl_ItemNumber line),
            li_Description := firstNonEmpty [cl_Description line, cl_ItemNumber line], li_Quantity := decimalString (cl_Quantity line),
            li_UnitOfMeasure := firstNonEmpty [cl_UnitOfMeasure line, ''EA''], li_UnitPrice := decimalString (cl_Price line),
            li_UnitDiscount := decimalString (cl_DiscountAmount line), li_UnitTax := decimalString (cl_TaxAmount line),
            li_IsReturn := (txnType = ''refund'')\<rparr>))"

definition cp_tender :: "string \<Rightarrow> cpPay \<Rightarrow> TransactionTender option" where
  "cp_tender currency pay =
     map_option (\<lambda>n. zero_tender\<lparr>td_TenderSequence := n, td_Amount := decimalString (cy_Amount pay), td_Currency := currency,
        td_AuthorizationCode := strPtrOrNil (cy_AuthorizationCode pay), td_CardBrand := strPtrOrNil (cy_PaymentType pay)\<rparr>)
       (int32InRange (cy_PaymentSequence pay))"

text \<open>The loops stop at the first row they cannot take.\<close>

fun collect_rows :: "('a \<Rightarrow> 'b option) \<Rightarrow> 'a list \<Rightarrow> 'b list option" where
  "collect_rows f [] = Some []"
| "collect_rows f (x # xs) = (case f x of None \<Rightarrow> None | Some y \<Rightarrow> map_option ((#) y) (collect_rows f xs))"

definition cp_txn_type :: "string \<Rightarrow> string option" where
  "cp_txn_type docType =
     (if docType \<in> {''TKT'', ''TICKET'', ''SALE''} then Some ''sale''
      else if docType \<in> {''RET'', ''RETURN'', ''REFUND''} then Some ''refund'' else None)"

definition counterpoint_Parse :: "(string \<Rightarrow> cpDocument option) \<Rightarrow> gotime \<Rightarrow> event \<Rightarrow> parse_result" where
  "counterpoint_Parse decode now env =
     (case decode (Payload env) of
        None \<Rightarrow> ParseError
      | Some doc \<Rightarrow>
          (case cp_txn_type (cp_DocumentType doc) of
             None \<Rightarrow> ParseNothing
           | Some txnType \<Rightarrow>
               if cp_DocumentNumber doc = [] then ParseError
               else if cp_StoreNumber doc = [] then ParseError
               else
                 let t1 = (if cp_DocumentDate doc = zero_time then IngestedAt env else cp_DocumentDate doc);
                     t2 = (if t1 = zero_time then now else t1);
                     currency = (if cp_Currency doc = [] then ''USD'' else cp_Currency doc) in
                 (case (int32InRange (int (length (cp_Lines doc))), collect_rows (cp_line_item txnType) (cp_Lines doc),
                        collect_rows (cp_tender currency) (cp_Payments doc)) of
                    (Some n, Some lines, Some tenders) \<Rightarrow>
                      Parsed \<lparr>ce_EventID = EventID env, ce_MerchantID = MerchantID env, ce_SourceCode = ''counterpoint'',
                        ce_SourceTxnID = cp_DocumentNumber doc, ce_SourceLocationCode = cp_StoreNumber doc,
                        ce_SourceCashierCode = cp_CashierNumber doc,
                        ce_Transaction = pos_header (cp_DocumentNumber doc) txnType t2 n
                          (decimalString (cp_Subtotal doc), decimalString (cp_TaxAmount doc),
                           decimalString (cp_DiscountAmount doc), decimalString (cp_Total doc))
                          currency (strPtrOrNil (cp_TerminalNumber doc)) None (Payload env)
                          (counterpoint_external_ids (cp_DocumentNumber doc) (cp_DocumentType doc)),
                        ce_LineItems = lines, ce_Tenders = tenders, ce_Discounts = [], ce_CashDrawer = None,
                        ce_CashierActions = [], ce_LoyaltyEvents = [], ce_GiftCardEvents = [], ce_ParsedAt = now,
                        ce_Attributes = RawText (Payload env)\<rparr>
                  | _ \<Rightarrow> ParseError)))"

section \<open>Clover and the standard registry\<close>

definition clover_Parse :: "event \<Rightarrow> parse_result" where
  "clover_Parse env = ParseError"

definition sub2_registry ::
  "(string \<Rightarrow> squareEnvelope option) \<Rightarrow> (string \<Rightarrow> cpDocument option) \<Rightarrow> gotime \<Rightarrow> registry option" where
  "sub2_registry sq_decode cp_decode now =
     Option.bind (MustRegister (Some \<lparr>sa_SourceCode = ''square'', sa_Parse = square_Parse sq_decode now\<rparr>) Map.empty) (\<lambda>r1.
     Option.bind (MustRegister (Some \<lparr>sa_SourceCode = ''counterpoint'', sa_Parse = counterpoint_Parse cp_decode now\<rparr>) r1) (\<lambda>r2.
     MustRegister (Some \<lparr>sa_SourceCode = ''clover'', sa_Parse = clover_Parse\<rparr>) r2))"


section \<open>Amounts\<close>

lemma zeroPad2_eq:
  assumes "0 \<le> n" "n < 100"
  shows "zeroPad2 n = fmt_pad 2 (nat n)"
proof (cases "n < 10")
  case True
  then have "dec_nat (nat n) = [digit_char (nat n)]" by (subst dec_nat.simps) (use assms in simp)
  then show ?thesis using True assms by (simp add: zeroPad2_def fmt_pad_def fmt_int_def numeral_2_eq_2)
next
  case False
  then have "dec_nat (nat n) = dec_nat (nat n div 10) @ [digit_char (nat n mod 10)]" by (subst dec_nat.simps) simp
  moreover have "dec_nat (nat n div 10) \<noteq> []" by (subst dec_nat.simps) simp
  ultimately have "2 \<le> length (dec_nat (nat n))" by (cases "dec_nat (nat n div 10)") simp_all
  then show ?thesis using False assms by (simp add: zeroPad2_def fmt_pad_def fmt_int_def)
qed

text \<open>The Square adapter renders cents as the pricing service does, on every \<open>int64\<close> on which the
  pricing service's renderer returns.\<close>

theorem cents_rendering_agrees:
  assumes "is_int64 c"
  shows "formatCents c = (if c = - (2 ^ 63) then None else Some (centsToDecimalString c))"
proof (cases "c = - (2 ^ 63)")
  case False
  have pad: "zeroPad2 (x mod 100) = fmt_pad 2 (nat (x mod 100))" for x by (rule zeroPad2_eq) simp_all
  show ?thesis
  proof (cases "c < 0")
    case True
    have "- (2 ^ 63) < c" using False assms by (simp add: is_int64_def)
    obtain d where d: "d = - c" by blast
    have w: "wrap64 (- c) = d" unfolding d using True \<open>- (2 ^ 63) < c\<close> by (intro wrap64_small) simp_all
    have "0 \<le> d" using True d by simp
    then have "centsToDecimalString c = CHR ''-'' # fmt_int (d div 100) @ ''.'' @ fmt_pad 2 (nat (d mod 100))"
      unfolding centsToDecimalString_def Let_def w using True by (simp add: pad)
    then show ?thesis using formatCents_negative [OF True \<open>- (2 ^ 63) < c\<close>] False by (simp add: d)
  next
    case nonneg: False
    then show ?thesis using False by (simp add: formatCents_nonneg centsToDecimalString_def pad)
  qed
qed (use formatCents_min in simp)

theorem cents_rendering_agrees_witness:
  "formatCents (- 1205) = Some (centsToDecimalString (- 1205)) \<and> centsToDecimalString (- 1205) = ''-12.05''"
proof
  show "formatCents (- 1205) = Some (centsToDecimalString (- 1205))"
    using cents_rendering_agrees [of "- 1205"] by (simp add: is_int64_def)
  show "centsToDecimalString (- 1205) = ''-12.05''" by code_simp
qed

section \<open>What the adapters leave to the store\<close>

lemma sub2_registry_eq:
  "sub2_registry sq cp now = Some
     [''square'' \<mapsto> \<lparr>sa_SourceCode = ''square'', sa_Parse = square_Parse sq now\<rparr>,
      ''counterpoint'' \<mapsto> \<lparr>sa_SourceCode = ''counterpoint'', sa_Parse = counterpoint_Parse cp now\<rparr>,
      ''clover'' \<mapsto> \<lparr>sa_SourceCode = ''clover'', sa_Parse = clover_Parse\<rparr>]"
  by (simp add: sub2_registry_def MustRegister_def Register_def)

lemma square_Parsed:
  assumes "square_Parse decode now env = Parsed c"
  obtains f amount currency txnType where "ce_Tenders c = [square_tender f txnType amount currency]"
    "tx_ID (ce_Transaction c) = uuid_nil" "ce_SourceCode c = ''square''" "ce_LineItems c = []"
    "tx_GrandTotal (ce_Transaction c) = amount" "tx_Currency (ce_Transaction c) = currency" "tx_TransactionType (ce_Transaction c) = txnType"
  using assms by (auto simp: square_Parse_def parsePayment_def pos_header_def Let_def split: option.splits if_splits)

lemma counterpoint_Parsed:
  assumes "counterpoint_Parse decode now env = Parsed c"
  obtains doc txnType currency where "decode (Payload env) = Some doc" "cp_txn_type (cp_DocumentType doc) = Some txnType"
    "collect_rows (cp_line_item txnType) (cp_Lines doc) = Some (ce_LineItems c)"
    "collect_rows (cp_tender currency) (cp_Payments doc) = Some (ce_Tenders c)"
    "tx_ID (ce_Transaction c) = uuid_nil" "ce_SourceCode c = ''counterpoint''" "tx_ItemCount (ce_Transaction c) = int (length (cp_Lines doc))"
    "tx_TransactionType (ce_Transaction c) = txnType"
  using assms by (auto simp: counterpoint_Parse_def pos_header_def int32InRange_def Let_def split: option.splits if_splits)


lemma registry_leaves_ids:
  assumes "sub2_registry sq cp now = Some reg"
  shows "leaves_ids (registry_lookup reg)"
proof -
  have "tx_ID (ce_Transaction c) = uuid_nil" if "canonical_of (registry_lookup reg) evt = Some c" for evt c
  proof -
    from that obtain parser c0 where p: "registry_lookup reg (SourceCode evt) = Some parser" "parser evt = Parsed c0"
      and c: "c = fill_envelope evt c0"
      by (auto simp: canonical_of_def split: option.splits parse_result.splits)
    have "parser \<in> {square_Parse sq now, counterpoint_Parse cp now, clover_Parse}"
      using p(1) assms by (auto simp: sub2_registry_eq registry_lookup_def split: if_splits)
    then have "tx_ID (ce_Transaction c0) = uuid_nil"
      using p(2) square_Parsed counterpoint_Parsed by (auto simp: clover_Parse_def) metis+
    then show ?thesis by (simp add: c fill_envelope_def)
  qed
  then show ?thesis by (simp add: leaves_ids_def)
qed

lemma insert_loop_blocked:
  assumes "r \<in> set rs" "\<And>i. \<exists>row. prep i r = Some row \<and> (\<forall>tab tab'. ins i row tab \<noteq> Inserted tab')"
  shows "\<exists>e. insert_loop prep ins site i rs tab = Inl e"
  using assms(1)
proof (induction rs arbitrary: i tab)
  case (Cons x rs)
  show ?case
  proof (cases "x = r")
    case True
    obtain row where "prep i r = Some row" "\<forall>tab tab'. ins i row tab \<noteq> Inserted tab'" using assms(2) by blast
    then show ?thesis using True by (cases "ins i row tab") auto
  next
    case False
    then have "r \<in> set rs" using Cons.prems by simp
    then show ?thesis using Cons.IH by (auto split: option.split insert_result.split)
  qed
qed simp

text \<open>A tender whose amounts are not all numerics keeps the whole sale out.\<close>

lemma Persist_blocked:
  assumes "td \<in> set (ce_Tenders c)" "td_TenderTypeID td = uuid_nil" "td_CashBackAmount td = []" "\<not> pv_numeric env []"
    and "\<And>t. resolveTenderTypeID env refs t (ce_SourceCode c) \<noteq> None"
  shows "snd (Persist env refs c db) = db"
proof -
  have "\<exists>e. insert_loop (stamp_tender env tn txID (resolveTenderTypeID env refs tn (ce_SourceCode c))) (insertTender env) TenderIns 0
      (ce_Tenders c) tab = Inl e" for tn txID tab
  proof (rule insert_loop_blocked [OF assms(1)])
    fix i
    obtain d where d: "resolveTenderTypeID env refs tn (ce_SourceCode c) = Some d" using assms(5) by blast
    have "stamp_tender env tn txID (Some d) i td = Some (td\<lparr>td_TenantID := tn, td_TransactionID := txID,
        td_ID := fresh_id env (TenderIns i) (td_ID td), td_TenderTypeID := d\<rparr>)"
      using assms(2) by (simp add: stamp_tender_def Let_def)
    then show "\<exists>row. stamp_tender env tn txID (resolveTenderTypeID env refs tn (ce_SourceCode c)) i td = Some row
        \<and> (\<forall>tab tab'. insertTender env i row tab \<noteq> Inserted tab')"
      using assms(3,4) d by (simp add: insertTender_def insert_row_def)
  qed
  then have "\<exists>e. insert_children env refs tn loc txID c db' = Inl e" for tn loc txID db'
    unfolding insert_children_def
    by (cases "insert_loop (stamp_line env tn txID) (insertLineItem env) LineIns 0 (ce_LineItems c) (sd_lines db')")
      (simp_all, metis bind_res.simps(1))
  then show ?thesis
    unfolding Persist_def Let_def
    by (auto split: sum.split prod.split insert_result.split if_split) (metis sum.distinct(1))
qed

lemma square_tender_fields [simp]:
  "td_TenderTypeID (square_tender f ty a cur) = uuid_nil" "td_CashBackAmount (square_tender f ty a cur) = []"
  by (simp_all add: square_tender_def zero_tender_def Let_def split: option.split)

lemma collect_rows_in: "collect_rows f xs = Some ys \<Longrightarrow> map f xs = map Some ys"
  by (induction xs arbitrary: ys) (auto split: option.splits)

text \<open>No Square payment and no Counterpoint document with a payment is ever stored where the
  tenant has a default tender type: their tenders carry an empty text for the amounts the
  adapters do not set, which is no numeric, and the failing insert takes the whole sale with it.\<close>

theorem tendered_sale_never_stored:
  assumes "sub2_registry sq cp now = Some reg" and "\<not> pv_numeric penv []" and "\<not> pv_fails penv TenderTypeQ"
    and "\<And>t src. sr_tender_types refs (t, src) \<noteq> None"
    and "\<And>doc. cp (Payload evt) = Some doc \<Longrightarrow> cp_Payments doc \<noteq> []"
  shows "snd (Dispatch (registry_lookup reg) penv refs evt db) = db"
proof -
  have types: "src \<noteq> [] \<Longrightarrow> resolveTenderTypeID penv refs t src \<noteq> None" for t src
    using assms(3,4) by (simp add: resolveTenderTypeID_def)
  have P: "snd (Persist penv refs (fill_envelope evt c) db) = db"
    if "registry_lookup reg (SourceCode evt) = Some parser" "parser evt = Parsed c" for parser c
  proof -
    have "parser \<in> {square_Parse sq now, counterpoint_Parse cp now, clover_Parse}"
      using that(1) assms(1) by (auto simp: sub2_registry_eq registry_lookup_def split: if_splits)
    then have "square_Parse sq now evt = Parsed c \<or> counterpoint_Parse cp now evt = Parsed c"
      using that(2) by (auto simp: clover_Parse_def)
    then consider "square_Parse sq now evt = Parsed c" | "counterpoint_Parse cp now evt = Parsed c" by blast
    then obtain td where "td \<in> set (ce_Tenders c)" "td_TenderTypeID td = uuid_nil" "td_CashBackAmount td = []" "ce_SourceCode c \<noteq> []"
    proof cases
      case 1
      then obtain f am cur ty where "ce_Tenders c = [square_tender f ty am cur]" "ce_SourceCode c = ''square''"
        by (rule square_Parsed)
      then show thesis by (intro that [of "square_tender f ty am cur"]) simp_all
    next
      case 2
      then obtain doc ty cur where doc: "cp (Payload evt) = Some doc" "ce_SourceCode c = ''counterpoint''"
        and t: "collect_rows (cp_tender cur) (cp_Payments doc) = Some (ce_Tenders c)"
        by (rule counterpoint_Parsed)
      obtain p ps where "cp_Payments doc = p # ps" using assms(5) doc(1) by (cases "cp_Payments doc") auto
      then obtain td tds where "ce_Tenders c = td # tds" "cp_tender cur p = Some td"
        using collect_rows_in [OF t] by (cases "ce_Tenders c") auto
      then show thesis using doc(2) by (intro that [of td]) (auto simp: cp_tender_def zero_tender_def)
    qed
    then show ?thesis using Persist_blocked [of td "fill_envelope evt c" penv refs db] assms(2) types
      by (simp add: fill_envelope_def)
  qed
  show ?thesis
  proof (cases "registry_lookup reg (SourceCode evt)")
    case (Some parser)
    then show ?thesis using P [OF Some] by (cases "parser evt") (simp_all add: Dispatch_def split_beta)
  qed (simp add: Dispatch_def)
qed


definition toy_sq_payment :: squareEnvelope where
  "toy_sq_payment = \<lparr>sq_Type = ''payment.created'', sq_CreatedAt = 0, sq_Payment = Some \<lparr>sp_ID = ''P1'', sp_LocationID = ''L'',
     sp_AmountMoney = \<lparr>sm_Amount = 1999, sm_Currency = ''USD''\<rparr>, sp_CreatedAt = 0, sp_CardDetails = None, sp_CashDetails = None,
     sp_EmployeeID = [], sp_TeamMemberID = []\<rparr>, sq_Refund = None\<rparr>"

definition toy_sq_event :: event where
  "toy_sq_event = \<lparr>EventID = 1, EventHash = [], SourceCode = ''square'', MerchantID = 7, Timestamp = 0, IngestedAt = 0,
     Payload = ''p'', Nonce = []\<rparr>"

definition toy_sq_refs :: sale_refs where
  "toy_sq_refs = \<lparr>sr_merchants = [7 \<mapsto> Some 70], sr_locations = [(70, ''L'') \<mapsto> 71], sr_employees = Map.empty,
     sr_tender_types = (\<lambda>_. Some 5)\<rparr>"

theorem tendered_sale_never_stored_witness:
  "\<exists>reg. sub2_registry (\<lambda>_. Some toy_sq_payment) Map.empty 0 = Some reg
    \<and> fst (Dispatch (registry_lookup reg) (se2_persist (toy_envs 0)) toy_sq_refs toy_sq_event (tables_of [])) =
        Inl (PersistError (PersistFailed (TenderIns 0)))
    \<and> snd (Dispatch (registry_lookup reg) (se2_persist (toy_envs 0)) toy_sq_refs toy_sq_event (tables_of [])) = tables_of []"
proof -
  obtain reg where reg: "sub2_registry (\<lambda>_. Some toy_sq_payment) Map.empty 0 = Some reg" by (simp add: sub2_registry_eq)
  have num: "pv_numeric (se2_persist (toy_envs 0)) (centsToDecimalString c)" for c
    by (simp add: toy_envs_def centsToDecimalString_def Let_def)
  obtain f where sq: "square_Parse (\<lambda>_. Some toy_sq_payment) 0 toy_sq_event = Parsed f" "ce_MerchantID f = 7"
      "ce_SourceLocationCode f = ''L''" "ce_SourceCashierCode f = []" "ce_LineItems f = []" "ce_SourceCode f = ''square''"
      "tx_Subtotal (ce_Transaction f) = centsToDecimalString 1999" "tx_GrandTotal (ce_Transaction f) = centsToDecimalString 1999"
      "tx_TaxTotal (ce_Transaction f) = ''0''" "tx_DiscountTotal (ce_Transaction f) = ''0''"
      "\<exists>g ty am cur. ce_Tenders f = [square_tender g ty am cur]"
    by (simp add: square_Parse_def toy_sq_payment_def parsePayment_def square_fields_of_def pos_header_def Let_def) (simp add: toy_sq_event_def, blast)
  then obtain g ty am cur where t: "ce_Tenders f = [square_tender g ty am cur]" by blast
  have "sub2_registry (\<lambda>_. Some toy_sq_payment) Map.empty 0 = Some reg" by fact
  then have l: "registry_lookup reg ''square'' = Some (square_Parse (\<lambda>_. Some toy_sq_payment) 0)"
    by (auto simp: sub2_registry_eq registry_lookup_def)
  have fill: "ce_Tenders (fill_envelope toy_sq_event f) = ce_Tenders f" "ce_LineItems (fill_envelope toy_sq_event f) = ce_LineItems f"
      "ce_Transaction (fill_envelope toy_sq_event f) = ce_Transaction f" "ce_MerchantID (fill_envelope toy_sq_event f) = 7"
      "ce_SourceLocationCode (fill_envelope toy_sq_event f) = ''L''" "ce_SourceCashierCode (fill_envelope toy_sq_event f) = []"
      "ce_SourceCode (fill_envelope toy_sq_event f) = ''square''"
    using sq by (simp_all add: fill_envelope_def)
  have res: "resolve_refs (se2_persist (toy_envs 0)) toy_sq_refs (fill_envelope toy_sq_event f) = Inr (70, 71, None)"
    using sq fill by (simp add: resolve_refs_def lookupTenant_def lookupLocation_def resolve_cashier_def) (simp add: toy_envs_def toy_sq_refs_def)
  have ins: "insertTransaction (se2_persist (toy_envs 0)) (stamp_header (se2_persist (toy_envs 0)) 70 71 None (ce_Transaction f)) [] =
      Inserted [stored_header (stamp_header (se2_persist (toy_envs 0)) 70 71 None (ce_Transaction f))]"
    using sq num by (simp add: insertTransaction_def insert_row_def stamp_header_def) (simp add: toy_envs_def)
  have env: "\<not> pv_fails (se2_persist (toy_envs 0)) site" "\<not> pv_numeric (se2_persist (toy_envs 0)) []" "sr_tender_types toy_sq_refs x = Some 5"
    for site x by (simp_all add: toy_envs_def toy_sq_refs_def)
  have children: "insert_children (se2_persist (toy_envs 0)) toy_sq_refs 70 71 txID (fill_envelope toy_sq_event f) db =
      Inl (PersistFailed (TenderIns 0))" for txID db
    using t fill sq(5) env
    by (simp add: insert_children_def stamp_tender_def resolveTenderTypeID_def insertTender_def insert_row_def Let_def)
  have "fst (Persist (se2_persist (toy_envs 0)) toy_sq_refs (fill_envelope toy_sq_event f) (tables_of [])) = Inl (PersistFailed (TenderIns 0))"
    using sq t res fill ins env by (simp add: Persist_def Let_def children tables_of_def)
  then have "fst (Dispatch (registry_lookup reg) (se2_persist (toy_envs 0)) toy_sq_refs toy_sq_event (tables_of [])) =
      Inl (PersistError (PersistFailed (TenderIns 0)))"
    using sq(1) l by (simp add: Dispatch_def split_beta toy_sq_event_def)
  moreover have "snd (Dispatch (registry_lookup reg) (se2_persist (toy_envs 0)) toy_sq_refs toy_sq_event (tables_of [])) = tables_of []"
    by (rule tendered_sale_never_stored [OF reg]) (simp_all add: toy_envs_def toy_sq_refs_def)
  ultimately show ?thesis using reg by blast
qed

end
