(* ===== verification/Lifecycle.thy ===== *)
theory Lifecycle
  imports Prelude
begin

text \<open>
  The contract of entities with a status: whatever request is served, a status only moves along the
  legal transitions, and an entity that is there stays there.  Then it is so over any run, and an
  entity in a status without a way out never moves again.
\<close>

locale lifecycle =
  fixes act :: "'e \<Rightarrow> 's \<Rightarrow> 's"
    and status :: "'s \<Rightarrow> 'k \<Rightarrow> 'st option"
    and legal :: "'st \<Rightarrow> 'st \<Rightarrow> bool"
    and inv :: "'s \<Rightarrow> bool"
  assumes act_inv: "inv s \<Longrightarrow> inv (act e s)"
    and act_moves: "inv s \<Longrightarrow> status s k = Some x \<Longrightarrow> \<exists>y. status (act e s) k = Some y \<and> (y = x \<or> legal x y)"
begin

fun life_run :: "'e list \<Rightarrow> 's \<Rightarrow> 's" where
  "life_run [] s = s"
| "life_run (e # es) s = life_run es (act e s)"

lemma run_inv: "inv s \<Longrightarrow> inv (life_run es s)"
  by (induction es arbitrary: s) (simp_all add: act_inv)

lemma run_legal: "inv s \<Longrightarrow> status s k = Some x \<Longrightarrow> \<exists>y. status (life_run es s) k = Some y \<and> legal\<^sup>*\<^sup>* x y"
proof (induction es arbitrary: s x)
  case (Cons e es)
  then obtain y where y: "status (act e s) k = Some y" "y = x \<or> legal x y" using act_moves by blast
  then obtain z where "status (life_run es (act e s)) k = Some z" "legal\<^sup>*\<^sup>* y z"
    using Cons.IH act_inv Cons.prems(1) by blast
  then show ?case using y(2) by (auto intro: converse_rtranclp_into_rtranclp)
qed simp

lemma run_final: "inv s \<Longrightarrow> status s k = Some x \<Longrightarrow> \<forall>y. \<not> legal x y \<Longrightarrow> status (life_run es s) k = Some x"
  using run_legal [of s k x es] by (metis converse_rtranclpE)

end

end
