(* ===== verification/Dlq.thy ===== *)
theory Dlq
  imports Webhook ApiKey Sales Lifecycle "HOL-Library.List_Lexorder" "HOL-Library.Char_ord"
begin

text \<open>
  Dead letters of the webhook pipeline: the rows of \<open>protocol.dlq\<close> (\<open>webhook/dlq.go\<close>) and the admin
  endpoints of the gateway that list, show and replay them (\<open>cmd/gateway/admin.go\<close>).  What
  PostgreSQL makes of a text as \<open>jsonb\<close> is the parameter \<open>jsonb\<close>, \<open>uuid.Parse\<close> the parameter \<open>parse\<close>.
\<close>

section \<open>The table\<close>

definition defaultBackoff :: "duration list" where
  "defaultBackoff = [1 * minute, 5 * minute, 30 * minute, 2 * hour]"

definition MaxAutoRetries :: int where
  "MaxAutoRetries = 4"

record DLQRow =
  dq_ID :: uuid
  dq_MerchantID :: uuid
  dq_SourceCode :: string
  dq_SourceEventID :: "string option"
  dq_EventID :: "uuid option"
  dq_Payload :: string
  dq_Headers :: raw_message
  dq_FailureReason :: string
  dq_ErrorMessage :: "string option"
  dq_RetryCount :: int
  dq_NextRetryAt :: "gotime option"
  dq_Status :: string
  dq_LastReplayAt :: "gotime option"
  dq_LastReplayOutcome :: "string option"
  dq_Attributes :: raw_message
  dq_CreatedAt :: gotime
  dq_UpdatedAt :: gotime

record EnqueueParams =
  ep_MerchantID :: uuid
  ep_SourceCode :: string
  ep_SourceEventID :: "string option"
  ep_EventID :: "uuid option"
  ep_Payload :: string
  ep_Headers :: "(string \<times> string) list option"
  ep_FailureReason :: string
  ep_ErrorMessage :: string

record ListFilters =
  lf_MerchantID :: "uuid option"
  lf_SourceCode :: string
  lf_Status :: string
  lf_Limit :: int
  lf_Offset :: int

datatype dlq_call = DlqInsert | DlqSelect | DlqList | DlqReplayed | DlqBegin | DlqLock | DlqUpdate | DlqCommit

datatype dlq_error = DLQNotFound | DLQTerminal string | DlqFailed dlq_call

text \<open>What a call meets: the clock, failing statements, the next row and event ids.\<close>

record dlq_env =
  de_now :: gotime
  de_fails :: "dlq_call \<Rightarrow> bool"
  de_row :: uuid
  de_event :: uuid
  de_xadd_fails :: bool

definition encodeHeaders :: "(string \<times> string) list option \<Rightarrow> raw_message" where
  "encodeHeaders h = (case h of None \<Rightarrow> RawText ''{}'' | Some m \<Rightarrow> RawMembers (sort_key fst m))"

definition Enqueue :: "(string \<Rightarrow> string option) \<Rightarrow> dlq_env \<Rightarrow> EnqueueParams \<Rightarrow> DLQRow list \<Rightarrow> (dlq_error + DLQRow) \<times> DLQRow list" where
  "Enqueue jsonb env p db =
     (case jsonb (ep_Payload p) of
        None \<Rightarrow> (Inl (DlqFailed DlqInsert), db)
      | Some payload \<Rightarrow>
          if de_fails env DlqInsert \<or> list_ex (\<lambda>r. dq_ID r = de_row env) db then (Inl (DlqFailed DlqInsert), db)
          else
            let r = \<lparr>dq_ID = de_row env, dq_MerchantID = ep_MerchantID p, dq_SourceCode = ep_SourceCode p,
              dq_SourceEventID = ep_SourceEventID p, dq_EventID = ep_EventID p, dq_Payload = payload,
              dq_Headers = encodeHeaders (ep_Headers p), dq_FailureReason = ep_FailureReason p,
              dq_ErrorMessage = (if ep_ErrorMessage p \<noteq> [] then Some (ep_ErrorMessage p) else None),
              dq_RetryCount = 0, dq_NextRetryAt = Some (de_now env + defaultBackoff ! 0), dq_Status = ''pending'',
              dq_LastReplayAt = None, dq_LastReplayOutcome = None, dq_Attributes = RawText ''{}'',
              dq_CreatedAt = de_now env, dq_UpdatedAt = de_now env\<rparr> in
            (Inr r, db @ [r]))"

definition dlq_match :: "uuid \<Rightarrow> uuid \<Rightarrow> DLQRow \<Rightarrow> bool" where
  "dlq_match merchantID i r \<longleftrightarrow> dq_ID r = i \<and> dq_MerchantID r = merchantID"

definition dlq_Get :: "dlq_env \<Rightarrow> uuid \<Rightarrow> uuid \<Rightarrow> DLQRow list \<Rightarrow> dlq_error + DLQRow" where
  "dlq_Get env merchantID i db =
     (if de_fails env DlqSelect then Inl (DlqFailed DlqSelect)
      else case List.find (dlq_match merchantID i) db of None \<Rightarrow> Inl DLQNotFound | Some r \<Rightarrow> Inr r)"

definition dlq_List :: "dlq_env \<Rightarrow> ListFilters \<Rightarrow> DLQRow list \<Rightarrow> dlq_error + DLQRow list" where
  "dlq_List env f db =
     (let limit = (if lf_Limit f \<le> 0 \<or> 200 < lf_Limit f then 50 else lf_Limit f) in
      if de_fails env DlqList \<or> lf_Offset f < 0 then Inl (DlqFailed DlqList)
      else Inr (take (nat limit) (drop (nat (lf_Offset f)) (sort_desc dq_CreatedAt
        (filter (\<lambda>r. (case lf_MerchantID f of None \<Rightarrow> True | Some m \<Rightarrow> dq_MerchantID r = m)
            \<and> (lf_SourceCode f = [] \<or> dq_SourceCode r = lf_SourceCode f)
            \<and> (lf_Status f = [] \<or> dq_Status r = lf_Status f)) db)))))"

definition replayed_row :: "gotime \<Rightarrow> DLQRow \<Rightarrow> DLQRow" where
  "replayed_row now r = r\<lparr>dq_Status := ''replayed'', dq_NextRetryAt := None, dq_LastReplayAt := Some now,
     dq_LastReplayOutcome := Some ''success'', dq_UpdatedAt := now\<rparr>"

text \<open>The update does not look at the status.\<close>

definition MarkReplayed :: "dlq_env \<Rightarrow> uuid \<Rightarrow> uuid \<Rightarrow> DLQRow list \<Rightarrow> (dlq_error + unit) \<times> DLQRow list" where
  "MarkReplayed env merchantID i db =
     (if de_fails env DlqReplayed then (Inl (DlqFailed DlqReplayed), db)
      else if \<not> list_ex (dlq_match merchantID i) db then (Inl DLQNotFound, db)
      else (Inr (), map (\<lambda>r. if dlq_match merchantID i r then replayed_row (de_now env) r else r) db))"

definition txGet :: "dlq_env \<Rightarrow> uuid \<Rightarrow> uuid \<Rightarrow> DLQRow list \<Rightarrow> dlq_error + DLQRow" where
  "txGet env merchantID i db =
     (if de_fails env DlqLock then Inl (DlqFailed DlqLock)
      else case List.find (dlq_match merchantID i) db of
          None \<Rightarrow> Inl DLQNotFound
        | Some r \<Rightarrow> if dq_Status r \<noteq> ''pending'' then Inl (DLQTerminal (dq_Status r)) else Inr r)"

definition failed_row :: "gotime \<Rightarrow> string \<Rightarrow> DLQRow \<Rightarrow> DLQRow" where
  "failed_row now errorMessage r =
     (let cur = r\<lparr>dq_RetryCount := wrap64 (dq_RetryCount r + 1), dq_ErrorMessage := Some errorMessage,
            dq_LastReplayAt := Some now, dq_LastReplayOutcome := Some ''failure'', dq_UpdatedAt := now\<rparr> in
      if MaxAutoRetries \<le> dq_RetryCount cur then cur\<lparr>dq_Status := ''abandoned'', dq_NextRetryAt := None\<rparr>
      else cur\<lparr>dq_NextRetryAt := Some (now + defaultBackoff ! nat (dq_RetryCount cur))\<rparr>)"

definition MarkRetryFailed :: "dlq_env \<Rightarrow> uuid \<Rightarrow> uuid \<Rightarrow> string \<Rightarrow> DLQRow list \<Rightarrow> (dlq_error + DLQRow) \<times> DLQRow list" where
  "MarkRetryFailed env merchantID i errorMessage db =
     (if de_fails env DlqBegin then (Inl (DlqFailed DlqBegin), db)
      else case txGet env merchantID i db of
          Inl e \<Rightarrow> (Inl e, db)
        | Inr cur \<Rightarrow>
            if de_fails env DlqUpdate then (Inl (DlqFailed DlqUpdate), db)
            else if de_fails env DlqCommit then (Inl (DlqFailed DlqCommit), db)
            else (Inr (failed_row (de_now env) errorMessage cur),
                  map (\<lambda>r. if dlq_match merchantID i r then failed_row (de_now env) errorMessage r else r) db))"

section \<open>The admin endpoints\<close>

datatype admin_reply =
    AdminErr nat string
  | AdminRows "DLQRow list" nat
  | AdminRow DLQRow
  | AdminReplayed uuid uuid

record admin_state =
  as_dlq :: "DLQRow list"
  as_stream :: "event_field stream"

record admin_query =
  aq_source_code :: string
  aq_status :: string
  aq_merchant_id :: string
  aq_limit :: string
  aq_offset :: string

definition claim_tenant :: "auth_claims option \<Rightarrow> uuid" where
  "claim_tenant claims = (case claims of None \<Rightarrow> uuid_nil | Some c \<Rightarrow> ac_TenantID c)"

definition may_read :: "auth_claims option \<Rightarrow> bool" where
  "may_read claims \<longleftrightarrow> RequireScope ''dlq:read'' claims \<or> RequireScope ''dlq:replay'' claims"

definition admin_list :: "(string \<Rightarrow> uuid option) \<Rightarrow> dlq_env \<Rightarrow> auth_claims option \<Rightarrow> admin_query \<Rightarrow> DLQRow list \<Rightarrow> admin_reply" where
  "admin_list parse env claims q db =
     (if \<not> may_read claims then AdminErr 403 ''forbidden''
      else
        let tn = claim_tenant claims;
            limit = (case parse_int64 (aq_limit q) of Some n \<Rightarrow> if 0 < n then n else 0 | None \<Rightarrow> 0);
            offset = (case parse_int64 (aq_offset q) of Some n \<Rightarrow> if 0 \<le> n then n else 0 | None \<Rightarrow> 0);
            run = (\<lambda>m. case dlq_List env \<lparr>lf_MerchantID = m, lf_SourceCode = aq_source_code q, lf_Status = aq_status q,
                       lf_Limit = limit, lf_Offset = offset\<rparr> db of
                     Inl e \<Rightarrow> AdminErr 500 ''list_failed'' | Inr rows \<Rightarrow> AdminRows rows (length rows)) in
        if tn \<noteq> uuid_nil then run (Some tn)
        else if aq_merchant_id q \<noteq> [] then
          (case parse (aq_merchant_id q) of None \<Rightarrow> AdminErr 400 ''malformed_merchant_id'' | Some m \<Rightarrow> run (Some m))
        else run None)"

text \<open>The row of the path that get and replay start with.\<close>

definition admin_row :: "dlq_env \<Rightarrow> auth_claims option \<Rightarrow> uuid \<Rightarrow> DLQRow list \<Rightarrow> admin_reply + DLQRow" where
  "admin_row env claims i db =
     (if claim_tenant claims = uuid_nil then Inl (AdminErr 401 ''unauthenticated'')
      else case dlq_Get env (claim_tenant claims) i db of
          Inl DLQNotFound \<Rightarrow> Inl (AdminErr 404 ''not_found'')
        | Inl _ \<Rightarrow> Inl (AdminErr 500 ''get_failed'')
        | Inr row \<Rightarrow> if dq_MerchantID row \<noteq> claim_tenant claims then Inl (AdminErr 404 ''not_found'') else Inr row)"

definition admin_get :: "(string \<Rightarrow> uuid option) \<Rightarrow> dlq_env \<Rightarrow> auth_claims option \<Rightarrow> string \<Rightarrow> DLQRow list \<Rightarrow> admin_reply" where
  "admin_get parse env claims path db =
     (if \<not> may_read claims then AdminErr 403 ''forbidden''
      else case parse path of
          None \<Rightarrow> AdminErr 400 ''malformed_id''
        | Some i \<Rightarrow> (case admin_row env claims i db of Inl r \<Rightarrow> r | Inr row \<Rightarrow> AdminRow row))"

definition replay_event :: "dlq_env \<Rightarrow> DLQRow \<Rightarrow> event" where
  "replay_event env row = \<lparr>EventID = de_event env, EventHash = [], SourceCode = dq_SourceCode row,
     MerchantID = dq_MerchantID row, Timestamp = de_now env, IngestedAt = de_now env, Payload = dq_Payload row, Nonce = []\<rparr>"

definition admin_replay :: "(string \<Rightarrow> uuid option) \<Rightarrow> dlq_env \<Rightarrow> string \<Rightarrow> auth_claims option \<Rightarrow> string \<Rightarrow> admin_state \<Rightarrow> admin_reply \<times> admin_state" where
  "admin_replay parse env err claims path s =
     (if \<not> RequireScope ''dlq:replay'' claims then (AdminErr 403 ''forbidden'', s)
      else case parse path of
          None \<Rightarrow> (AdminErr 400 ''malformed_id'', s)
        | Some i \<Rightarrow>
            (case admin_row env claims i (as_dlq s) of
               Inl r \<Rightarrow> (r, s)
             | Inr row \<Rightarrow>
                 if dq_Status row \<noteq> ''pending'' then (AdminErr 409 ''terminal_status'', s)
                 else (case Publish (de_xadd_fails env) (replay_event env row) (as_stream s) of
                     (False, _) \<Rightarrow>
                       (AdminErr 502 ''republish_failed'', s\<lparr>as_dlq := snd (MarkRetryFailed env (claim_tenant claims) i err (as_dlq s))\<rparr>)
                   | (True, stream) \<Rightarrow>
                       (case MarkReplayed env (claim_tenant claims) i (as_dlq s) of
                          (Inl _, db) \<Rightarrow> (AdminErr 500 ''mark_replayed_failed'', s\<lparr>as_dlq := db, as_stream := stream\<rparr>)
                        | (Inr _, db) \<Rightarrow> (AdminReplayed (de_event env) i, s\<lparr>as_dlq := db, as_stream := stream\<rparr>)))))"

text \<open>What happens to the dead letters: rows are added, and the endpoints are called.\<close>

datatype dlq_action =
    AddRow EnqueueParams
  | ListRows "auth_claims option" admin_query
  | GetRow "auth_claims option" string
  | ReplayRow string "auth_claims option" string

fun dlq_act :: "(string \<Rightarrow> string option) \<Rightarrow> (string \<Rightarrow> uuid option) \<Rightarrow> dlq_env \<times> dlq_action \<Rightarrow> admin_state \<Rightarrow> admin_state" where
  "dlq_act jsonb parse (env, AddRow p) s = s\<lparr>as_dlq := snd (Enqueue jsonb env p (as_dlq s))\<rparr>"
| "dlq_act jsonb parse (env, ReplayRow err claims path) s = snd (admin_replay parse env err claims path s)"
| "dlq_act jsonb parse (env, _) s = s"

section \<open>The life of a dead letter\<close>

definition dlq_row_ok :: "DLQRow \<Rightarrow> bool" where
  "dlq_row_ok r \<longleftrightarrow>
     (if dq_Status r = ''pending'' then 0 \<le> dq_RetryCount r \<and> dq_RetryCount r < MaxAutoRetries \<and> dq_NextRetryAt r \<noteq> None
      else if dq_Status r = ''abandoned'' then dq_RetryCount r = MaxAutoRetries \<and> dq_NextRetryAt r = None
      else dq_Status r = ''replayed'' \<and> dq_RetryCount r < MaxAutoRetries \<and> dq_NextRetryAt r = None)"

definition dlq_ok :: "DLQRow list \<Rightarrow> bool" where
  "dlq_ok db \<longleftrightarrow> distinct (map dq_ID db) \<and> list_all dlq_row_ok db"

definition dlq_row :: "DLQRow list \<Rightarrow> uuid \<Rightarrow> DLQRow option" where
  "dlq_row db i = List.find (\<lambda>r. dq_ID r = i) db"


definition dlq_legal :: "DLQRow \<Rightarrow> DLQRow \<Rightarrow> bool" where
  "dlq_legal r r' \<longleftrightarrow> dq_Status r = ''pending'' \<and> (\<exists>now e. r' = replayed_row now r \<or> r' = failed_row now e r)"

lemmas dlq_row_defs = replayed_row_def failed_row_def Let_def

lemma dlq_row_keys [simp]:
  "dq_ID (replayed_row now r) = dq_ID r" "dq_ID (failed_row now e r) = dq_ID r"
  "dq_MerchantID (replayed_row now r) = dq_MerchantID r" "dq_MerchantID (failed_row now e r) = dq_MerchantID r"
  "dq_Payload (replayed_row now r) = dq_Payload r" "dq_Payload (failed_row now e r) = dq_Payload r"
  "dq_SourceCode (replayed_row now r) = dq_SourceCode r" "dq_SourceCode (failed_row now e r) = dq_SourceCode r"
  by (simp_all add: dlq_row_defs)

lemma failed_row_fields:
  assumes "0 \<le> dq_RetryCount r" "dq_RetryCount r < MaxAutoRetries"
  shows "dq_RetryCount (failed_row now e r) = dq_RetryCount r + 1"
    and "dq_Status (failed_row now e r) = (if dq_RetryCount r + 1 = MaxAutoRetries then ''abandoned'' else dq_Status r)"
    and "dq_NextRetryAt (failed_row now e r) = (if dq_RetryCount r + 1 = MaxAutoRetries then None
           else Some (now + defaultBackoff ! nat (dq_RetryCount r + 1)))"
proof -
  have "wrap64 (dq_RetryCount r + 1) = dq_RetryCount r + 1" using assms by (simp add: wrap64_id is_int64_def MaxAutoRetries_def)
  moreover have "MaxAutoRetries \<le> dq_RetryCount r + 1 \<longleftrightarrow> dq_RetryCount r + 1 = MaxAutoRetries" using assms(2) by arith
  ultimately show "dq_RetryCount (failed_row now e r) = dq_RetryCount r + 1"
    "dq_Status (failed_row now e r) = (if dq_RetryCount r + 1 = MaxAutoRetries then ''abandoned'' else dq_Status r)"
    "dq_NextRetryAt (failed_row now e r) = (if dq_RetryCount r + 1 = MaxAutoRetries then None
           else Some (now + defaultBackoff ! nat (dq_RetryCount r + 1)))"
    by (simp_all add: failed_row_def Let_def)
qed

lemma replayed_row_ok: "dq_Status r = ''pending'' \<Longrightarrow> dlq_row_ok r \<Longrightarrow> dlq_row_ok (replayed_row now r)"
  by (simp add: dlq_row_ok_def replayed_row_def)

lemma failed_row_ok: "dq_Status r = ''pending'' \<Longrightarrow> dlq_row_ok r \<Longrightarrow> dlq_row_ok (failed_row now e r)"
  using failed_row_fields [of r now e] by (auto simp: dlq_row_ok_def)

lemma dlq_legal_ok: "dlq_legal r r' \<Longrightarrow> dlq_row_ok r \<Longrightarrow> dlq_row_ok r' \<and> dq_ID r' = dq_ID r"
  using replayed_row_ok failed_row_ok by (auto simp: dlq_legal_def)

lemma dlq_row_Some: "dlq_row db i = Some r \<Longrightarrow> r \<in> set db \<and> dq_ID r = i"
  by (auto simp: dlq_row_def find_Some_iff)

lemma dlq_row_in: "distinct (map dq_ID db) \<Longrightarrow> r \<in> set db \<Longrightarrow> dlq_row db (dq_ID r) = Some r"
  unfolding dlq_row_def by (induction db) (auto simp: image_iff)

lemma dlq_row_map:
  assumes "\<And>u. dq_ID (g u) = dq_ID u"
  shows "dlq_row (map g db) i = map_option g (dlq_row db i)"
  unfolding dlq_row_def using assms by (induction db) auto

lemma dlq_row_snoc: "dlq_row db i = Some r \<Longrightarrow> dlq_row (db @ [x]) i = Some r"
  unfolding dlq_row_def by (induction db) auto

text \<open>A change of the table: a fresh row, or a legal move of the row of a tenant.\<close>

definition dlq_change :: "(uuid \<Rightarrow> bool) \<Rightarrow> DLQRow list \<Rightarrow> DLQRow list \<Rightarrow> bool" where
  "dlq_change mine db db' \<longleftrightarrow> db' = db
     \<or> (\<exists>r. db' = db @ [r] \<and> dq_ID r \<notin> dq_ID ` set db \<and> dlq_row_ok r)
     \<or> (\<exists>r f. r \<in> set db \<and> mine (dq_MerchantID r) \<and> dlq_legal r (f r) \<and> (\<forall>u. dq_ID (f u) = dq_ID u)
          \<and> db' = map (\<lambda>u. if dq_ID u = dq_ID r then f u else u) db)"

lemma dlq_change_refl [simp]: "dlq_change mine db db"
  by (simp add: dlq_change_def)

lemma dlq_change_cases:
  assumes "dlq_change mine db db'"
  obtains "db' = db"
  | r where "db' = db @ [r]" "dq_ID r \<notin> dq_ID ` set db" "dlq_row_ok r"
  | r f where "r \<in> set db" "mine (dq_MerchantID r)" "dlq_legal r (f r)" "\<And>u. dq_ID (f u) = dq_ID u"
      "db' = map (\<lambda>u. if dq_ID u = dq_ID r then f u else u) db"
  using assms unfolding dlq_change_def by blast

lemma same_id: "distinct (map dq_ID db) \<Longrightarrow> r \<in> set db \<Longrightarrow> u \<in> set db \<Longrightarrow> dq_ID u = dq_ID r \<Longrightarrow> u = r"
  by (simp add: distinct_map inj_on_def)

lemma dlq_change_ok:
  assumes "dlq_change mine db db'" "dlq_ok db" shows "dlq_ok db'"
  using assms(1)
proof (cases rule: dlq_change_cases)
  case (3 r f)
  have d: "distinct (map dq_ID db)" using assms(2) by (simp add: dlq_ok_def)
  have "map dq_ID db' = map dq_ID db" using 3(4,5) by (auto simp: o_def)
  moreover have ok: "dlq_row_ok (if dq_ID u = dq_ID r then f u else u)" if "u \<in> set db" for u
    using same_id [OF d 3(1) that] dlq_legal_ok [OF 3(3)] 3(1) assms(2) that by (auto simp: dlq_ok_def list_all_iff)
  have "list_all dlq_row_ok db'" unfolding 3(5) list_all_iff using ok by fastforce
  ultimately show ?thesis using d by (simp add: dlq_ok_def)
qed (use assms(2) in \<open>auto simp: dlq_ok_def\<close>)

lemma dlq_change_row:
  assumes "dlq_change mine db db'" "dlq_ok db" "dlq_row db i = Some r"
  shows "\<exists>r'. dlq_row db' i = Some r' \<and> (r' = r \<or> mine (dq_MerchantID r) \<and> dlq_legal r r')"
  using assms(1)
proof (cases rule: dlq_change_cases)
  case (3 q f)
  have d: "distinct (map dq_ID db)" using assms(2) by (simp add: dlq_ok_def)
  have row: "dlq_row db' i = Some (if dq_ID r = dq_ID q then f r else r)"
    using dlq_row_map [of "\<lambda>u. if dq_ID u = dq_ID q then f u else u" db i] 3(4,5) assms(3) by simp
  show ?thesis
  proof (cases "dq_ID r = dq_ID q")
    case True
    then have "r = q" using same_id [OF d 3(1)] dlq_row_Some [OF assms(3)] by blast
    then show ?thesis using row 3(2,3) by simp
  qed (use row in simp)
qed (use assms(3) in \<open>auto simp: dlq_row_snoc\<close>)


lemma Enqueue_new:
  assumes "Enqueue jsonb env p db = (x, db')" "db' \<noteq> db"
  shows "\<exists>r. x = Inr r \<and> db' = db @ [r] \<and> dq_ID r \<notin> dq_ID ` set db \<and> dq_Status r = ''pending'' \<and> dq_RetryCount r = 0
    \<and> dq_NextRetryAt r = Some (de_now env + defaultBackoff ! 0) \<and> dq_MerchantID r = ep_MerchantID p"
  using assms by (auto simp: Enqueue_def list_ex_key Let_def split: option.splits if_splits)

lemma Enqueue_change: "Enqueue jsonb env p db = (x, db') \<Longrightarrow> dlq_change mine db db'"
  using Enqueue_new [of jsonb env p db x db']
  by (cases "db' = db") (auto simp: dlq_change_def dlq_row_ok_def MaxAutoRetries_def)

lemma dlq_match_in: "List.find (dlq_match m i) db = Some r \<Longrightarrow> r \<in> set db \<and> dq_ID r = i \<and> dq_MerchantID r = m"
  by (auto simp: find_Some_iff dlq_match_def)

lemma dlq_write_change:
  assumes "distinct (map dq_ID db)" "List.find (dlq_match m i) db = Some r" "dlq_legal r (f r)" "\<And>u. dq_ID (f u) = dq_ID u"
  shows "dlq_change (\<lambda>x. x = m) db (map (\<lambda>u. if dlq_match m i u then f u else u) db)"
proof -
  note r = dlq_match_in [OF assms(2)]
  have "dlq_match m i u \<longleftrightarrow> dq_ID u = dq_ID r" if "u \<in> set db" for u
    using r same_id [OF assms(1) _ that, of r] unfolding dlq_match_def by metis
  then have "map (\<lambda>u. if dlq_match m i u then f u else u) db = map (\<lambda>u. if dq_ID u = dq_ID r then f u else u) db" by simp
  then show ?thesis using r assms(3,4) unfolding dlq_change_def by blast
qed

lemma admin_row_Inr:
  assumes "admin_row env claims i db = Inr row"
  shows "claim_tenant claims \<noteq> uuid_nil \<and> List.find (dlq_match (claim_tenant claims) i) db = Some row
    \<and> dq_MerchantID row = claim_tenant claims \<and> dq_ID row = i \<and> row \<in> set db"
proof -
  have "claim_tenant claims \<noteq> uuid_nil \<and> List.find (dlq_match (claim_tenant claims) i) db = Some row"
    using assms by (auto simp: admin_row_def dlq_Get_def split: if_splits sum.splits option.splits dlq_error.splits)
  then show ?thesis using dlq_match_in by blast
qed

text \<open>The cases of a replay.\<close>

lemma admin_replay_cases:
  obtains (refused) r where "admin_replay parse env err claims path s = (r, s)"
  | (failed) i row stream where "parse path = Some i" "RequireScope ''dlq:replay'' claims"
      "admin_row env claims i (as_dlq s) = Inr row" "dq_Status row = ''pending''"
      "Publish (de_xadd_fails env) (replay_event env row) (as_stream s) = (False, stream)"
      "admin_replay parse env err claims path s =
         (AdminErr 502 ''republish_failed'', s\<lparr>as_dlq := snd (MarkRetryFailed env (claim_tenant claims) i err (as_dlq s))\<rparr>)"
  | (published) i row stream r where "parse path = Some i" "RequireScope ''dlq:replay'' claims"
      "admin_row env claims i (as_dlq s) = Inr row" "dq_Status row = ''pending''"
      "Publish (de_xadd_fails env) (replay_event env row) (as_stream s) = (True, stream)"
      "admin_replay parse env err claims path s =
         (r, s\<lparr>as_dlq := snd (MarkReplayed env (claim_tenant claims) i (as_dlq s)), as_stream := stream\<rparr>)"
      "r = (case fst (MarkReplayed env (claim_tenant claims) i (as_dlq s)) of
              Inl _ \<Rightarrow> AdminErr 500 ''mark_replayed_failed'' | Inr _ \<Rightarrow> AdminReplayed (de_event env) i)"
proof (cases "RequireScope ''dlq:replay'' claims")
  case scope: True
  show ?thesis
  proof (cases "parse path")
    case (Some i)
    show ?thesis
    proof (cases "admin_row env claims i (as_dlq s)")
      case row: (Inr row)
      obtain ok stream where p: "Publish (de_xadd_fails env) (replay_event env row) (as_stream s) = (ok, stream)" by fastforce
      show ?thesis
      proof (cases "dq_Status row = ''pending''")
        case True
        then show ?thesis
          using scope Some row p failed published
          by (cases ok; cases "MarkReplayed env (claim_tenant claims) i (as_dlq s)"; cases "fst (MarkReplayed env (claim_tenant claims) i (as_dlq s))")
            (auto simp: admin_replay_def)
      qed (use scope Some row refused in \<open>simp add: admin_replay_def\<close>)
    qed (use scope Some refused in \<open>simp add: admin_replay_def\<close>)
  qed (use scope refused in \<open>simp add: admin_replay_def\<close>)
qed (use refused in \<open>simp add: admin_replay_def\<close>)


lemma MarkRetryFailed_row:
  assumes "List.find (dlq_match m i) db = Some r" "dq_Status r = ''pending''"
  shows "snd (MarkRetryFailed env m i e db) =
    (if de_fails env DlqBegin \<or> de_fails env DlqLock \<or> de_fails env DlqUpdate \<or> de_fails env DlqCommit then db
     else map (\<lambda>u. if dlq_match m i u then failed_row (de_now env) e u else u) db)"
  using assms by (simp add: MarkRetryFailed_def txGet_def)

lemma MarkReplayed_row:
  assumes "List.find (dlq_match m i) db = Some r"
  shows "snd (MarkReplayed env m i db) =
    (if de_fails env DlqReplayed then db else map (\<lambda>u. if dlq_match m i u then replayed_row (de_now env) u else u) db)"
  using assms by (auto simp: MarkReplayed_def list_ex_iff find_Some_iff)

definition of_tenant :: "dlq_action \<Rightarrow> uuid \<Rightarrow> bool" where
  "of_tenant a m \<longleftrightarrow> (case a of ReplayRow err claims path \<Rightarrow> claim_tenant claims = m \<and> m \<noteq> uuid_nil | _ \<Rightarrow> False)"

lemma dlq_act_change:
  assumes "distinct (map dq_ID (as_dlq s))"
  shows "dlq_change (of_tenant a) (as_dlq s) (as_dlq (dlq_act jsonb parse (env, a) s))"
proof (cases a)
  case (AddRow p)
  then show ?thesis
    using Enqueue_change [of jsonb env p "as_dlq s"] by (cases "Enqueue jsonb env p (as_dlq s)") simp
next
  case a: (ReplayRow err claims path)
  have mine: "dlq_change (of_tenant a) db db'" if "dlq_change (\<lambda>x. x = claim_tenant claims) db db'" "claim_tenant claims \<noteq> uuid_nil" for db db'
    using that a by (auto simp: dlq_change_def of_tenant_def)
  show ?thesis
  proof (cases parse env err claims path s rule: admin_replay_cases)
    case (failed i row stream)
    note r = admin_row_Inr [OF failed(3)]
    have legal: "dlq_legal row (failed_row (de_now env) err row)" using failed(4) by (auto simp: dlq_legal_def)
    have "dlq_change (\<lambda>x. x = claim_tenant claims) (as_dlq s)
        (map (\<lambda>u. if dlq_match (claim_tenant claims) i u then failed_row (de_now env) err u else u) (as_dlq s))"
      by (rule dlq_write_change [where f = "failed_row (de_now env) err", OF assms _ legal]) (use r in auto)
    from mine [OF this] show ?thesis using r failed(4,6) a by (auto simp: MarkRetryFailed_row)
  next
    case (published i row stream r)
    note r = admin_row_Inr [OF published(3)]
    have legal: "dlq_legal row (replayed_row (de_now env) row)" using published(4) by (auto simp: dlq_legal_def)
    have "dlq_change (\<lambda>x. x = claim_tenant claims) (as_dlq s)
        (map (\<lambda>u. if dlq_match (claim_tenant claims) i u then replayed_row (de_now env) u else u) (as_dlq s))"
      by (rule dlq_write_change [where f = "replayed_row (de_now env)", OF assms _ legal]) (use r in auto)
    from mine [OF this] show ?thesis using r published(6) a by (auto simp: MarkReplayed_row)
  qed (simp add: a)
qed simp_all

lemma dlq_act_keeps: "dlq_ok (as_dlq s) \<Longrightarrow> dlq_ok (as_dlq (dlq_act jsonb parse e s))"
  using dlq_change_ok [OF dlq_act_change] by (cases e) (simp add: dlq_ok_def)

lemma dlq_act_row:
  assumes "dlq_ok (as_dlq s)" "dlq_row (as_dlq s) i = Some r"
  shows "\<exists>r'. dlq_row (as_dlq (dlq_act jsonb parse e s)) i = Some r' \<and> (r' = r \<or> dlq_legal r r')"
proof -
  obtain env a where "e = (env, a)" by (cases e)
  moreover have "distinct (map dq_ID (as_dlq s))" using assms(1) by (simp add: dlq_ok_def)
  ultimately show ?thesis using dlq_change_row [OF dlq_act_change assms] by blast
qed

interpretation letters: lifecycle "dlq_act jsonb parse" "\<lambda>s. dlq_row (as_dlq s)" dlq_legal "\<lambda>s. dlq_ok (as_dlq s)" for jsonb parse
  by unfold_locales (auto intro: dlq_act_keeps dlq_act_row)

fun dlq_run :: "(string \<Rightarrow> string option) \<Rightarrow> (string \<Rightarrow> uuid option) \<Rightarrow> (dlq_env \<times> dlq_action) list \<Rightarrow> admin_state \<Rightarrow> admin_state" where
  "dlq_run jsonb parse [] s = s"
| "dlq_run jsonb parse (e # es) s = dlq_run jsonb parse es (dlq_act jsonb parse e s)"

lemma dlq_run_life: "letters.life_run jsonb parse es s = dlq_run jsonb parse es s"
  by (induction es arbitrary: s) simp_all

lemma dlq_legal_keeps:
  assumes "dlq_legal\<^sup>*\<^sup>* r r'" "dlq_row_ok r"
  shows "dlq_row_ok r' \<and> dq_MerchantID r' = dq_MerchantID r \<and> dq_Payload r' = dq_Payload r \<and> dq_SourceCode r' = dq_SourceCode r
    \<and> dq_RetryCount r \<le> dq_RetryCount r'"
  using assms
proof (induction rule: rtranclp_induct)
  case (step y z)
  then have "dq_RetryCount y \<le> dq_RetryCount z"
    using failed_row_fields(1) [of y] by (auto simp: dlq_legal_def dlq_row_ok_def replayed_row_def)
  then show ?case using step dlq_legal_ok [OF step(2)] by (auto simp: dlq_legal_def)
qed simp



section \<open>Replays that fail, and replays that succeed\<close>

lemma dlq_find_match:
  assumes "distinct (map dq_ID db)" "dlq_row db i = Some r"
  shows "List.find (dlq_match (dq_MerchantID r) i) db = Some r"
proof -
  have r: "r \<in> set db" "dq_ID r = i" using dlq_row_Some [OF assms(2)] by auto
  obtain u where u: "List.find (dlq_match (dq_MerchantID r) i) db = Some u"
    using r by (cases "List.find (dlq_match (dq_MerchantID r) i) db") (auto simp: find_None_iff dlq_match_def)
  then have "u = r" using dlq_match_in [OF u] same_id [OF assms(1) r(1)] r(2) by auto
  with u show ?thesis by simp
qed

lemma dlq_row_write:
  assumes "distinct (map dq_ID db)" "dlq_row db i = Some r" "\<And>u. dq_ID (f u) = dq_ID u"
  shows "dlq_row (map (\<lambda>u. if dlq_match (dq_MerchantID r) i u then f u else u) db) i = Some (f r)"
  using dlq_row_map [of "\<lambda>u. if dlq_match (dq_MerchantID r) i u then f u else u" db i] assms dlq_row_Some [OF assms(2)]
  by (simp add: dlq_match_def)

text \<open>Who may replay the row, and a replay on which no statement fails.\<close>

definition replayer :: "(string \<Rightarrow> uuid option) \<Rightarrow> auth_claims option \<Rightarrow> string \<Rightarrow> uuid \<Rightarrow> uuid \<Rightarrow> bool" where
  "replayer parse claims path m i \<longleftrightarrow> RequireScope ''dlq:replay'' claims \<and> claim_tenant claims = m \<and> m \<noteq> uuid_nil \<and> parse path = Some i"

lemma admin_row_found:
  assumes "replayer parse claims path (dq_MerchantID r) i" "distinct (map dq_ID db)" "dlq_row db i = Some r" "\<not> de_fails env DlqSelect"
  shows "admin_row env claims i db = Inr r"
  using assms dlq_find_match [OF assms(2,3)] by (simp add: admin_row_def dlq_Get_def replayer_def)

lemma replay_fails_step:
  fixes err :: string
  assumes "replayer parse claims path (dq_MerchantID r) i" "dlq_ok (as_dlq s)" "dlq_row (as_dlq s) i = Some r"
    and "\<forall>c. \<not> de_fails env c" "de_xadd_fails env"
  defines "s' \<equiv> snd (admin_replay parse env err claims path s)"
  shows "as_stream s' = as_stream s"
    and "dlq_row (as_dlq s') i = Some (if dq_Status r = ''pending'' then failed_row (de_now env) err r else r)"
proof -
  have d: "distinct (map dq_ID (as_dlq s))" using assms(2) by (simp add: dlq_ok_def)
  have row: "admin_row env claims i (as_dlq s) = Inr r" using admin_row_found [OF assms(1) d assms(3)] assms(4) by blast
  have "Publish (de_xadd_fails env) (replay_event env r) (as_stream s) = (False, as_stream s)" using assms(5) by (simp add: Publish_def)
  then have s': "s' = (if dq_Status r = ''pending'' then s\<lparr>as_dlq := snd (MarkRetryFailed env (dq_MerchantID r) i err (as_dlq s))\<rparr> else s)"
    using row assms(1) by (simp add: s'_def admin_replay_def replayer_def)
  show "as_stream s' = as_stream s" by (simp add: s')
  show "dlq_row (as_dlq s') i = Some (if dq_Status r = ''pending'' then failed_row (de_now env) err r else r)"
    using dlq_row_write [OF d assms(3), of "failed_row (de_now env) err"] dlq_find_match [OF d assms(3)] assms(3,4)
    by (simp add: s' MarkRetryFailed_row)
qed

lemma dlq_run_snoc: "dlq_run jsonb parse (es @ [e]) s = dlq_act jsonb parse e (dlq_run jsonb parse es s)"
  by (induction es arbitrary: s) simp_all

lemma dlq_run_ok: "dlq_ok (as_dlq s) \<Longrightarrow> dlq_ok (as_dlq (dlq_run jsonb parse es s))"
  using letters.run_inv [of s jsonb parse es] by (simp add: dlq_run_life)

text \<open>Replays of a fresh dead letter that cannot be published: after the \<open>n\<close>-th one the row waits
  \<open>defaultBackoff ! n\<close>, with the fourth one it is abandoned for good, and nothing reaches the stream.\<close>

theorem retry_schedule:
  fixes jsonb :: "string \<Rightarrow> string option"
  assumes "dlq_ok (as_dlq s)" "dlq_row (as_dlq s) i = Some r" "dq_Status r = ''pending''" "dq_RetryCount r = 0"
    and who: "replayer parse claims path (dq_MerchantID r) i"
    and "es \<noteq> []" "\<forall>(env, err) \<in> set es. (\<forall>c. \<not> de_fails env c) \<and> de_xadd_fails env"
  defines "s' \<equiv> dlq_run jsonb parse (map (\<lambda>(env, err). (env, ReplayRow err claims path)) es) s"
  shows "as_stream s' = as_stream s
    \<and> (\<exists>r'. dlq_row (as_dlq s') i = Some r' \<and> dq_RetryCount r' = int (min (length es) 4)
       \<and> dq_Status r' = (if length es < 4 then ''pending'' else ''abandoned'')
       \<and> dq_NextRetryAt r' = (if length es < 4 then Some (de_now (fst (last es)) + defaultBackoff ! length es) else None))"
proof -
  have "as_stream s' = as_stream s \<and>
      (\<exists>r'. dlq_row (as_dlq s') i = Some r' \<and> dq_MerchantID r' = dq_MerchantID r \<and> dq_RetryCount r' = int (min (length es) 4)
       \<and> dq_Status r' = (if length es < 4 then ''pending'' else ''abandoned'')
       \<and> (es = [] \<or> dq_NextRetryAt r' = (if length es < 4 then Some (de_now (fst (last es)) + defaultBackoff ! length es) else None)))"
    using assms(7) unfolding s'_def
  proof (induction es rule: rev_induct)
    case (snoc e es)
    obtain env err where e: "e = (env, err)" by (cases e)
    let ?t = "dlq_run jsonb parse (map (\<lambda>(env, err). (env, ReplayRow err claims path)) es) s"
    from snoc obtain q where q: "as_stream ?t = as_stream s" "dlq_row (as_dlq ?t) i = Some q" "dq_MerchantID q = dq_MerchantID r"
        "dq_RetryCount q = int (min (length es) 4)" "dq_Status q = (if length es < 4 then ''pending'' else ''abandoned'')"
        "es = [] \<or> dq_NextRetryAt q = (if length es < 4 then Some (de_now (fst (last es)) + defaultBackoff ! length es) else None)"
      by auto
    have ok: "dlq_ok (as_dlq ?t)" using dlq_run_ok [OF assms(1)] .
    note st = replay_fails_step [of parse claims path q i ?t env err, unfolded q(3), OF who ok q(2)]
    have f: "\<forall>c. \<not> de_fails env c" "de_xadd_fails env" using snoc.prems e by auto
    have n: "nat (int (length es) + 1) = Suc (length es)" by simp
    show ?case
      using st [OF f] q failed_row_fields [of q "de_now env" err] n
      by (cases "length es < 4") (auto simp: e dlq_run_snoc MaxAutoRetries_def)
  qed (use assms(2-4) in simp)
  then show ?thesis using assms(6) by auto
qed


definition replayed_count :: "DLQRow list \<Rightarrow> nat" where
  "replayed_count db = length (filter (\<lambda>r. dq_Status r = ''replayed'') db)"

lemma replayed_count_write:
  assumes "distinct (map dq_ID db)" "r \<in> set db" "dq_Status r = ''pending''"
  shows "replayed_count (map (\<lambda>u. if dq_ID u = dq_ID r then f u else u) db)
    = replayed_count db + (if dq_Status (f r) = ''replayed'' then 1 else 0)"
  using assms(1,2)
proof (induction db)
  case (Cons u db)
  show ?case
  proof (cases "u = r")
    case True
    then have "dq_ID u \<noteq> dq_ID r" if "u \<in> set db" for u using Cons.prems(1) that by (auto simp: image_iff)
    then have "map (\<lambda>u. if dq_ID u = dq_ID r then f u else u) db = db" by (simp add: map_idI)
    then show ?thesis using True assms(3) by (simp add: replayed_count_def)
  next
    case False
    then have "dq_ID u \<noteq> dq_ID r" using Cons.prems by auto
    then show ?thesis using Cons False by (auto simp: replayed_count_def)
  qed
qed simp

lemma match_as_id:
  assumes "distinct (map dq_ID db)" "List.find (dlq_match m i) db = Some r"
  shows "map (\<lambda>u. if dlq_match m i u then f u else u) db = map (\<lambda>u. if dq_ID u = dq_ID r then f u else u) db"
proof -
  note r = dlq_match_in [OF assms(2)]
  have "dlq_match m i u \<longleftrightarrow> dq_ID u = dq_ID r" if "u \<in> set db" for u
    using r same_id [OF assms(1) _ that, of r] unfolding dlq_match_def by metis
  then show ?thesis by simp
qed

lemma Publish_length:
  "length (st_entries (snd (Publish fails evt st))) = length (st_entries st) + (if fst (Publish fails evt st) then 1 else 0)"
  by (auto simp: Publish_def xadd_def)

lemma failed_not_replayed: "dq_Status r = ''pending'' \<Longrightarrow> dq_Status (failed_row now e r) \<noteq> ''replayed''"
  by (simp add: failed_row_def Let_def)

lemma dlq_act_balance:
  fixes jsonb :: "string \<Rightarrow> string option" and parse a
  assumes "dlq_ok (as_dlq s)" "\<not> de_fails env DlqReplayed"
  defines "s' \<equiv> dlq_act jsonb parse (env, a) s"
  shows "length (st_entries (as_stream s')) + replayed_count (as_dlq s) = length (st_entries (as_stream s)) + replayed_count (as_dlq s')"
proof -
  have d: "distinct (map dq_ID (as_dlq s))" using assms(1) by (simp add: dlq_ok_def)
  show ?thesis
  proof (cases a)
    case (AddRow p)
    obtain x db where e: "Enqueue jsonb env p (as_dlq s) = (x, db)" by fastforce
    show ?thesis using Enqueue_new [OF e] AddRow e by (cases "db = as_dlq s") (auto simp: s'_def replayed_count_def)
  next
    case a: (ReplayRow err claims path)
    show ?thesis
    proof (cases parse env err claims path s rule: admin_replay_cases)
      case (failed i row stream)
      note r = admin_row_Inr [OF failed(3)]
      show ?thesis
        using r failed(4,6) replayed_count_write [OF d _ failed(4), of "failed_row (de_now env) err"] failed_not_replayed [OF failed(4)]
        by (auto simp: s'_def a MarkRetryFailed_row match_as_id [OF d])
    next
      case (published i row stream x)
      note r = admin_row_Inr [OF published(3)]
      have "length (st_entries stream) = length (st_entries (as_stream s)) + 1"
        using Publish_length [of "de_xadd_fails env" "replay_event env row" "as_stream s"] published(5) by simp
      then show ?thesis
        using r published(6) assms(2) replayed_count_write [OF d _ published(4), of "replayed_row (de_now env)"]
        by (auto simp: s'_def a MarkReplayed_row match_as_id [OF d] replayed_row_def)
    qed (simp add: s'_def a)
  qed (simp_all add: s'_def)
qed

text \<open>The stream gains exactly one event for every dead letter that becomes replayed, over any run in which
  recording a replay does not fail.\<close>

theorem one_event_per_replayed_row:
  assumes "dlq_ok (as_dlq s)" "list_all (\<lambda>(env, a). \<not> de_fails env DlqReplayed) es"
  shows "length (st_entries (as_stream (dlq_run jsonb parse es s))) + replayed_count (as_dlq s)
    = length (st_entries (as_stream s)) + replayed_count (as_dlq (dlq_run jsonb parse es s))"
  using assms
proof (induction es arbitrary: s)
  case (Cons e es)
  obtain env a where e: "e = (env, a)" by (cases e)
  show ?case
    using Cons.IH [of "dlq_act jsonb parse e s"] dlq_act_balance [OF Cons.prems(1), of env jsonb parse a] dlq_act_keeps [OF Cons.prems(1)]
      Cons.prems(2) e by simp
qed simp

text \<open>A replayed event carries no hash and Sub 1 takes the hash it finds: of all the replayed events of
  all merchants one is sealed, the others are duplicates of it and acknowledged.\<close>

theorem replays_sealed_once:
  assumes "list_ex (\<lambda>r. ev_event_hash r = []) (ss_table s)" "\<not> fail SealBegin" "\<not> fail SealLock" "\<not> fail SealLookup"
  shows "ss_table (handle sha fail ack_fails now (n, EventJSON (replay_event env row)) s) = ss_table s"
    and "\<not> ack_fails \<Longrightarrow> ss_stream (handle sha fail ack_fails now (n, EventJSON (replay_event env row)) s) = xack n (ss_stream s)"
proof -
  have "evidence_conflict (ss_table s) (replay_event env row)"
    using assms(1) by (auto simp: evidence_conflict_def replay_event_def list_ex_iff)
  then have w: "\<exists>c. WriteEvidence sha fail now (ss_table s) (replay_event env row) = (Inl (DuplicateEvent c), ss_table s)"
    using assms(2-4) by (simp add: WriteEvidence_def Let_def)
  show "ss_table (handle sha fail ack_fails now (n, EventJSON (replay_event env row)) s) = ss_table s"
    and "\<not> ack_fails \<Longrightarrow> ss_stream (handle sha fail ack_fails now (n, EventJSON (replay_event env row)) s) = xack n (ss_stream s)"
    using w by (auto simp: handle_def Let_def)
qed


text \<open>A row that is settled cannot be replayed, an abandoned one neither.\<close>

lemma settled_replay_refused:
  assumes "replayer parse claims path (dq_MerchantID r) i" "dlq_ok (as_dlq s)" "dlq_row (as_dlq s) i = Some r"
    and "\<not> de_fails env DlqSelect" "dq_Status r \<noteq> ''pending''"
  shows "admin_replay parse env err claims path s = (AdminErr 409 ''terminal_status'', s)"
  using admin_row_found [OF assms(1) _ assms(3,4)] assms(1,2,5) by (simp add: dlq_ok_def admin_replay_def replayer_def)

text \<open>One dead letter of merchant 7, and its replays.\<close>

definition toy_dlq_env :: "gotime \<Rightarrow> bool \<Rightarrow> dlq_env" where
  "toy_dlq_env now xf = \<lparr>de_now = now, de_fails = (\<lambda>_. False), de_row = 1, de_event = 5, de_xadd_fails = xf\<rparr>"

definition toy_letter :: DLQRow where
  "toy_letter = \<lparr>dq_ID = 1, dq_MerchantID = 7, dq_SourceCode = ''square'', dq_SourceEventID = None, dq_EventID = None,
     dq_Payload = ''{}'', dq_Headers = RawText ''{}'', dq_FailureReason = ''publish_failed'', dq_ErrorMessage = None,
     dq_RetryCount = 0, dq_NextRetryAt = Some minute, dq_Status = ''pending'', dq_LastReplayAt = None,
     dq_LastReplayOutcome = None, dq_Attributes = RawText ''{}'', dq_CreatedAt = 0, dq_UpdatedAt = 0\<rparr>"

definition toy_admin :: admin_state where
  "toy_admin = \<lparr>as_dlq = [toy_letter], as_stream = \<lparr>st_entries = [], st_delivered = 0, st_pending = []\<rparr>\<rparr>"

definition toy_claims :: "auth_claims option" where
  "toy_claims = Some \<lparr>ac_TenantID = 7, ac_AgentName = [], ac_UserID = 0, ac_Scopes = [''dlq:replay''], ac_AuthMethod = ''apikey'', ac_KeyID = 3\<rparr>"

lemma toy_dlq_ok: "dlq_ok (as_dlq toy_admin)" "dlq_row (as_dlq toy_admin) 1 = Some toy_letter"
  by (simp_all add: dlq_ok_def toy_admin_def toy_letter_def dlq_row_ok_def MaxAutoRetries_def dlq_row_def)

lemma toy_replayer: "replayer (\<lambda>_. Some 1) toy_claims [] (dq_MerchantID toy_letter) 1"
  by (simp add: replayer_def toy_claims_def toy_letter_def RequireScope_def hasScope_def claim_tenant_def)


theorem retry_schedule_witness:
  "\<exists>r'. dlq_row (as_dlq (dlq_run Some (\<lambda>_. Some 1)
        [(toy_dlq_env 9 True, ReplayRow ''down'' toy_claims []), (toy_dlq_env 20 True, ReplayRow ''down'' toy_claims [])] toy_admin)) 1 = Some r'
     \<and> dq_RetryCount r' = 2 \<and> dq_NextRetryAt r' = Some (20 + 30 * minute)"
proof -
  let ?es = "[(toy_dlq_env 9 True, ''down''), (toy_dlq_env 20 True, ''down'')]"
  have l: "dq_Status toy_letter = ''pending''" "dq_RetryCount toy_letter = 0" "?es \<noteq> []" by (simp_all add: toy_letter_def)
  have f: "\<forall>(env, err) \<in> set ?es. (\<forall>c. \<not> de_fails env c) \<and> de_xadd_fails env" by (simp add: toy_dlq_env_def)
  from retry_schedule [OF toy_dlq_ok l(1,2) toy_replayer l(3) f, of Some]
  show ?thesis by (auto simp: toy_dlq_env_def defaultBackoff_def simp del: dlq_run.simps)
qed

theorem one_event_per_replayed_row_witness:
  "let s' = dlq_run Some (\<lambda>_. Some 1) [(toy_dlq_env 9 False, ReplayRow [] toy_claims [])] toy_admin in
     length (st_entries (as_stream s')) = replayed_count (as_dlq s')"
  using one_event_per_replayed_row [OF toy_dlq_ok(1), of "[(toy_dlq_env 9 False, ReplayRow [] toy_claims [])]" Some "\<lambda>_. Some 1"]
  by (simp add: toy_dlq_env_def replayed_count_def toy_admin_def toy_letter_def del: dlq_run.simps)

theorem replays_sealed_once_witness:
  "ss_table (handle (\<lambda>x. x) (\<lambda>_. False) False 4 (1, EventJSON (replay_event (toy_dlq_env 9 False) toy_letter))
     \<lparr>ss_table = [seal_row (\<lambda>x. x) 3 [] (replay_event (toy_dlq_env 8 False) toy_letter)], ss_stream = as_stream toy_admin\<rparr>)
   = [seal_row (\<lambda>x. x) 3 [] (replay_event (toy_dlq_env 8 False) toy_letter)]"
  using replays_sealed_once(1) [of "\<lparr>ss_table = [seal_row (\<lambda>x. x) 3 [] (replay_event (toy_dlq_env 8 False) toy_letter)], ss_stream = as_stream toy_admin\<rparr>"
      "\<lambda>_. False" "\<lambda>x. x" False 4 1 "toy_dlq_env 9 False" toy_letter]
  by (simp add: seal_row_def replay_event_def Let_def)

end
