(* ===== verification/Intake.thy ===== *)
theory Intake
  imports RateLimit Hmac
begin

text \<open>
  What the webhook pipeline puts in front of the queue: the register of event identifiers of the
  sources (\<open>webhook/idempotency.go\<close>) and the per-minute limits (\<open>webhook/backpressure.go\<close>), both
  over Valkey.  Rendering a uuid is the parameter \<open>uuid_str\<close>.
\<close>

section \<open>Event identifiers\<close>

definition IdempotencyTTL :: duration where
  "IdempotencyTTL = 24 * hour"

datatype intake_error = DuplicateEventID | IntakeFailed

record Idempotency =
  id_ttl :: duration
  id_keyPrefix :: string

datatype IdempotencyOption = WithIdempotencyTTL duration | WithIdempotencyKeyPrefix string

fun idempotency_option :: "IdempotencyOption \<Rightarrow> Idempotency \<Rightarrow> Idempotency" where
  "idempotency_option (WithIdempotencyTTL d) i = i\<lparr>id_ttl := d\<rparr>"
| "idempotency_option (WithIdempotencyKeyPrefix p) i = i\<lparr>id_keyPrefix := p\<rparr>"

definition NewIdempotency :: "IdempotencyOption list \<Rightarrow> Idempotency" where
  "NewIdempotency opts = fold idempotency_option opts \<lparr>id_ttl = IdempotencyTTL, id_keyPrefix = ''webhook:idempotency''\<rparr>"

definition idempotency_key :: "Idempotency \<Rightarrow> string \<Rightarrow> string \<Rightarrow> string" where
  "idempotency_key i sourceCode sourceEventID = id_keyPrefix i @ '':'' @ sourceCode @ '':'' @ sourceEventID"

definition Reserve :: "Idempotency \<Rightarrow> bool \<Rightarrow> gotime \<Rightarrow> string \<Rightarrow> string \<Rightarrow> string \<Rightarrow> valkey \<Rightarrow> (intake_error + unit) \<times> valkey" where
  "Reserve i down now sourceCode sourceEventID canonicalEventID s =
     (if sourceEventID = [] then (Inr (), s)
      else if down then (Inl IntakeFailed, s)
      else case vk_setnx now (idempotency_key i sourceCode sourceEventID) canonicalEventID (id_ttl i) s of
          (True, s') \<Rightarrow> (Inr (), s')
        | (False, s') \<Rightarrow> (Inl DuplicateEventID, s'))"

definition Lookup_event :: "Idempotency \<Rightarrow> bool \<Rightarrow> gotime \<Rightarrow> string \<Rightarrow> string \<Rightarrow> valkey \<Rightarrow> intake_error + string" where
  "Lookup_event i down now sourceCode sourceEventID s =
     (if sourceEventID = [] then Inr []
      else if down then Inl IntakeFailed
      else case vk_get now (idempotency_key i sourceCode sourceEventID) s of None \<Rightarrow> Inr [] | Some v \<Rightarrow> Inr v)"

definition Forget :: "Idempotency \<Rightarrow> bool \<Rightarrow> string \<Rightarrow> string \<Rightarrow> valkey \<Rightarrow> (intake_error + unit) \<times> valkey" where
  "Forget i down sourceCode sourceEventID s =
     (if sourceEventID = [] then (Inr (), s)
      else if down then (Inl IntakeFailed, s)
      else (Inr (), vk_del (idempotency_key i sourceCode sourceEventID) s))"

section \<open>Limits per merchant and source\<close>

record BackpressureConfig =
  bc_MerchantID :: "uuid option"
  bc_SourceCode :: string
  bc_MaxRPS :: int
  bc_BurstCapacity :: int
  bc_Enabled :: bool

record Backpressure =
  bp_configs :: "string \<times> string \<rightharpoonup> BackpressureConfig"
  bp_loadedAt :: gotime
  bp_reloadEvery :: duration
  bp_keyPrefix :: string

datatype BackpressureOption = WithBackpressureReloadInterval duration

fun backpressure_option :: "BackpressureOption \<Rightarrow> Backpressure \<Rightarrow> Backpressure" where
  "backpressure_option (WithBackpressureReloadInterval d) b = b\<lparr>bp_reloadEvery := d\<rparr>"

definition NewBackpressure :: "BackpressureOption list \<Rightarrow> Backpressure" where
  "NewBackpressure opts = fold backpressure_option opts
     \<lparr>bp_configs = (\<lambda>_. None), bp_loadedAt = zero_time, bp_reloadEvery = 60 * second, bp_keyPrefix = ''webhook:bp''\<rparr>"

definition bpKey :: "(uuid \<Rightarrow> string) \<Rightarrow> uuid option \<Rightarrow> string \<Rightarrow> string \<times> string" where
  "bpKey uuid_str m sourceCode = ((case m of None \<Rightarrow> [] | Some i \<Rightarrow> uuid_str i), sourceCode)"

text \<open>The enabled rows replace the limits in memory at once; \<open>None\<close> for a query that failed.\<close>

definition LoadConfigs :: "(uuid \<Rightarrow> string) \<Rightarrow> gotime \<Rightarrow> BackpressureConfig list option \<Rightarrow> Backpressure \<Rightarrow> Backpressure" where
  "LoadConfigs uuid_str now rows b =
     (case rows of None \<Rightarrow> b
      | Some cs \<Rightarrow> b\<lparr>bp_configs := fold (\<lambda>c m. m(bpKey uuid_str (bc_MerchantID c) (bc_SourceCode c) \<mapsto> c)) (filter bc_Enabled cs) (\<lambda>_. None),
                     bp_loadedAt := now\<rparr>)"

definition zero_config :: BackpressureConfig where
  "zero_config = \<lparr>bc_MerchantID = None, bc_SourceCode = [], bc_MaxRPS = 0, bc_BurstCapacity = 0, bc_Enabled = False\<rparr>"

definition configFor :: "(uuid \<Rightarrow> string) \<Rightarrow> Backpressure \<Rightarrow> uuid \<Rightarrow> string \<Rightarrow> BackpressureConfig" where
  "configFor uuid_str b m sourceCode =
     (case bp_configs b (bpKey uuid_str (Some m) sourceCode) of
        Some cfg \<Rightarrow> cfg
      | None \<Rightarrow> (case bp_configs b (bpKey uuid_str None sourceCode) of Some cfg \<Rightarrow> cfg | None \<Rightarrow> zero_config))"

text \<open>Whether a request starts a load in the background; the request does not wait for it.\<close>

definition maybeReload :: "gotime \<Rightarrow> Backpressure \<Rightarrow> bool" where
  "maybeReload now b \<longleftrightarrow> bp_reloadEvery b < time_sub now (bp_loadedAt b)"

text \<open>\<open>Truncate(time.Minute).Unix()\<close>: minutes count from the zero time, a whole number of them
  before 1970.\<close>

definition minute_floor :: "gotime \<Rightarrow> go_int64" where
  "minute_floor now = unix_seconds (now div minute * minute)"

definition bp_counter :: "(uuid \<Rightarrow> string) \<Rightarrow> Backpressure \<Rightarrow> uuid \<Rightarrow> string \<Rightarrow> gotime \<Rightarrow> string" where
  "bp_counter uuid_str b m sourceCode now =
     bp_keyPrefix b @ '':'' @ sourceCode @ '':'' @ uuid_str m @ '':'' @ fmt_int (minute_floor now)"

text \<open>The answer, and the time of the next minute; a failing \<open>EXPIRE\<close> is not looked at.\<close>

datatype bp_answer = BpAllowed | BpRefused duration | BpFailed

definition Allow :: "(uuid \<Rightarrow> string) \<Rightarrow> Backpressure \<Rightarrow> bool \<Rightarrow> bool \<Rightarrow> gotime \<Rightarrow> uuid \<Rightarrow> string \<Rightarrow> valkey \<Rightarrow> bp_answer \<times> valkey" where
  "Allow uuid_str b down expire_fails now m sourceCode s =
     (let cfg = configFor uuid_str b m sourceCode in
      if \<not> bc_Enabled cfg \<or> bc_MaxRPS cfg \<le> 0 then (BpAllowed, s)
      else
        let floor = minute_floor now; key = bp_counter uuid_str b m sourceCode now in
        if down then (BpFailed, s)
        else case vk_incr now key s of
            (None, s') \<Rightarrow> (BpFailed, s')
          | (Some count, s') \<Rightarrow>
              let s'' = (if count = 1 \<and> \<not> expire_fails then vk_expire now key (75 * second) s' else s');
                  limit = wrap64 (wrap64 (bc_MaxRPS cfg * 60) + bc_BurstCapacity cfg) in
              if limit < int count then (BpRefused (time_sub (time_unix (wrap64 (floor + 60))) now), s'')
              else (BpAllowed, s''))"

definition Peek :: "(uuid \<Rightarrow> string) \<Rightarrow> Backpressure \<Rightarrow> bool \<Rightarrow> gotime \<Rightarrow> uuid \<Rightarrow> string \<Rightarrow> valkey \<Rightarrow> intake_error + nat" where
  "Peek uuid_str b down now m sourceCode s =
     (if down then Inl IntakeFailed
      else case vk_get now (bp_counter uuid_str b m sourceCode now) s of
          None \<Rightarrow> Inr 0
        | Some v \<Rightarrow> (case vk_counter v of None \<Rightarrow> Inl IntakeFailed | Some n \<Rightarrow> Inr n))"


section \<open>An event identifier is accepted once\<close>

lemma takeWhile_stop: "x \<notin> set xs \<Longrightarrow> takeWhile (\<lambda>y. y \<noteq> x) (xs @ x # ys) = xs"
  by (induction xs) auto

lemma last_colon:
  assumes "a @ CHR '':'' # b = c @ CHR '':'' # d" "CHR '':'' \<notin> set b" "CHR '':'' \<notin> set d"
  shows "a = c \<and> b = d"
proof -
  have eq: "rev b @ CHR '':'' # rev a = rev d @ CHR '':'' # rev c"
    using arg_cong [OF assms(1), of rev] by simp
  have "takeWhile (\<lambda>x. x \<noteq> CHR '':'') (rev b @ CHR '':'' # rev a) = rev b"
    "takeWhile (\<lambda>x. x \<noteq> CHR '':'') (rev d @ CHR '':'' # rev c) = rev d"
    using assms(2,3) by (simp_all add: takeWhile_stop)
  then have "b = d" using eq by simp
  then show ?thesis using eq by simp
qed

lemma first_colon:
  assumes "a @ CHR '':'' # b = c @ CHR '':'' # d" "CHR '':'' \<notin> set a" "CHR '':'' \<notin> set c"
  shows "a = c \<and> b = d"
proof -
  have "rev b @ CHR '':'' # rev a = rev d @ CHR '':'' # rev c"
    using arg_cong [OF assms(1), of rev] by simp
  from last_colon [OF this] show ?thesis using assms(2,3) by simp
qed

text \<open>Reservations, each with its time, source, identifier, event and whether Valkey is down.\<close>

fun reserve_run :: "Idempotency \<Rightarrow> (gotime \<times> string \<times> string \<times> string \<times> bool) list \<Rightarrow> valkey \<Rightarrow> valkey" where
  "reserve_run i [] s = s"
| "reserve_run i ((t, src, ev, c, down) # rs) s = reserve_run i rs (snd (Reserve i down t src ev c s))"

lemma Reserve_state:
  "snd (Reserve i down t src ev c s) =
     (if ev = [] \<or> down then s else snd (vk_setnx t (idempotency_key i src ev) c (id_ttl i) s))"
  by (simp add: Reserve_def split: prod.split bool.split)

lemma Reserve_reply:
  "ev \<noteq> [] \<Longrightarrow> fst (Reserve i False t src ev c s) =
     (if vk_live t s (idempotency_key i src ev) = None then Inr () else Inl DuplicateEventID)"
  by (simp add: Reserve_def vk_setnx_def split: option.split)

lemma setnx_keeps_live: "vk_live t s k = Some e \<Longrightarrow> now \<le> t \<Longrightarrow> vk_live t (snd (vk_setnx now k' v ttl s)) k = Some e"
  using vk_live_mono [of t s k e now] by (auto simp: vk_setnx_def vk_live_set split: option.splits)

lemma reserve_run_keeps:
  "sorted (map fst rs @ [t]) \<Longrightarrow> vk_live t s k = Some e \<Longrightarrow> vk_live t (reserve_run i rs s) k = Some e"
proof (induction rs arbitrary: s)
  case (Cons r rs)
  obtain u src ev c down where r: "r = (u, src, ev, c, down)" by (cases r)
  have "vk_live t (snd (Reserve i down u src ev c s)) k = Some e"
    using Cons.prems r setnx_keeps_live [of t s k e u] by (simp add: Reserve_state)
  then show ?case using Cons r by simp
qed simp

lemma idempotency_key_inj:
  assumes "CHR '':'' \<notin> set src" "CHR '':'' \<notin> set src'"
  shows "idempotency_key i src ev = idempotency_key i src' ev' \<longleftrightarrow> src = src' \<and> ev = ev'"
  using first_colon [of src ev src' ev'] assms by (auto simp: idempotency_key_def)

text \<open>While a reservation lives, whatever else is reserved, the source's identifier looks up the event it was
  reserved for and every further reservation of it is a duplicate; identifiers of another pair of source
  and event are not affected.\<close>

theorem reserved_event_stays:
  assumes "Reserve i False t0 src ev cid s = (Inr (), s0)" "ev \<noteq> []"
    and "sorted (t0 # map fst rs @ [t])" "t < t0 + id_ttl i"
    and "CHR '':'' \<notin> set src" "CHR '':'' \<notin> set src'" "(src', ev') \<noteq> (src, ev)"
  shows "Lookup_event i False t src ev (reserve_run i rs s0) = Inr cid
    \<and> fst (Reserve i False t src ev cid' (reserve_run i rs s0)) = Inl DuplicateEventID
    \<and> fst (Reserve i False t src' ev' cid' s0) = fst (Reserve i False t src' ev' cid' s)"
proof (intro conjI)
  let ?k = "idempotency_key i src ev"
  have "0 < id_ttl i" using assms(3,4) by simp
  have s0: "s0 = vk_set t0 ?k cid (id_ttl i) s" "vk_live t0 s ?k = None"
    using assms(1,2) by (auto simp: Reserve_def vk_setnx_def split: option.splits)
  have "vk_live t s0 ?k = Some \<lparr>vk_value = cid, vk_expires = vk_deadline t0 (id_ttl i)\<rparr>"
    using assms(4) s0(1) by (simp add: vk_live_set)
  then have live: "vk_live t (reserve_run i rs s0) ?k = Some \<lparr>vk_value = cid, vk_expires = vk_deadline t0 (id_ttl i)\<rparr>"
    using reserve_run_keeps assms(3) by simp
  from this show "Lookup_event i False t src ev (reserve_run i rs s0) = Inr cid"
    using assms(2) by (simp add: Lookup_event_def vk_get_def)
  show "fst (Reserve i False t src ev cid' (reserve_run i rs s0)) = Inl DuplicateEventID"
    using live assms(2) by (simp add: Reserve_reply)
  show "fst (Reserve i False t src' ev' cid' s0) = fst (Reserve i False t src' ev' cid' s)"
    using assms(7) idempotency_key_inj [OF assms(6,5), of i ev' ev] s0(1)
    by (cases "ev' = []") (auto simp: Reserve_def [of i False t src' "[]"] Reserve_reply vk_live_set)
qed


section \<open>Within a minute\<close>

text \<open>Requests of any merchants and sources, each with its time and whether its \<open>EXPIRE\<close> fails.\<close>

fun allow_run :: "(uuid \<Rightarrow> string) \<Rightarrow> Backpressure \<Rightarrow> (gotime \<times> uuid \<times> string \<times> bool) list \<Rightarrow> valkey \<Rightarrow> bp_answer list" where
  "allow_run uuid_str b [] s = []"
| "allow_run uuid_str b ((t, m, src, xf) # rs) s =
     (case Allow uuid_str b False xf t m src s of (a, s') \<Rightarrow> a # allow_run uuid_str b rs s')"

definition bp_limited :: "BackpressureConfig \<Rightarrow> bool" where
  "bp_limited cfg \<longleftrightarrow> bc_Enabled cfg \<and> 0 < bc_MaxRPS cfg"

definition bp_limit :: "BackpressureConfig \<Rightarrow> int" where
  "bp_limit cfg = bc_MaxRPS cfg * 60 + bc_BurstCapacity cfg"

text \<open>What the specification answers to a request of a merchant and source with \<open>n\<close> requests before it.\<close>

definition allow_spec :: "BackpressureConfig \<Rightarrow> gotime \<Rightarrow> nat \<Rightarrow> bp_answer" where
  "allow_spec cfg t n = (if bp_limited cfg \<and> bp_limit cfg < int n + 1 then BpRefused (nextMinute t - t) else BpAllowed)"

fun allow_specs :: "(uuid \<Rightarrow> string) \<Rightarrow> Backpressure \<Rightarrow> (uuid \<times> string \<Rightarrow> nat) \<Rightarrow> (gotime \<times> uuid \<times> string \<times> bool) list \<Rightarrow> bp_answer list" where
  "allow_specs uuid_str b n [] = []"
| "allow_specs uuid_str b n ((t, m, src, xf) # rs) =
     allow_spec (configFor uuid_str b m src) t (n (m, src)) # allow_specs uuid_str b (n((m, src) := n (m, src) + 1)) rs"

text \<open>The counters of the minute \<open>M\<close> from \<open>t\<close> on hold \<open>n\<close>.\<close>

definition counted :: "(uuid \<Rightarrow> string) \<Rightarrow> Backpressure \<Rightarrow> int \<Rightarrow> gotime \<Rightarrow> (uuid \<times> string \<Rightarrow> nat) \<Rightarrow> valkey \<Rightarrow> bool" where
  "counted uuid_str b M t n s \<longleftrightarrow> (\<forall>m src u. bp_limited (configFor uuid_str b m src) \<longrightarrow> t \<le> u \<longrightarrow> u div minute = M \<longrightarrow>
     (case vk_live u s (bp_counter uuid_str b m src u) of
        None \<Rightarrow> n (m, src) = 0
      | Some e \<Rightarrow> 0 < n (m, src) \<and> vk_counter (vk_value e) = Some (n (m, src))))"

lemma bp_counter_same:
  "t div minute = u div minute \<Longrightarrow> bp_counter uuid_str b m src t = bp_counter uuid_str b m src u"
  by (simp add: bp_counter_def minute_floor_def)

lemma bp_counter_inj:
  assumes "inj uuid_str" "\<And>m. CHR '':'' \<notin> set (uuid_str m)" "bp_counter uuid_str b m src t = bp_counter uuid_str b m' src' t"
  shows "m = m' \<and> src = src'"
proof -
  have split: "bp_counter uuid_str b m src t = (bp_keyPrefix b @ '':'') @ (src @ CHR '':'' # uuid_str m) @ ('':'' @ fmt_int (minute_floor t))" for m src
    by (simp add: bp_counter_def)
  have "src @ CHR '':'' # uuid_str m = src' @ CHR '':'' # uuid_str m'"
    using assms(3) unfolding split by (simp only: same_append_eq append_same_eq)
  from last_colon [OF this assms(2,2)] show ?thesis using assms(1) by (simp add: inj_eq)
qed


lemma minute_floor_next:
  assumes "0 \<le> t" "t + minute < 2 ^ 62 * second"
  shows "time_sub (time_unix (wrap64 (minute_floor t + 60))) t = nextMinute t - t"
proof -
  have m: "t div minute * minute div second = t div minute * 60" by (simp add: minute_def second_def)
  have b: "0 \<le> t div minute" "t div minute * 60 + 60 < 2 ^ 62"
    using assms by (simp_all add: minute_def second_def)
  then have "minute_floor t = t div minute * 60" by (simp add: minute_floor_def unix_seconds_def m wrap64_small)
  moreover have "wrap64 (t div minute * 60 + 60) = t div minute * 60 + 60" using b by (simp add: wrap64_small)
  moreover have "wrap64 (t div minute * 60 + 60 + 62135596800) = t div minute * 60 + 60 + 62135596800" using b by (simp add: wrap64_small)
  ultimately have "time_unix (wrap64 (minute_floor t + 60)) = nextMinute t"
    by (simp add: time_unix_def nextMinute_multiple minute_def second_def)
  moreover have "is_int64 (nextMinute t - t)"
    using nextMinute_bounds [of t] by (simp add: is_int64_def minute_def)
  ultimately show ?thesis by (simp add: time_sub_small)
qed

text \<open>A hit of a counter that holds \<open>n\<close>: it holds \<open>n + 1\<close> for the rest of the minute.\<close>

lemma hit_counts:
  assumes "t div minute = M" "n < 2 ^ 63 - 1"
    and live: "\<And>u. t \<le> u \<Longrightarrow> u div minute = M \<Longrightarrow>
      (case vk_live u s k of None \<Rightarrow> n = 0 | Some e \<Rightarrow> 0 < n \<and> vk_counter (vk_value e) = Some n)"
  defines "s1 \<equiv> snd (vk_incr t k s)"
  shows "fst (vk_incr t k s) = Some (n + 1)"
    and "t \<le> u \<Longrightarrow> u div minute = M \<Longrightarrow> n + 1 = 1 \<and> \<not> xf \<Longrightarrow>
      \<exists>e. vk_live u (vk_expire t k (75 * second) s1) k = Some e \<and> vk_counter (vk_value e) = Some (n + 1)"
    and "t \<le> u \<Longrightarrow> u div minute = M \<Longrightarrow> \<exists>e. vk_live u s1 k = Some e \<and> vk_counter (vk_value e) = Some (n + 1)"
proof -
  have now: "case vk_live t s k of None \<Rightarrow> n = 0 | Some e \<Rightarrow> 0 < n \<and> vk_counter (vk_value e) = Some n"
    using live [OF order_refl assms(1)] .
  show "fst (vk_incr t k s) = Some (n + 1)" using now assms(2) by (auto simp: vk_incr_def split: option.splits)
  have keep: "\<exists>e. vk_live u s1 k = Some e \<and> vk_counter (vk_value e) = Some (n + 1)" if "t \<le> u" "u div minute = M" for u
  proof (cases "vk_live t s k")
    case None
    then show ?thesis using now by (simp add: s1_def vk_incr_def vk_live_set)
  next
    case (Some e)
    then have n: "0 < n" "vk_counter (vk_value e) = Some n" using now by simp_all
    note later = live [OF that]
    obtain e' where "vk_live u s k = Some e'" using later n(1) by (cases "vk_live u s k") auto
    then have "vk_live u s k = Some e" using vk_live_mono [of u s k e' t] that(1) Some by simp
    then show ?thesis using Some n assms(2)
      by (auto simp: s1_def vk_incr_def vk_live_set_any vk_live_def split: option.splits if_splits)
  qed
  then show "\<exists>e. vk_live u s1 k = Some e \<and> vk_counter (vk_value e) = Some (n + 1)" if "t \<le> u" "u div minute = M" using that by blast
  show "\<exists>e. vk_live u (vk_expire t k (75 * second) s1) k = Some e \<and> vk_counter (vk_value e) = Some (n + 1)"
    if "t \<le> u" "u div minute = M" "n + 1 = 1 \<and> \<not> xf"
  proof -
    obtain e where e: "vk_live t s1 k = Some e" "vk_counter (vk_value e) = Some (n + 1)" using keep [OF order_refl assms(1)] by blast
    have "u < t + 70 * second" using minute_gap [of t u] that assms(1) by simp
    then show ?thesis using e vk_secs_whole [of 75] by (simp add: vk_expire_def vk_live_set_any second_def)
  qed
qed


lemma vk_incr_other: "k' \<noteq> k \<Longrightarrow> vk_live u (snd (vk_incr t k s)) k' = vk_live u s k'"
  by (auto simp: vk_incr_def vk_live_set vk_live_set_any split: option.splits)

lemma vk_expire_other: "k' \<noteq> k \<Longrightarrow> vk_live u (vk_expire t k d s) k' = vk_live u s k'"
  by (auto simp: vk_expire_def vk_live_set_any split: option.splits)

text \<open>The limits as the columns of the table bound them.\<close>

definition bp_in_range :: "BackpressureConfig \<Rightarrow> bool" where
  "bp_in_range cfg \<longleftrightarrow> bc_MaxRPS cfg \<le> 100000 \<and> 0 \<le> bc_BurstCapacity cfg \<and> bc_BurstCapacity cfg < 2 ^ 31"

lemma Allow_step:
  assumes "inj uuid_str" "\<And>m. CHR '':'' \<notin> set (uuid_str m)" "bp_in_range (configFor uuid_str b m src)"
    and "counted uuid_str b M t n s" "t \<le> u" "u div minute = M" "n (m, src) < 2 ^ 63 - 1" "0 \<le> u" "u + minute < 2 ^ 62 * second"
    and "Allow uuid_str b False xf u m src s = (a, s')"
  shows "a = allow_spec (configFor uuid_str b m src) u (n (m, src))
    \<and> counted uuid_str b M u (n((m, src) := n (m, src) + 1)) s'"
proof (cases "bp_limited (configFor uuid_str b m src)")
  case False
  then have "a = BpAllowed" "s' = s" using assms(10) by (auto simp: Allow_def bp_limited_def Let_def)
  moreover have "counted uuid_str b M u (n((m, src) := n (m, src) + 1)) s"
    unfolding counted_def
  proof (intro allI impI)
    fix m' src' v assume v: "bp_limited (configFor uuid_str b m' src')" "u \<le> v" "v div minute = M"
    then have ne: "(m', src') \<noteq> (m, src)" using False by auto
    show "case vk_live v s (bp_counter uuid_str b m' src' v) of
        None \<Rightarrow> (n((m, src) := n (m, src) + 1)) (m', src') = 0
      | Some e \<Rightarrow> 0 < (n((m, src) := n (m, src) + 1)) (m', src') \<and> vk_counter (vk_value e) = Some ((n((m, src) := n (m, src) + 1)) (m', src'))"
      unfolding fun_upd_other [OF ne] using assms(4,5) v unfolding counted_def by simp
  qed
  ultimately show ?thesis using False by (simp add: allow_spec_def)
next
  case lim: True
  let ?k = "bp_counter uuid_str b m src u" and ?s1 = "snd (vk_incr u (bp_counter uuid_str b m src u) s)"
  let ?cfg = "configFor uuid_str b m src"
  have live: "case vk_live v s ?k of None \<Rightarrow> n (m, src) = 0 | Some e \<Rightarrow> 0 < n (m, src) \<and> vk_counter (vk_value e) = Some (n (m, src))"
    if "u \<le> v" "v div minute = M" for v
  proof -
    have "bp_counter uuid_str b m src v = ?k" using that(2) assms(6) by (intro bp_counter_same) simp
    then show ?thesis
      using assms(4) [unfolded counted_def, rule_format, OF lim _ that(2)] assms(5) that(1) by simp
  qed
  note hit = hit_counts [of u M "n (m, src)" s ?k, OF assms(6,7) live]
  define s2 where "s2 = (if n (m, src) + 1 = 1 \<and> \<not> xf then vk_expire u ?k (75 * second) ?s1 else ?s1)"
  have lim64: "wrap64 (wrap64 (bc_MaxRPS ?cfg * 60) + bc_BurstCapacity ?cfg) = bp_limit ?cfg"
    using assms(3) lim by (simp add: bp_in_range_def bp_limited_def bp_limit_def wrap64_id is_int64_def)
  have a: "a = allow_spec ?cfg u (n (m, src))" "s' = s2"
    using assms(10) lim hit(1) lim64 minute_floor_next [OF assms(8,9)]
    by (auto simp: Allow_def bp_limited_def Let_def s2_def allow_spec_def split: prod.splits if_splits)
  have own: "\<exists>e. vk_live v s2 ?k = Some e \<and> vk_counter (vk_value e) = Some (n (m, src) + 1)" if "u \<le> v" "v div minute = M" for v
    using hit(2) [OF _ _ that, of xf] hit(3) [OF _ _ that] by (simp add: s2_def)
  have other: "vk_live v s2 k = vk_live v s k" if "k \<noteq> ?k" for k v
    using that by (simp add: s2_def vk_expire_other vk_incr_other)
  have "counted uuid_str b M u (n((m, src) := n (m, src) + 1)) s2"
    unfolding counted_def
  proof (intro allI impI)
    fix m' src' v assume v: "bp_limited (configFor uuid_str b m' src')" "u \<le> v" "v div minute = M"
    show "case vk_live v s2 (bp_counter uuid_str b m' src' v) of
        None \<Rightarrow> (n((m, src) := n (m, src) + 1)) (m', src') = 0
      | Some e \<Rightarrow> 0 < (n((m, src) := n (m, src) + 1)) (m', src') \<and> vk_counter (vk_value e) = Some ((n((m, src) := n (m, src) + 1)) (m', src'))"
    proof (cases "(m', src') = (m, src)")
      case True
      then have "bp_counter uuid_str b m' src' v = ?k" using v(3) assms(6) bp_counter_same [of v u] by simp
      then show ?thesis using own [OF v(2,3)] True by auto
    next
      case False
      have "bp_counter uuid_str b m' src' v = bp_counter uuid_str b m' src' u" using v(3) assms(6) bp_counter_same [of v u] by simp
      then have "bp_counter uuid_str b m' src' v \<noteq> ?k" using bp_counter_inj [OF assms(1,2)] False by metis
      from other [OF this] show ?thesis
        unfolding fun_upd_other [OF False] using assms(4,5) v unfolding counted_def by simp
    qed
  qed
  with a show ?thesis by simp
qed


lemma allow_run_specs:
  assumes "inj uuid_str" "\<And>m. CHR '':'' \<notin> set (uuid_str m)" "\<And>m src. bp_in_range (configFor uuid_str b m src)"
  shows "counted uuid_str b M t0 n s \<Longrightarrow> sorted (t0 # map fst rs) \<Longrightarrow>
    \<forall>r \<in> set rs. fst r div minute = M \<and> 0 \<le> fst r \<and> fst r + minute < 2 ^ 62 * second \<Longrightarrow>
    \<forall>p. n p + length rs < 2 ^ 63 \<Longrightarrow> allow_run uuid_str b rs s = allow_specs uuid_str b n rs"
proof (induction rs arbitrary: t0 n s)
  case (Cons r rs)
  obtain t m src xf where r: "r = (t, m, src, xf)" by (cases r)
  obtain a s' where a: "Allow uuid_str b False xf t m src s = (a, s')" by fastforce
  have "n (m, src) < 2 ^ 63 - 1" using Cons.prems(4) [rule_format, of "(m, src)"] by simp
  note st = Allow_step [OF assms(1,2,3) Cons.prems(1) _ _ this _ _ a]
  define n' where "n' = n((m, src) := n (m, src) + 1)"
  have b: "\<forall>p. n' p + length rs < 2 ^ 63"
  proof
    fix p show "n' p + length rs < 2 ^ 63"
      using Cons.prems(4) [rule_format, of p] by (cases "p = (m, src)") (simp_all add: n'_def)
  qed
  have now: "a = allow_spec (configFor uuid_str b m src) t (n (m, src))" "counted uuid_str b M t n' s'"
    using st Cons.prems(2,3) r by (simp_all add: n'_def)
  have "allow_run uuid_str b rs s' = allow_specs uuid_str b n' rs"
    by (rule Cons.IH) (use now(2) Cons.prems(2,3) r b in auto)
  then show ?case using r a now(1) by (simp add: n'_def)
qed simp

lemma allow_specs_nth:
  "allow_specs uuid_str b n rs = map (\<lambda>j. case rs ! j of (t, m, src, xf) \<Rightarrow>
      allow_spec (configFor uuid_str b m src) t (n (m, src) + length (filter (\<lambda>(t, m', src', xf). m' = m \<and> src' = src) (take j rs))))
      [0..<length rs]"
proof (induction rs arbitrary: n)
  case (Cons r rs)
  obtain t m src xf where r: "r = (t, m, src, xf)" by (cases r)
  show ?case
    by (simp add: r Cons.IH map_upt_Suc del: upt_Suc) (auto split: prod.split)
qed simp

text \<open>Within one minute and over any interleaving of merchants and sources, each pair is let through exactly as
  often as its limit allows, whichever \<open>EXPIRE\<close> calls fail, and a refusal names the time to the next minute.\<close>

theorem backpressure_exact:
  assumes "inj uuid_str" "\<And>m. CHR '':'' \<notin> set (uuid_str m)" "\<And>m src. bp_in_range (configFor uuid_str b m src)"
    and "sorted (map fst rs)" "\<forall>r \<in> set rs. fst r div minute = M \<and> 0 \<le> fst r \<and> fst r + minute < 2 ^ 62 * second" "length rs < 2 ^ 63"
    and fresh: "\<And>m src u. u div minute = M \<Longrightarrow> s (bp_counter uuid_str b m src u) = None"
  shows "allow_run uuid_str b rs s = map (\<lambda>j. case rs ! j of (t, m, src, xf) \<Rightarrow>
      allow_spec (configFor uuid_str b m src) t (length (filter (\<lambda>(t, m', src', xf). m' = m \<and> src' = src) (take j rs)))) [0..<length rs]"
proof (cases rs)
  case (Cons r rs')
  have "counted uuid_str b M (fst r) (\<lambda>_. 0) s" by (simp add: counted_def vk_live_def fresh)
  from allow_run_specs [OF assms(1-3) this _ assms(5)] assms(4,6) Cons
  have "allow_run uuid_str b rs s = allow_specs uuid_str b (\<lambda>_. 0) rs" by simp
  then show ?thesis by (simp add: allow_specs_nth)
qed simp


theorem reserved_event_stays_witness:
  "Lookup_event (NewIdempotency []) False 5 ''square'' ''e1''
     (reserve_run (NewIdempotency []) [(3, ''square'', ''e1'', ''c2'', False), (4, ''clover'', ''e1'', ''c3'', False)]
       (snd (Reserve (NewIdempotency []) False 0 ''square'' ''e1'' ''c1'' (\<lambda>_. None)))) = Inr ''c1''"
proof -
  have ttl: "id_ttl (NewIdempotency []) = 24 * hour" by (simp add: NewIdempotency_def IdempotencyTTL_def)
  have r: "Reserve (NewIdempotency []) False 0 ''square'' ''e1'' ''c1'' (\<lambda>_. None) =
      (Inr (), snd (Reserve (NewIdempotency []) False 0 ''square'' ''e1'' ''c1'' (\<lambda>_. None)))"
    by (simp add: Reserve_def vk_setnx_def vk_live_def)
  show ?thesis
    by (rule reserved_event_stays [THEN conjunct1, OF r, of "[(3, ''square'', ''e1'', ''c2'', False), (4, ''clover'', ''e1'', ''c3'', False)]" 5 "''x''" "[]"])
      (simp_all add: ttl hour_def)
qed

text \<open>With one request a second and no burst, the 61st request of a minute is refused.\<close>

definition toy_bp :: Backpressure where
  "toy_bp = \<lparr>bp_configs = [([], ''square'') \<mapsto> \<lparr>bc_MerchantID = None, bc_SourceCode = ''square'', bc_MaxRPS = 1,
       bc_BurstCapacity = 0, bc_Enabled = True\<rparr>], bp_loadedAt = 0, bp_reloadEvery = minute, bp_keyPrefix = ''webhook:bp''\<rparr>"

definition toy_uuid :: "uuid \<Rightarrow> string" where
  "toy_uuid u = dec_nat (unat u)"

lemma toy_uuid_ok: "inj toy_uuid" "CHR '':'' \<notin> set (toy_uuid m)" "toy_uuid m \<noteq> []"
  using dec_nat_digits [of "unat m"] by (auto simp: toy_uuid_def inj_def list_all_iff is_digit_def word_unat_eq_iff)

lemma toy_config: "configFor toy_uuid toy_bp m src = (if src = ''square''
    then \<lparr>bc_MerchantID = None, bc_SourceCode = ''square'', bc_MaxRPS = 1, bc_BurstCapacity = 0, bc_Enabled = True\<rparr> else zero_config)"
  using toy_uuid_ok(3) [of m] by (simp add: configFor_def toy_bp_def bpKey_def)

theorem backpressure_exact_witness:
  "allow_run toy_uuid toy_bp (replicate 61 (0, 1, ''square'', False)) (\<lambda>_. None) ! 60 = BpRefused minute
   \<and> allow_run toy_uuid toy_bp (replicate 61 (0, 1, ''square'', False)) (\<lambda>_. None) ! 59 = BpAllowed"
proof -
  let ?rs = "replicate 61 (0 :: int, 1 :: uuid, ''square'', False)"
  have range: "bp_in_range (configFor toy_uuid toy_bp m src)" for m src by (simp add: toy_config bp_in_range_def zero_config_def)
  have rs: "sorted (map fst ?rs)" "\<forall>r \<in> set ?rs. fst r div minute = 0 \<and> 0 \<le> fst r \<and> fst r + minute < 2 ^ 62 * second" "length ?rs < 2 ^ 63"
    by (simp_all add: sorted_iff_nth_mono minute_def second_def)
  note ex = backpressure_exact [of toy_uuid toy_bp ?rs 0 "\<lambda>_. None", OF toy_uuid_ok(1,2) range rs]
  show ?thesis
    by (simp add: ex toy_config allow_spec_def bp_limited_def bp_limit_def nextMinute_def minute_def del: upt_Suc)
qed

end
