(* ===== verification/Subjects.thy ===== *)
theory Subjects
  imports GoTime Sales
begin

text \<open>
  Who a detection is about: the parties of the party substrate (\<open>party/party.go\<close>) and the subjects of
  cases (\<open>fox/subjects.go\<close>), both found or created by a deterministic key.  SHA-256 and the rendering
  of a uuid are the parameters \<open>sha\<close> and \<open>uuid_str\<close>.
\<close>

section \<open>Rows\<close>

record Detection =
  dt_ID :: uuid
  dt_TenantID :: uuid
  dt_RuleID :: uuid
  dt_DetectedAt :: gotime
  dt_SourceEntityType :: string
  dt_SourceEntityID :: uuid
  dt_LocationID :: "uuid option"
  dt_CashierEmployeeID :: "uuid option"
  dt_CustomerID :: "uuid option"
  dt_Severity :: string
  dt_SignalStrength :: "string option"
  dt_Evidence :: string
  dt_CaseID :: "uuid option"
  dt_Status :: string
  dt_AcknowledgedAt :: "gotime option"
  dt_AcknowledgedBy :: "uuid option"
  dt_Attributes :: raw_message
  dt_CreatedAt :: gotime

record PartyRow =
  pr_ID :: uuid
  pr_TenantID :: uuid
  pr_Code :: string
  pr_Type :: string
  pr_DisplayName :: string
  pr_Confidence :: string

record IdentifierRow =
  ir_TenantID :: uuid
  ir_PartyID :: uuid
  ir_Type :: string
  ir_Hash :: string
  ir_QualityScore :: string
  ir_Occurrences :: nat
  ir_LastSeenAt :: gotime

record ResolutionEvent =
  re_TenantID :: uuid
  re_PartyID :: uuid
  re_Confidence :: string

record SubjectRow =
  sb_ID :: uuid
  sb_TenantID :: uuid
  sb_Code :: string
  sb_Type :: string
  sb_DisplayName :: string
  sb_Employee :: "uuid option"
  sb_Customer :: "uuid option"
  sb_Vendor :: "uuid option"
  sb_Party :: "uuid option"
  sb_UpdatedAt :: gotime

record party_db =
  pd_parties :: "PartyRow list"
  pd_identifiers :: "IdentifierRow list"
  pd_events :: "ResolutionEvent list"
  pd_subjects :: "SubjectRow list"

datatype party_call =
    PartyBegin | IdentifierLookup | IdentifierBump | PartyInsert | IdentifierInsert | EventInsert | PartyCommit
  | SubjectBegin | SubjectLookup | SubjectInsert | SubjectCommit | SubjectUpsert

datatype party_error = PartyFailed party_call | InvalidSubjectKind

record party_env =
  pv_now :: gotime
  pv_fails :: "party_call \<Rightarrow> bool"
  pv_party :: uuid
  pv_subject :: uuid

section \<open>Parties\<close>

definition hashIdentifier :: "(string \<Rightarrow> string) \<Rightarrow> (uuid \<Rightarrow> string) \<Rightarrow> uuid \<Rightarrow> string \<Rightarrow> string \<Rightarrow> string" where
  "hashIdentifier sha uuid_str tenantID identifierType identifierValue =
     hex_encode (sha (uuid_str tenantID @ '':'' @ identifierType @ '':'' @ identifierValue))"

definition qualityScoreFor :: "string \<Rightarrow> string" where
  "qualityScoreFor identifierType =
     (if identifierType = ''employee_id'' \<or> identifierType = ''loyalty_id'' then ''0.95''
      else if identifierType = ''customer_id'' then ''0.50'' else ''0.30'')"

definition identifier_match :: "uuid \<Rightarrow> string \<Rightarrow> string \<Rightarrow> IdentifierRow \<Rightarrow> bool" where
  "identifier_match tenantID identifierType hash r \<longleftrightarrow>
     ir_TenantID r = tenantID \<and> ir_Type r = identifierType \<and> ir_Hash r = hash"

text \<open>The result of the counting update is ignored, but a statement that fails makes the commit fail.\<close>

definition resolveOrCreateParty ::
  "(string \<Rightarrow> string) \<Rightarrow> (uuid \<Rightarrow> string) \<Rightarrow> party_env \<Rightarrow> uuid \<Rightarrow> string \<Rightarrow> string \<Rightarrow> string \<Rightarrow> string \<Rightarrow> string \<Rightarrow> party_db
     \<Rightarrow> (party_error + uuid) \<times> party_db" where
  "resolveOrCreateParty sha uuid_str env tenantID identifierType identifierValue partyType confidence partyCodeSeed db =
     (let hash = hashIdentifier sha uuid_str tenantID identifierType identifierValue in
      if pv_fails env PartyBegin then (Inl (PartyFailed PartyBegin), db)
      else if pv_fails env IdentifierLookup then (Inl (PartyFailed IdentifierLookup), db)
      else case List.find (identifier_match tenantID identifierType hash) (pd_identifiers db) of
          Some r \<Rightarrow>
            if pv_fails env IdentifierBump \<or> pv_fails env PartyCommit then (Inl (PartyFailed PartyCommit), db)
            else (Inr (ir_PartyID r),
                  db\<lparr>pd_identifiers := map (\<lambda>r. if identifier_match tenantID identifierType hash r
                       then r\<lparr>ir_Occurrences := ir_Occurrences r + 1, ir_LastSeenAt := pv_now env\<rparr> else r) (pd_identifiers db)\<rparr>)
        | None \<Rightarrow>
            if pv_fails env PartyInsert \<or> list_ex (\<lambda>p. pr_ID p = pv_party env) (pd_parties db)
                \<or> list_ex (\<lambda>p. pr_TenantID p = tenantID \<and> pr_Code p = partyCodeSeed) (pd_parties db) then (Inl (PartyFailed PartyInsert), db)
            else if pv_fails env IdentifierInsert then (Inl (PartyFailed IdentifierInsert), db)
            else if pv_fails env EventInsert then (Inl (PartyFailed EventInsert), db)
            else if pv_fails env PartyCommit then (Inl (PartyFailed PartyCommit), db)
            else (Inr (pv_party env),
                  db\<lparr>pd_parties := pd_parties db @ [\<lparr>pr_ID = pv_party env, pr_TenantID = tenantID, pr_Code = partyCodeSeed, pr_Type = partyType,
                         pr_DisplayName = partyType @ '' ('' @ take 8 identifierValue @ '')'', pr_Confidence = confidence\<rparr>],
                     pd_identifiers := pd_identifiers db @ [\<lparr>ir_TenantID = tenantID, ir_PartyID = pv_party env, ir_Type = identifierType,
                         ir_Hash = hash, ir_QualityScore = qualityScoreFor identifierType, ir_Occurrences = 1, ir_LastSeenAt = pv_now env\<rparr>],
                     pd_events := pd_events db @ [\<lparr>re_TenantID = tenantID, re_PartyID = pv_party env, re_Confidence = confidence\<rparr>]\<rparr>))"

definition ResolveFromDetection ::
  "(string \<Rightarrow> string) \<Rightarrow> (uuid \<Rightarrow> string) \<Rightarrow> party_env \<Rightarrow> Detection \<Rightarrow> party_db \<Rightarrow> (party_error + uuid option) \<times> party_db" where
  "ResolveFromDetection sha uuid_str env det db =
     (case dt_CashierEmployeeID det of
        Some e \<Rightarrow>
          (case resolveOrCreateParty sha uuid_str env (dt_TenantID det) ''employee_id'' (uuid_str e) ''employee'' ''weak'' (''employee:'' @ uuid_str e) db of
             (Inl x, db') \<Rightarrow> (Inl x, db') | (Inr i, db') \<Rightarrow> (Inr (Some i), db'))
      | None \<Rightarrow>
          (case dt_CustomerID det of
             Some c \<Rightarrow>
               (case resolveOrCreateParty sha uuid_str env (dt_TenantID det) ''customer_id'' (uuid_str c) ''consumer'' ''anonymous'' (''customer:'' @ uuid_str c) db of
                  (Inl x, db') \<Rightarrow> (Inl x, db') | (Inr i, db') \<Rightarrow> (Inr (Some i), db'))
           | None \<Rightarrow> (Inr None, db)))"

section \<open>Subjects\<close>

text \<open>\<open>INSERT ... ON CONFLICT (tenant_id, subject_code) DO UPDATE ... RETURNING id\<close>.\<close>

definition subject_match :: "uuid \<Rightarrow> string \<Rightarrow> SubjectRow \<Rightarrow> bool" where
  "subject_match tenantID code r \<longleftrightarrow> sb_TenantID r = tenantID \<and> sb_Code r = code"

definition upsert_subject :: "gotime \<Rightarrow> SubjectRow \<Rightarrow> SubjectRow list \<Rightarrow> uuid option \<times> SubjectRow list" where
  "upsert_subject now row rows =
     (case List.find (subject_match (sb_TenantID row) (sb_Code row)) rows of
        Some r \<Rightarrow> (Some (sb_ID r), map (\<lambda>r. if subject_match (sb_TenantID row) (sb_Code row) r then r\<lparr>sb_UpdatedAt := now\<rparr> else r) rows)
      | None \<Rightarrow> if list_ex (\<lambda>r. sb_ID r = sb_ID row) rows then (None, rows) else (Some (sb_ID row), rows @ [row]))"

definition subject_row :: "party_env \<Rightarrow> uuid \<Rightarrow> string \<Rightarrow> string \<Rightarrow> string \<Rightarrow> SubjectRow" where
  "subject_row env tenantID code type name = \<lparr>sb_ID = pv_subject env, sb_TenantID = tenantID, sb_Code = code, sb_Type = type,
     sb_DisplayName = name, sb_Employee = None, sb_Customer = None, sb_Vendor = None, sb_Party = None, sb_UpdatedAt = pv_now env\<rparr>"

definition party_ResolveSubject :: "(uuid \<Rightarrow> string) \<Rightarrow> party_env \<Rightarrow> uuid \<Rightarrow> uuid \<Rightarrow> party_db \<Rightarrow> (party_error + uuid) \<times> party_db" where
  "party_ResolveSubject uuid_str env tenantID partyID db =
     (if pv_fails env SubjectBegin then (Inl (PartyFailed SubjectBegin), db)
      else if pv_fails env SubjectLookup then (Inl (PartyFailed SubjectLookup), db)
      else case List.find (\<lambda>r. sb_TenantID r = tenantID \<and> sb_Party r = Some partyID) (pd_subjects db) of
          Some r \<Rightarrow> (Inr (sb_ID r), db)
        | None \<Rightarrow>
            (case upsert_subject (pv_now env)
                 ((subject_row env tenantID (''party:'' @ uuid_str partyID) ''external_party'' (''party '' @ take 8 (uuid_str partyID)))\<lparr>sb_Party := Some partyID\<rparr>)
                 (pd_subjects db) of
               (None, _) \<Rightarrow> (Inl (PartyFailed SubjectInsert), db)
             | (Some i, rows) \<Rightarrow>
                 if pv_fails env SubjectInsert then (Inl (PartyFailed SubjectInsert), db)
                 else if pv_fails env SubjectCommit then (Inl (PartyFailed SubjectCommit), db)
                 else (Inr i, db\<lparr>pd_subjects := rows\<rparr>)))"

datatype SubjectKind = SubjectEmployee | SubjectCustomer | SubjectVendor | OtherKind string

text \<open>Code, type and display name of the subject of a kind, and the column for its reference.\<close>

fun subjectAttrs :: "(uuid \<Rightarrow> string) \<Rightarrow> SubjectKind \<Rightarrow> uuid \<Rightarrow> (string \<times> string \<times> string \<times> (SubjectRow \<Rightarrow> SubjectRow)) option" where
  "subjectAttrs uuid_str SubjectEmployee refID = Some (''emp:'' @ uuid_str refID, ''known_employee'', ''Employee '' @ take 8 (uuid_str refID), (\<lambda>r. r\<lparr>sb_Employee := Some refID\<rparr>))"
| "subjectAttrs uuid_str SubjectCustomer refID = Some (''cust:'' @ uuid_str refID, ''known_customer'', ''Customer '' @ take 8 (uuid_str refID), (\<lambda>r. r\<lparr>sb_Customer := Some refID\<rparr>))"
| "subjectAttrs uuid_str SubjectVendor refID = Some (''vend:'' @ uuid_str refID, ''known_vendor'', ''Vendor '' @ take 8 (uuid_str refID), (\<lambda>r. r\<lparr>sb_Vendor := Some refID\<rparr>))"
| "subjectAttrs uuid_str (OtherKind k) refID = None"

definition ResolveSubject :: "(uuid \<Rightarrow> string) \<Rightarrow> party_env \<Rightarrow> uuid \<Rightarrow> SubjectKind \<Rightarrow> uuid \<Rightarrow> party_db \<Rightarrow> (party_error + uuid) \<times> party_db" where
  "ResolveSubject uuid_str env tenantID kind refID db =
     (case subjectAttrs uuid_str kind refID of
        None \<Rightarrow> (Inl InvalidSubjectKind, db)
      | Some (code, type, name, ref) \<Rightarrow>
          if pv_fails env SubjectUpsert then (Inl (PartyFailed SubjectUpsert), db)
          else (case upsert_subject (pv_now env) (ref (subject_row env tenantID code type name)) (pd_subjects db) of
              (None, _) \<Rightarrow> (Inl (PartyFailed SubjectUpsert), db)
            | (Some i, rows) \<Rightarrow> (Inr i, db\<lparr>pd_subjects := rows\<rparr>)))"


section \<open>One subject per reference\<close>

definition subject_id :: "SubjectRow list \<Rightarrow> uuid \<Rightarrow> string \<Rightarrow> uuid option" where
  "subject_id rows tn code = map_option sb_ID (List.find (subject_match tn code) rows)"

lemma find_touch:
  assumes "\<And>r. P (f r) = P r"
  shows "List.find P (map (\<lambda>r. if Q r then f r else r) rows) = map_option (\<lambda>r. if Q r then f r else r) (List.find P rows)"
  using assms by (induction rows) auto

lemma find_snoc:
  "List.find P (rows @ [r]) = (case List.find P rows of Some u \<Rightarrow> Some u | None \<Rightarrow> if P r then Some r else None)"
  by (induction rows) auto

text \<open>What an upsert does to the identifiers: it answers with the row's key's identifier, keeps every other.\<close>

lemma upsert_subject_id:
  assumes "upsert_subject now row rows = (Some i, rows')"
  shows "subject_id rows' tn code =
    (if tn = sb_TenantID row \<and> code = sb_Code row then Some i else subject_id rows tn code)"
proof (cases "List.find (subject_match (sb_TenantID row) (sb_Code row)) rows")
  case None
  then have "i = sb_ID row" "rows' = rows @ [row]" using assms by (auto simp: upsert_subject_def split: if_splits)
  then show ?thesis using None by (auto simp: subject_id_def find_snoc subject_match_def split: option.splits)
next
  case (Some r)
  then have r: "i = sb_ID r" "rows' = map (\<lambda>r. if subject_match (sb_TenantID row) (sb_Code row) r then r\<lparr>sb_UpdatedAt := now\<rparr> else r) rows"
    using assms by (auto simp: upsert_subject_def)
  have "subject_id rows' tn code = subject_id rows tn code" for tn code
    unfolding subject_id_def r(2)
    by (subst find_touch) (auto simp: subject_match_def option.map_comp o_def if_distrib cong: if_cong)
  then show ?thesis using Some r(1) by (auto simp: subject_id_def)
qed

lemma upsert_subject_None: "upsert_subject now row rows = (None, rows') \<Longrightarrow> rows' = rows"
  by (auto simp: upsert_subject_def split: option.splits if_splits)

lemma map_touch: "map sb_ID (map (\<lambda>r. if Q r then r\<lparr>sb_UpdatedAt := now\<rparr> else r) rows) = map sb_ID rows"
  by (induction rows) auto

lemma upsert_subject_distinct:
  "distinct (map sb_ID rows) \<Longrightarrow> upsert_subject now row rows = (x, rows') \<Longrightarrow> distinct (map sb_ID rows')"
  by (auto simp: upsert_subject_def map_touch list_ex_key simp del: map_map split: option.splits if_splits)

lemma subject_id_in: "subject_id rows tn code = Some i \<Longrightarrow> \<exists>r \<in> set rows. subject_match tn code r \<and> sb_ID r = i"
  by (induction rows) (auto simp: subject_id_def split: if_splits)

lemma subject_id_inj:
  assumes "distinct (map sb_ID rows)" "subject_id rows tn code = Some i" "subject_id rows tn' code' = Some i"
  shows "tn = tn' \<and> code = code'"
proof -
  obtain r r' where r: "r \<in> set rows" "subject_match tn code r" "sb_ID r = i"
      and r': "r' \<in> set rows" "subject_match tn' code' r'" "sb_ID r' = i"
    using subject_id_in [OF assms(2)] subject_id_in [OF assms(3)] by blast
  then have "r = r'" using assms(1) by (auto simp: distinct_map inj_on_def)
  then show ?thesis using r(2) r'(2) by (simp add: subject_match_def)
qed

text \<open>The resolvers, in any order and with any failures, between two resolutions.\<close>

datatype party_op = OpDetection Detection | OpParty uuid uuid | OpSubject uuid SubjectKind uuid

fun party_step :: "(string \<Rightarrow> string) \<Rightarrow> (uuid \<Rightarrow> string) \<Rightarrow> party_env \<times> party_op \<Rightarrow> party_db \<Rightarrow> party_db" where
  "party_step sha uuid_str (env, OpDetection det) db = snd (ResolveFromDetection sha uuid_str env det db)"
| "party_step sha uuid_str (env, OpParty tn p) db = snd (party_ResolveSubject uuid_str env tn p db)"
| "party_step sha uuid_str (env, OpSubject tn kind ref) db = snd (ResolveSubject uuid_str env tn kind ref db)"

fun party_steps :: "(string \<Rightarrow> string) \<Rightarrow> (uuid \<Rightarrow> string) \<Rightarrow> (party_env \<times> party_op) list \<Rightarrow> party_db \<Rightarrow> party_db" where
  "party_steps sha uuid_str [] db = db"
| "party_steps sha uuid_str (e # es) db = party_steps sha uuid_str es (party_step sha uuid_str e db)"

text \<open>Identifiers of subjects stay.\<close>

definition subjects_keep :: "SubjectRow list \<Rightarrow> SubjectRow list \<Rightarrow> bool" where
  "subjects_keep rows rows' \<longleftrightarrow> distinct (map sb_ID rows') \<and> (\<forall>tn code i. subject_id rows tn code = Some i \<longrightarrow> subject_id rows' tn code = Some i)"

lemma upsert_subject_keep:
  assumes "upsert_subject now row rows = (x, rows')" "distinct (map sb_ID rows)" shows "subjects_keep rows rows'"
proof (cases x)
  case (Some i)
  have "i = j" if "subject_id rows (sb_TenantID row) (sb_Code row) = Some j" for j
    using assms(1) that Some by (auto simp: subject_id_def upsert_subject_def)
  then show ?thesis
    using upsert_subject_id [of now row rows i rows'] upsert_subject_distinct [OF assms(2,1)] assms(1) Some by (auto simp: subjects_keep_def)
qed (use assms upsert_subject_None in \<open>auto simp: subjects_keep_def\<close>)

lemma ResolveSubject_subjects:
  "pd_subjects (snd (ResolveSubject uuid_str env tn kind ref db)) = pd_subjects db
   \<or> (\<exists>now row x. upsert_subject now row (pd_subjects db) = (x, pd_subjects (snd (ResolveSubject uuid_str env tn kind ref db))))"
  by (auto simp: ResolveSubject_def split: option.splits prod.splits)

lemma party_ResolveSubject_subjects:
  "pd_subjects (snd (party_ResolveSubject uuid_str env tn p db)) = pd_subjects db
   \<or> (\<exists>now row x. upsert_subject now row (pd_subjects db) = (x, pd_subjects (snd (party_ResolveSubject uuid_str env tn p db))))"
  by (auto simp: party_ResolveSubject_def split: option.splits prod.splits)

lemma resolveOrCreateParty_subjects [simp]:
  "pd_subjects (snd (resolveOrCreateParty sha uuid_str env tn ty v pt c seed db)) = pd_subjects db"
  by (auto simp: resolveOrCreateParty_def Let_def split: option.splits)

lemma ResolveFromDetection_subjects [simp]: "pd_subjects (snd (ResolveFromDetection sha uuid_str env det db)) = pd_subjects db"
  by (auto simp: ResolveFromDetection_def split: option.splits prod.splits sum.splits dest!: arg_cong [where f = snd])


lemma party_step_keep:
  assumes "distinct (map sb_ID (pd_subjects db))"
  shows "subjects_keep (pd_subjects db) (pd_subjects (party_step sha uuid_str e db))"
proof -
  have refl: "subjects_keep rows rows'" if "rows' = rows" "distinct (map sb_ID rows)" for rows rows' :: "SubjectRow list"
    using that by (simp add: subjects_keep_def)
  obtain env a where e: "e = (env, a)" by (cases e)
  show ?thesis
  proof (cases a)
    case (OpDetection det)
    then show ?thesis using refl assms e by simp
  next
    case (OpParty tn p)
    then show ?thesis
      using party_ResolveSubject_subjects [of uuid_str env tn p db] upsert_subject_keep assms refl e by fastforce
  next
    case (OpSubject tn kind ref)
    then show ?thesis
      using ResolveSubject_subjects [of uuid_str env tn kind ref db] upsert_subject_keep assms refl e by fastforce
  qed
qed

lemma party_steps_keep:
  "distinct (map sb_ID (pd_subjects db)) \<Longrightarrow> subjects_keep (pd_subjects db) (pd_subjects (party_steps sha uuid_str es db))"
proof (induction es arbitrary: db)
  case (Cons e es)
  have k: "subjects_keep (pd_subjects db) (pd_subjects (party_step sha uuid_str e db))" using party_step_keep Cons.prems .
  with Cons.IH [of "party_step sha uuid_str e db"] show ?case by (auto simp: subjects_keep_def)
qed (simp add: subjects_keep_def)

lemma ResolveSubject_id:
  assumes "ResolveSubject uuid_str env tn kind ref db = (Inr i, db')"
  obtains code type name col where "subjectAttrs uuid_str kind ref = Some (code, type, name, col)"
    "subject_id (pd_subjects db') tn code = Some i"
proof -
  obtain code type name col where a: "subjectAttrs uuid_str kind ref = Some (code, type, name, col)"
    using assms by (cases "subjectAttrs uuid_str kind ref") (auto simp: ResolveSubject_def)
  have key: "sb_TenantID (col (subject_row env tn code type name)) = tn" "sb_Code (col (subject_row env tn code type name)) = code"
    using a by (cases kind; force simp: subject_row_def)+
  obtain rows where "upsert_subject (pv_now env) (col (subject_row env tn code type name)) (pd_subjects db) = (Some i, rows)"
      "db' = db\<lparr>pd_subjects := rows\<rparr>"
    using assms a by (auto simp: ResolveSubject_def split: if_splits option.splits prod.splits)
  then have "subject_id (pd_subjects db') tn code = Some i" using upsert_subject_id [of _ _ _ i rows tn code] key by simp
  with a that show ?thesis by blast
qed

lemma subjectAttrs_inj:
  assumes "inj uuid_str" "subjectAttrs uuid_str kind ref = Some (code, x)" "subjectAttrs uuid_str kind' ref' = Some (code, x')"
  shows "kind' = kind \<and> ref' = ref"
  using assms by (cases kind; cases kind') (auto simp: inj_eq)

text \<open>C13: A reference of a tenant has one subject: whatever is resolved in between, resolving it again gives
  the same identifier, and any other reference, kind or tenant another one.\<close>

theorem one_subject_per_reference:
  assumes "inj uuid_str" "distinct (map sb_ID (pd_subjects db))"
    and "ResolveSubject uuid_str env tn kind ref db = (Inr i, db1)"
    and "ResolveSubject uuid_str env' tn' kind' ref' (party_steps sha uuid_str es db1) = (Inr j, db2)"
  shows "i = j \<longleftrightarrow> (tn', kind', ref') = (tn, kind, ref)"
proof -
  let ?mid = "party_steps sha uuid_str es db1"
  obtain c ty nm col where a: "subjectAttrs uuid_str kind ref = Some (c, ty, nm, col)" "subject_id (pd_subjects db1) tn c = Some i"
    using ResolveSubject_id [OF assms(3)] .
  obtain c' ty' nm' col' where b: "subjectAttrs uuid_str kind' ref' = Some (c', ty', nm', col')" "subject_id (pd_subjects db2) tn' c' = Some j"
    using ResolveSubject_id [OF assms(4)] .
  have d1: "distinct (map sb_ID (pd_subjects db1))"
    using party_step_keep [OF assms(2), of sha uuid_str "(env, OpSubject tn kind ref)"] assms(3) by (simp add: subjects_keep_def)
  have k1: "subjects_keep (pd_subjects db1) (pd_subjects ?mid)" using party_steps_keep [OF d1] .
  then have k2: "subjects_keep (pd_subjects ?mid) (pd_subjects db2)"
    using party_step_keep [of ?mid sha uuid_str "(env', OpSubject tn' kind' ref')"] assms(4) by (simp add: subjects_keep_def)
  have i: "subject_id (pd_subjects db2) tn c = Some i" using a(2) k1 k2 unfolding subjects_keep_def by blast
  show ?thesis
  proof
    assume "i = j"
    then have "tn = tn' \<and> c = c'" using subject_id_inj [of "pd_subjects db2"] i b(2) k2 unfolding subjects_keep_def by blast
    then show "(tn', kind', ref') = (tn, kind, ref)" using subjectAttrs_inj [OF assms(1)] a(1) b(1) by blast
  next
    assume "(tn', kind', ref') = (tn, kind, ref)"
    then show "i = j" using i a(1) b by simp
  qed
qed


text \<open>Identifiers written in unary, and an employee resolved twice with a customer in between.\<close>

definition unary :: "uuid \<Rightarrow> string" where
  "unary u = replicate (unat u) CHR ''x''"

lemma inj_unary: "inj unary"
  by (rule injI) (metis unary_def length_replicate word_unat_eq_iff)

definition quiet_party :: "uuid \<Rightarrow> party_env" where
  "quiet_party i = \<lparr>pv_now = 0, pv_fails = (\<lambda>c. False), pv_party = i, pv_subject = i\<rparr>"

definition no_party :: party_db where
  "no_party = \<lparr>pd_parties = [], pd_identifiers = [], pd_events = [], pd_subjects = []\<rparr>"

definition with_employee :: party_db where
  "with_employee = snd (ResolveSubject unary (quiet_party 8) 1 SubjectEmployee 5 no_party)"

lemmas subject_eval = ResolveSubject_def upsert_subject_def subject_row_def quiet_party_def no_party_def with_employee_def subject_match_def

theorem one_subject_per_reference_witness:
  "\<exists>j db2. ResolveSubject unary (quiet_party 9) 1 SubjectEmployee 5 (party_steps id unary [(quiet_party 10, OpSubject 1 SubjectCustomer 5)] with_employee) = (Inr j, db2)
     \<and> j = 8"
proof -
  have a: "ResolveSubject unary (quiet_party 8) 1 SubjectEmployee 5 no_party = (Inr 8, with_employee)"
    by (simp add: subject_eval)
  obtain j db2 where b: "ResolveSubject unary (quiet_party 9) 1 SubjectEmployee 5 (party_steps id unary [(quiet_party 10, OpSubject 1 SubjectCustomer 5)] with_employee) = (Inr j, db2)"
    by (simp add: subject_eval)
  have "distinct (map sb_ID (pd_subjects no_party))" by (simp add: no_party_def)
  from one_subject_per_reference [OF inj_unary this a b] show ?thesis using b by simp
qed

end
