(* ===== verification/Fox.thy ===== *)
theory Fox
  imports Subjects Chain Lifecycle
begin

text \<open>
  Case management (\<open>internal/fox\<close>): the escalation policy, the store over \<open>detection.cases\<close>,
  \<open>case_evidence\<close> and \<open>case_actions\<close>, and the handlers.  Parameters: \<open>sha\<close> (SHA-256), \<open>uuid_str\<close> and
  \<open>parse\<close> (google/uuid).  A request reads the clock several times, the \<open>k\<close>-th evidence row of a request
  at reading \<open>k + 1\<close>; identifiers it draws come from its environment.  A payload is the text of a jsonb value, which storing
  it keeps.  A request whose time filters are parsed from text (the listing of cases) is modelled from its
  parsed filter on.
\<close>

section \<open>Policy\<close>

definition case_statuses :: "string list" where
  "case_statuses = [''open'', ''active'', ''pending_action'', ''resolved'', ''closed'', ''reopened'']"

definition CaseStatus_IsValid :: "string \<Rightarrow> bool" where
  "CaseStatus_IsValid s \<longleftrightarrow> s \<in> set case_statuses"

definition IsTerminal :: "string \<Rightarrow> bool" where
  "IsTerminal s \<longleftrightarrow> s = ''resolved'' \<or> s = ''closed''"

definition Severity_IsValid :: "string \<Rightarrow> bool" where
  "Severity_IsValid s \<longleftrightarrow> s \<in> {''low'', ''medium'', ''high'', ''critical''}"

definition severity_rank :: "string \<Rightarrow> int" where
  "severity_rank s = (if s = ''low'' then 1 else if s = ''medium'' then 2 else if s = ''high'' then 3 else if s = ''critical'' then 4 else 0)"

definition AtLeast :: "string \<Rightarrow> string \<Rightarrow> bool" where
  "AtLeast s threshold \<longleftrightarrow> severity_rank threshold \<le> severity_rank s"

record EscalationDecision =
  ed_OpenNew :: bool
  ed_AttachToExisting :: bool
  ed_NoAction :: bool
  ed_CaseID :: uuid
  ed_Reason :: string

record EscalationConfig =
  ec_MinSeverity :: string

definition DefaultEscalationConfig :: EscalationConfig where
  "DefaultEscalationConfig = \<lparr>ec_MinSeverity = ''medium''\<rparr>"

definition CaseNumber :: "string \<Rightarrow> gotime \<Rightarrow> string" where
  "CaseNumber random t =
     (case civil_from_days (t div day) of (y, m, d) \<Rightarrow>
        ''FOX-'' @ pad_year y @ fmt_pad 2 (nat m) @ fmt_pad 2 (nat d) @ ''-'' @ take 8 random)"

section \<open>Rows\<close>

record CaseRow =
  cs_ID :: uuid
  cs_TenantID :: uuid
  cs_CaseNumber :: string
  cs_CaseType :: string
  cs_Title :: string
  cs_Description :: "string option"
  cs_Severity :: string
  cs_Status :: string
  cs_PrimarySubjectID :: "uuid option"
  cs_PrimaryLocationID :: "uuid option"
  cs_AssignedTo :: "uuid option"
  cs_OpenedAt :: gotime
  cs_ResolvedAt :: "gotime option"
  cs_ResolutionType :: "string option"
  cs_LossAmountEstimated :: "string option"
  cs_LossAmountRecovered :: "string option"
  cs_Attributes :: raw_message
  cs_CreatedAt :: gotime
  cs_UpdatedAt :: gotime

record CaseEvidence =
  cv_ID :: uuid
  cv_TenantID :: uuid
  cv_CaseID :: uuid
  cv_EvidenceType :: string
  cv_SourceEntityType :: "string option"
  cv_SourceEntityID :: "uuid option"
  cv_Payload :: string
  cv_PayloadHash :: string
  cv_PrevEvidenceHash :: "string option"
  cv_BlockchainAnchorID :: "uuid option"
  cv_CollectedBy :: "uuid option"
  cv_CollectedAt :: gotime
  cv_Attributes :: raw_message
  cv_CreatedAt :: gotime

text \<open>Details of an action: a text, the members of a map, or the object a metadata text decodes to (the
  empty one when it does not) with the notes on top.\<close>

datatype action_details = DetailsText string | DetailsMembers "(string \<times> string) list" | DetailsMerged string string

record CaseAction =
  ct_ID :: uuid
  ct_TenantID :: uuid
  ct_CaseID :: uuid
  ct_ActionType :: string
  ct_PerformedBy :: "uuid option"
  ct_PerformedAt :: gotime
  ct_Details :: action_details
  ct_CreatedAt :: gotime

record fox_db =
  fx_cases :: "CaseRow list"
  fx_evidence :: "CaseEvidence list"
  fx_actions :: "CaseAction list"
  fx_detections :: "Detection list"
  fx_party :: party_db

datatype fox_call =
    LoadDetectionCall nat | LoadCaseCall | FindOpenCall
  | OpenBegin | OpenInsert | OpenAction | OpenLink | OpenCommit
  | EvidenceBegin nat | EvidencePrev nat | EvidenceInsert nat | EvidenceAction nat | EvidenceCommit nat
  | ActionInsert | CloseBegin | CloseUpdate | CloseAction | CloseCommit
  | ListEvidenceCall | ListActionsCall | ListCasesCall

datatype fox_id = NewCase | OpeningAction | NewEvidence nat | EvidenceActionID nat | NewAction | ClosingAction

datatype fox_error = FoxNotFound | FoxFailed fox_call | NilDetection | DetectionMissing

record fox_env =
  fv_now :: "nat \<Rightarrow> gotime"
  fv_fails :: "fox_call \<Rightarrow> bool"
  fv_id :: "fox_id \<Rightarrow> uuid"
  fv_random :: string
  fv_party :: party_env

section \<open>The escalation policy\<close>

definition detectionSubject :: "Detection \<Rightarrow> uuid" where
  "detectionSubject d = (case dt_CashierEmployeeID d of Some e \<Rightarrow> e
     | None \<Rightarrow> (case dt_CustomerID d of Some c \<Rightarrow> c | None \<Rightarrow> uuid_nil))"

definition no_action :: "string \<Rightarrow> EscalationDecision" where
  "no_action reason = \<lparr>ed_OpenNew = False, ed_AttachToExisting = False, ed_NoAction = True, ed_CaseID = uuid_nil, ed_Reason = reason\<rparr>"

definition by_severity :: "EscalationConfig \<Rightarrow> Detection \<Rightarrow> EscalationDecision" where
  "by_severity cfg d =
     (if AtLeast (dt_Severity d) (ec_MinSeverity cfg) then
        \<lparr>ed_OpenNew = True, ed_AttachToExisting = False, ed_NoAction = False, ed_CaseID = uuid_nil,
         ed_Reason = ''severity '' @ dt_Severity d @ '' '' @ [CHR 0xE2, CHR 0x89, CHR 0xA5] @ '' threshold '' @ ec_MinSeverity cfg\<rparr>
      else no_action (''severity '' @ dt_Severity d @ '' below threshold '' @ ec_MinSeverity cfg @ '', no subject clustering match''))"

definition EvaluateForEscalation ::
  "(uuid \<Rightarrow> uuid \<Rightarrow> fox_error + CaseRow option) \<Rightarrow> Detection option \<Rightarrow> EscalationConfig \<Rightarrow> fox_error + EscalationDecision" where
  "EvaluateForEscalation findOpen d cfg =
     (case d of
        None \<Rightarrow> Inl NilDetection
      | Some d \<Rightarrow>
          if dt_CaseID d \<noteq> None then Inr (no_action ''detection already linked to a case'')
          else if detectionSubject d \<noteq> uuid_nil then
            (case findOpen (dt_TenantID d) (detectionSubject d) of
               Inl e \<Rightarrow> Inl e
             | Inr None \<Rightarrow> Inr (by_severity cfg d)
             | Inr (Some c) \<Rightarrow>
                 if \<not> IsTerminal (cs_Status c) then
                   Inr \<lparr>ed_OpenNew = False, ed_AttachToExisting = True, ed_NoAction = False, ed_CaseID = cs_ID c,
                        ed_Reason = ''subject clustering hit on open case''\<rparr>
                 else Inr (by_severity cfg d))
          else Inr (by_severity cfg d))"

section \<open>The store\<close>

definition LoadDetectionScoped :: "fox_env \<Rightarrow> nat \<Rightarrow> uuid \<Rightarrow> uuid \<Rightarrow> fox_db \<Rightarrow> fox_error + Detection" where
  "LoadDetectionScoped env k tenantID i db =
     (if fv_fails env (LoadDetectionCall k) then Inl (FoxFailed (LoadDetectionCall k))
      else case List.find (\<lambda>d. dt_ID d = i \<and> dt_TenantID d = tenantID) (fx_detections db) of
          None \<Rightarrow> Inl FoxNotFound | Some d \<Rightarrow> Inr d)"

definition LoadCaseScoped :: "fox_env \<Rightarrow> uuid \<Rightarrow> uuid \<Rightarrow> fox_db \<Rightarrow> fox_error + CaseRow" where
  "LoadCaseScoped env tenantID i db =
     (if fv_fails env LoadCaseCall then Inl (FoxFailed LoadCaseCall)
      else case List.find (\<lambda>c. cs_ID c = i \<and> cs_TenantID c = tenantID) (fx_cases db) of
          None \<Rightarrow> Inl FoxNotFound | Some c \<Rightarrow> Inr c)"

definition FindOpenCaseBySubject :: "fox_env \<Rightarrow> fox_db \<Rightarrow> uuid \<Rightarrow> uuid \<Rightarrow> fox_error + CaseRow option" where
  "FindOpenCaseBySubject env db tenantID subjectID =
     (if fv_fails env FindOpenCall then Inl (FoxFailed FindOpenCall)
      else Inr (first_row (sort_desc cs_OpenedAt (filter (\<lambda>c. cs_TenantID c = tenantID \<and> cs_PrimarySubjectID c = Some subjectID
             \<and> cs_Status c \<notin> {''resolved'', ''closed''}) (fx_cases db)))))"


text \<open>Opening a case: the row, its first action and, when the case comes from a detection, the link of the
  detection, in one transaction.\<close>

definition opened_case :: "fox_env \<Rightarrow> CaseRow \<Rightarrow> CaseRow" where
  "opened_case env c =
     (let now = fv_now env 0 in
      c\<lparr>cs_ID := (if cs_ID c = uuid_nil then fv_id env NewCase else cs_ID c), cs_OpenedAt := now, cs_CreatedAt := now, cs_UpdatedAt := now,
        cs_Status := (if cs_Status c = [] then ''open'' else cs_Status c),
        cs_CaseType := (if cs_CaseType c = [] then ''investigation'' else cs_CaseType c),
        cs_Attributes := (if cs_Attributes c = RawText [] then RawText ''{}'' else cs_Attributes c)\<rparr>)"

text \<open>What the row becomes: columns the statement does not name are null, times are whole microseconds.\<close>

definition stored_case :: "CaseRow \<Rightarrow> CaseRow" where
  "stored_case c = c\<lparr>cs_OpenedAt := trunc_us (cs_OpenedAt c), cs_CreatedAt := trunc_us (cs_CreatedAt c), cs_UpdatedAt := trunc_us (cs_UpdatedAt c),
     cs_ResolvedAt := None, cs_ResolutionType := None, cs_LossAmountEstimated := None, cs_LossAmountRecovered := None\<rparr>"

definition opening_action :: "fox_env \<Rightarrow> CaseRow \<Rightarrow> CaseAction" where
  "opening_action env c = \<lparr>ct_ID = fv_id env OpeningAction, ct_TenantID = cs_TenantID c, ct_CaseID = cs_ID c, ct_ActionType = ''status_change'',
     ct_PerformedBy = cs_AssignedTo c, ct_PerformedAt = trunc_us (fv_now env 0),
     ct_Details = DetailsMembers [(''reason'', ''case opened''), (''to'', ''open'')], ct_CreatedAt = trunc_us (fv_now env 0)\<rparr>"

definition case_conflict :: "CaseRow \<Rightarrow> fox_db \<Rightarrow> bool" where
  "case_conflict c db \<longleftrightarrow> list_ex (\<lambda>r. cs_ID r = cs_ID c \<or> cs_TenantID r = cs_TenantID c \<and> cs_CaseNumber r = cs_CaseNumber c) (fx_cases db)
     \<or> (case cs_PrimarySubjectID c of None \<Rightarrow> False | Some s \<Rightarrow> \<not> list_ex (\<lambda>r. sb_ID r = s) (pd_subjects (fx_party db)))"

definition action_conflict :: "uuid \<Rightarrow> uuid \<Rightarrow> fox_db \<Rightarrow> bool" where
  "action_conflict i caseID db \<longleftrightarrow> list_ex (\<lambda>a. ct_ID a = i) (fx_actions db) \<or> \<not> list_ex (\<lambda>c. cs_ID c = caseID) (fx_cases db)"

definition link_detection :: "uuid \<Rightarrow> Detection \<Rightarrow> Detection" where
  "link_detection caseID d = d\<lparr>dt_CaseID := Some caseID, dt_Status := ''escalated_to_case''\<rparr>"

definition OpenCase :: "fox_env \<Rightarrow> CaseRow \<Rightarrow> uuid option \<Rightarrow> fox_db \<Rightarrow> (fox_error + uuid) \<times> fox_db" where
  "OpenCase env c0 linkDetection db =
     (let c = opened_case env c0;
          db1 = db\<lparr>fx_cases := fx_cases db @ [stored_case c]\<rparr>;
          db2 = db1\<lparr>fx_actions := fx_actions db @ [opening_action env c]\<rparr> in
      if fv_fails env OpenBegin then (Inl (FoxFailed OpenBegin), db)
      else if fv_fails env OpenInsert \<or> case_conflict c db then (Inl (FoxFailed OpenInsert), db)
      else if fv_fails env OpenAction \<or> action_conflict (fv_id env OpeningAction) (cs_ID c) db1 then (Inl (FoxFailed OpenAction), db)
      else case linkDetection of
          None \<Rightarrow> if fv_fails env OpenCommit then (Inl (FoxFailed OpenCommit), db) else (Inr (cs_ID c), db2)
        | Some i \<Rightarrow>
            if fv_fails env OpenLink then (Inl (FoxFailed OpenLink), db)
            else if \<not> list_ex (\<lambda>d. dt_ID d = i \<and> dt_TenantID d = cs_TenantID c) (fx_detections db) then (Inl DetectionMissing, db)
            else if fv_fails env OpenCommit then (Inl (FoxFailed OpenCommit), db)
            else (Inr (cs_ID c),
                  db2\<lparr>fx_detections := map (\<lambda>d. if dt_ID d = i \<and> dt_TenantID d = cs_TenantID c then link_detection (cs_ID c) d else d) (fx_detections db)\<rparr>))"

text \<open>Appending evidence: the row links to the payload hash of the newest row of its case.\<close>

definition evidence_of :: "uuid \<Rightarrow> fox_db \<Rightarrow> CaseEvidence list" where
  "evidence_of caseID db = filter (\<lambda>e. cv_CaseID e = caseID) (fx_evidence db)"

definition appended_evidence :: "(string \<Rightarrow> string) \<Rightarrow> fox_env \<Rightarrow> nat \<Rightarrow> CaseEvidence \<Rightarrow> fox_db \<Rightarrow> CaseEvidence" where
  "appended_evidence sha env k e0 db =
     (let now = fv_now env (k + 1);
          payload = (if cv_Payload e0 = [] then ''{}'' else cv_Payload e0) in
      e0\<lparr>cv_ID := (if cv_ID e0 = uuid_nil then fv_id env (NewEvidence k) else cv_ID e0),
         cv_CollectedAt := trunc_us (if cv_CollectedAt e0 = zero_time then now else cv_CollectedAt e0), cv_CreatedAt := trunc_us now,
         cv_Payload := payload, cv_Attributes := (if cv_Attributes e0 = RawText [] then RawText ''{}'' else cv_Attributes e0),
         cv_PayloadHash := hex_encode (sha payload),
         cv_PrevEvidenceHash := map_option cv_PayloadHash (first_row (sort_desc cv_CollectedAt (evidence_of (cv_CaseID e0) db)))\<rparr>)"

definition evidence_action :: "(uuid \<Rightarrow> string) \<Rightarrow> fox_env \<Rightarrow> nat \<Rightarrow> CaseEvidence \<Rightarrow> CaseAction" where
  "evidence_action uuid_str env k e = \<lparr>ct_ID = fv_id env (EvidenceActionID k), ct_TenantID = cv_TenantID e, ct_CaseID = cv_CaseID e,
     ct_ActionType = ''evidence_collected'', ct_PerformedBy = cv_CollectedBy e, ct_PerformedAt = cv_CollectedAt e,
     ct_Details = DetailsMembers [(''evidence_id'', uuid_str (cv_ID e)), (''evidence_type'', cv_EvidenceType e), (''payload_hash'', cv_PayloadHash e)],
     ct_CreatedAt = trunc_us (fv_now env (k + 1))\<rparr>"

definition AppendEvidence ::
  "(string \<Rightarrow> string) \<Rightarrow> (uuid \<Rightarrow> string) \<Rightarrow> fox_env \<Rightarrow> nat \<Rightarrow> CaseEvidence \<Rightarrow> fox_db \<Rightarrow> (fox_error + unit) \<times> fox_db" where
  "AppendEvidence sha uuid_str env k e0 db =
     (let e = appended_evidence sha env k e0 db; a = evidence_action uuid_str env k e in
      if fv_fails env (EvidenceBegin k) then (Inl (FoxFailed (EvidenceBegin k)), db)
      else if fv_fails env (EvidencePrev k) then (Inl (FoxFailed (EvidencePrev k)), db)
      else if fv_fails env (EvidenceInsert k) \<or> list_ex (\<lambda>r. cv_ID r = cv_ID e) (fx_evidence db)
          \<or> \<not> list_ex (\<lambda>c. cs_ID c = cv_CaseID e) (fx_cases db) then (Inl (FoxFailed (EvidenceInsert k)), db)
      else if fv_fails env (EvidenceAction k) \<or> action_conflict (ct_ID a) (ct_CaseID a) db then (Inl (FoxFailed (EvidenceAction k)), db)
      else if fv_fails env (EvidenceCommit k) then (Inl (FoxFailed (EvidenceCommit k)), db)
      else (Inr (), db\<lparr>fx_evidence := fx_evidence db @ [e], fx_actions := fx_actions db @ [a]\<rparr>))"

definition AppendAction :: "fox_env \<Rightarrow> CaseAction \<Rightarrow> fox_db \<Rightarrow> (fox_error + uuid) \<times> fox_db" where
  "AppendAction env a0 db =
     (let now = fv_now env 0;
          a = a0\<lparr>ct_ID := (if ct_ID a0 = uuid_nil then fv_id env NewAction else ct_ID a0),
                 ct_PerformedAt := trunc_us (if ct_PerformedAt a0 = zero_time then now else ct_PerformedAt a0), ct_CreatedAt := trunc_us now,
                 ct_Details := (if ct_Details a0 = DetailsText [] then DetailsText ''{}'' else ct_Details a0)\<rparr> in
      if fv_fails env ActionInsert \<or> action_conflict (ct_ID a) (ct_CaseID a) db then (Inl (FoxFailed ActionInsert), db)
      else (Inr (ct_ID a), db\<lparr>fx_actions := fx_actions db @ [a]\<rparr>))"

text \<open>Closing does not look at the status.\<close>

definition closed_case :: "gotime \<Rightarrow> string \<Rightarrow> CaseRow \<Rightarrow> CaseRow" where
  "closed_case now resolution c = c\<lparr>cs_Status := ''closed'', cs_ResolvedAt := Some (trunc_us now), cs_ResolutionType := Some resolution,
     cs_UpdatedAt := trunc_us now\<rparr>"

definition closing_action :: "fox_env \<Rightarrow> uuid \<Rightarrow> uuid \<Rightarrow> string \<Rightarrow> uuid option \<Rightarrow> string \<Rightarrow> CaseAction" where
  "closing_action env tenantID caseID resolution closedBy notes = \<lparr>ct_ID = fv_id env ClosingAction, ct_TenantID = tenantID, ct_CaseID = caseID,
     ct_ActionType = ''resolution'', ct_PerformedBy = closedBy, ct_PerformedAt = trunc_us (fv_now env 0),
     ct_Details = DetailsMembers [(''notes'', notes), (''resolution'', resolution), (''to'', ''closed'')], ct_CreatedAt = trunc_us (fv_now env 0)\<rparr>"

definition CloseCase :: "fox_env \<Rightarrow> uuid \<Rightarrow> uuid \<Rightarrow> string \<Rightarrow> uuid option \<Rightarrow> string \<Rightarrow> fox_db \<Rightarrow> (fox_error + unit) \<times> fox_db" where
  "CloseCase env tenantID caseID resolution closedBy notes db =
     (let a = closing_action env tenantID caseID resolution closedBy notes in
      if fv_fails env CloseBegin then (Inl (FoxFailed CloseBegin), db)
      else if fv_fails env CloseUpdate then (Inl (FoxFailed CloseUpdate), db)
      else if \<not> list_ex (\<lambda>c. cs_ID c = caseID \<and> cs_TenantID c = tenantID) (fx_cases db) then (Inl FoxNotFound, db)
      else if fv_fails env CloseAction \<or> action_conflict (ct_ID a) caseID db then (Inl (FoxFailed CloseAction), db)
      else if fv_fails env CloseCommit then (Inl (FoxFailed CloseCommit), db)
      else (Inr (), db\<lparr>fx_cases := map (\<lambda>c. if cs_ID c = caseID \<and> cs_TenantID c = tenantID then closed_case (fv_now env 0) resolution c else c) (fx_cases db),
                       fx_actions := fx_actions db @ [a]\<rparr>))"

definition ListEvidence :: "fox_env \<Rightarrow> uuid \<Rightarrow> fox_db \<Rightarrow> fox_error + CaseEvidence list" where
  "ListEvidence env caseID db =
     (if fv_fails env ListEvidenceCall then Inl (FoxFailed ListEvidenceCall) else Inr (sort_key cv_CollectedAt (evidence_of caseID db)))"

definition ListActions :: "fox_env \<Rightarrow> uuid \<Rightarrow> fox_db \<Rightarrow> fox_error + CaseAction list" where
  "ListActions env caseID db =
     (if fv_fails env ListActionsCall then Inl (FoxFailed ListActionsCall)
      else Inr (sort_key ct_PerformedAt (filter (\<lambda>a. ct_CaseID a = caseID) (fx_actions db))))"

record CaseFilter =
  cf_Status :: string
  cf_From :: "gotime option"
  cf_To :: "gotime option"

definition ListCases :: "fox_env \<Rightarrow> uuid \<Rightarrow> CaseFilter \<Rightarrow> int \<Rightarrow> int \<Rightarrow> fox_db \<Rightarrow> fox_error + CaseRow list" where
  "ListCases env tenantID f limit offset db =
     (if fv_fails env ListCasesCall \<or> limit < 0 \<or> offset < 0 then Inl (FoxFailed ListCasesCall)
      else Inr (take (nat limit) (drop (nat offset) (sort_desc cs_OpenedAt (filter (\<lambda>c. cs_TenantID c = tenantID
             \<and> (cf_Status f = [] \<or> cs_Status c = cf_Status f)
             \<and> (case cf_From f of None \<Rightarrow> True | Some t \<Rightarrow> trunc_us t \<le> cs_OpenedAt c)
             \<and> (case cf_To f of None \<Rightarrow> True | Some t \<Rightarrow> cs_OpenedAt c \<le> trunc_us t)) (fx_cases db))))))"


section \<open>The handlers\<close>

datatype fox_reply =
    FoxErr nat string
  | FromDetectionOK "uuid option" bool bool string
  | CaseCreated uuid string
  | CaseDetail CaseRow "CaseEvidence list" "CaseAction list"
  | ActionCreated uuid
  | CaseClosed uuid

record createCaseReq =
  cr_MerchantID :: string
  cr_SubjectID :: string
  cr_LocationID :: string
  cr_DetectionIDs :: "string list"
  cr_Severity :: string
  cr_Title :: string
  cr_Notes :: string
  cr_OpenedBy :: string

record appendActionReq =
  ar_ActionType :: string
  ar_TakenBy :: string
  ar_Notes :: string
  ar_Metadata :: string

record closeCaseReq =
  lr_Resolution :: string
  lr_ClosedBy :: string
  lr_Notes :: string

text \<open>What a handler is built with: the policy and whether a party store is attached.\<close>

record fox_handler =
  fh_cfg :: EscalationConfig
  fh_party :: bool

definition New_handler :: "EscalationConfig \<Rightarrow> fox_handler" where
  "New_handler cfg = \<lparr>fh_cfg = (if ec_MinSeverity cfg = [] then DefaultEscalationConfig else cfg), fh_party = False\<rparr>"

text \<open>The claim's tenant, if the request has one.\<close>

definition fox_tenant :: "uuid option \<Rightarrow> fox_reply + uuid" where
  "fox_tenant claim = (case claim of None \<Rightarrow> Inl (FoxErr 401 ''unauthenticated'')
     | Some tn \<Rightarrow> if tn = uuid_nil then Inl (FoxErr 401 ''unauthenticated'') else Inr tn)"

definition legacy_subject :: "(uuid \<Rightarrow> string) \<Rightarrow> party_env \<Rightarrow> Detection \<Rightarrow> party_db \<Rightarrow> uuid option \<times> party_db" where
  "legacy_subject uuid_str env det db =
     (case dt_CashierEmployeeID det of
        Some e \<Rightarrow> (case ResolveSubject uuid_str env (dt_TenantID det) SubjectEmployee e db of (Inl _, db') \<Rightarrow> (None, db') | (Inr i, db') \<Rightarrow> (Some i, db'))
      | None \<Rightarrow>
          (case dt_CustomerID det of
             Some c \<Rightarrow> (case ResolveSubject uuid_str env (dt_TenantID det) SubjectCustomer c db of (Inl _, db') \<Rightarrow> (None, db') | (Inr i, db') \<Rightarrow> (Some i, db'))
           | None \<Rightarrow> (None, db)))"

definition subjectFromDetection ::
  "(string \<Rightarrow> string) \<Rightarrow> (uuid \<Rightarrow> string) \<Rightarrow> bool \<Rightarrow> party_env \<Rightarrow> Detection \<Rightarrow> party_db \<Rightarrow> uuid option \<times> party_db" where
  "subjectFromDetection sha uuid_str party env det db =
     (if \<not> party then legacy_subject uuid_str env det db
      else case ResolveFromDetection sha uuid_str env det db of
          (Inr (Some p), db1) \<Rightarrow>
            (case party_ResolveSubject uuid_str env (dt_TenantID det) p db1 of
               (Inr i, db2) \<Rightarrow> (Some i, db2)
             | (Inl _, db2) \<Rightarrow> legacy_subject uuid_str env det db2)
        | (_, db1) \<Rightarrow> legacy_subject uuid_str env det db1)"

definition snapshot :: "uuid \<Rightarrow> uuid \<Rightarrow> uuid \<Rightarrow> string \<Rightarrow> CaseEvidence" where
  "snapshot tenantID caseID detID payload = \<lparr>cv_ID = uuid_nil, cv_TenantID = tenantID, cv_CaseID = caseID, cv_EvidenceType = ''transaction_snapshot'',
     cv_SourceEntityType = Some ''q.detections'', cv_SourceEntityID = Some detID, cv_Payload = payload, cv_PayloadHash = [], cv_PrevEvidenceHash = None,
     cv_BlockchainAnchorID = None, cv_CollectedBy = None, cv_CollectedAt = zero_time, cv_Attributes = RawText [], cv_CreatedAt = zero_time\<rparr>"

definition new_case :: "uuid \<Rightarrow> string \<Rightarrow> string \<Rightarrow> string option \<Rightarrow> string \<Rightarrow> uuid option \<Rightarrow> uuid option \<Rightarrow> uuid option \<Rightarrow> CaseRow" where
  "new_case tenantID number title description severity subject location assigned = \<lparr>cs_ID = uuid_nil, cs_TenantID = tenantID, cs_CaseNumber = number,
     cs_CaseType = ''investigation'', cs_Title = title, cs_Description = description, cs_Severity = severity, cs_Status = ''open'',
     cs_PrimarySubjectID = subject, cs_PrimaryLocationID = location, cs_AssignedTo = assigned, cs_OpenedAt = zero_time, cs_ResolvedAt = None,
     cs_ResolutionType = None, cs_LossAmountEstimated = None, cs_LossAmountRecovered = None, cs_Attributes = RawText [],
     cs_CreatedAt = zero_time, cs_UpdatedAt = zero_time\<rparr>"

definition fromDetection ::
  "fox_handler \<Rightarrow> (string \<Rightarrow> string) \<Rightarrow> (uuid \<Rightarrow> string) \<Rightarrow> (string \<Rightarrow> uuid option) \<Rightarrow> fox_env \<Rightarrow> uuid option \<Rightarrow> string req_body \<Rightarrow> fox_db
     \<Rightarrow> fox_reply \<times> fox_db" where
  "fromDetection h sha uuid_str parse env claim body db =
     (case fox_tenant claim of
        Inl r \<Rightarrow> (r, db)
      | Inr tn \<Rightarrow>
          (case body of
             BodyJson detectionID \<Rightarrow>
               (case parse detectionID of
                  None \<Rightarrow> (FoxErr 400 ''malformed_detection_id'', db)
                | Some detID \<Rightarrow>
                    (case LoadDetectionScoped env 0 tn detID db of
                       Inl FoxNotFound \<Rightarrow> (FoxErr 404 ''detection_not_found'', db)
                     | Inl _ \<Rightarrow> (FoxErr 500 ''load_failed'', db)
                     | Inr det \<Rightarrow>
                         (case EvaluateForEscalation (FindOpenCaseBySubject env db) (Some det) (fh_cfg h) of
                            Inl _ \<Rightarrow> (FoxErr 500 ''evaluate_failed'', db)
                          | Inr decision \<Rightarrow>
                              if ed_OpenNew decision then
                                (case subjectFromDetection sha uuid_str (fh_party h) (fv_party env) det (fx_party db) of
                                   (subject, pdb) \<Rightarrow>
                                     (case OpenCase env (new_case (dt_TenantID det) (CaseNumber (fv_random env) (fv_now env 0))
                                             (''Auto-escalated detection '' @ take 8 (uuid_str detID)) None (dt_Severity det) subject (dt_LocationID det) None)
                                             (Some detID) (db\<lparr>fx_party := pdb\<rparr>) of
                                        (Inl _, db1) \<Rightarrow> (FoxErr 500 ''open_failed'', db1)
                                      | (Inr caseID, db1) \<Rightarrow>
                                          (FromDetectionOK (Some caseID) True False (ed_Reason decision),
                                           snd (AppendEvidence sha uuid_str env 0 (snapshot (dt_TenantID det) caseID detID (dt_Evidence det)) db1))))
                              else if ed_AttachToExisting decision then
                                (case AppendEvidence sha uuid_str env 0 (snapshot (dt_TenantID det) (ed_CaseID decision) detID (dt_Evidence det)) db of
                                   (Inl _, db1) \<Rightarrow> (FoxErr 500 ''evidence_failed'', db1)
                                 | (Inr _, db1) \<Rightarrow> (FromDetectionOK (Some (ed_CaseID decision)) False True (ed_Reason decision), db1))
                              else (FromDetectionOK None False False (ed_Reason decision), db))))
           | _ \<Rightarrow> (FoxErr 400 ''malformed_body'', db)))"

text \<open>An optional identifier of a body: absent, parsed, or malformed.\<close>

definition opt_uuid :: "(string \<Rightarrow> uuid option) \<Rightarrow> string \<Rightarrow> uuid option option" where
  "opt_uuid parse v = (if v = [] then Some None else case parse v of None \<Rightarrow> None | Some u \<Rightarrow> Some (Some u))"

text \<open>Seeding: what cannot be parsed, loaded or appended is skipped.\<close>

fun seed_evidence ::
  "(string \<Rightarrow> string) \<Rightarrow> (uuid \<Rightarrow> string) \<Rightarrow> (string \<Rightarrow> uuid option) \<Rightarrow> fox_env \<Rightarrow> uuid \<Rightarrow> uuid \<Rightarrow> nat \<Rightarrow> string list \<Rightarrow> fox_db \<Rightarrow> fox_db" where
  "seed_evidence sha uuid_str parse env tenantID caseID k [] db = db"
| "seed_evidence sha uuid_str parse env tenantID caseID k (v # vs) db =
     seed_evidence sha uuid_str parse env tenantID caseID (k + 1) vs
       (case parse v of
          None \<Rightarrow> db
        | Some detID \<Rightarrow>
            (case LoadDetectionScoped env k tenantID detID db of
               Inl _ \<Rightarrow> db
             | Inr det \<Rightarrow> snd (AppendEvidence sha uuid_str env k (snapshot tenantID caseID detID (dt_Evidence det)) db)))"

definition createCase ::
  "(string \<Rightarrow> string) \<Rightarrow> (uuid \<Rightarrow> string) \<Rightarrow> (string \<Rightarrow> uuid option) \<Rightarrow> fox_env \<Rightarrow> uuid option \<Rightarrow> createCaseReq req_body \<Rightarrow> fox_db
     \<Rightarrow> fox_reply \<times> fox_db" where
  "createCase sha uuid_str parse env claim body db =
     (case fox_tenant claim of
        Inl r \<Rightarrow> (r, db)
      | Inr tn \<Rightarrow>
          (case body of
             BodyJson req \<Rightarrow>
               (case opt_uuid parse (cr_MerchantID req) of
                  None \<Rightarrow> (FoxErr 400 ''malformed_merchant_id'', db)
                | Some m \<Rightarrow>
                    if m \<noteq> None \<and> m \<noteq> Some uuid_nil \<and> m \<noteq> Some tn then (FoxErr 403 ''tenant_mismatch'', db)
                    else if \<not> Severity_IsValid (cr_Severity req) then (FoxErr 400 ''invalid_severity'', db)
                    else (case opt_uuid parse (cr_SubjectID req) of
                        None \<Rightarrow> (FoxErr 400 ''malformed_subject_id'', db)
                      | Some subject \<Rightarrow>
                          (case opt_uuid parse (cr_LocationID req) of
                             None \<Rightarrow> (FoxErr 400 ''malformed_location_id'', db)
                           | Some location \<Rightarrow>
                               (case opt_uuid parse (cr_OpenedBy req) of
                                  None \<Rightarrow> (FoxErr 400 ''malformed_opened_by'', db)
                                | Some openedBy \<Rightarrow>
                                    (let number = CaseNumber (fv_random env) (fv_now env 0) in
                                     case OpenCase env (new_case tn number (if cr_Title req = [] then ''Manual case'' else cr_Title req)
                                            (if cr_Notes req = [] then None else Some (cr_Notes req)) (cr_Severity req) subject location openedBy) None db of
                                       (Inl _, db1) \<Rightarrow> (FoxErr 500 ''open_failed'', db1)
                                     | (Inr caseID, db1) \<Rightarrow>
                                         (CaseCreated caseID number, seed_evidence sha uuid_str parse env tn caseID 0 (cr_DetectionIDs req) db1))))))
           | _ \<Rightarrow> (FoxErr 400 ''malformed_body'', db)))"


definition with_case ::
  "(string \<Rightarrow> uuid option) \<Rightarrow> fox_env \<Rightarrow> uuid option \<Rightarrow> string \<Rightarrow> fox_reply + unit \<Rightarrow> (CaseRow \<Rightarrow> fox_reply \<times> fox_db) \<Rightarrow> fox_db
     \<Rightarrow> fox_reply \<times> fox_db" where
  "with_case parse env claim path check k db =
     (case fox_tenant claim of
        Inl r \<Rightarrow> (r, db)
      | Inr tn \<Rightarrow>
          (case parse path of
             None \<Rightarrow> (FoxErr 400 ''malformed_id'', db)
           | Some caseID \<Rightarrow>
               (case check of
                  Inl r \<Rightarrow> (r, db)
                | Inr _ \<Rightarrow>
                    (case LoadCaseScoped env tn caseID db of
                       Inl FoxNotFound \<Rightarrow> (FoxErr 404 ''case_not_found'', db)
                     | Inl _ \<Rightarrow> (FoxErr 500 ''load_failed'', db)
                     | Inr c \<Rightarrow> k c))))"

definition getCase :: "(string \<Rightarrow> uuid option) \<Rightarrow> fox_env \<Rightarrow> uuid option \<Rightarrow> string \<Rightarrow> fox_db \<Rightarrow> fox_reply \<times> fox_db" where
  "getCase parse env claim path db =
     with_case parse env claim path (Inr ()) (\<lambda>c.
       (case ListEvidence env (cs_ID c) db of
          Inl _ \<Rightarrow> (FoxErr 500 ''list_evidence_failed'', db)
        | Inr evs \<Rightarrow>
            (case ListActions env (cs_ID c) db of
               Inl _ \<Rightarrow> (FoxErr 500 ''list_actions_failed'', db)
             | Inr acts \<Rightarrow> (CaseDetail c evs acts, db)))) db"

definition appendAction :: "(string \<Rightarrow> uuid option) \<Rightarrow> fox_env \<Rightarrow> uuid option \<Rightarrow> string \<Rightarrow> appendActionReq req_body \<Rightarrow> fox_db \<Rightarrow> fox_reply \<times> fox_db" where
  "appendAction parse env claim path body db =
     with_case parse env claim path
       (case body of BodyJson req \<Rightarrow> if ar_ActionType req = [] then Inl (FoxErr 400 ''missing_action_type'') else Inr () | _ \<Rightarrow> Inl (FoxErr 400 ''malformed_body''))
       (\<lambda>c. case body of
           BodyJson req \<Rightarrow>
             (case opt_uuid parse (ar_TakenBy req) of
                None \<Rightarrow> (FoxErr 400 ''malformed_taken_by'', db)
              | Some by \<Rightarrow>
                  (case AppendAction env \<lparr>ct_ID = uuid_nil, ct_TenantID = cs_TenantID c, ct_CaseID = cs_ID c, ct_ActionType = ar_ActionType req,
                          ct_PerformedBy = by, ct_PerformedAt = zero_time, ct_Details = DetailsMerged (ar_Metadata req) (ar_Notes req), ct_CreatedAt = zero_time\<rparr> db of
                     (Inl _, db1) \<Rightarrow> (FoxErr 500 ''append_failed'', db1)
                   | (Inr i, db1) \<Rightarrow> (ActionCreated i, db1)))
         | _ \<Rightarrow> (FoxErr 400 ''malformed_body'', db)) db"

definition closeCase :: "(string \<Rightarrow> uuid option) \<Rightarrow> fox_env \<Rightarrow> uuid option \<Rightarrow> string \<Rightarrow> closeCaseReq req_body \<Rightarrow> fox_db \<Rightarrow> fox_reply \<times> fox_db" where
  "closeCase parse env claim path body db =
     with_case parse env claim path
       (case body of BodyJson req \<Rightarrow> if lr_Resolution req = [] then Inl (FoxErr 400 ''missing_resolution'') else Inr () | _ \<Rightarrow> Inl (FoxErr 400 ''malformed_body''))
       (\<lambda>c. case body of
           BodyJson req \<Rightarrow>
             (case opt_uuid parse (lr_ClosedBy req) of
                None \<Rightarrow> (FoxErr 400 ''malformed_closed_by'', db)
              | Some by \<Rightarrow>
                  (case CloseCase env (cs_TenantID c) (cs_ID c) (lr_Resolution req) by (lr_Notes req) db of
                     (Inl FoxNotFound, db1) \<Rightarrow> (FoxErr 404 ''case_not_found'', db1)
                   | (Inl _, db1) \<Rightarrow> (FoxErr 500 ''close_failed'', db1)
                   | (Inr _, db1) \<Rightarrow> (CaseClosed (cs_ID c), db1)))
         | _ \<Rightarrow> (FoxErr 400 ''malformed_body'', db)) db"

datatype fox_request =
    PostFromDetection "string req_body"
  | PostCase "createCaseReq req_body"
  | GetCase string
  | PostAction string "appendActionReq req_body"
  | PostClose string "closeCaseReq req_body"

fun fox_serve ::
  "fox_handler \<Rightarrow> (string \<Rightarrow> string) \<Rightarrow> (uuid \<Rightarrow> string) \<Rightarrow> (string \<Rightarrow> uuid option) \<Rightarrow> fox_env \<times> uuid option \<times> fox_request \<Rightarrow> fox_db
     \<Rightarrow> fox_reply \<times> fox_db" where
  "fox_serve h sha uuid_str parse (env, claim, PostFromDetection body) db = fromDetection h sha uuid_str parse env claim body db"
| "fox_serve h sha uuid_str parse (env, claim, PostCase body) db = createCase sha uuid_str parse env claim body db"
| "fox_serve h sha uuid_str parse (env, claim, GetCase path) db = getCase parse env claim path db"
| "fox_serve h sha uuid_str parse (env, claim, PostAction path body) db = appendAction parse env claim path body db"
| "fox_serve h sha uuid_str parse (env, claim, PostClose path body) db = closeCase parse env claim path body db"


section \<open>The steps of the store\<close>

definition case_of :: "uuid \<Rightarrow> uuid \<Rightarrow> fox_db \<Rightarrow> bool" where
  "case_of tn i db \<longleftrightarrow> (\<exists>c \<in> set (fx_cases db). cs_ID c = i \<and> cs_TenantID c = tn)"

text \<open>What a request for a tenant is made of: the store's operations that succeed.\<close>

inductive fox_step :: "(string \<Rightarrow> string) \<Rightarrow> (uuid \<Rightarrow> string) \<Rightarrow> uuid \<Rightarrow> fox_db \<Rightarrow> fox_db \<Rightarrow> bool" for sha uuid_str tn where
  subjects: "(distinct (map sb_ID (pd_subjects (fx_party db))) \<Longrightarrow> subjects_keep (pd_subjects (fx_party db)) (pd_subjects p))
      \<Longrightarrow> fox_step sha uuid_str tn db (db\<lparr>fx_party := p\<rparr>)"
| open_case: "OpenCase env c link db = (Inr i, db') \<Longrightarrow> cs_TenantID c = tn \<Longrightarrow> cs_Status c = ''open''
      \<Longrightarrow> (\<And>j d. link = Some j \<Longrightarrow> List.find (\<lambda>d. dt_ID d = j \<and> dt_TenantID d = tn) (fx_detections db) = Some d \<Longrightarrow> dt_CaseID d = None)
      \<Longrightarrow> fox_step sha uuid_str tn db db'"
| evidence: "AppendEvidence sha uuid_str env k e db = (Inr (), db') \<Longrightarrow> cv_TenantID e = tn \<Longrightarrow> cv_CollectedAt e = zero_time
      \<Longrightarrow> case_of tn (cv_CaseID e) db \<Longrightarrow> fox_step sha uuid_str tn db db'"
| action: "AppendAction env a db = (Inr i, db') \<Longrightarrow> ct_TenantID a = tn \<Longrightarrow> case_of tn (ct_CaseID a) db
      \<Longrightarrow> fox_step sha uuid_str tn db db'"
| close_case: "CloseCase env tn caseID resolution by notes db = (Inr (), db') \<Longrightarrow> fox_step sha uuid_str tn db db'"

lemma OpenCase_fails: "OpenCase env c link db = (Inl e, db') \<Longrightarrow> db' = db"
  by (auto simp: OpenCase_def Let_def split: if_splits option.splits)

lemma AppendEvidence_fails: "AppendEvidence sha uuid_str env k e db = (Inl x, db') \<Longrightarrow> db' = db"
  by (auto simp: AppendEvidence_def Let_def split: if_splits)

lemma AppendEvidence_steps:
  assumes "cv_TenantID e = tn" "cv_CollectedAt e = zero_time" "case_of tn (cv_CaseID e) db"
  shows "(fox_step sha uuid_str tn)\<^sup>*\<^sup>* db (snd (AppendEvidence sha uuid_str env k e db))"
proof (cases "AppendEvidence sha uuid_str env k e db")
  case (Pair r db')
  show ?thesis
  proof (cases r)
    case (Inl x)
    then have "db' = db" using AppendEvidence_fails Pair by blast
    then show ?thesis using Pair by simp
  next
    case (Inr u)
    then have "fox_step sha uuid_str tn db db'" using fox_step.evidence [of sha uuid_str env k e db db' tn] assms Pair by simp
    then show ?thesis using Pair by auto
  qed
qed

lemma OpenCase_case_of: "OpenCase env c link db = (Inr i, db') \<Longrightarrow> case_of (cs_TenantID c) i db'"
  by (auto simp: OpenCase_def Let_def case_of_def opened_case_def stored_case_def split: if_splits option.splits)

lemma FindOpenCaseBySubject_case_of:
  "FindOpenCaseBySubject env db tn s = Inr (Some c) \<Longrightarrow> case_of tn (cs_ID c) db"
  by (auto simp: FindOpenCaseBySubject_def case_of_def dest!: first_row_sort_desc_in split: if_splits)

lemma Evaluate_attach:
  "EvaluateForEscalation findOpen (Some d) cfg = Inr r \<Longrightarrow> ed_AttachToExisting r
    \<Longrightarrow> \<exists>c. findOpen (dt_TenantID d) (detectionSubject d) = Inr (Some c) \<and> ed_CaseID r = cs_ID c"
  by (auto simp: EvaluateForEscalation_def no_action_def by_severity_def split: if_splits sum.splits option.splits)

lemma snapshot_fields [simp]:
  "cv_TenantID (snapshot tn c d p) = tn" "cv_CollectedAt (snapshot tn c d p) = zero_time" "cv_CaseID (snapshot tn c d p) = c"
  "cv_ID (snapshot tn c d p) = uuid_nil"
  by (simp_all add: snapshot_def)

lemma new_case_fields [simp]:
  "cs_TenantID (new_case tn n t d s sub l a) = tn" "cs_Status (new_case tn n t d s sub l a) = ''open''"
  "cs_ID (new_case tn n t d s sub l a) = uuid_nil"
  by (simp_all add: new_case_def)

lemma AppendEvidence_cases [simp]: "fx_cases (snd (AppendEvidence sha uuid_str env k e db)) = fx_cases db"
  by (simp add: AppendEvidence_def Let_def)

lemma case_of_append [simp]: "case_of tn i (snd (AppendEvidence sha uuid_str env k e db)) = case_of tn i db"
  by (simp add: case_of_def)

lemma seed_evidence_steps:
  "case_of tn caseID db \<Longrightarrow> (fox_step sha uuid_str tn)\<^sup>*\<^sup>* db (seed_evidence sha uuid_str parse env tn caseID k vs db)"
proof (induction vs arbitrary: k db)
  case (Cons v vs)
  define db1 where "db1 = (case parse v of None \<Rightarrow> db
      | Some detID \<Rightarrow> (case LoadDetectionScoped env k tn detID db of Inl _ \<Rightarrow> db
          | Inr det \<Rightarrow> snd (AppendEvidence sha uuid_str env k (snapshot tn caseID detID (dt_Evidence det)) db)))"
  have "(fox_step sha uuid_str tn)\<^sup>*\<^sup>* db db1"
    using Cons.prems by (auto simp: db1_def split: option.split sum.split intro: AppendEvidence_steps)
  moreover have "case_of tn caseID db1" using Cons.prems by (simp add: db1_def split: option.split sum.split)
  then have "(fox_step sha uuid_str tn)\<^sup>*\<^sup>* db1 (seed_evidence sha uuid_str parse env tn caseID (k + 1) vs db1)" using Cons.IH by blast
  ultimately show ?case by (simp add: db1_def)
qed simp

lemma legacy_subject_keep:
  "distinct (map sb_ID (pd_subjects db)) \<Longrightarrow> subjects_keep (pd_subjects db) (pd_subjects (snd (legacy_subject uuid_str env det db)))"
proof -
  assume d: "distinct (map sb_ID (pd_subjects db))"
  have r: "subjects_keep (pd_subjects db) (pd_subjects (snd (ResolveSubject uuid_str env tn kind ref db)))" for tn kind ref
    using party_step_keep [OF d, of undefined uuid_str "(env, OpSubject tn kind ref)"] by simp
  have refl: "subjects_keep (pd_subjects db) (pd_subjects db)" using d by (simp add: subjects_keep_def)
  show ?thesis using r refl by (auto simp: legacy_subject_def split: option.split prod.split sum.split) (metis snd_conv)+
qed

lemma subjects_keep_trans: "subjects_keep a b \<Longrightarrow> subjects_keep b c \<Longrightarrow> subjects_keep a c"
  by (auto simp: subjects_keep_def)

lemma subjectFromDetection_keep:
  assumes d: "distinct (map sb_ID (pd_subjects db))"
  shows "subjects_keep (pd_subjects db) (pd_subjects (snd (subjectFromDetection sha uuid_str party env det db)))"
proof (cases party)
  case True
  obtain r db1 where f: "ResolveFromDetection sha uuid_str env det db = (r, db1)" by fastforce
  have s1: "pd_subjects db1 = pd_subjects db" using ResolveFromDetection_subjects [of sha uuid_str env det db] f by simp
  show ?thesis
  proof (cases "\<exists>p. r = Inr (Some p)")
    case p: True
    then obtain p where r: "r = Inr (Some p)" by blast
    obtain q db2 where g: "party_ResolveSubject uuid_str env (dt_TenantID det) p db1 = (q, db2)" by fastforce
    have k: "subjects_keep (pd_subjects db) (pd_subjects db2)"
      using party_step_keep [of db1 sha uuid_str "(env, OpParty (dt_TenantID det) p)"] d s1 g by simp
    then have "subjects_keep (pd_subjects db) (pd_subjects (snd (legacy_subject uuid_str env det db2)))"
      using legacy_subject_keep [of db2] subjects_keep_trans unfolding subjects_keep_def by blast
    then show ?thesis using True f r g k by (cases q) (simp_all add: subjectFromDetection_def)
  next
    case False
    then have "subjectFromDetection sha uuid_str party env det db = legacy_subject uuid_str env det db1"
      using True f by (auto simp: subjectFromDetection_def split: sum.split option.split)
    then show ?thesis using legacy_subject_keep [of db1] d s1 by simp
  qed
qed (use legacy_subject_keep d in \<open>simp add: subjectFromDetection_def\<close>)


lemma Evaluate_open_new:
  "EvaluateForEscalation findOpen (Some d) cfg = Inr r \<Longrightarrow> ed_OpenNew r \<Longrightarrow> dt_CaseID d = None"
  by (auto simp: EvaluateForEscalation_def no_action_def split: if_splits)

lemma LoadDetectionScoped_found:
  "LoadDetectionScoped env k tn i db = Inr d \<Longrightarrow> List.find (\<lambda>d. dt_ID d = i \<and> dt_TenantID d = tn) (fx_detections db) = Some d \<and> dt_TenantID d = tn"
  by (auto simp: LoadDetectionScoped_def find_Some_iff split: if_splits option.splits)

lemma open_from_detection_steps:
  assumes "LoadDetectionScoped env 0 tn detID db = Inr det" "dt_CaseID det = None"
    and "subjectFromDetection sha uuid_str party penv det (fx_party db) = (subject, pdb)"
    and "OpenCase env (new_case tn n t d sev subject loc None) (Some detID) (db\<lparr>fx_party := pdb\<rparr>) = (r, db1)"
  shows "(fox_step sha uuid_str tn)\<^sup>*\<^sup>* db db1"
proof -
  note det = LoadDetectionScoped_found [OF assms(1)]
  have sub: "fox_step sha uuid_str tn db (db\<lparr>fx_party := pdb\<rparr>)"
    using subjectFromDetection_keep [of "fx_party db" sha uuid_str party penv det] assms(3) by (intro fox_step.subjects) simp
  show ?thesis
  proof (cases r)
    case (Inl e)
    then have "db1 = db\<lparr>fx_party := pdb\<rparr>" using OpenCase_fails assms(4) by blast
    then show ?thesis using sub by simp
  next
    case (Inr i)
    have "fox_step sha uuid_str tn (db\<lparr>fx_party := pdb\<rparr>) db1"
      using assms(4) [unfolded Inr] by (rule fox_step.open_case) (use det assms(2) in auto)
    then show ?thesis using sub by (meson converse_rtranclp_into_rtranclp r_into_rtranclp)
  qed
qed

lemma fromDetection_steps:
  "snd (fromDetection h sha uuid_str parse env claim body db) = db
   \<or> (\<exists>tn. claim = Some tn \<and> (fox_step sha uuid_str tn)\<^sup>*\<^sup>* db (snd (fromDetection h sha uuid_str parse env claim body db)))"
proof (cases "snd (fromDetection h sha uuid_str parse env claim body db) = db")
  case False
  then obtain tn detID v det dec where c: "fox_tenant claim = Inr tn" "body = BodyJson v" "parse v = Some detID"
      "LoadDetectionScoped env 0 tn detID db = Inr det"
      "EvaluateForEscalation (FindOpenCaseBySubject env db) (Some det) (fh_cfg h) = Inr dec"
    by (auto simp: fromDetection_def split: sum.splits req_body.splits option.splits fox_error.splits)
  have claim: "claim = Some tn" using c(1) by (auto simp: fox_tenant_def split: option.splits if_splits)
  have tn: "dt_TenantID det = tn" using LoadDetectionScoped_found [OF c(4)] by simp
  show ?thesis
  proof (cases "ed_OpenNew dec")
    case True
    obtain subject pdb where s: "subjectFromDetection sha uuid_str (fh_party h) (fv_party env) det (fx_party db) = (subject, pdb)" by fastforce
    obtain r db1 where o: "OpenCase env (new_case tn (CaseNumber (fv_random env) (fv_now env 0))
        (''Auto-escalated detection '' @ take 8 (uuid_str detID)) None (dt_Severity det) subject (dt_LocationID det) None)
        (Some detID) (db\<lparr>fx_party := pdb\<rparr>) = (r, db1)" by fastforce
    have st: "(fox_step sha uuid_str tn)\<^sup>*\<^sup>* db db1"
      using open_from_detection_steps [OF c(4) Evaluate_open_new [OF c(5) True] s o] .
    have ev: "(fox_step sha uuid_str tn)\<^sup>*\<^sup>* db1 (snd (AppendEvidence sha uuid_str env 0 (snapshot tn i detID (dt_Evidence det)) db1))" if "r = Inr i" for i
      using OpenCase_case_of [OF o [unfolded that]] by (intro AppendEvidence_steps) simp_all
    have "snd (fromDetection h sha uuid_str parse env claim body db) =
        (case r of Inl _ \<Rightarrow> db1 | Inr i \<Rightarrow> snd (AppendEvidence sha uuid_str env 0 (snapshot tn i detID (dt_Evidence det)) db1))"
      using c True s o tn by (simp add: fromDetection_def split: sum.split)
    then show ?thesis using claim st ev by (cases r) (auto intro: rtranclp_trans)
  next
    case open_new: False
    have "snd (fromDetection h sha uuid_str parse env claim body db) =
        (if ed_AttachToExisting dec then snd (AppendEvidence sha uuid_str env 0 (snapshot tn (ed_CaseID dec) detID (dt_Evidence det)) db) else db)"
      using c open_new tn by (simp add: fromDetection_def split: sum.split prod.split)
    moreover have "case_of tn (ed_CaseID dec) db" if "ed_AttachToExisting dec"
      using Evaluate_attach [OF c(5) that] FindOpenCaseBySubject_case_of tn by auto
    ultimately show ?thesis using claim by (auto intro: AppendEvidence_steps)
  qed
qed simp

lemma createCase_cases:
  obtains (unchanged) r where "createCase sha uuid_str parse env claim body db = (r, db)"
  | (opened) tn n t d sev s l a r db1 vs where "fox_tenant claim = Inr tn"
      "OpenCase env (new_case tn n t d sev s l a) None db = (r, db1)"
      "snd (createCase sha uuid_str parse env claim body db) = (case r of Inl _ \<Rightarrow> db1 | Inr i \<Rightarrow> seed_evidence sha uuid_str parse env tn i 0 vs db1)"
proof (cases "fox_tenant claim")
  case (Inl x)
  then show ?thesis using unchanged by (simp add: createCase_def)
next
  case tn: (Inr tn)
  show ?thesis
  proof (cases "\<exists>req m s l a. body = BodyJson req \<and> opt_uuid parse (cr_MerchantID req) = Some m \<and> \<not> (m \<noteq> None \<and> m \<noteq> Some uuid_nil \<and> m \<noteq> Some tn)
      \<and> Severity_IsValid (cr_Severity req) \<and> opt_uuid parse (cr_SubjectID req) = Some s \<and> opt_uuid parse (cr_LocationID req) = Some l
      \<and> opt_uuid parse (cr_OpenedBy req) = Some a")
    case False
    then have "snd (createCase sha uuid_str parse env claim body db) = db"
      using tn unfolding createCase_def by (auto split: req_body.split option.split)
    then show ?thesis using unchanged by (metis prod.collapse)
  next
    case True
    then obtain req m s l a where q: "body = BodyJson req" "opt_uuid parse (cr_MerchantID req) = Some m" "\<not> (m \<noteq> None \<and> m \<noteq> Some uuid_nil \<and> m \<noteq> Some tn)"
      "Severity_IsValid (cr_Severity req)" "opt_uuid parse (cr_SubjectID req) = Some s" "opt_uuid parse (cr_LocationID req) = Some l"
      "opt_uuid parse (cr_OpenedBy req) = Some a" by blast
    obtain r db1 where o: "OpenCase env (new_case tn (CaseNumber (fv_random env) (fv_now env 0)) (if cr_Title req = [] then ''Manual case'' else cr_Title req)
        (if cr_Notes req = [] then None else Some (cr_Notes req)) (cr_Severity req) s l a) None db = (r, db1)" by fastforce
    have "snd (createCase sha uuid_str parse env claim body db) =
        (case r of Inl _ \<Rightarrow> db1 | Inr i \<Rightarrow> seed_evidence sha uuid_str parse env tn i 0 (cr_DetectionIDs req) db1)"
      unfolding createCase_def tn q sum.case req_body.case option.case Let_def o prod.case using q(3,4)
      by (cases r) auto
    from opened [OF tn o this] show ?thesis .
  qed
qed

lemma createCase_steps:
  "snd (createCase sha uuid_str parse env claim body db) = db
   \<or> (\<exists>tn. claim = Some tn \<and> (fox_step sha uuid_str tn)\<^sup>*\<^sup>* db (snd (createCase sha uuid_str parse env claim body db)))"
proof (cases sha uuid_str parse env claim body db rule: createCase_cases)
  case (opened tn n t d sev s l a r db1 vs)
  have claim: "claim = Some tn" using opened(1) by (auto simp: fox_tenant_def split: option.splits if_splits)
  show ?thesis
  proof (cases r)
    case (Inl e)
    then have "db1 = db" using OpenCase_fails opened(2) by blast
    then show ?thesis using opened(3) Inl by simp
  next
    case (Inr i)
    have "fox_step sha uuid_str tn db db1" using opened(2) [unfolded Inr] by (rule fox_step.open_case) simp_all
    then show ?thesis using claim opened(3) Inr seed_evidence_steps [of tn i db1 sha uuid_str] OpenCase_case_of [OF opened(2) [unfolded Inr]] by (auto intro: converse_rtranclp_into_rtranclp)
  qed
qed simp


lemma with_case_steps:
  assumes "with_case parse env claim path check k db = (r, db')"
    and "\<And>c r' db1. c \<in> set (fx_cases db) \<Longrightarrow> k c = (r', db1) \<Longrightarrow> (fox_step sha uuid_str (cs_TenantID c))\<^sup>*\<^sup>* db db1"
  shows "db' = db \<or> (\<exists>tn. claim = Some tn \<and> (fox_step sha uuid_str tn)\<^sup>*\<^sup>* db db')"
proof (cases "db' = db")
  case False
  then obtain tn i c where c: "fox_tenant claim = Inr tn" "LoadCaseScoped env tn i db = Inr c" "k c = (r, db')"
    using assms(1) by (auto simp: with_case_def split: sum.splits option.splits fox_error.splits)
  have "cs_TenantID c = tn" "c \<in> set (fx_cases db)"
    using c(2) by (auto simp: LoadCaseScoped_def find_Some_iff split: if_splits option.splits)
  moreover have "claim = Some tn" using c(1) by (auto simp: fox_tenant_def split: option.splits if_splits)
  ultimately show ?thesis using assms(2) c by blast
qed simp

lemma CloseCase_fails: "CloseCase env tn i res by notes db = (Inl x, db') \<Longrightarrow> db' = db"
  by (auto simp: CloseCase_def Let_def split: if_splits)

lemma AppendAction_fails: "AppendAction env a db = (Inl x, db') \<Longrightarrow> db' = db"
  by (auto simp: AppendAction_def Let_def split: if_splits)

lemma CloseCase_steps: "CloseCase env tn i res by notes db = (r, db') \<Longrightarrow> (fox_step sha uuid_str tn)\<^sup>*\<^sup>* db db'"
  using CloseCase_fails [of env tn i res "by" "notes" db] fox_step.close_case [of env tn i res "by" "notes" db db' sha uuid_str] by (cases r) auto

lemma AppendAction_steps: "AppendAction env a db = (r, db') \<Longrightarrow> case_of (ct_TenantID a) (ct_CaseID a) db \<Longrightarrow> (fox_step sha uuid_str (ct_TenantID a))\<^sup>*\<^sup>* db db'"
  using AppendAction_fails [of env a db] fox_step.action [of env a db _ db' "ct_TenantID a" sha uuid_str] by (cases r) auto

lemma getCase_same: "snd (getCase parse env claim path db) = db"
  by (auto simp: getCase_def with_case_def split: sum.split option.split fox_error.split)

text \<open>A request changes nothing, or it is a sequence of steps for the tenant of its claim.\<close>

theorem fox_serve_steps:
  assumes "fox_serve h sha uuid_str parse (env, claim, req) db = (r, db')"
  shows "db' = db \<or> (\<exists>tn. claim = Some tn \<and> (fox_step sha uuid_str tn)\<^sup>*\<^sup>* db db')"
proof (cases req)
  case (PostFromDetection body)
  then show ?thesis using fromDetection_steps [of h sha uuid_str parse env claim body db] assms by simp
next
  case (PostCase body)
  then show ?thesis using createCase_steps [of sha uuid_str parse env claim body db] assms by simp
next
  case (GetCase path)
  then show ?thesis using getCase_same [of parse env claim path db] assms by simp
next
  case (PostAction path body)
  have k: "(fox_step sha uuid_str (cs_TenantID c))\<^sup>*\<^sup>* db db1"
    if "(case opt_uuid parse (ar_TakenBy q) of
                None \<Rightarrow> (FoxErr 400 ''malformed_taken_by'', db)
              | Some u \<Rightarrow>
                  (case AppendAction env \<lparr>ct_ID = uuid_nil, ct_TenantID = cs_TenantID c, ct_CaseID = cs_ID c, ct_ActionType = ar_ActionType q,
                          ct_PerformedBy = u, ct_PerformedAt = zero_time, ct_Details = DetailsMerged (ar_Metadata q) (ar_Notes q), ct_CreatedAt = zero_time\<rparr> db of
                     (Inl _, db1) \<Rightarrow> (FoxErr 500 ''append_failed'', db1)
                   | (Inr i, db1) \<Rightarrow> (ActionCreated i, db1))) = (r', db1)" "c \<in> set (fx_cases db)" for c r' db1 q
  proof -
    have "case_of (cs_TenantID c) (cs_ID c) db" using that(2) by (auto simp: case_of_def)
    then show ?thesis
      using that(1) AppendAction_steps [where sha = sha and uuid_str = uuid_str and db = db]
      by (auto split: option.splits prod.splits sum.splits) (metis CaseAction.select_convs(2,3))+
  qed
  show ?thesis using assms unfolding PostAction fox_serve.simps appendAction_def
    by (rule with_case_steps) (auto intro: k split: req_body.splits)
next
  case (PostClose path body)
  show ?thesis using assms unfolding PostClose fox_serve.simps closeCase_def
    by (rule with_case_steps)
      (auto split: req_body.splits option.splits prod.splits sum.splits fox_error.splits intro: CloseCase_steps)
qed

end
