(* ===== verification/FoxLaws.thy ===== *)
theory FoxLaws
  imports Fox
begin

text \<open>
  What holds of the case files over any run of requests: the tables are complete and only grow, the
  evidence of a case is a hash-linked log, a detection is escalated to one case at most and a closed
  case stays closed.
\<close>

section \<open>The case files\<close>

text \<open>Every evidence and action row belongs to a case of its tenant; the actions tell the history of a
  case: its opening, each evidence row with its hash, and the closing of every closed case.\<close>

definition has_action :: "fox_db \<Rightarrow> (CaseAction \<Rightarrow> bool) \<Rightarrow> bool" where
  "has_action db P \<longleftrightarrow> (\<exists>a \<in> set (fx_actions db). P a)"

definition case_file_ok :: "fox_db \<Rightarrow> CaseRow \<Rightarrow> bool" where
  "case_file_ok db c \<longleftrightarrow> (cs_Status c = ''open'' \<or> cs_Status c = ''closed'')
     \<and> has_action db (\<lambda>a. ct_CaseID a = cs_ID c \<and> ct_ActionType a = ''status_change'')
     \<and> (cs_Status c = ''closed'' \<longrightarrow> (\<exists>res. cs_ResolutionType c = Some res
          \<and> has_action db (\<lambda>a. ct_CaseID a = cs_ID c \<and> ct_ActionType a = ''resolution'' \<and> Some (ct_PerformedAt a) = cs_ResolvedAt c
               \<and> (\<exists>notes. ct_Details a = DetailsMembers [(''notes'', notes), (''resolution'', res), (''to'', ''closed'')]))))"

definition evidence_ok :: "(string \<Rightarrow> string) \<Rightarrow> (uuid \<Rightarrow> string) \<Rightarrow> fox_db \<Rightarrow> CaseEvidence \<Rightarrow> bool" where
  "evidence_ok sha uuid_str db e \<longleftrightarrow> case_of (cv_TenantID e) (cv_CaseID e) db \<and> cv_PayloadHash e = hex_encode (sha (cv_Payload e))
     \<and> has_action db (\<lambda>a. ct_CaseID a = cv_CaseID e \<and> ct_ActionType a = ''evidence_collected'' \<and> ct_PerformedAt a = cv_CollectedAt e
          \<and> ct_Details a = DetailsMembers [(''evidence_id'', uuid_str (cv_ID e)), (''evidence_type'', cv_EvidenceType e), (''payload_hash'', cv_PayloadHash e)])"

definition case_files_ok :: "(string \<Rightarrow> string) \<Rightarrow> (uuid \<Rightarrow> string) \<Rightarrow> fox_db \<Rightarrow> bool" where
  "case_files_ok sha uuid_str db \<longleftrightarrow>
     distinct (map cs_ID (fx_cases db)) \<and> distinct (map cv_ID (fx_evidence db)) \<and> distinct (map ct_ID (fx_actions db))
     \<and> list_all (case_file_ok db) (fx_cases db) \<and> list_all (evidence_ok sha uuid_str db) (fx_evidence db)
     \<and> list_all (\<lambda>a. case_of (ct_TenantID a) (ct_CaseID a) db) (fx_actions db)"

text \<open>Facts about rows that stay when actions and cases only grow or close.\<close>

lemma has_action_mono: "has_action db P \<Longrightarrow> set (fx_actions db) \<subseteq> set (fx_actions db') \<Longrightarrow> has_action db' P"
  by (auto simp: has_action_def)

definition files_grow :: "fox_db \<Rightarrow> fox_db \<Rightarrow> bool" where
  "files_grow db db' \<longleftrightarrow> set (fx_actions db) \<subseteq> set (fx_actions db') \<and> (\<forall>tn i. case_of tn i db \<longrightarrow> case_of tn i db')"

lemma evidence_ok_mono: "evidence_ok sha uuid_str db e \<Longrightarrow> files_grow db db' \<Longrightarrow> evidence_ok sha uuid_str db' e"
  unfolding evidence_ok_def files_grow_def by (meson has_action_mono)

lemma case_file_ok_mono: "case_file_ok db c \<Longrightarrow> files_grow db db' \<Longrightarrow> case_file_ok db' c"
  unfolding case_file_ok_def files_grow_def by (meson has_action_mono)

lemma OpenCase_Inr:
  assumes "OpenCase env c0 link db = (Inr i, db')"
  defines "c \<equiv> opened_case env c0"
  shows "i = cs_ID c \<and> fx_cases db' = fx_cases db @ [stored_case c] \<and> fx_actions db' = fx_actions db @ [opening_action env c]
    \<and> fx_evidence db' = fx_evidence db \<and> fx_party db' = fx_party db \<and> cs_ID c \<notin> cs_ID ` set (fx_cases db)
    \<and> fv_id env OpeningAction \<notin> ct_ID ` set (fx_actions db)
    \<and> fx_detections db' = (case link of None \<Rightarrow> fx_detections db
         | Some j \<Rightarrow> map (\<lambda>d. if dt_ID d = j \<and> dt_TenantID d = cs_TenantID c then link_detection (cs_ID c) d else d) (fx_detections db))
    \<and> (case link of None \<Rightarrow> True | Some j \<Rightarrow> list_ex (\<lambda>d. dt_ID d = j \<and> dt_TenantID d = cs_TenantID c) (fx_detections db))"
  using assms(1) unfolding OpenCase_def Let_def c_def [symmetric]
  by (auto simp: case_conflict_def action_conflict_def list_ex_iff split: if_splits option.splits)

lemma AppendEvidence_Inr:
  assumes "AppendEvidence sha uuid_str env k e0 db = (Inr u, db')"
  defines "e \<equiv> appended_evidence sha env k e0 db"
  shows "db' = db\<lparr>fx_evidence := fx_evidence db @ [e], fx_actions := fx_actions db @ [evidence_action uuid_str env k e]\<rparr>
    \<and> cv_ID e \<notin> cv_ID ` set (fx_evidence db) \<and> fv_id env (EvidenceActionID k) \<notin> ct_ID ` set (fx_actions db)"
  using assms(1) unfolding AppendEvidence_def Let_def e_def [symmetric]
  by (auto simp: action_conflict_def list_ex_iff evidence_action_def split: if_splits)

lemma AppendAction_Inr:
  assumes "AppendAction env a0 db = (Inr i, db')"
  obtains a where "db' = db\<lparr>fx_actions := fx_actions db @ [a]\<rparr>" "ct_ID a \<notin> ct_ID ` set (fx_actions db)" "ct_TenantID a = ct_TenantID a0"
    "ct_CaseID a = ct_CaseID a0"
proof -
  define a where "a = a0\<lparr>ct_ID := (if ct_ID a0 = uuid_nil then fv_id env NewAction else ct_ID a0),
      ct_PerformedAt := trunc_us (if ct_PerformedAt a0 = zero_time then fv_now env 0 else ct_PerformedAt a0), ct_CreatedAt := trunc_us (fv_now env 0),
      ct_Details := (if ct_Details a0 = DetailsText [] then DetailsText ''{}'' else ct_Details a0)\<rparr>"
  have "\<not> action_conflict (ct_ID a) (ct_CaseID a) db \<and> db' = db\<lparr>fx_actions := fx_actions db @ [a]\<rparr>"
    using assms unfolding AppendAction_def Let_def a_def [symmetric] by (auto split: if_splits)
  moreover have "ct_TenantID a = ct_TenantID a0" "ct_CaseID a = ct_CaseID a0" by (simp_all add: a_def)
  ultimately show ?thesis by (intro that [of a]) (fastforce simp: action_conflict_def list_ex_iff)+
qed

lemma CloseCase_Inr:
  assumes "CloseCase env tn i res by notes db = (Inr u, db')"
  shows "db' = db\<lparr>fx_cases := map (\<lambda>c. if cs_ID c = i \<and> cs_TenantID c = tn then closed_case (fv_now env 0) res c else c) (fx_cases db),
       fx_actions := fx_actions db @ [closing_action env tn i res by notes]\<rparr>
    \<and> case_of tn i db \<and> fv_id env ClosingAction \<notin> ct_ID ` set (fx_actions db)"
  using assms by (auto simp: CloseCase_def Let_def action_conflict_def list_ex_iff case_of_def closing_action_def split: if_splits)


text \<open>Every step lets the files grow.\<close>

lemma closed_case_fields [simp]:
  "cs_ID (closed_case t res c) = cs_ID c" "cs_TenantID (closed_case t res c) = cs_TenantID c" "cs_Status (closed_case t res c) = ''closed''"
  "cs_ResolutionType (closed_case t res c) = Some res" "cs_ResolvedAt (closed_case t res c) = Some (trunc_us t)"
  by (simp_all add: closed_case_def)

lemma stored_case_fields [simp]:
  "cs_ID (stored_case c) = cs_ID c" "cs_TenantID (stored_case c) = cs_TenantID c" "cs_Status (stored_case c) = cs_Status c"
  by (simp_all add: stored_case_def)

lemma opened_case_fields [simp]:
  "cs_TenantID (opened_case env c) = cs_TenantID c" "cs_Status c = ''open'' \<Longrightarrow> cs_Status (opened_case env c) = ''open''"
  by (simp_all add: opened_case_def Let_def)

lemma appended_evidence_fields [simp]:
  "cv_TenantID (appended_evidence sha env k e db) = cv_TenantID e" "cv_CaseID (appended_evidence sha env k e db) = cv_CaseID e"
  "cv_PayloadHash (appended_evidence sha env k e db) = hex_encode (sha (cv_Payload (appended_evidence sha env k e db)))"
  by (simp_all add: appended_evidence_def Let_def)

lemma case_of_image: "case_of tn i db \<longleftrightarrow> (i, tn) \<in> (\<lambda>c. (cs_ID c, cs_TenantID c)) ` set (fx_cases db)"
  by (auto simp: case_of_def)

lemma case_of_map:
  assumes "fx_cases db' = map (\<lambda>c. if P c then closed_case t res c else c) (fx_cases db)"
  shows "case_of tn i db' = case_of tn i db"
proof -
  have "map (\<lambda>c. (cs_ID c, cs_TenantID c)) (fx_cases db') = map (\<lambda>c. (cs_ID c, cs_TenantID c)) (fx_cases db)"
    using assms by simp
  then have "(\<lambda>c. (cs_ID c, cs_TenantID c)) ` set (fx_cases db') = (\<lambda>c. (cs_ID c, cs_TenantID c)) ` set (fx_cases db)"
    by (simp only: set_map [symmetric])
  then show ?thesis by (simp only: case_of_image)
qed

lemma fox_step_grow: "fox_step sha uuid_str tn db db' \<Longrightarrow> files_grow db db'"
proof (induction rule: fox_step.induct)
  case (open_case env c db link i db')
  then show ?case using OpenCase_Inr by (fastforce simp: files_grow_def case_of_def)
next
  case (evidence env k e db db')
  then show ?case using AppendEvidence_Inr by (fastforce simp: files_grow_def case_of_def)
next
  case (action env a db i db')
  then obtain a' where "db' = db\<lparr>fx_actions := fx_actions db @ [a']\<rparr>" using AppendAction_Inr by metis
  then show ?case by (auto simp: files_grow_def case_of_def)
next
  case (close_case env i res "by" "notes" db db')
  then show ?case using CloseCase_Inr [OF close_case(1)] by (auto simp: files_grow_def case_of_map)
qed (simp add: files_grow_def case_of_def)

text \<open>Every step keeps the files in order.\<close>

lemma fox_step_ok:
  assumes "fox_step sha uuid_str tn db db'" "case_files_ok sha uuid_str db"
  shows "case_files_ok sha uuid_str db'"
proof -
  note grow = fox_step_grow [OF assms(1)]
  have old: "\<forall>c \<in> set (fx_cases db). case_file_ok db' c" "\<forall>e \<in> set (fx_evidence db). evidence_ok sha uuid_str db' e"
    "\<forall>a \<in> set (fx_actions db). case_of (ct_TenantID a) (ct_CaseID a) db'"
    using assms(2) case_file_ok_mono [OF _ grow] evidence_ok_mono [OF _ grow] grow
    by (auto simp: case_files_ok_def list_all_iff files_grow_def)
  have d: "distinct (map cs_ID (fx_cases db))" "distinct (map cv_ID (fx_evidence db))" "distinct (map ct_ID (fx_actions db))"
    using assms(2) by (simp_all add: case_files_ok_def)
  show ?thesis using assms(1)
  proof cases
    case (subjects p)
    then show ?thesis using old d by (simp add: case_files_ok_def list_all_iff)
  next
    case (open_case env c link i)
    note r = OpenCase_Inr [OF open_case(1)]
    have "case_file_ok db' (stored_case (opened_case env c))"
      using r open_case(3) by (auto simp: case_file_ok_def has_action_def opening_action_def)
    moreover have "case_of (ct_TenantID (opening_action env (opened_case env c))) (ct_CaseID (opening_action env (opened_case env c))) db'"
      using r by (auto simp: case_of_def opening_action_def)
    moreover have "ct_ID (opening_action env (opened_case env c)) \<notin> ct_ID ` set (fx_actions db)" using r by (simp add: opening_action_def)
    ultimately show ?thesis using r old d by (simp add: case_files_ok_def list_all_iff)
  next
    case (evidence env k e)
    let ?e = "appended_evidence sha env k e db"
    note r = AppendEvidence_Inr [OF evidence(1)]
    have "case_of tn (cv_CaseID e) db'" using evidence(4) grow by (simp add: files_grow_def)
    then have "evidence_ok sha uuid_str db' ?e" "case_of (ct_TenantID (evidence_action uuid_str env k ?e)) (ct_CaseID (evidence_action uuid_str env k ?e)) db'"
      using r evidence(2) by (auto simp: evidence_ok_def has_action_def evidence_action_def)
    moreover have "ct_ID (evidence_action uuid_str env k ?e) \<notin> ct_ID ` set (fx_actions db)" using r by (simp add: evidence_action_def)
    ultimately show ?thesis using r old d by (simp add: case_files_ok_def list_all_iff)
  next
    case (action env a i)
    obtain a' where a': "db' = db\<lparr>fx_actions := fx_actions db @ [a']\<rparr>" "ct_ID a' \<notin> ct_ID ` set (fx_actions db)"
      "ct_TenantID a' = ct_TenantID a" "ct_CaseID a' = ct_CaseID a" using AppendAction_Inr [OF action(1)] .
    have "case_of tn (ct_CaseID a) db'" using action(3) grow by (simp add: files_grow_def)
    then show ?thesis using a' action(2) old d by (simp add: case_files_ok_def list_all_iff)
  next
    case (close_case env i res "by" "notes")
    note r = CloseCase_Inr [OF close_case]
    have ids: "map cs_ID (fx_cases db') = map cs_ID (fx_cases db)" using r by simp
    have "case_file_ok db' c" if "c \<in> set (fx_cases db')" for c
    proof (cases "c \<in> set (fx_cases db)")
      case False
      have "\<exists>c0 \<in> set (fx_cases db). c = (if cs_ID c0 = i \<and> cs_TenantID c0 = tn then closed_case (fv_now env 0) res c0 else c0)"
        using that r by auto
      then obtain c0 where c0: "c0 \<in> set (fx_cases db)" "c = closed_case (fv_now env 0) res c0" "cs_ID c0 = i"
        using False by (metis (full_types))
      have act: "closing_action env tn i res by notes \<in> set (fx_actions db')" using r by simp
      have "has_action db' (\<lambda>a. ct_CaseID a = i \<and> ct_ActionType a = ''status_change'')"
        using old(1) c0 by (auto simp: case_file_ok_def)
      then show ?thesis using c0 act by (auto simp: case_file_ok_def has_action_def closing_action_def intro!: bexI [OF _ act])
    qed (use old in blast)
    moreover have "case_of tn i db'" using r grow by (simp add: files_grow_def)
    then have "\<forall>a \<in> set (fx_actions db'). case_of (ct_TenantID a) (ct_CaseID a) db'"
      using r old(3) by (auto simp: closing_action_def)
    moreover have "distinct (map ct_ID (fx_actions db'))" "fx_evidence db' = fx_evidence db"
      using r d(3) by (simp_all add: closing_action_def)
    ultimately show ?thesis using old(2) d(1,2) ids by (simp add: case_files_ok_def list_all_iff)
  qed
qed



section \<open>Runs of requests\<close>

definition fox_run ::
  "fox_handler \<Rightarrow> (string \<Rightarrow> string) \<Rightarrow> (uuid \<Rightarrow> string) \<Rightarrow> (string \<Rightarrow> uuid option) \<Rightarrow> (fox_env \<times> uuid option \<times> fox_request) list \<Rightarrow> fox_db \<Rightarrow> fox_db"
  where "fox_run h sha uuid_str parse es db = fold (\<lambda>e db. snd (fox_serve h sha uuid_str parse e db)) es db"

lemma fox_run_simps [simp]:
  "fox_run h sha uuid_str parse [] db = db"
  "fox_run h sha uuid_str parse (e # es) db = fox_run h sha uuid_str parse es (snd (fox_serve h sha uuid_str parse e db))"
  by (simp_all add: fox_run_def)

text \<open>What every step keeps, every run keeps.\<close>

lemma fox_serve_keeps:
  assumes step: "\<And>tn db db'. fox_step sha uuid_str tn db db' \<Longrightarrow> I db \<Longrightarrow> I db'" and "I db"
  shows "I (snd (fox_serve h sha uuid_str parse e db))"
proof -
  obtain env claim req where e: "e = (env, claim, req)" using prod_cases3 by blast
  have "I db'" if "(fox_step sha uuid_str tn)\<^sup>*\<^sup>* db db'" for tn db'
    using that assms(2) by induction (auto intro: step)
  then show ?thesis
    using fox_serve_steps [of h sha uuid_str parse env claim req db "fst (fox_serve h sha uuid_str parse e db)" "snd (fox_serve h sha uuid_str parse e db)"] assms(2)
    unfolding e by auto
qed

lemma fox_run_keeps:
  assumes step: "\<And>tn db db'. fox_step sha uuid_str tn db db' \<Longrightarrow> I db \<Longrightarrow> I db'" and "I db"
  shows "I (fox_run h sha uuid_str parse es db)"
  using assms(2)
proof (induction es arbitrary: db)
  case (Cons e es)
  then show ?case using fox_serve_keeps [where I = I, OF step Cons.prems] by simp
qed simp

text \<open>C10: The case files are in order over any run: every evidence and action row belongs to a case of its
  tenant, every evidence row has the hash of its payload and an action that records it, every case an
  action for its opening, and every closed one its resolution and an action that records it.\<close>

theorem case_files_complete:
  assumes "fx_cases db = []" "fx_evidence db = []" "fx_actions db = []"
  shows "case_files_ok sha uuid_str (fox_run h sha uuid_str parse es db)"
proof (rule fox_run_keeps)
  show "case_files_ok sha uuid_str db" using assms by (simp add: case_files_ok_def)
qed (rule fox_step_ok)


section \<open>The evidence of a case\<close>

definition rises :: "CaseEvidence list \<Rightarrow> bool" where
  "rises rs \<longleftrightarrow> sorted_wrt (\<lambda>a b. cv_CollectedAt a < cv_CollectedAt b) rs"

definition case_appends :: "CaseEvidence list \<Rightarrow> CaseEvidence \<Rightarrow> bool" where
  "case_appends rs r \<longleftrightarrow> rises (rs @ [r]) \<and> cv_PrevEvidenceHash r = map_option cv_PayloadHash (first_row (sort_desc cv_CollectedAt rs))"

interpretation case_log: linked_log cv_PrevEvidenceHash "\<lambda>e. Some (cv_PayloadHash e)" None case_appends
proof
  fix rs r
  assume "case_appends rs r"
  then show "cv_PrevEvidenceHash r = chain_tip (\<lambda>e. Some (cv_PayloadHash e)) None rs"
    using first_row_sort_desc_last [of cv_CollectedAt rs] by (cases "rs = []") (auto simp: case_appends_def rises_def sorted_wrt_append chain_tip_def)
qed

definition case_logs_built :: "fox_db \<Rightarrow> bool" where
  "case_logs_built db \<longleftrightarrow> (\<forall>i. rises (evidence_of i db) \<longrightarrow> case_log.built (evidence_of i db))"

lemma fox_step_logs:
  assumes "fox_step sha uuid_str tn db db'" "case_logs_built db" shows "case_logs_built db'"
proof -
  have same: "case_logs_built db'" if "fx_evidence db' = fx_evidence db"
    using assms(2) that by (simp add: case_logs_built_def evidence_of_def)
  show ?thesis using assms(1)
  proof cases
    case (evidence env k e)
    let ?e = "appended_evidence sha env k e db"
    have ev: "evidence_of i db' = evidence_of i db @ (if cv_CaseID e = i then [?e] else [])" for i
      using AppendEvidence_Inr [OF evidence(1)] by (simp add: evidence_of_def)
    have prev: "cv_PrevEvidenceHash ?e = map_option cv_PayloadHash (first_row (sort_desc cv_CollectedAt (evidence_of (cv_CaseID e) db)))"
      by (simp add: appended_evidence_def Let_def)
    have "case_log.built (evidence_of i db')" if r: "rises (evidence_of i db')" for i
    proof -
      have "rises (evidence_of i db)" using r unfolding ev by (simp add: rises_def sorted_wrt_append split: if_splits)
      then have b: "case_log.built (evidence_of i db)" using assms(2) by (simp add: case_logs_built_def)
      show ?thesis using b r prev unfolding ev by (auto simp: case_appends_def intro: case_log.built.append)
    qed
    then show ?thesis by (simp add: case_logs_built_def)
  next
    case (open_case env c link i)
    then show ?thesis using OpenCase_Inr same by blast
  next
    case (action env a i)
    show ?thesis using AppendAction_Inr [OF action(1)] same by (metis fox_db.select_convs fox_db.surjective fox_db.update_convs(3))
  next
    case (close_case env i res "by" "notes")
    show ?thesis using CloseCase_Inr [OF close_case] same by simp
  qed (use same in simp)
qed


text \<open>C11: The evidence a case is shown with is a hash-linked log: collected at rising times, its rows come back
  in the order they were appended, the first without a predecessor, each further one with the payload
  hash of the row before it; without a repeated payload no two rows name the same predecessor.\<close>

theorem case_evidence_linked:
  assumes "fx_evidence db = []"
    and "getCase parse env claim path (fox_run h sha uuid_str parse es db) = (CaseDetail c evs acts, db')"
    and "rises (evidence_of (cs_ID c) (fox_run h sha uuid_str parse es db))"
  shows "evs = evidence_of (cs_ID c) (fox_run h sha uuid_str parse es db)
    \<and> linked cv_PrevEvidenceHash (\<lambda>e. Some (cv_PayloadHash e)) None evs
    \<and> (\<not> distinct (map cv_PayloadHash evs) \<or> distinct (map cv_PrevEvidenceHash evs))"
proof -
  let ?db = "fox_run h sha uuid_str parse es db" and ?rs = "evidence_of (cs_ID c) (fox_run h sha uuid_str parse es db)"
  have "case_logs_built db" using assms(1) case_log.built.empty by (simp add: case_logs_built_def evidence_of_def)
  then have "case_logs_built ?db" by (rule fox_run_keeps [rotated]) (rule fox_step_logs)
  then have b: "case_log.built ?rs" using assms(3) by (simp add: case_logs_built_def)
  have "sorted (map cv_CollectedAt ?rs)"
    using assms(3) unfolding rises_def by (simp add: sorted_wrt_map) (rule sorted_wrt_mono_rel, auto)
  then have "sort_key cv_CollectedAt ?rs = ?rs" by (rule sort_key_id_if_sorted)
  moreover have "evs = sort_key cv_CollectedAt ?rs"
    using assms(2) by (auto simp: getCase_def with_case_def fox_tenant_def ListEvidence_def split: sum.splits option.splits fox_error.splits if_splits)
  ultimately have evs: "evs = ?rs" by simp
  have "distinct (map cv_PrevEvidenceHash evs)" if "distinct (map cv_PayloadHash evs)"
  proof -
    have "distinct (map (\<lambda>e. Some (cv_PayloadHash e)) ?rs)" using that evs by (simp add: distinct_map inj_on_def)
    then show ?thesis using case_log.built_no_fork [OF b] evs by auto
  qed
  then show ?thesis using evs case_log.built_linked [OF b] by blast
qed


section \<open>Detections and statuses\<close>


text \<open>The case a tenant's detection is linked to, and the tenant and status of a case.\<close>

definition detection_case :: "fox_db \<Rightarrow> uuid \<times> uuid \<Rightarrow> uuid option option" where
  "detection_case db k = map_option dt_CaseID (List.find (\<lambda>d. dt_ID d = snd k \<and> dt_TenantID d = fst k) (fx_detections db))"

definition case_status :: "fox_db \<Rightarrow> uuid \<Rightarrow> (uuid \<times> string) option" where
  "case_status db i = map_option (\<lambda>c. (cs_TenantID c, cs_Status c)) (List.find (\<lambda>c. cs_ID c = i) (fx_cases db))"

fun links :: "uuid option \<Rightarrow> uuid option \<Rightarrow> bool" where
  "links None (Some c) = True"
| "links _ _ = False"

fun closes :: "uuid \<times> string \<Rightarrow> uuid \<times> string \<Rightarrow> bool" where
  "closes (tn, s) (tn', s') \<longleftrightarrow> tn' = tn \<and> s \<noteq> ''closed'' \<and> s' = ''closed''"

lemma links_None [simp]: "links (Some x) y = False" "links None y \<longleftrightarrow> y \<noteq> None"
  by (cases y; simp)+

lemma link_detection_fields [simp]:
  "dt_ID (link_detection c d) = dt_ID d" "dt_TenantID (link_detection c d) = dt_TenantID d" "dt_CaseID (link_detection c d) = Some c"
  by (simp_all add: link_detection_def)

lemma fox_step_detection:
  assumes "fox_step sha uuid_str tn db db'" "detection_case db k = Some x"
  shows "\<exists>y. detection_case db' k = Some y \<and> (y = x \<or> links x y)"
proof -
  have same: ?thesis if "fx_detections db' = fx_detections db" using assms(2) that by (auto simp: detection_case_def)
  show ?thesis using assms(1)
  proof cases
    case (open_case env c link i)
    note r = OpenCase_Inr [OF open_case(1)]
    obtain d where d: "List.find (\<lambda>d. dt_ID d = snd k \<and> dt_TenantID d = fst k) (fx_detections db) = Some d" "x = dt_CaseID d"
      using assms(2) by (auto simp: detection_case_def)
    have dk: "dt_ID d = snd k" "dt_TenantID d = fst k" using d(1) by (auto simp: find_Some_iff)
    show ?thesis
    proof (cases link)
      case (Some j)
      have "List.find (\<lambda>d. dt_ID d = snd k \<and> dt_TenantID d = fst k) (fx_detections db')
          = Some (if dt_ID d = j \<and> dt_TenantID d = tn then link_detection (cs_ID (opened_case env c)) d else d)"
        using r Some d(1) open_case(2) by (simp add: find_map_same)
      moreover have "dt_CaseID d = None" if "dt_ID d = j \<and> dt_TenantID d = tn"
        using open_case(4) [OF Some] d(1) dk that by auto
      ultimately show ?thesis using d(2) by (auto simp: detection_case_def)
    qed (use r same in simp)
  next
    case (action env a i)
    then show ?thesis using AppendAction_Inr [OF action(1)] same by (metis fox_db.select_convs(4) fox_db.surjective fox_db.update_convs(3))
  next
    case (evidence env k e)
    then show ?thesis using AppendEvidence_Inr [OF evidence(1)] same by simp
  next
    case (close_case env i res "by" "notes")
    then show ?thesis using CloseCase_Inr [OF close_case] same by simp
  qed (use same in simp)
qed

lemma fox_step_case:
  assumes "fox_step sha uuid_str tn db db'" "case_status db k = Some x"
  shows "\<exists>y. case_status db' k = Some y \<and> (y = x \<or> closes x y)"
proof -
  obtain c0 where c0: "List.find (\<lambda>c. cs_ID c = k) (fx_cases db) = Some c0" "x = (cs_TenantID c0, cs_Status c0)"
    using assms(2) by (auto simp: case_status_def)
  have same: ?thesis if "fx_cases db' = fx_cases db @ cs" for cs
    using c0 that by (simp add: case_status_def find_append_first)
  show ?thesis using assms(1)
  proof cases
    case (open_case env c link i)
    then show ?thesis using OpenCase_Inr same by blast
  next
    case (action env a i)
    obtain a' where "db' = db\<lparr>fx_actions := fx_actions db @ [a']\<rparr>" using AppendAction_Inr [OF action(1)] .
    then show ?thesis using same [of "[]"] by simp
  next
    case (evidence env j e)
    then show ?thesis using AppendEvidence_Inr [OF evidence(1)] same [of "[]"] by simp
  next
    case (close_case env i res "by" "notes")
    have "fx_cases db' = map (\<lambda>c. if cs_ID c = i \<and> cs_TenantID c = tn then closed_case (fv_now env 0) res c else c) (fx_cases db)"
      using CloseCase_Inr [OF close_case] by simp
    then have "List.find (\<lambda>c. cs_ID c = k) (fx_cases db') = Some (if cs_ID c0 = i \<and> cs_TenantID c0 = tn then closed_case (fv_now env 0) res c0 else c0)"
      using c0(1) by (simp add: find_map_same)
    then show ?thesis using c0(2) by (auto simp: case_status_def)
  qed (use same [of "[]"] in simp)
qed

interpretation escalation: lifecycle "\<lambda>e db. snd (fox_serve h sha uuid_str parse e db)" detection_case links "\<lambda>db. True" for h sha uuid_str parse
proof
  fix db :: fox_db and k x e
  assume "detection_case db k = Some x"
  then show "\<exists>y. detection_case (snd (fox_serve h sha uuid_str parse e db)) k = Some y \<and> (y = x \<or> links x y)"
  proof (intro fox_serve_keeps [where I = "\<lambda>db. \<exists>y. detection_case db k = Some y \<and> (y = x \<or> links x y)"])
    fix tn db1 db2
    assume st: "fox_step sha uuid_str tn db1 db2" and "\<exists>y. detection_case db1 k = Some y \<and> (y = x \<or> links x y)"
    then obtain y where y: "detection_case db1 k = Some y" "y = x \<or> links x y" by metis
    obtain z where z: "detection_case db2 k = Some z" "z = y \<or> links y z" using fox_step_detection [OF st y(1)] by metis
    have "z = x \<or> links x z" using y(2) z(2) by (cases x; cases y) auto
    then show "\<exists>y. detection_case db2 k = Some y \<and> (y = x \<or> links x y)" using z(1) by metis
  qed auto
qed simp

interpretation closing: lifecycle "\<lambda>e db. snd (fox_serve h sha uuid_str parse e db)" case_status closes "\<lambda>db. True" for h sha uuid_str parse
proof
  fix db :: fox_db and k x e
  assume "case_status db k = Some x"
  then show "\<exists>y. case_status (snd (fox_serve h sha uuid_str parse e db)) k = Some y \<and> (y = x \<or> closes x y)"
  proof (intro fox_serve_keeps [where I = "\<lambda>db. \<exists>y. case_status db k = Some y \<and> (y = x \<or> closes x y)"])
    fix tn db1 db2
    assume st: "fox_step sha uuid_str tn db1 db2" and "\<exists>y. case_status db1 k = Some y \<and> (y = x \<or> closes x y)"
    then obtain y where y: "case_status db1 k = Some y" "y = x \<or> closes x y" by metis
    obtain z where z: "case_status db2 k = Some z" "z = y \<or> closes y z" using fox_step_case [OF st y(1)] by metis
    have "z = x \<or> closes x z" using y(2) z(2) by (cases x; cases y; cases z) auto
    then show "\<exists>y. case_status db2 k = Some y \<and> (y = x \<or> closes x y)" using z(1) by metis
  qed auto
qed simp


lemma fox_run_life:
  "escalation.life_run h sha uuid_str parse es db = fox_run h sha uuid_str parse es db"
  "closing.life_run h sha uuid_str parse es db = fox_run h sha uuid_str parse es db"
  by (induction es arbitrary: db) simp_all

lemma fromDetection_opened:
  assumes "fromDetection h sha uuid_str parse env claim body db = (FromDetectionOK (Some c) True b why, db1)"
  obtains tn v detID det subject pdb n t db2 where "fox_tenant claim = Inr tn" "body = BodyJson v" "parse v = Some detID"
    "LoadDetectionScoped env 0 tn detID db = Inr det"
    "OpenCase env (new_case (dt_TenantID det) n t None (dt_Severity det) subject (dt_LocationID det) None) (Some detID) (db\<lparr>fx_party := pdb\<rparr>) = (Inr c, db2)"
    "db1 = snd (AppendEvidence sha uuid_str env 0 (snapshot (dt_TenantID det) c detID (dt_Evidence det)) db2)"
  using assms by (auto simp: fromDetection_def fox_tenant_def split: sum.splits req_body.splits option.splits fox_error.splits if_splits prod.splits)

lemma opened_detection_case:
  assumes "fromDetection h sha uuid_str parse env (Some tn) (BodyJson v) db = (FromDetectionOK (Some c) True b why, db1)" "parse v = Some i"
  shows "detection_case db1 (tn, i) = Some (Some c) \<and> tn \<noteq> uuid_nil"
proof -
  from assms(1) show ?thesis
  proof (rule fromDetection_opened)
    fix tn' v' detID det subject pdb n t db2
    assume tn: "fox_tenant (Some tn) = Inr tn'" and v: "BodyJson v = BodyJson v'" "parse v' = Some detID"
      and l: "LoadDetectionScoped env 0 tn' detID db = Inr det"
      and o: "OpenCase env (new_case (dt_TenantID det) n t None (dt_Severity det) subject (dt_LocationID det) None) (Some detID) (db\<lparr>fx_party := pdb\<rparr>) = (Inr c, db2)"
      and db1: "db1 = snd (AppendEvidence sha uuid_str env 0 (snapshot (dt_TenantID det) c detID (dt_Evidence det)) db2)"
    have t: "tn' = tn" "tn \<noteq> uuid_nil" "detID = i" using tn v assms(2) by (auto simp: fox_tenant_def split: if_splits)
    note found = LoadDetectionScoped_found [OF l [unfolded t]]
    note r = OpenCase_Inr [OF o]
    have "detection_case db2 (tn, i) = Some (Some c)"
      using r found t by (simp add: detection_case_def find_map_same split: if_splits) (auto simp: find_Some_iff)
    moreover have "fx_detections db1 = fx_detections db2" by (simp add: db1 AppendEvidence_def Let_def)
    ultimately show ?thesis using t(2) by (simp add: detection_case_def)
  qed
qed


text \<open>A case keeps its tenant and its status moves from open to closed only; closed it stays, whatever is
  served, for every tenant.\<close>

theorem closed_case_stays:
  assumes "case_status db i = Some (tn, s)"
  shows "(case_status (fox_run h sha uuid_str parse es db) i = Some (tn, s) \<or> case_status (fox_run h sha uuid_str parse es db) i = Some (tn, ''closed''))"
proof -
  have fin: "y = x \<or> closes x y" if "closes\<^sup>*\<^sup>* x y" for x y
    using that
  proof induction
    case (step y z)
    then show ?case by (cases x; cases y; cases z) auto
  qed simp
  obtain y where y: "case_status (fox_run h sha uuid_str parse es db) i = Some y" "closes\<^sup>*\<^sup>* (tn, s) y"
    using closing.run_legal [of db i "(tn, s)" h sha uuid_str parse es] assms by (auto simp: fox_run_life)
  then show ?thesis using fin [OF y(2)] by (cases y) auto
qed

text \<open>Closing does not look at the status: a closed case can be closed again, with another resolution.\<close>

lemma closing_again_overwrites:
  assumes "case_of tn i db" "\<not> fv_fails env CloseBegin" "\<not> fv_fails env CloseUpdate" "\<not> fv_fails env CloseAction" "\<not> fv_fails env CloseCommit"
    and "\<not> list_ex (\<lambda>a. ct_ID a = fv_id env ClosingAction) (fx_actions db)"
  shows "fst (CloseCase env tn i res by notes db) = Inr ()
    \<and> (\<forall>c \<in> set (fx_cases (snd (CloseCase env tn i res by notes db))). cs_ID c = i \<and> cs_TenantID c = tn \<longrightarrow> cs_ResolutionType c = Some res)"
proof -
  have "list_ex (\<lambda>c. cs_ID c = i \<and> cs_TenantID c = tn) (fx_cases db)" using assms(1) by (auto simp: case_of_def list_ex_iff)
  moreover have "\<not> action_conflict (ct_ID (closing_action env tn i res by notes)) i db"
    using assms(1,6) by (auto simp: action_conflict_def closing_action_def case_of_def list_ex_iff)
  ultimately have "CloseCase env tn i res by notes db = (Inr (), db\<lparr>fx_cases := map (\<lambda>c. if cs_ID c = i \<and> cs_TenantID c = tn then closed_case (fv_now env 0) res c else c) (fx_cases db),
      fx_actions := fx_actions db @ [closing_action env tn i res by notes]\<rparr>)"
    using assms(2-5) by (simp add: CloseCase_def Let_def)
  then show ?thesis by (simp add: ball_Un) blast
qed


section \<open>A sample run\<close>

definition toy_party :: party_env where
  "toy_party = \<lparr>pv_now = 0, pv_fails = (\<lambda>c. False), pv_party = 50, pv_subject = 51\<rparr>"

definition toy_ids :: "uuid \<Rightarrow> fox_id \<Rightarrow> uuid" where
  "toy_ids n k = (case k of NewCase \<Rightarrow> n | OpeningAction \<Rightarrow> n + 1 | NewEvidence j \<Rightarrow> n + 2 | EvidenceActionID j \<Rightarrow> n + 3 | NewAction \<Rightarrow> n + 4 | ClosingAction \<Rightarrow> n + 5)"

definition toy_fox :: "uuid \<Rightarrow> gotime \<Rightarrow> fox_env" where
  "toy_fox n t = \<lparr>fv_now = (\<lambda>k. t), fv_fails = (\<lambda>c. False), fv_id = toy_ids n, fv_random = ''abcdefgh'', fv_party = toy_party\<rparr>"

definition toy_detection :: Detection where
  "toy_detection = \<lparr>dt_ID = 7, dt_TenantID = 1, dt_RuleID = 2, dt_DetectedAt = 0, dt_SourceEntityType = ''t'', dt_SourceEntityID = 3,
     dt_LocationID = None, dt_CashierEmployeeID = None, dt_CustomerID = None, dt_Severity = ''high'', dt_SignalStrength = None,
     dt_Evidence = ''e'', dt_CaseID = None, dt_Status = ''open'', dt_AcknowledgedAt = None, dt_AcknowledgedBy = None, dt_Attributes = RawText [], dt_CreatedAt = 0\<rparr>"

definition toy_files :: fox_db where
  "toy_files = \<lparr>fx_cases = [], fx_evidence = [], fx_actions = [], fx_detections = [toy_detection],
     fx_party = \<lparr>pd_parties = [], pd_identifiers = [], pd_events = [], pd_subjects = []\<rparr>\<rparr>"

definition toy_uuids :: "string \<Rightarrow> uuid option" where
  "toy_uuids s = (if s = ''d'' then Some 7 else if s = ''c'' then Some 100 else None)"

abbreviation toy_handler :: fox_handler where
  "toy_handler \<equiv> New_handler DefaultEscalationConfig"

abbreviation toy_escalation :: "fox_env \<times> uuid option \<times> fox_request" where
  "toy_escalation \<equiv> (toy_fox 100 5000, Some 1, PostFromDetection (BodyJson ''d''))"

abbreviation toy_closing :: "fox_env \<times> uuid option \<times> fox_request" where
  "toy_closing \<equiv> (toy_fox 200 9000, Some 1, PostClose ''c'' (BodyJson \<lparr>lr_Resolution = ''fraud'', lr_ClosedBy = [], lr_Notes = ''n''\<rparr>))"

lemmas toy_fox_defs = fromDetection_def fox_tenant_def LoadDetectionScoped_def EvaluateForEscalation_def detectionSubject_def by_severity_def
  AtLeast_def severity_rank_def subjectFromDetection_def legacy_subject_def OpenCase_def Let_def case_conflict_def action_conflict_def opened_case_def
  new_case_def opening_action_def stored_case_def toy_fox_def toy_ids_def toy_detection_def toy_files_def toy_uuids_def toy_party_def New_handler_def DefaultEscalationConfig_def

lemma toy_opened:
  "fst (fox_serve toy_handler id (\<lambda>u. ''u'') toy_uuids toy_escalation toy_files)
    = FromDetectionOK (Some 100) True False (''severity high '' @ [CHR 0xE2, CHR 0x89, CHR 0xA5] @ '' threshold medium'')"
  by (simp add: toy_fox_defs)

lemma toy_case: "case_status (fox_run toy_handler id (\<lambda>u. ''u'') toy_uuids [toy_escalation] toy_files) 100 = Some (1, ''open'')"
  by (simp add: toy_fox_defs case_status_def)

lemma toy_evidence:
  "map cv_CollectedAt (evidence_of 100 (fox_run toy_handler id (\<lambda>u. ''u'') toy_uuids [toy_escalation] toy_files)) = [5000]"
  by (simp add: toy_fox_defs evidence_of_def AppendEvidence_def snapshot_def appended_evidence_def evidence_action_def trunc_us_def zero_time_def link_detection_def)

theorem case_files_complete_witness:
  "case_files_ok id (\<lambda>u. ''u'') (fox_run toy_handler id (\<lambda>u. ''u'') toy_uuids [toy_escalation, toy_closing] toy_files)"
  by (rule case_files_complete) (simp_all add: toy_files_def)


theorem closed_case_stays_witness:
  "\<exists>s. case_status (fox_run toy_handler id (\<lambda>u. ''u'') toy_uuids [toy_closing] (fox_run toy_handler id (\<lambda>u. ''u'') toy_uuids [toy_escalation] toy_files)) 100 = Some (1, s)"
  using closed_case_stays [OF toy_case, of toy_handler id "\<lambda>u. ''u''" toy_uuids "[toy_closing]"] by blast

theorem case_evidence_linked_witness:
  "\<exists>c evs acts. getCase toy_uuids (toy_fox 300 0) (Some 1) ''c'' (fox_run toy_handler id (\<lambda>u. ''u'') toy_uuids [toy_escalation] toy_files)
     = (CaseDetail c evs acts, fox_run toy_handler id (\<lambda>u. ''u'') toy_uuids [toy_escalation] toy_files)
    \<and> length evs = 1 \<and> linked cv_PrevEvidenceHash (\<lambda>e. Some (cv_PayloadHash e)) None evs"
proof -
  define db where "db = fox_run toy_handler id (\<lambda>u. ''u'') toy_uuids [toy_escalation] toy_files"
  note ev = toy_evidence [folded db_def] and linked = case_evidence_linked [where es = "[toy_escalation]" and db = toy_files and h = toy_handler and sha = id
      and uuid_str = "\<lambda>u. ''u''" and parse = toy_uuids, folded db_def]
  obtain c where c: "List.find (\<lambda>c. cs_ID c = 100) (fx_cases db) = Some c" "cs_TenantID c = 1"
    using toy_case [folded db_def] by (auto simp: case_status_def)
  have "List.find (\<lambda>c. cs_ID c = 100 \<and> cs_TenantID c = 1) (fx_cases db) = Some c" "cs_ID c = 100"
    using c by (fastforce simp: find_Some_iff)+
  then obtain evs acts where g: "getCase toy_uuids (toy_fox 300 0) (Some 1) ''c'' db = (CaseDetail c evs acts, db)" "cs_ID c = 100"
    by (simp add: getCase_def with_case_def fox_tenant_def toy_uuids_def LoadCaseScoped_def toy_fox_def ListEvidence_def ListActions_def)
  have one: "length (evidence_of 100 db) = 1" using arg_cong [OF ev, of length] by simp
  then have rs: "rises (evidence_of (cs_ID c) db)" unfolding g(2) by (cases "evidence_of 100 db") (auto simp: rises_def)
  have "fx_evidence toy_files = []" by (simp add: toy_files_def)
  from linked [OF this g(1) rs] have "evs = evidence_of 100 db" "linked cv_PrevEvidenceHash (\<lambda>e. Some (cv_PayloadHash e)) None evs"
    using g(2) by auto
  then show ?thesis using g(1) one unfolding db_def by blast
qed

end
