(* ===== verification/GoFloat.thy ===== *)
theory GoFloat
  imports Float64 GoText
begin

text \<open>
  \<open>strconv.ParseFloat(s, 64)\<close> and \<open>strconv.FormatFloat(f, 'f', prec, 64)\<close>: decimal and hexadecimal
  literals with underscores, the spellings of infinities and NaN, correct rounding, and the range
  error beyond the largest \<open>float64\<close>.  The sign of zero is not kept: the program only compares and
  renders.
\<close>

datatype go_float = Finite float64 | Infinite bool | NotANumber

datatype float_error = FloatSyntax | FloatRange

text \<open>Comparisons: nothing is below or equal to NaN.\<close>

fun float_less :: "go_float \<Rightarrow> go_float \<Rightarrow> bool" where
  "float_less (Finite x) (Finite y) = (x < y)"
| "float_less (Finite x) (Infinite neg) = (\<not> neg)"
| "float_less (Infinite neg) (Finite y) = neg"
| "float_less (Infinite neg) (Infinite neg') = (neg \<and> \<not> neg')"
| "float_less _ _ = False"

fun float_nonpos :: "go_float \<Rightarrow> bool" where
  "float_nonpos (Finite x) = (x \<le> 0)"
| "float_nonpos (Infinite n) = n"
| "float_nonpos NotANumber = False"

text \<open>Arithmetic: exact and rounded on finite values, overflowing to the infinities.\<close>

definition float_of :: "rat \<Rightarrow> go_float" where
  "float_of x = (if 2 ^ 1024 \<le> \<bar>rnd x\<bar> then Infinite (x < 0) else Finite (rnd x))"

fun float_add :: "go_float \<Rightarrow> go_float \<Rightarrow> go_float" where
  "float_add (Finite x) (Finite y) = float_of (x + y)"
| "float_add (Infinite n) (Finite y) = Infinite n"
| "float_add (Finite x) (Infinite n) = Infinite n"
| "float_add (Infinite n) (Infinite m) = (if n = m then Infinite n else NotANumber)"
| "float_add _ _ = NotANumber"

fun float_neg :: "go_float \<Rightarrow> go_float" where
  "float_neg (Finite x) = Finite (- x)"
| "float_neg (Infinite n) = Infinite (\<not> n)"
| "float_neg NotANumber = NotANumber"

definition float_sub :: "go_float \<Rightarrow> go_float \<Rightarrow> go_float" where
  "float_sub x y = float_add x (float_neg y)"

fun float_mul :: "go_float \<Rightarrow> go_float \<Rightarrow> go_float" where
  "float_mul (Finite x) (Finite y) = float_of (x * y)"
| "float_mul (Infinite n) (Infinite m) = Infinite (n \<noteq> m)"
| "float_mul (Infinite n) (Finite y) = (if y = 0 then NotANumber else Infinite (n \<noteq> (y < 0)))"
| "float_mul (Finite x) (Infinite n) = (if x = 0 then NotANumber else Infinite (n \<noteq> (x < 0)))"
| "float_mul _ _ = NotANumber"

text \<open>Division, for a divisor that is not zero.\<close>

fun float_div :: "go_float \<Rightarrow> go_float \<Rightarrow> go_float" where
  "float_div (Finite x) (Finite y) = float_of (x / y)"
| "float_div (Infinite n) (Finite y) = Infinite (n \<noteq> (y < 0))"
| "float_div (Finite x) (Infinite n) = Finite 0"
| "float_div _ _ = NotANumber"

text \<open>\<open>int64(f)\<close> of what is no number or out of range is the most negative integer, as on amd64.\<close>

fun float_int64 :: "go_float \<Rightarrow> go_int64" where
  "float_int64 (Finite x) = float_to_int64 x"
| "float_int64 _ = - (2 ^ 63)"

definition int_float :: "go_int64 \<Rightarrow> go_float" where
  "int_float i = Finite (int64_to_float i)"

definition lower :: "char \<Rightarrow> char" where
  "lower c = (let n = of_char c :: nat in if 65 \<le> n \<and> n \<le> 90 then char_of (n + 32) else c)"

definition float_special :: "string \<Rightarrow> go_float option" where
  "float_special s =
     (let (neg, t) = (case s of c # t \<Rightarrow> if c = CHR ''-'' then (True, t) else if c = CHR ''+'' then (False, t) else (False, s) | [] \<Rightarrow> (False, [])) in
      if map lower t = ''inf'' \<or> map lower t = ''infinity'' then Some (Infinite neg)
      else if map lower s = ''nan'' then Some NotANumber else None)"

text \<open>The digits of the mantissa: their value, how many follow the point, and whether there was a point, a
  digit, an underscore.\<close>

record float_scan =
  fs_mant :: nat
  fs_frac :: nat
  fs_dot :: bool
  fs_digits :: bool
  fs_under :: bool

definition hex_letter :: "char \<Rightarrow> bool" where
  "hex_letter c \<longleftrightarrow> lower c \<in> {CHR ''a'', CHR ''b'', CHR ''c'', CHR ''d'', CHR ''e'', CHR ''f''}"

fun mantissa :: "bool \<Rightarrow> float_scan \<Rightarrow> string \<Rightarrow> float_scan \<times> string" where
  "mantissa hex st [] = (st, [])"
| "mantissa hex st (c # s) =
     (if c = CHR ''_'' then mantissa hex (st\<lparr>fs_under := True\<rparr>) s
      else if c = CHR ''.'' then if fs_dot st then (st, c # s) else mantissa hex (st\<lparr>fs_dot := True\<rparr>) s
      else if is_digit c \<or> hex \<and> hex_letter c then
        mantissa hex (st\<lparr>fs_mant := (if hex then 16 else 10) * fs_mant st
              + (if is_digit c then of_char c - 48 else of_char (lower c) - 87),
            fs_frac := (if fs_dot st then Suc (fs_frac st) else fs_frac st), fs_digits := True\<rparr>) s
      else (st, c # s))"

text \<open>The digits of the exponent; a value that is large enough does not grow any more.\<close>

fun exponent :: "nat \<Rightarrow> bool \<Rightarrow> string \<Rightarrow> nat \<times> bool \<times> string" where
  "exponent e us [] = (e, us, [])"
| "exponent e us (c # s) =
     (if c = CHR ''_'' then exponent e True s
      else if is_digit c then exponent (if e < 10000 then 10 * e + (of_char c - 48) else e) us s
      else (e, us, c # s))"

text \<open>Underscores separate digits, one may follow the base prefix.\<close>

fun underscores_ok :: "bool \<Rightarrow> char \<Rightarrow> string \<Rightarrow> bool" where
  "underscores_ok hex saw [] = (saw \<noteq> CHR ''_'')"
| "underscores_ok hex saw (c # s) =
     (if is_digit c \<or> hex \<and> hex_letter c then underscores_ok hex (CHR ''0'') s
      else if c = CHR ''_'' then saw = CHR ''0'' \<and> underscores_ok hex (CHR ''_'') s
      else saw \<noteq> CHR ''_'' \<and> underscores_ok hex (CHR ''!'') s)"

text \<open>After the sign: base, mantissa, exponent, nothing more.\<close>

definition read_float :: "string \<Rightarrow> rat option" where
  "read_float s =
     (let hex = (2 < length s \<and> s ! 0 = CHR ''0'' \<and> lower (s ! 1) = CHR ''x'');
          body = (if hex then drop 2 s else s) in
      case mantissa hex \<lparr>fs_mant = 0, fs_frac = 0, fs_dot = False, fs_digits = False, fs_under = False\<rparr> body of
        (st, rest) \<Rightarrow>
          if \<not> fs_digits st then None
          else
            let finish = (\<lambda>e us rest.
                  if rest \<noteq> [] \<or> us \<and> \<not> underscores_ok hex (if hex then CHR ''0'' else CHR ''^'') body then None
                  else Some (if hex then scale2 (of_nat (fs_mant st)) (e - 4 * int (fs_frac st))
                    else if 0 \<le> e - int (fs_frac st) then of_nat (fs_mant st) * 10 ^ nat (e - int (fs_frac st))
                    else of_nat (fs_mant st) / 10 ^ nat (int (fs_frac st) - e))) in
            case rest of
              c # t \<Rightarrow>
                if lower c = (if hex then CHR ''p'' else CHR ''e'') then
                  let (neg, u) = (case t of d # u \<Rightarrow> if d = CHR ''+'' then (False, u) else if d = CHR ''-'' then (True, u) else (False, t) | [] \<Rightarrow> (False, [])) in
                  case u of
                    d # v \<Rightarrow> if is_digit d then (case exponent 0 (fs_under st) u of (e, us, w) \<Rightarrow> finish (if neg then - int e else int e) us w)
                             else None
                  | [] \<Rightarrow> None
                else None
            | [] \<Rightarrow> if hex then None else finish 0 (fs_under st) [])"

text \<open>The value and the error: a value out of range comes with the infinity of its sign.\<close>

definition ParseFloat :: "string \<Rightarrow> go_float \<times> float_error option" where
  "ParseFloat s =
     (case float_special s of
        Some f \<Rightarrow> (f, None)
      | None \<Rightarrow>
          let (neg, t) = (case s of c # t \<Rightarrow> if c = CHR ''-'' then (True, t) else if c = CHR ''+'' then (False, t) else (False, s) | [] \<Rightarrow> (False, [])) in
          case read_float t of
            None \<Rightarrow> (Finite 0, Some FloatSyntax)
          | Some x \<Rightarrow>
              let r = rnd x in
              if 2 ^ 1024 \<le> r then (Infinite neg, Some FloatRange) else (Finite (if neg then - r else r), None))"

text \<open>Rendering with a fixed number of decimals rounds the exact value, ties to even.\<close>

definition fmt_fixed :: "nat \<Rightarrow> int \<Rightarrow> string" where
  "fmt_fixed prec n = (if n < 0 then ''-'' else []) @ dec_nat (nat \<bar>n\<bar> div 10 ^ prec) @ (if prec = 0 then [] else ''.'' @ fmt_pad prec (nat \<bar>n\<bar> mod 10 ^ prec))"

fun FormatFloat :: "nat \<Rightarrow> go_float \<Rightarrow> string" where
  "FormatFloat prec (Finite x) =
     (if x < 0 then ''-'' else []) @ fmt_fixed prec (round_even (\<bar>x\<bar> * 10 ^ prec))"
| "FormatFloat prec (Infinite neg) = (if neg then ''-Inf'' else ''+Inf'')"
| "FormatFloat prec NotANumber = ''NaN''"

section \<open>Decimals\<close>

lemma is_digit_not_special:
  assumes "is_digit c"
  shows "c \<noteq> CHR ''_''" "c \<noteq> CHR ''.''" "c \<noteq> CHR ''-''" "c \<noteq> CHR ''+''"
  using assms by (auto simp: is_digit_def)

lemma lower_digit: "is_digit c \<Longrightarrow> lower c = c"
  by (simp add: is_digit_def lower_def)

lemma digit_no_letter:
  assumes "is_digit c"
  shows "c \<noteq> CHR ''x''" "c \<noteq> CHR ''i''" "c \<noteq> CHR ''n''"
  using assms by (auto simp: is_digit_def)

lemma mantissa_digits:
  assumes "list_all is_digit ds"
  shows "mantissa False st (ds @ rest) =
    mantissa False (st\<lparr>fs_mant := digits_val (fs_mant st) ds, fs_frac := (if fs_dot st then fs_frac st + length ds else fs_frac st),
       fs_digits := fs_digits st \<or> ds \<noteq> []\<rparr>) rest"
  using assms by (induction ds arbitrary: st) (simp_all add: is_digit_not_special)

lemma read_float_decimal:
  assumes "list_all is_digit as" "list_all is_digit bs" "as \<noteq> []" "bs \<noteq> []"
  shows "read_float (as @ ''.'' @ bs) = Some (of_nat (digits_val 0 (as @ bs)) / 10 ^ length bs)"
proof -
  have x: "\<not> (2 < length (as @ ''.'' @ bs) \<and> (as @ ''.'' @ bs) ! 0 = CHR ''0'' \<and> lower ((as @ ''.'' @ bs) ! 1) = CHR ''x'')"
  proof -
    obtain a as' where "as = a # as'" using assms(3) by (cases as) auto
    moreover have "lower ((as' @ ''.'' @ bs) ! 0) \<noteq> CHR ''x''"
      using assms(1) \<open>as = a # as'\<close> by (cases as') (auto simp: lower_digit digit_no_letter, simp add: lower_def)
    ultimately show ?thesis by simp
  qed
  have m: "mantissa False \<lparr>fs_mant = 0, fs_frac = 0, fs_dot = False, fs_digits = False, fs_under = False\<rparr> (as @ ''.'' @ bs)
      = (\<lparr>fs_mant = digits_val 0 (as @ bs), fs_frac = length bs, fs_dot = True, fs_digits = True, fs_under = False\<rparr>, [])"
    using assms mantissa_digits [OF assms(2), of _ "[]"] by (simp add: mantissa_digits [OF assms(1)] digits_val_append)
  have x': "(2 < length (as @ ''.'' @ bs) \<and> (as @ ''.'' @ bs) ! 0 = CHR ''0'' \<and> lower ((as @ ''.'' @ bs) ! 1) = CHR ''x'') = False"
    using x by blast
  show ?thesis unfolding read_float_def x' Let_def if_False m prod.case using assms(4) by simp
qed

text \<open>Rounding stays close to a number of moderate size.\<close>

lemma rat_log2_le:
  assumes "0 < x" "0 \<le> rat_log2 x"
  shows "2 ^ nat (rat_log2 x) \<le> x"
proof -
  obtain n d where nd: "quotient_of x = (n, d)" by fastforce
  have d: "0 < d" and x: "x = of_int n / of_int d" using nd by (auto intro: quotient_of_denom_pos quotient_of_div)
  have n: "0 < n" using assms(1) d x by (simp add: zero_less_divide_iff)
  let ?k = "bitlen n - bitlen d"
  have step: "2 ^ nat j \<le> x" if "d * 2 ^ nat j \<le> n" for j
  proof -
    have "(of_int (d * 2 ^ nat j) :: rat) \<le> of_int n" using that by (simp only: of_int_le_iff)
    then show ?thesis using d unfolding x by (simp add: pos_le_divide_eq mult.commute)
  qed
  have low: "2 ^ nat (bitlen n - 1) \<le> n" "d < 2 ^ nat (bitlen d)" using bitlen_bounds n d by auto
  show ?thesis
  proof (cases "rat_log2 x = ?k")
    case True
    then have "d * 2 ^ nat ?k \<le> n" using nd assms(2) by (auto simp: rat_log2_def Let_def split: if_splits)
    then show ?thesis using step True by simp
  next
    case False
    then have k: "rat_log2 x = ?k - 1" using nd by (auto simp: rat_log2_def Let_def split: if_splits)
    have "nat (bitlen n - 1) = nat (bitlen d) + nat (?k - 1)" using assms(2) k bitlen_nonneg [of d] by simp
    then have "2 ^ nat (bitlen d) * 2 ^ nat (?k - 1) \<le> n" using low(1) by (simp add: power_add)
    moreover have "d * 2 ^ nat (?k - 1) \<le> 2 ^ nat (bitlen d) * 2 ^ nat (?k - 1)" using low(2) by (intro mult_right_mono) auto
    ultimately have "d * 2 ^ nat (?k - 1) \<le> n" by linarith
    then show ?thesis using step [of "?k - 1"] k by simp
  qed
qed

lemma round_even_le: "of_int (round_even y) \<le> y + 1 / 2"
  unfolding round_even_def Let_def by (simp split: if_splits) linarith+

lemma rnd_small:
  assumes "0 \<le> x" "x < 2 ^ 53"
  shows "rnd x \<le> x + 1 / 2" "0 \<le> rnd x"
proof -
  define e where "e = max (- 1074) (rat_log2 \<bar>x\<bar> - 52)"
  have e: "e \<le> 0" if "x \<noteq> 0"
  proof (rule ccontr)
    assume "\<not> e \<le> 0"
    then have l: "53 \<le> rat_log2 x" using assms(1) by (simp add: e_def)
    then have "2 ^ nat (rat_log2 x) \<le> x" using rat_log2_le assms(1) that by simp
    moreover have "(2 :: rat) ^ 53 \<le> 2 ^ nat (rat_log2 x)" using l by (intro power_increasing) auto
    ultimately show False using assms(2) by simp
  qed
  have pos: "0 \<le> round_even y" if "0 \<le> y" for y
    using that unfolding round_even_def Let_def by (auto simp: floor_less_iff)
  define p :: rat where "p = 2 ^ nat (- e)"
  have p: "1 \<le> p" by (simp add: p_def)
  have r: "rnd x = of_int (round_even (x * p)) / p" if "x \<noteq> 0"
    using e [OF that] that unfolding rnd_def e_def [symmetric] Let_def scale2_def p_def by auto
  have "of_int (round_even (x * p)) / p \<le> (x * p + 1 / 2) / p" using round_even_le p by (intro divide_right_mono) auto
  also have "\<dots> = x + 1 / (2 * p)" using p by (simp add: field_simps)
  also have "\<dots> \<le> x + 1 / 2" using p by (simp add: field_simps)
  finally show "rnd x \<le> x + 1 / 2" using r assms(1) by (cases "x = 0") (auto simp: rnd_def)
  have "0 \<le> round_even (x * p)" using pos assms(1) p by simp
  then show "0 \<le> rnd x" using r p by (cases "x = 0") (auto simp: rnd_def)
qed

text \<open>A positive quantity stays positive when it is rounded, and zero or a negative one does not become positive.\<close>

lemma rnd_pos:
  assumes "1 / 10 ^ 4 \<le> x" "x < 2 ^ 34"
  shows "0 < rnd x"
proof -
  have x: "0 < x" using assms(1) by (rule less_le_trans [rotated]) simp
  have l: "rat_log2 x \<le> 34"
  proof (rule ccontr)
    assume "\<not> rat_log2 x \<le> 34"
    then have "2 ^ nat (rat_log2 x) \<le> x" using rat_log2_le x by simp
    moreover have "(2 :: rat) ^ 34 \<le> 2 ^ nat (rat_log2 x)" using \<open>\<not> rat_log2 x \<le> 34\<close> by (intro power_increasing) auto
    ultimately show False using assms(2) by linarith
  qed
  define e where "e = max (- 1074) (rat_log2 \<bar>x\<bar> - 52)"
  have e: "e \<le> - 18" using l x by (simp add: e_def)
  define p :: rat where "p = 2 ^ nat (- e)"
  have "(2 :: rat) ^ 18 \<le> p" unfolding p_def using e by (intro power_increasing) auto
  moreover have "(10 :: rat) ^ 4 \<le> 2 ^ 18" by simp
  ultimately have p: "10 ^ 4 \<le> p" by (rule order_trans [rotated])
  have "1 / 10 ^ 4 * 10 ^ 4 \<le> x * p" using assms(1) p by (intro mult_mono) (use x in auto)
  then have "1 \<le> x * p" by simp
  have "0 < p" using p by (rule less_le_trans [rotated]) simp
  have "1 \<le> \<lfloor>x * p\<rfloor>" using \<open>1 \<le> x * p\<close> by (simp add: le_floor_iff)
  then have "0 < round_even (x * p)" unfolding round_even_def Let_def by auto
  then show ?thesis using x e \<open>0 < p\<close> unfolding rnd_def e_def [symmetric] Let_def scale2_def p_def [symmetric] by simp
qed

text \<open>A decimal reads as the \<open>float64\<close> nearest to it.\<close>

theorem ParseFloat_fixed:
  assumes "0 < prec" "rnd (of_int \<bar>n\<bar> / 10 ^ prec) < 2 ^ 1024"
  shows "ParseFloat (fmt_fixed prec n) = (Finite (if n < 0 then - rnd (of_int \<bar>n\<bar> / 10 ^ prec) else rnd (of_int \<bar>n\<bar> / 10 ^ prec)), None)"
proof -
  let ?as = "dec_nat (nat \<bar>n\<bar> div 10 ^ prec)" and ?bs = "fmt_pad prec (nat \<bar>n\<bar> mod 10 ^ prec)"
  have len: "length ?bs = prec" using assms(1) by (simp add: length_fmt_pad)
  have val: "digits_val 0 (?as @ ?bs) = nat \<bar>n\<bar>"
    unfolding digits_val_append' len digits_val_dec_nat digits_val_fmt_pad by (rule div_mult_mod_eq)
  have r: "read_float (?as @ ''.'' @ ?bs) = Some (of_int \<bar>n\<bar> / 10 ^ prec)"
  proof -
    have "?bs \<noteq> []" using len assms(1) by (metis list.size(3) less_irrefl)
    from read_float_decimal [OF dec_nat_digits fmt_pad_digits dec_nat_ne this, of "nat \<bar>n\<bar> div 10 ^ prec"]
    show ?thesis unfolding val len by simp
  qed
  obtain a as where a: "?as = a # as" "is_digit a" using dec_nat_digits [of "nat \<bar>n\<bar> div 10 ^ prec"] by (cases ?as) auto
  have sp: "float_special (?as @ ''.'' @ ?bs) = None" "float_special (''-'' @ ?as @ ''.'' @ ?bs) = None"
    using a by (simp_all add: float_special_def is_digit_not_special lower_digit digit_no_letter lower_def [of "CHR ''-''"])
  show ?thesis
    using sp r a assms unfolding ParseFloat_def fmt_fixed_def
    by (auto simp: is_digit_not_special)
qed

end
