(* ===== verification/Inventory.thy ===== *)
theory Inventory
  imports GoTime GoFloat Hmac Sales Streams "HOL-Library.Product_Lexorder"
begin

text \<open>
  Stock (\<open>internal/inventory\<close>): the append-only movements and the positions that cache their sums, the
  handlers, the documents, and the consumer that turns sold lines into movements.  A numeric(14,4) is a
  number of ten-thousandths or NaN; \<open>numeric\<close>, which texts the database reads into such a column, is a
  parameter, as is the parser of google/uuid.
\<close>

section \<open>Numerics\<close>

datatype pg_numeric = Num int | NumNaN

definition num_fits :: "int \<Rightarrow> bool" where
  "num_fits n \<longleftrightarrow> \<bar>n\<bar> < 10 ^ 14"

text \<open>Adding overflows where the sum does not fit the column.\<close>

fun num_add :: "pg_numeric \<Rightarrow> pg_numeric \<Rightarrow> pg_numeric option" where
  "num_add (Num a) (Num b) = (if num_fits (a + b) then Some (Num (a + b)) else None)"
| "num_add _ _ = Some NumNaN"

fun num_text :: "pg_numeric \<Rightarrow> string" where
  "num_text (Num n) = fmt_fixed 4 n"
| "num_text NumNaN = ''NaN''"

section \<open>Data\<close>

definition MovementTypes :: "string set" where
  "MovementTypes = {''goods_receipt'', ''adjustment'', ''transfer_in'', ''transfer_out'', ''rtv'', ''sale'', ''return'', ''write_off'',
     ''cycle_count_correction'', ''reservation'', ''release_reservation''}"

record PositionDTO =
  ivp_ID :: uuid
  ivp_TenantID :: uuid
  ivp_ItemID :: uuid
  ivp_LocationID :: uuid
  ivp_ZoneID :: "uuid option"
  ivp_OnHand :: pg_numeric
  ivp_Reserved :: pg_numeric
  ivp_OnOrder :: pg_numeric
  ivp_InTransit :: pg_numeric
  ivp_LastMovementAt :: "gotime option"
  ivp_LastCountAt :: "gotime option"
  ivp_CostBasis :: "pg_numeric option"
  ivp_Attributes :: raw_message
  ivp_Status :: string
  ivp_CreatedAt :: gotime
  ivp_UpdatedAt :: gotime

record MovementDTO =
  ivm_ID :: uuid
  ivm_TenantID :: uuid
  ivm_ItemID :: uuid
  ivm_LocationID :: uuid
  ivm_ZoneID :: "uuid option"
  ivm_LotID :: "uuid option"
  ivm_MovementType :: string
  ivm_Delta :: pg_numeric
  ivm_MovementAt :: gotime
  ivm_SourceDocumentID :: "uuid option"
  ivm_SourceDocumentLineID :: "uuid option"
  ivm_SourceTransactionID :: "uuid option"
  ivm_ReasonCode :: "string option"
  ivm_Reference :: "string option"
  ivm_PerformedByUserID :: "uuid option"
  ivm_PerformedByEmployeeID :: "uuid option"
  ivm_CostBasis :: "pg_numeric option"
  ivm_Attributes :: raw_message
  ivm_CreatedAt :: gotime

record AppendMovementRequest =
  amr_MerchantID :: uuid
  amr_ItemID :: uuid
  amr_LocationID :: uuid
  amr_ZoneID :: "uuid option"
  amr_LotID :: "uuid option"
  amr_MovementType :: string
  amr_Quantity :: string
  amr_ReferenceID :: "string option"
  amr_ReasonCode :: "string option"
  amr_PerformedByUserID :: "uuid option"
  amr_SourceDocumentID :: "uuid option"
  amr_SourceTransactionID :: "uuid option"
  amr_CostBasis :: "string option"
  amr_Attributes :: raw_message

record AdjustmentRequest =
  adj_MerchantID :: uuid
  adj_ItemID :: uuid
  adj_LocationID :: uuid
  adj_Quantity :: string
  adj_ReasonCode :: "string option"
  adj_CostBasis :: "string option"

datatype inv_call =
    AppendBegin | InsertMovement | UpsertPosition | AppendCommit | GetPositionCall | ListPositionsCall | ListMovementsCall
  | FetchUnlinked | LinkMovement | EmitReplenish
  | ListDocumentsCall | GetDocumentCall | ListLinesCall | UpdateStatusCall | MarkLineCall

datatype inv_error = PositionNotFound | InvFailed inv_call

datatype move_error = InvalidMovementType | InvalidQuantity | MissingField

record inv_db =
  ivd_positions :: "PositionDTO list"
  ivd_movements :: "MovementDTO list"

record inv_env =
  ive_now :: gotime
  ive_db_now :: gotime
  ive_fails :: "inv_call \<Rightarrow> bool"
  ive_movement :: uuid
  ive_position :: uuid

section \<open>Validation\<close>

definition ValidateAppendRequest :: "AppendMovementRequest \<Rightarrow> move_error + AppendMovementRequest" where
  "ValidateAppendRequest req =
     (if amr_MerchantID req = uuid_nil \<or> amr_ItemID req = uuid_nil \<or> amr_LocationID req = uuid_nil then Inl MissingField
      else
        let mt = trim_space (amr_MovementType req) in
        if mt \<notin> MovementTypes then Inl InvalidMovementType
        else
          let q = trim_space (amr_Quantity req) in
          if q = [] then Inl InvalidQuantity
          else case ParseFloat q of
              (_, Some _) \<Rightarrow> Inl InvalidQuantity
            | (v, None) \<Rightarrow> if v = Finite 0 then Inl InvalidQuantity else Inr (req\<lparr>amr_MovementType := mt, amr_Quantity := q\<rparr>))"

section \<open>The store\<close>

definition position_match :: "uuid \<Rightarrow> uuid \<Rightarrow> uuid \<Rightarrow> PositionDTO \<Rightarrow> bool" where
  "position_match tenantID itemID locationID p \<longleftrightarrow>
     ivp_TenantID p = tenantID \<and> ivp_ItemID p = itemID \<and> ivp_LocationID p = locationID \<and> ivp_ZoneID p = None"

definition GetPosition :: "inv_env \<Rightarrow> uuid \<Rightarrow> uuid \<Rightarrow> uuid \<Rightarrow> inv_db \<Rightarrow> inv_error + PositionDTO" where
  "GetPosition env tenantID itemID locationID db =
     (if ive_fails env GetPositionCall then Inl (InvFailed GetPositionCall)
      else case List.find (position_match tenantID itemID locationID) (ivd_positions db) of
          None \<Rightarrow> Inl PositionNotFound | Some p \<Rightarrow> Inr p)"

definition ListPositions :: "inv_env \<Rightarrow> uuid \<Rightarrow> uuid option \<Rightarrow> uuid option \<Rightarrow> int \<Rightarrow> int \<Rightarrow> inv_db \<Rightarrow> inv_error + PositionDTO list" where
  "ListPositions env tenantID locationID itemID limit offset db =
     (if ive_fails env ListPositionsCall \<or> limit < 0 \<or> offset < 0 then Inl (InvFailed ListPositionsCall)
      else Inr (take (nat limit) (drop (nat offset) (sort_key (\<lambda>p. (ivp_LocationID p, ivp_ItemID p))
             (filter (\<lambda>p. ivp_TenantID p = tenantID \<and> (locationID = None \<or> Some (ivp_LocationID p) = locationID)
                \<and> (itemID = None \<or> Some (ivp_ItemID p) = itemID)) (ivd_positions db))))))"

text \<open>An optional numeric of a request.\<close>

definition opt_numeric :: "(string \<Rightarrow> pg_numeric option) \<Rightarrow> string option \<Rightarrow> pg_numeric option option" where
  "opt_numeric numeric s = (case s of None \<Rightarrow> Some None | Some t \<Rightarrow> map_option Some (numeric t))"

definition movement_row :: "inv_env \<Rightarrow> AppendMovementRequest \<Rightarrow> pg_numeric \<Rightarrow> pg_numeric option \<Rightarrow> gotime \<Rightarrow> MovementDTO" where
  "movement_row env req delta cost movementAt =
     \<lparr>ivm_ID = ive_movement env, ivm_TenantID = amr_MerchantID req, ivm_ItemID = amr_ItemID req, ivm_LocationID = amr_LocationID req,
      ivm_ZoneID = amr_ZoneID req, ivm_LotID = amr_LotID req, ivm_MovementType = amr_MovementType req, ivm_Delta = delta,
      ivm_MovementAt = trunc_us movementAt, ivm_SourceDocumentID = amr_SourceDocumentID req, ivm_SourceDocumentLineID = None,
      ivm_SourceTransactionID = amr_SourceTransactionID req, ivm_ReasonCode = amr_ReasonCode req, ivm_Reference = amr_ReferenceID req,
      ivm_PerformedByUserID = amr_PerformedByUserID req, ivm_PerformedByEmployeeID = None, ivm_CostBasis = cost,
      ivm_Attributes = (if amr_Attributes req = RawText [] then RawText ''{}'' else amr_Attributes req), ivm_CreatedAt = ive_db_now env\<rparr>"

definition new_position :: "inv_env \<Rightarrow> AppendMovementRequest \<Rightarrow> pg_numeric \<Rightarrow> pg_numeric option \<Rightarrow> gotime \<Rightarrow> PositionDTO" where
  "new_position env req delta cost movementAt =
     \<lparr>ivp_ID = ive_position env, ivp_TenantID = amr_MerchantID req, ivp_ItemID = amr_ItemID req, ivp_LocationID = amr_LocationID req,
      ivp_ZoneID = None, ivp_OnHand = delta, ivp_Reserved = Num 0, ivp_OnOrder = Num 0, ivp_InTransit = Num 0,
      ivp_LastMovementAt = Some (trunc_us movementAt), ivp_LastCountAt = None, ivp_CostBasis = cost, ivp_Attributes = RawText ''{}'',
      ivp_Status = ''active'', ivp_CreatedAt = ive_db_now env, ivp_UpdatedAt = ive_db_now env\<rparr>"

definition moved_position :: "inv_env \<Rightarrow> pg_numeric \<Rightarrow> pg_numeric option \<Rightarrow> gotime \<Rightarrow> PositionDTO \<Rightarrow> PositionDTO" where
  "moved_position env onHand cost movementAt p =
     p\<lparr>ivp_OnHand := onHand, ivp_LastMovementAt := Some (trunc_us movementAt),
       ivp_CostBasis := (case cost of None \<Rightarrow> ivp_CostBasis p | Some c \<Rightarrow> Some c), ivp_UpdatedAt := ive_db_now env\<rparr>"

text \<open>The upsert: the row it returns and the table after it, unless it fails.\<close>

definition upsert_position ::
  "inv_env \<Rightarrow> AppendMovementRequest \<Rightarrow> pg_numeric \<Rightarrow> pg_numeric option \<Rightarrow> gotime \<Rightarrow> PositionDTO list \<Rightarrow> (PositionDTO \<times> PositionDTO list) option" where
  "upsert_position env req delta cost movementAt rows =
     (let here = position_match (amr_MerchantID req) (amr_ItemID req) (amr_LocationID req) in
      case List.find here rows of
        Some p \<Rightarrow>
          (case num_add (ivp_OnHand p) delta of
             None \<Rightarrow> None
           | Some q \<Rightarrow> Some (moved_position env q cost movementAt p, map (\<lambda>r. if here r then moved_position env q cost movementAt r else r) rows))
      | None \<Rightarrow>
          if list_ex (\<lambda>r. ivp_ID r = ive_position env) rows then None
          else Some (new_position env req delta cost movementAt, rows @ [new_position env req delta cost movementAt]))"

text \<open>One transaction: the movement and the position.\<close>

definition AppendMovement ::
  "(string \<Rightarrow> pg_numeric option) \<Rightarrow> inv_env \<Rightarrow> AppendMovementRequest \<Rightarrow> gotime \<Rightarrow> inv_db \<Rightarrow> (inv_error + MovementDTO \<times> PositionDTO) \<times> inv_db" where
  "AppendMovement numeric env req movementAt db =
     (if ive_fails env AppendBegin then (Inl (InvFailed AppendBegin), db)
      else case (numeric (amr_Quantity req), opt_numeric numeric (amr_CostBasis req)) of
          (Some delta, Some cost) \<Rightarrow>
            if ive_fails env InsertMovement \<or> list_ex (\<lambda>m. ivm_ID m = ive_movement env) (ivd_movements db) then (Inl (InvFailed InsertMovement), db)
            else if ive_fails env UpsertPosition then (Inl (InvFailed UpsertPosition), db)
            else (case upsert_position env req delta cost movementAt (ivd_positions db) of
                None \<Rightarrow> (Inl (InvFailed UpsertPosition), db)
              | Some (p, rows) \<Rightarrow>
                  if ive_fails env AppendCommit then (Inl (InvFailed AppendCommit), db)
                  else (Inr (movement_row env req delta cost movementAt, p),
                        db\<lparr>ivd_movements := ivd_movements db @ [movement_row env req delta cost movementAt], ivd_positions := rows\<rparr>))
        | _ \<Rightarrow> (Inl (InvFailed InsertMovement), db))"

definition ListMovements ::
  "inv_env \<Rightarrow> uuid \<Rightarrow> uuid \<Rightarrow> uuid \<Rightarrow> gotime option \<Rightarrow> gotime option \<Rightarrow> int \<Rightarrow> int \<Rightarrow> inv_db \<Rightarrow> inv_error + MovementDTO list" where
  "ListMovements env tenantID itemID locationID t1 t2 limit offset db =
     (if ive_fails env ListMovementsCall \<or> limit < 0 \<or> offset < 0 then Inl (InvFailed ListMovementsCall)
      else Inr (take (nat limit) (drop (nat offset) (sort_desc ivm_MovementAt (filter (\<lambda>m. ivm_TenantID m = tenantID \<and> ivm_ItemID m = itemID
             \<and> ivm_LocationID m = locationID \<and> (case t1 of None \<Rightarrow> True | Some t \<Rightarrow> trunc_us t \<le> ivm_MovementAt m)
             \<and> (case t2 of None \<Rightarrow> True | Some t \<Rightarrow> ivm_MovementAt m \<le> trunc_us t)) (ivd_movements db))))))"

section \<open>The handlers\<close>

datatype inv_reply =
    InvErr nat string
  | PositionOK PositionDTO
  | PositionList "PositionDTO list" int int
  | MovementOK MovementDTO PositionDTO
  | MovementList "MovementDTO list" int int

text \<open>A time of the query string: absent, not RFC 3339, or read.\<close>

datatype time_arg = NoTime | BadTime | TimeAt gotime

datatype inv_request =
    GetPositionReq string string
  | ListPositionsReq string string string string
  | PostMovement "AppendMovementRequest req_body"
  | ListMovementsReq string string time_arg time_arg string string
  | PostAdjustment "AdjustmentRequest req_body"

definition inv_tenant :: "uuid option \<Rightarrow> inv_reply + uuid" where
  "inv_tenant claim = (case claim of None \<Rightarrow> Inl (InvErr 401 ''unauthenticated'')
     | Some tn \<Rightarrow> if tn = uuid_nil then Inl (InvErr 401 ''unauthenticated'') else Inr tn)"

definition pageSize :: "string \<Rightarrow> string \<Rightarrow> int \<times> int" where
  "pageSize page psize =
     ((case parse_int64 page of Some n \<Rightarrow> if 1 \<le> n then n else 1 | None \<Rightarrow> 1),
      (case parse_int64 psize of Some n \<Rightarrow> if 1 \<le> n \<and> n \<le> 200 then n else 50 | None \<Rightarrow> 50))"

definition page_offset :: "int \<Rightarrow> int \<Rightarrow> int" where
  "page_offset page n = wrap64 ((page - 1) * n)"

definition getPosition :: "(string \<Rightarrow> uuid option) \<Rightarrow> inv_env \<Rightarrow> uuid option \<Rightarrow> string \<Rightarrow> string \<Rightarrow> inv_db \<Rightarrow> inv_reply" where
  "getPosition parse env claim item location db =
     (case inv_tenant claim of
        Inl r \<Rightarrow> r
      | Inr tn \<Rightarrow>
          (case parse item of
             None \<Rightarrow> InvErr 400 ''invalid_item_id''
           | Some i \<Rightarrow>
               (case parse location of
                  None \<Rightarrow> InvErr 400 ''invalid_location_id''
                | Some l \<Rightarrow>
                    (case GetPosition env tn i l db of
                       Inl PositionNotFound \<Rightarrow> InvErr 404 ''position_not_found''
                     | Inl _ \<Rightarrow> InvErr 500 ''store_error''
                     | Inr p \<Rightarrow> PositionOK p))))"

text \<open>An optional identifier of the query string: absent, parsed, or malformed.\<close>

definition opt_id :: "(string \<Rightarrow> uuid option) \<Rightarrow> string \<Rightarrow> uuid option option" where
  "opt_id parse v = (if v = [] then Some None else map_option Some (parse v))"

definition listPositions :: "(string \<Rightarrow> uuid option) \<Rightarrow> inv_env \<Rightarrow> uuid option \<Rightarrow> string \<Rightarrow> string \<Rightarrow> string \<Rightarrow> string \<Rightarrow> inv_db \<Rightarrow> inv_reply" where
  "listPositions parse env claim location item page psize db =
     (case inv_tenant claim of
        Inl r \<Rightarrow> r
      | Inr tn \<Rightarrow>
          (case opt_id parse location of
             None \<Rightarrow> InvErr 400 ''invalid_location_id''
           | Some l \<Rightarrow>
               (case opt_id parse item of
                  None \<Rightarrow> InvErr 400 ''invalid_item_id''
                | Some i \<Rightarrow>
                    (case pageSize page psize of (pg, sz) \<Rightarrow>
                       (case ListPositions env tn l i sz (page_offset pg sz) db of
                          Inl _ \<Rightarrow> InvErr 500 ''store_error''
                        | Inr rows \<Rightarrow> PositionList rows pg sz)))))"

definition move_reply :: "move_error \<Rightarrow> inv_reply" where
  "move_reply e = (case e of InvalidMovementType \<Rightarrow> InvErr 400 ''invalid_movement_type'' | InvalidQuantity \<Rightarrow> InvErr 400 ''invalid_quantity''
     | MissingField \<Rightarrow> InvErr 400 ''missing_field'')"

text \<open>The tenant of the claim replaces that of the body, which must not be another one.\<close>

definition append_as :: "(string \<Rightarrow> pg_numeric option) \<Rightarrow> inv_env \<Rightarrow> uuid option \<Rightarrow> AppendMovementRequest \<Rightarrow> inv_db \<Rightarrow> inv_reply \<times> inv_db" where
  "append_as numeric env claim req db =
     (case inv_tenant claim of
        Inl r \<Rightarrow> (r, db)
      | Inr tn \<Rightarrow>
          if amr_MerchantID req \<noteq> uuid_nil \<and> amr_MerchantID req \<noteq> tn then (InvErr 403 ''tenant_mismatch'', db)
          else (case ValidateAppendRequest (req\<lparr>amr_MerchantID := tn\<rparr>) of
              Inl e \<Rightarrow> (move_reply e, db)
            | Inr clean \<Rightarrow>
                (case AppendMovement numeric env clean (ive_now env) db of
                   (Inl _, db') \<Rightarrow> (InvErr 500 ''store_error'', db')
                 | (Inr (m, p), db') \<Rightarrow> (MovementOK m p, db'))))"

fun appendMovement :: "(string \<Rightarrow> pg_numeric option) \<Rightarrow> inv_env \<Rightarrow> uuid option \<Rightarrow> AppendMovementRequest req_body \<Rightarrow> inv_db \<Rightarrow> inv_reply \<times> inv_db" where
  "appendMovement numeric env claim (BodyJson req) db = append_as numeric env claim req db"
| "appendMovement numeric env claim _ db = (InvErr 400 ''invalid_json'', db)"

definition adjustment_request :: "AdjustmentRequest \<Rightarrow> AppendMovementRequest" where
  "adjustment_request r = \<lparr>amr_MerchantID = adj_MerchantID r, amr_ItemID = adj_ItemID r, amr_LocationID = adj_LocationID r, amr_ZoneID = None,
     amr_LotID = None, amr_MovementType = ''cycle_count_correction'', amr_Quantity = adj_Quantity r, amr_ReferenceID = None,
     amr_ReasonCode = adj_ReasonCode r, amr_PerformedByUserID = None, amr_SourceDocumentID = None, amr_SourceTransactionID = None,
     amr_CostBasis = adj_CostBasis r, amr_Attributes = RawText []\<rparr>"

fun appendAdjustment :: "(string \<Rightarrow> pg_numeric option) \<Rightarrow> inv_env \<Rightarrow> uuid option \<Rightarrow> AdjustmentRequest req_body \<Rightarrow> inv_db \<Rightarrow> inv_reply \<times> inv_db" where
  "appendAdjustment numeric env claim (BodyJson req) db = append_as numeric env claim (adjustment_request req) db"
| "appendAdjustment numeric env claim _ db = (InvErr 400 ''invalid_json'', db)"

definition listMovements ::
  "(string \<Rightarrow> uuid option) \<Rightarrow> inv_env \<Rightarrow> uuid option \<Rightarrow> string \<Rightarrow> string \<Rightarrow> time_arg \<Rightarrow> time_arg \<Rightarrow> string \<Rightarrow> string \<Rightarrow> inv_db \<Rightarrow> inv_reply" where
  "listMovements parse env claim item location t1 t2 page psize db =
     (let opt_time = (\<lambda>t. case t of TimeAt u \<Rightarrow> Some u | _ \<Rightarrow> None) in
      case inv_tenant claim of
        Inl r \<Rightarrow> r
      | Inr tn \<Rightarrow>
          (case parse item of
             None \<Rightarrow> InvErr 400 ''invalid_item_id''
           | Some i \<Rightarrow>
               (case parse location of
                  None \<Rightarrow> InvErr 400 ''invalid_location_id''
                | Some l \<Rightarrow>
                    if t1 = BadTime then InvErr 400 ''invalid_from''
                    else if t2 = BadTime then InvErr 400 ''invalid_to''
                    else (case pageSize page psize of (pg, sz) \<Rightarrow>
                        (case ListMovements env tn i l (opt_time t1) (opt_time t2) sz (page_offset pg sz) db of
                           Inl _ \<Rightarrow> InvErr 500 ''store_error''
                         | Inr rows \<Rightarrow> MovementList rows pg sz)))))"

fun inv_serve ::
  "(string \<Rightarrow> pg_numeric option) \<Rightarrow> (string \<Rightarrow> uuid option) \<Rightarrow> inv_env \<times> uuid option \<times> inv_request \<Rightarrow> inv_db \<Rightarrow> inv_reply \<times> inv_db" where
  "inv_serve numeric parse (env, claim, GetPositionReq item location) db = (getPosition parse env claim item location db, db)"
| "inv_serve numeric parse (env, claim, ListPositionsReq location item page psize) db = (listPositions parse env claim location item page psize db, db)"
| "inv_serve numeric parse (env, claim, PostMovement body) db = appendMovement numeric env claim body db"
| "inv_serve numeric parse (env, claim, ListMovementsReq item location t1 t2 page psize) db = (listMovements parse env claim item location t1 t2 page psize db, db)"
| "inv_serve numeric parse (env, claim, PostAdjustment body) db = appendAdjustment numeric env claim body db"

end
