(* ===== verification/Documents.thy ===== *)
theory Documents
  imports Inventory Lifecycle
begin

text \<open>
  Inventory documents and their lines (\<open>internal/inventory/document.go\<close>): the scoped reads and the two
  writes of the portal.  The report by lane is one aggregate query and is not modelled.
\<close>

record DocumentDTO =
  doc_ID :: uuid
  doc_TenantID :: uuid
  doc_DocumentType :: string
  doc_DocumentNumber :: string
  doc_SourceLocationID :: "uuid option"
  doc_DestinationLocationID :: "uuid option"
  doc_VendorID :: "uuid option"
  doc_RelatedOrderID :: "uuid option"
  doc_Status :: string
  doc_ExpectedAt :: "gotime option"
  doc_CompletedAt :: "gotime option"
  doc_TotalQuantity :: "pg_numeric option"
  doc_TotalCost :: "pg_numeric option"
  doc_PerformedByUserID :: "uuid option"
  doc_Attributes :: raw_message
  doc_CreatedAt :: gotime
  doc_UpdatedAt :: gotime

record DocumentLineDTO =
  dln_ID :: uuid
  dln_TenantID :: uuid
  dln_DocumentID :: uuid
  dln_LineNumber :: int
  dln_ItemID :: uuid
  dln_ExpectedQuantity :: "pg_numeric option"
  dln_ActualQuantity :: "pg_numeric option"
  dln_VarianceQuantity :: pg_numeric
  dln_VarianceReason :: "string option"
  dln_UnitCost :: "pg_numeric option"
  dln_LotID :: "uuid option"
  dln_Attributes :: raw_message
  dln_CreatedAt :: gotime
  dln_UpdatedAt :: gotime

record doc_db =
  dcb_documents :: "DocumentDTO list"
  dcb_lines :: "DocumentLineDTO list"

datatype doc_error = DocumentNotFound | DocFailed inv_call

definition TransferTypes :: "string list" where
  "TransferTypes = [''transfer_out'', ''transfer_in'']"

definition ListDocuments :: "inv_env \<Rightarrow> uuid \<Rightarrow> string list \<Rightarrow> string \<Rightarrow> int \<Rightarrow> doc_db \<Rightarrow> doc_error + DocumentDTO list" where
  "ListDocuments env tenantID types status limit db =
     (let limit = (if limit \<le> 0 \<or> 500 < limit then 100 else limit) in
      if ive_fails env ListDocumentsCall then Inl (DocFailed ListDocumentsCall)
      else Inr (take (nat limit) (sort_desc doc_CreatedAt (filter (\<lambda>d. doc_TenantID d = tenantID \<and> (types = [] \<or> doc_DocumentType d \<in> set types)
             \<and> (status = [] \<or> doc_Status d = status)) (dcb_documents db)))))"

definition doc_match :: "uuid \<Rightarrow> uuid \<Rightarrow> DocumentDTO \<Rightarrow> bool" where
  "doc_match tenantID i d \<longleftrightarrow> doc_TenantID d = tenantID \<and> doc_ID d = i"

definition GetDocument :: "inv_env \<Rightarrow> uuid \<Rightarrow> uuid \<Rightarrow> doc_db \<Rightarrow> doc_error + DocumentDTO" where
  "GetDocument env tenantID i db =
     (if ive_fails env GetDocumentCall then Inl (DocFailed GetDocumentCall)
      else case List.find (doc_match tenantID i) (dcb_documents db) of None \<Rightarrow> Inl DocumentNotFound | Some d \<Rightarrow> Inr d)"

definition ListDocumentLines :: "inv_env \<Rightarrow> uuid \<Rightarrow> uuid \<Rightarrow> doc_db \<Rightarrow> doc_error + DocumentLineDTO list" where
  "ListDocumentLines env tenantID documentID db =
     (if ive_fails env ListLinesCall then Inl (DocFailed ListLinesCall)
      else Inr (sort_key dln_LineNumber (filter (\<lambda>l. dln_TenantID l = tenantID \<and> dln_DocumentID l = documentID) (dcb_lines db))))"

definition with_status :: "gotime \<Rightarrow> string \<Rightarrow> uuid option \<Rightarrow> DocumentDTO \<Rightarrow> DocumentDTO" where
  "with_status now status performedBy d = d\<lparr>doc_Status := status,
     doc_PerformedByUserID := (case performedBy of None \<Rightarrow> doc_PerformedByUserID d | Some u \<Rightarrow> Some u),
     doc_CompletedAt := (if status = ''closed'' \<or> status = ''cancelled'' then case doc_CompletedAt d of None \<Rightarrow> Some now | Some t \<Rightarrow> Some t
       else doc_CompletedAt d),
     doc_UpdatedAt := now\<rparr>"

definition UpdateDocumentStatus :: "inv_env \<Rightarrow> uuid \<Rightarrow> uuid \<Rightarrow> string \<Rightarrow> uuid option \<Rightarrow> doc_db \<Rightarrow> (doc_error + DocumentDTO) \<times> doc_db" where
  "UpdateDocumentStatus env tenantID i status performedBy db =
     (if ive_fails env UpdateStatusCall then (Inl (DocFailed UpdateStatusCall), db)
      else case List.find (doc_match tenantID i) (dcb_documents db) of
          None \<Rightarrow> (Inl DocumentNotFound, db)
        | Some d \<Rightarrow> (Inr (with_status (ive_db_now env) status performedBy d),
            db\<lparr>dcb_documents := map (\<lambda>r. if doc_match tenantID i r then with_status (ive_db_now env) status performedBy r else r) (dcb_documents db)\<rparr>))"

definition MarkLineDiscrepancy :: "inv_env \<Rightarrow> uuid \<Rightarrow> uuid \<Rightarrow> string \<Rightarrow> doc_db \<Rightarrow> (doc_error + unit) \<times> doc_db" where
  "MarkLineDiscrepancy env tenantID lineID reason db =
     (let here = (\<lambda>l. dln_TenantID l = tenantID \<and> dln_ID l = lineID) in
      if ive_fails env MarkLineCall then (Inl (DocFailed MarkLineCall), db)
      else if \<not> list_ex here (dcb_lines db) then (Inl DocumentNotFound, db)
      else (Inr (), db\<lparr>dcb_lines := map (\<lambda>l. if here l then l\<lparr>dln_VarianceReason := Some reason, dln_UpdatedAt := ive_db_now env\<rparr> else l) (dcb_lines db)\<rparr>))"

datatype doc_op = SetStatus uuid uuid string "uuid option" | MarkLine uuid uuid string

fun doc_act :: "inv_env \<times> doc_op \<Rightarrow> doc_db \<Rightarrow> doc_db" where
  "doc_act (env, SetStatus tn i status by) db = snd (UpdateDocumentStatus env tn i status by db)"
| "doc_act (env, MarkLine tn i reason) db = snd (MarkLineDiscrepancy env tn i reason db)"

section \<open>Completion\<close>

definition completed_at :: "doc_db \<Rightarrow> uuid \<times> uuid \<Rightarrow> gotime option option" where
  "completed_at db k = map_option doc_CompletedAt (List.find (doc_match (fst k) (snd k)) (dcb_documents db))"

definition stamps :: "gotime option \<Rightarrow> gotime option \<Rightarrow> bool" where
  "stamps x y \<longleftrightarrow> x = None \<and> y \<noteq> None"

lemma doc_act_completed:
  assumes "completed_at db k = Some x"
  shows "\<exists>y. completed_at (doc_act e db) k = Some y \<and> (y = x \<or> stamps x y)"
proof -
  obtain env op where e: "e = (env, op)" by fastforce
  show ?thesis
  proof (cases op)
    case (MarkLine tn i reason)
    then have "dcb_documents (doc_act e db) = dcb_documents db" using e by (simp add: MarkLineDiscrepancy_def Let_def)
    then show ?thesis using assms by (auto simp: completed_at_def)
  next
    case (SetStatus tn i status performed)
    let ?f = "\<lambda>r. if doc_match tn i r then with_status (ive_db_now env) status performed r else r"
    obtain d where d: "List.find (doc_match (fst k) (snd k)) (dcb_documents db) = Some d" "x = doc_CompletedAt d"
      using assms by (auto simp: completed_at_def)
    have m: "doc_match tn' i' (?f r) = doc_match tn' i' r" for tn' i' r by (simp add: doc_match_def with_status_def)
    have "doc_act e db = db \<or> doc_act e db = db\<lparr>dcb_documents := map ?f (dcb_documents db)\<rparr>"
      unfolding e SetStatus doc_act.simps UpdateDocumentStatus_def by (simp split: option.split)
    then show ?thesis
    proof (rule disjE)
      assume "doc_act e db = db"
      then show ?thesis using assms by simp
    next
      assume "doc_act e db = db\<lparr>dcb_documents := map ?f (dcb_documents db)\<rparr>"
      then have "completed_at (doc_act e db) k = Some (doc_CompletedAt (?f d))"
        using d(1) by (simp add: completed_at_def find_map_same [where P = "doc_match (fst k) (snd k)" and f = ?f, OF m])
      then show ?thesis using d(2) by (auto simp: with_status_def stamps_def split: option.split)
    qed
  qed
qed

interpretation documents: lifecycle doc_act completed_at stamps "\<lambda>db. True"
  by unfold_locales (use doc_act_completed in auto)

text \<open>A document is stamped as completed once: later changes of its status, also reopening it, leave the time
  of its first completion.\<close>

theorem document_completed_once:
  assumes "completed_at db k = Some (Some t)"
  shows "completed_at (fold doc_act es db) k = Some (Some t)"
proof -
  have "documents.life_run es db = fold doc_act es db" for db by (induction es arbitrary: db) simp_all
  then show ?thesis using documents.run_final [of db k "Some t" es] assms by (simp add: stamps_def)
qed


definition toy_env0 :: inv_env where
  "toy_env0 = \<lparr>ive_now = 5000, ive_db_now = 7000, ive_fails = (\<lambda>c. False), ive_movement = 90, ive_position = 91\<rparr>"

definition toy_document :: DocumentDTO where
  "toy_document = \<lparr>doc_ID = 3, doc_TenantID = 1, doc_DocumentType = ''transfer_in'', doc_DocumentNumber = ''n'', doc_SourceLocationID = None,
     doc_DestinationLocationID = None, doc_VendorID = None, doc_RelatedOrderID = None, doc_Status = ''closed'', doc_ExpectedAt = None,
     doc_CompletedAt = Some 4000, doc_TotalQuantity = None, doc_TotalCost = None, doc_PerformedByUserID = None, doc_Attributes = RawText ''{}'',
     doc_CreatedAt = 0, doc_UpdatedAt = 4000\<rparr>"

theorem document_completed_once_witness:
  "completed_at (fold doc_act [(toy_env0, SetStatus 1 3 ''open'' None), (toy_env0, SetStatus 1 3 ''closed'' None)]
     \<lparr>dcb_documents = [toy_document], dcb_lines = []\<rparr>) (1, 3) = Some (Some 4000)"
  by (rule document_completed_once) (simp add: completed_at_def toy_document_def doc_match_def)

end
