(* ===== verification/Stock.thy ===== *)
theory Stock
  imports Inventory
begin

text \<open>
  What holds of the stock over any run of requests: every position is the balance of its movements, the
  movements only grow, and a tenant's requests touch its own rows only.
\<close>

section \<open>Balances\<close>

definition num_sum :: "pg_numeric list \<Rightarrow> pg_numeric" where
  "num_sum xs = (if NumNaN \<in> set xs then NumNaN else Num (sum_list (map (\<lambda>x. case x of Num n \<Rightarrow> n | NumNaN \<Rightarrow> 0) xs)))"

definition move_match :: "uuid \<Rightarrow> uuid \<Rightarrow> uuid \<Rightarrow> MovementDTO \<Rightarrow> bool" where
  "move_match tn i l m \<longleftrightarrow> ivm_TenantID m = tn \<and> ivm_ItemID m = i \<and> ivm_LocationID m = l"

definition moves_of :: "uuid \<Rightarrow> uuid \<Rightarrow> uuid \<Rightarrow> inv_db \<Rightarrow> MovementDTO list" where
  "moves_of tn i l db = filter (move_match tn i l) (ivd_movements db)"

text \<open>A position is there exactly when there are movements, and holds their sum and the time of the last one.\<close>

definition balanced :: "inv_db \<Rightarrow> uuid \<Rightarrow> uuid \<Rightarrow> uuid \<Rightarrow> bool" where
  "balanced db tn i l \<longleftrightarrow>
     (case List.find (position_match tn i l) (ivd_positions db) of
        None \<Rightarrow> moves_of tn i l db = []
      | Some p \<Rightarrow> moves_of tn i l db \<noteq> [] \<and> ivp_OnHand p = num_sum (map ivm_Delta (moves_of tn i l db))
          \<and> ivp_LastMovementAt p = Some (ivm_MovementAt (last (moves_of tn i l db))))"

definition stock_ok :: "inv_db \<Rightarrow> bool" where
  "stock_ok db \<longleftrightarrow> (\<forall>tn i l. balanced db tn i l)"

lemma num_sum_snoc: "num_add (num_sum xs) d = Some q \<Longrightarrow> num_sum (xs @ [d]) = q"
  by (cases d; cases "NumNaN \<in> set xs") (auto simp: num_sum_def split: if_splits)

lemma num_sum_single [simp]: "num_sum [d] = d"
  by (cases d) (simp_all add: num_sum_def)

lemma moved_position_match [simp]: "position_match tn i l (moved_position env q cost t p) = position_match tn i l p"
  by (simp add: position_match_def moved_position_def)

lemma moved_position_fields [simp]:
  "ivp_OnHand (moved_position env q cost t p) = q" "ivp_LastMovementAt (moved_position env q cost t p) = Some (trunc_us t)"
  "ivp_TenantID (moved_position env q cost t p) = ivp_TenantID p"
  by (simp_all add: moved_position_def)

lemma new_position_fields [simp]:
  "ivp_OnHand (new_position env req d cost t) = d" "ivp_LastMovementAt (new_position env req d cost t) = Some (trunc_us t)"
  "position_match tn i l (new_position env req d cost t) \<longleftrightarrow> (tn, i, l) = (amr_MerchantID req, amr_ItemID req, amr_LocationID req)"
  "ivp_TenantID (new_position env req d cost t) = amr_MerchantID req"
  by (auto simp: new_position_def position_match_def)

lemma movement_row_fields [simp]:
  "ivm_ID (movement_row env req d cost t) = ive_movement env" "ivm_Delta (movement_row env req d cost t) = d"
  "ivm_MovementAt (movement_row env req d cost t) = trunc_us t" "ivm_TenantID (movement_row env req d cost t) = amr_MerchantID req"
  "ivm_MovementType (movement_row env req d cost t) = amr_MovementType req"
  "move_match tn i l (movement_row env req d cost t) \<longleftrightarrow> (tn, i, l) = (amr_MerchantID req, amr_ItemID req, amr_LocationID req)"
  by (auto simp: movement_row_def move_match_def)

section \<open>One movement\<close>

text \<open>A call that fails changes nothing; one that succeeds appends its movement and upserts its position.\<close>

lemma AppendMovement_cases:
  obtains (failed) e where "AppendMovement numeric env req t db = (Inl e, db)"
  | (moved) d cost p rows where "numeric (amr_Quantity req) = Some d" "opt_numeric numeric (amr_CostBasis req) = Some cost"
      "ive_movement env \<notin> ivm_ID ` set (ivd_movements db)" "upsert_position env req d cost t (ivd_positions db) = Some (p, rows)"
      "AppendMovement numeric env req t db = (Inr (movement_row env req d cost t, p),
          db\<lparr>ivd_movements := ivd_movements db @ [movement_row env req d cost t], ivd_positions := rows\<rparr>)"
proof (cases "\<exists>e. AppendMovement numeric env req t db = (Inl e, db)")
  case True
  then show ?thesis using failed by blast
next
  case False
  obtain d cost where dc: "numeric (amr_Quantity req) = Some d" "opt_numeric numeric (amr_CostBasis req) = Some cost"
    using False by (auto simp: AppendMovement_def split: if_splits option.splits)
  obtain p rows where u: "upsert_position env req d cost t (ivd_positions db) = Some (p, rows)"
    using False dc by (auto simp: AppendMovement_def split: if_splits option.splits)
  have f: "\<not> ive_fails env AppendBegin" "\<not> (ive_fails env InsertMovement \<or> list_ex (\<lambda>m. ivm_ID m = ive_movement env) (ivd_movements db))"
    "\<not> ive_fails env UpsertPosition" "\<not> ive_fails env AppendCommit"
    using False dc u by (auto simp: AppendMovement_def split: if_splits)
  have r: "AppendMovement numeric env req t db = (Inr (movement_row env req d cost t, p),
          db\<lparr>ivd_movements := ivd_movements db @ [movement_row env req d cost t], ivd_positions := rows\<rparr>)"
    using f dc u by (simp add: AppendMovement_def)
  have "ive_movement env \<notin> ivm_ID ` set (ivd_movements db)" using f(2) by (auto simp: list_ex_iff)
  then show ?thesis using moved dc u r by blast
qed

lemma find_snoc_position:
  "List.find P (xs @ [x]) = (case List.find P xs of Some y \<Rightarrow> Some y | None \<Rightarrow> if P x then Some x else None)"
  by (induction xs) auto

lemma upsert_position_at:
  assumes "upsert_position env req d cost t rows = Some (p, rows')"
  defines "here \<equiv> position_match (amr_MerchantID req) (amr_ItemID req) (amr_LocationID req)"
  shows "List.find here rows' = Some p \<and> ivp_LastMovementAt p = Some (trunc_us t) \<and> here p
    \<and> (case List.find here rows of None \<Rightarrow> ivp_OnHand p = d | Some p0 \<Rightarrow> num_add (ivp_OnHand p0) d = Some (ivp_OnHand p))"
proof (cases "List.find here rows")
  case None
  then show ?thesis using assms(1) unfolding upsert_position_def here_def [symmetric]
    by (auto simp: find_snoc_position here_def split: if_splits)
next
  case (Some p0)
  have P: "here p0" using Some by (auto simp: find_Some_iff)
  have P': "here (moved_position env q cost t r) = here r" for q r by (simp add: here_def)
  obtain q where q: "num_add (ivp_OnHand p0) d = Some q" "p = moved_position env q cost t p0"
      "rows' = map (\<lambda>r. if here r then moved_position env q cost t r else r) rows"
    using assms(1) Some unfolding upsert_position_def here_def [symmetric] by (auto split: option.splits)
  have "List.find here rows' = Some p" using Some P P' by (simp add: q(2,3) find_map_same)
  then show ?thesis using q Some P P' by simp
qed

lemma upsert_position_elsewhere:
  assumes "upsert_position env req d cost t rows = Some (p, rows')"
    and "(tn, i, l) \<noteq> (amr_MerchantID req, amr_ItemID req, amr_LocationID req)"
  shows "List.find (position_match tn i l) rows' = List.find (position_match tn i l) rows"
proof -
  let ?here = "position_match (amr_MerchantID req) (amr_ItemID req) (amr_LocationID req)"
  show ?thesis
  proof (cases "List.find ?here rows")
    case None
    then show ?thesis using assms unfolding upsert_position_def Let_def
      by (auto simp: find_snoc_position split: if_splits option.splits)
  next
    case (Some p0)
    then obtain q where rows': "rows' = map (\<lambda>r. if ?here r then moved_position env q cost t r else r) rows"
      using assms(1) unfolding upsert_position_def Let_def by (auto split: option.splits)
    have "\<not> ?here r" if "position_match tn i l r" for r using that assms(2) by (auto simp: position_match_def)
    moreover have "List.find (position_match tn i l) rows' = map_option (\<lambda>r. if ?here r then moved_position env q cost t r else r) (List.find (position_match tn i l) rows)"
      unfolding rows' by (rule find_map_same) simp
    moreover have "position_match tn i l r" if "List.find (position_match tn i l) rows = Some r" for r
      using that by (auto simp: find_Some_iff)
    ultimately show ?thesis by (cases "List.find (position_match tn i l) rows") auto
  qed
qed

lemma AppendMovement_stock_ok:
  assumes "stock_ok db" shows "stock_ok (snd (AppendMovement numeric env req t db))"
proof (cases numeric env req t db rule: AppendMovement_cases)
  case (failed e)
  then show ?thesis using assms by simp
next
  case (moved d cost p rows)
  let ?m = "movement_row env req d cost t" and ?db = "snd (AppendMovement numeric env req t db)"
  have "balanced ?db tn i l" for tn i l
  proof (cases "(tn, i, l) = (amr_MerchantID req, amr_ItemID req, amr_LocationID req)")
    case True
    have old: "balanced db tn i l" using assms by (simp add: stock_ok_def)
    have new: "moves_of tn i l ?db = moves_of tn i l db @ [?m]" using True by (simp add: moves_of_def moved)
    note at = upsert_position_at [OF moved(4)]
    show ?thesis using True old at moved(5) unfolding balanced_def new
      by (auto simp: num_sum_snoc split: option.splits)
  next
    case False
    have new: "moves_of tn i l ?db = moves_of tn i l db" using False by (auto simp: moves_of_def moved)
    show ?thesis using assms upsert_position_elsewhere [OF moved(4) False] unfolding stock_ok_def balanced_def new by (simp add: moved(5))
  qed
  then show ?thesis by (simp add: stock_ok_def)
qed

section \<open>Runs of requests\<close>

definition inv_run ::
  "(string \<Rightarrow> pg_numeric option) \<Rightarrow> (string \<Rightarrow> uuid option) \<Rightarrow> (inv_env \<times> uuid option \<times> inv_request) list \<Rightarrow> inv_db \<Rightarrow> inv_db" where
  "inv_run numeric parse es db = fold (\<lambda>e db. snd (inv_serve numeric parse e db)) es db"

lemma inv_run_simps [simp]:
  "inv_run numeric parse [] db = db"
  "inv_run numeric parse (e # es) db = inv_run numeric parse es (snd (inv_serve numeric parse e db))"
  by (simp_all add: inv_run_def)

text \<open>A request changes nothing or appends one movement for the tenant of its claim.\<close>

lemma append_as_cases:
  obtains (unchanged) "snd (append_as numeric env claim req db) = db"
  | (appended) tn clean where "claim = Some tn" "tn \<noteq> uuid_nil" "amr_MerchantID clean = tn" "ValidateAppendRequest (req\<lparr>amr_MerchantID := tn\<rparr>) = Inr clean"
      "snd (append_as numeric env claim req db) = snd (AppendMovement numeric env clean (ive_now env) db)"
proof (cases "\<exists>tn clean. inv_tenant claim = Inr tn \<and> \<not> (amr_MerchantID req \<noteq> uuid_nil \<and> amr_MerchantID req \<noteq> tn)
    \<and> ValidateAppendRequest (req\<lparr>amr_MerchantID := tn\<rparr>) = Inr clean")
  case True
  then obtain tn clean where c: "inv_tenant claim = Inr tn" "\<not> (amr_MerchantID req \<noteq> uuid_nil \<and> amr_MerchantID req \<noteq> tn)"
    "ValidateAppendRequest (req\<lparr>amr_MerchantID := tn\<rparr>) = Inr clean" by blast
  have "amr_MerchantID clean = tn" using c(3) by (auto simp: ValidateAppendRequest_def Let_def split: if_splits prod.splits option.splits)
  moreover have "claim = Some tn" "tn \<noteq> uuid_nil" using c(1) by (auto simp: inv_tenant_def split: option.splits if_splits)
  moreover have "snd (append_as numeric env claim req db) = snd (AppendMovement numeric env clean (ive_now env) db)"
    using c unfolding append_as_def by (auto split: prod.split sum.split)
  ultimately show ?thesis using appended c(3) by blast
next
  case False
  then have "snd (append_as numeric env claim req db) = db" unfolding append_as_def by (auto split: sum.split)
  then show ?thesis by (rule unchanged)
qed

lemma inv_serve_cases:
  obtains (unchanged) "snd (inv_serve numeric parse (env, claim, q) db) = db"
  | (appended) tn req where "claim = Some tn" "amr_MerchantID req = tn"
      "snd (inv_serve numeric parse (env, claim, q) db) = snd (AppendMovement numeric env req (ive_now env) db)"
proof (cases q)
  case (PostMovement body)
  show ?thesis
  proof (cases body)
    case (BodyJson r)
    show ?thesis by (rule append_as_cases [of numeric env claim r db]) (use PostMovement BodyJson unchanged appended in auto)
  qed (use PostMovement unchanged in auto)
next
  case (PostAdjustment body)
  show ?thesis
  proof (cases body)
    case (BodyJson r)
    show ?thesis by (rule append_as_cases [of numeric env claim "adjustment_request r" db]) (use PostAdjustment BodyJson unchanged appended in auto)
  qed (use PostAdjustment unchanged in auto)
qed (use unchanged in auto)

lemma inv_run_keeps:
  assumes step: "\<And>env req db. I db \<Longrightarrow> amr_MerchantID req \<in> T \<Longrightarrow> I (snd (AppendMovement numeric env req (ive_now env) db))"
    and "I db" and "\<forall>(env, claim, q) \<in> set es. \<forall>tn. claim = Some tn \<longrightarrow> tn \<in> T"
  shows "I (inv_run numeric parse es db)"
  using assms(2,3)
proof (induction es arbitrary: db)
  case (Cons e es)
  obtain env claim q where e: "e = (env, claim, q)" using prod_cases3 by blast
  have "I (snd (inv_serve numeric parse e db))"
    unfolding e by (rule inv_serve_cases [of numeric parse env claim q db]) (use Cons.prems step e in auto)
  then show ?case using Cons by simp
qed simp

text \<open>C18: The cached position of an item at a location is the balance of its movements, whatever was
  requested before.\<close>

theorem position_is_balance:
  assumes "stock_ok db" "\<not> ive_fails env GetPositionCall"
  shows "case GetPosition env tn i l (inv_run numeric parse es db) of
      Inl e \<Rightarrow> e = PositionNotFound \<and> moves_of tn i l (inv_run numeric parse es db) = []
    | Inr p \<Rightarrow> position_match tn i l p \<and> ivp_OnHand p = num_sum (map ivm_Delta (moves_of tn i l (inv_run numeric parse es db)))
        \<and> ivp_LastMovementAt p = Some (ivm_MovementAt (last (moves_of tn i l (inv_run numeric parse es db))))"
proof -
  have "stock_ok (inv_run numeric parse es db)"
    by (rule inv_run_keeps [where T = UNIV]) (use assms AppendMovement_stock_ok in auto)
  then have "balanced (inv_run numeric parse es db) tn i l" by (simp add: stock_ok_def)
  moreover have "position_match tn i l p" if "List.find (position_match tn i l) ps = Some p" for p ps
    using that by (auto simp: find_Some_iff)
  ultimately show ?thesis using assms(2) by (auto simp: balanced_def GetPosition_def split: option.split)
qed


text \<open>The movements only grow, and the rows of a tenant are touched by requests with its claim only.\<close>

lemma AppendMovement_other_tenant:
  assumes "amr_MerchantID req \<noteq> tn"
  shows "filter (\<lambda>m. ivm_TenantID m = tn) (ivd_movements (snd (AppendMovement numeric env req t db))) = filter (\<lambda>m. ivm_TenantID m = tn) (ivd_movements db)
    \<and> filter (\<lambda>p. ivp_TenantID p = tn) (ivd_positions (snd (AppendMovement numeric env req t db))) = filter (\<lambda>p. ivp_TenantID p = tn) (ivd_positions db)"
proof (cases numeric env req t db rule: AppendMovement_cases)
  case (moved d cost p rows)
  let ?here = "position_match (amr_MerchantID req) (amr_ItemID req) (amr_LocationID req)"
  have "filter (\<lambda>p. ivp_TenantID p = tn) (map (\<lambda>r. if ?here r then moved_position env q cost t r else r) ps) = filter (\<lambda>p. ivp_TenantID p = tn) ps" for q ps
    using assms by (induction ps) (auto simp: position_match_def)
  then have "filter (\<lambda>p. ivp_TenantID p = tn) rows = filter (\<lambda>p. ivp_TenantID p = tn) (ivd_positions db)"
    using moved(4) assms unfolding upsert_position_def Let_def by (auto split: option.splits if_splits)
  then show ?thesis using moved(5) assms by simp
qed simp

theorem stock_tenant_isolated:
  assumes "\<forall>(env, claim, q) \<in> set es. claim \<noteq> Some tn"
  shows "filter (\<lambda>m. ivm_TenantID m = tn) (ivd_movements (inv_run numeric parse es db)) = filter (\<lambda>m. ivm_TenantID m = tn) (ivd_movements db)
    \<and> filter (\<lambda>p. ivp_TenantID p = tn) (ivd_positions (inv_run numeric parse es db)) = filter (\<lambda>p. ivp_TenantID p = tn) (ivd_positions db)"
  by (rule inv_run_keeps [where T = "- {tn}"]) (use AppendMovement_other_tenant assms in auto)

text \<open>A position whose sum is NaN stays NaN: every further movement of the item at the location is lost in it.\<close>

lemma nan_position_stuck:
  assumes "stock_ok db" "List.find (position_match tn i l) (ivd_positions db) = Some p" "ivp_OnHand p = NumNaN"
  shows "\<exists>p'. List.find (position_match tn i l) (ivd_positions (snd (AppendMovement numeric env req t db))) = Some p' \<and> ivp_OnHand p' = NumNaN"
proof (cases numeric env req t db rule: AppendMovement_cases)
  case (moved d cost q rows)
  have nan: "num_add NumNaN d = Some NumNaN" by (cases d) auto
  show ?thesis
  proof (cases "(tn, i, l) = (amr_MerchantID req, amr_ItemID req, amr_LocationID req)")
    case True
    then show ?thesis using upsert_position_at [OF moved(4)] assms(2,3) moved(5) nan by auto
  qed (use upsert_position_elsewhere [OF moved(4)] assms moved(5) in auto)
qed (use assms in auto)

section \<open>Reading back\<close>

text \<open>The text of a quantity shows whether it is zero or negative.\<close>

definition isZeroOrNegative :: "string \<Rightarrow> bool" where
  "isZeroOrNegative qty = (case qty of [] \<Rightarrow> True | c # cs \<Rightarrow> c = CHR ''-'' \<or> list_all (\<lambda>ch. ch = CHR ''.'' \<or> ch = CHR ''0'') (c # cs))"

lemma all_zero_digits: "list_all is_digit s \<Longrightarrow> list_all (\<lambda>ch. ch = CHR ''.'' \<or> ch = CHR ''0'') s \<longleftrightarrow> digits_val 0 s = 0"
proof (induction s)
  case (Cons c s)
  have z: "c = CHR ''0'' \<longleftrightarrow> of_char c - 48 = (0 :: nat)" if "is_digit c"
  proof -
    have "(of_char c :: nat) = of_char (CHR ''0'') \<longleftrightarrow> c = CHR ''0''" by (simp only: of_char_eq_iff)
    then show ?thesis using that by (auto simp: is_digit_def)
  qed
  show ?case using Cons z is_digit_not_special(2) [of c] digits_val_acc [of "of_char c - 48" s] by auto
qed simp

theorem isZeroOrNegative_correct: "isZeroOrNegative (num_text (Num n)) \<longleftrightarrow> n \<le> 0"
proof (cases "n < 0")
  case True
  then show ?thesis by (simp add: isZeroOrNegative_def fmt_fixed_def)
next
  case False
  let ?a = "dec_nat (nat n div 10 ^ 4)" and ?b = "fmt_pad 4 (nat n mod 10 ^ 4)"
  have t: "num_text (Num n) = ?a @ ''.'' @ ?b" using False by (simp add: fmt_fixed_def)
  obtain c cs where c: "?a = c # cs" by (cases ?a) auto
  have d: "is_digit c" using c dec_nat_digits [of "nat n div 10 ^ 4"] by simp
  have "isZeroOrNegative (num_text (Num n)) \<longleftrightarrow> list_all (\<lambda>ch. ch = CHR ''.'' \<or> ch = CHR ''0'') (?a @ ''.'' @ ?b)"
    unfolding t using c is_digit_not_special(3) [OF d] by (simp add: isZeroOrNegative_def)
  also have "\<dots> \<longleftrightarrow> nat n div 10 ^ 4 = 0 \<and> nat n mod 10 ^ 4 = 0"
    using all_zero_digits [OF dec_nat_digits, of "nat n div 10 ^ 4"] all_zero_digits [OF fmt_pad_digits, of 4 "nat n mod 10 ^ 4"]
    by (simp only: list_all_append digits_val_dec_nat digits_val_fmt_pad) simp
  also have "\<dots> \<longleftrightarrow> nat n = 0" by (metis div_0 div_mult_mod_eq mod_0 mult_zero_left add.right_neutral)
  finally show ?thesis using False by simp
qed

text \<open>What an accepted movement reports is what the position reads afterwards, and the movement is the last
  of the log, with the text of the request as its quantity.\<close>

theorem movement_reads_back:
  assumes "inv_serve numeric parse (env, Some tn, PostMovement (BodyJson req)) db = (MovementOK m p, db')"
    and "parse item = Some (amr_ItemID req)" "parse loc = Some (amr_LocationID req)" "\<not> ive_fails env' GetPositionCall"
  shows "inv_serve numeric parse (env', Some tn, GetPositionReq item loc) db' = (PositionOK p, db')
    \<and> ivd_movements db' = ivd_movements db @ [m] \<and> Some (ivm_Delta m) = numeric (trim_space (amr_Quantity req))
    \<and> ivm_TenantID m = tn \<and> ivm_MovementType m \<in> MovementTypes"
proof -
  obtain clean where v: "tn \<noteq> uuid_nil" "ValidateAppendRequest (req\<lparr>amr_MerchantID := tn\<rparr>) = Inr clean"
      "AppendMovement numeric env clean (ive_now env) db = (Inr (m, p), db')"
    using assms(1) by (auto simp: append_as_def inv_tenant_def move_reply_def split: if_splits sum.splits prod.splits move_error.splits)
  have clean: "amr_MerchantID clean = tn" "amr_ItemID clean = amr_ItemID req" "amr_LocationID clean = amr_LocationID req"
      "amr_Quantity clean = trim_space (amr_Quantity req)" "amr_MovementType clean \<in> MovementTypes"
    using v(2) by (auto simp: ValidateAppendRequest_def Let_def split: if_splits prod.splits option.splits)
  show ?thesis
  proof (cases numeric env clean "ive_now env" db rule: AppendMovement_cases)
    case (moved d cost q rows)
    then have e: "m = movement_row env clean d cost (ive_now env)" "p = q" "db' = db\<lparr>ivd_movements := ivd_movements db @ [m], ivd_positions := rows\<rparr>"
      using v(3) by auto
    have "List.find (position_match tn (amr_ItemID req) (amr_LocationID req)) (ivd_positions db') = Some p"
      using upsert_position_at [OF moved(4)] e clean by simp
    then show ?thesis using assms(2-4) v(1) e clean moved(1) by (simp add: getPosition_def inv_tenant_def GetPosition_def)
  qed (use v(3) in simp)
qed

section \<open>A sample stock\<close>

text \<open>A reader of the texts the database prints.\<close>

definition toy_numeric :: "string \<Rightarrow> pg_numeric option" where
  "toy_numeric s =
     (let (neg, t) = (case s of c # t \<Rightarrow> if c = CHR ''-'' then (True, t) else (False, s) | [] \<Rightarrow> (False, [])); a = takeWhile is_digit t; b = dropWhile is_digit t in
      if a \<noteq> [] \<and> length b = 5 \<and> hd b = CHR ''.'' \<and> list_all is_digit (tl b) \<and> num_fits (int (digits_val 0 (a @ tl b))) then
        Some (Num (if neg then - int (digits_val 0 (a @ tl b)) else int (digits_val 0 (a @ tl b))))
      else None)"

lemma empty_stock_ok: "stock_ok \<lparr>ivd_positions = [], ivd_movements = []\<rparr>"
  by (simp add: stock_ok_def balanced_def moves_of_def)

definition toy_stock_env :: inv_env where
  "toy_stock_env = \<lparr>ive_now = 5000, ive_db_now = 7000, ive_fails = (\<lambda>c. False), ive_movement = 90, ive_position = 50\<rparr>"

definition toy_move :: AppendMovementRequest where
  "toy_move = \<lparr>amr_MerchantID = 0, amr_ItemID = 2, amr_LocationID = 3, amr_ZoneID = None, amr_LotID = None, amr_MovementType = ''goods_receipt'',
     amr_Quantity = fmt_fixed 4 25000, amr_ReferenceID = None, amr_ReasonCode = None, amr_PerformedByUserID = None, amr_SourceDocumentID = None,
     amr_SourceTransactionID = None, amr_CostBasis = None, amr_Attributes = RawText []\<rparr>"

definition toy_ids2 :: "string \<Rightarrow> uuid option" where
  "toy_ids2 s = (if s = ''i'' then Some 2 else if s = ''l'' then Some 3 else None)"

lemma fmt_fixed_25000: "fmt_fixed 4 25000 = ''2.5000''"
  by (simp add: fmt_fixed_def fmt_pad_def dec_nat.simps digit_char_def char_of_def bit_iff_odd)

lemma toy_texts_trimmed: "trim_space ''2.5000'' = ''2.5000''" "trim_space ''goods_receipt'' = ''goods_receipt''"
  by (rule trim_space_id; use space_byte_code in fastforce)+

lemma toy_move_valid: "ValidateAppendRequest (toy_move\<lparr>amr_MerchantID := 1\<rparr>) = Inr (toy_move\<lparr>amr_MerchantID := 1\<rparr>)"
proof -
  have r: "rnd (5 / 2) \<noteq> 0" "rnd (5 / 2) < 2 ^ 1024" by (simp add: rnd_def rat_log2_def scale2_def, code_simp)+
  have p: "ParseFloat (fmt_fixed 4 25000) = (Finite (rnd (5 / 2)), None)"
    using ParseFloat_fixed [of 4 25000] r by simp
  have t: "trim_space (fmt_fixed 4 25000) = fmt_fixed 4 25000" "trim_space ''goods_receipt'' = ''goods_receipt''"
    unfolding fmt_fixed_25000 by (rule toy_texts_trimmed)+
  show ?thesis using r(1) p t fmt_fixed_25000 by (simp add: ValidateAppendRequest_def toy_move_def MovementTypes_def)
qed

theorem position_is_balance_witness:
  "case GetPosition toy_stock_env 1 2 3 (inv_run toy_numeric toy_ids2 [(toy_stock_env, Some 1, PostMovement (BodyJson toy_move))] \<lparr>ivd_positions = [], ivd_movements = []\<rparr>) of
      Inl e \<Rightarrow> e = PositionNotFound \<and> moves_of 1 2 3 (inv_run toy_numeric toy_ids2 [(toy_stock_env, Some 1, PostMovement (BodyJson toy_move))] \<lparr>ivd_positions = [], ivd_movements = []\<rparr>) = []
    | Inr p \<Rightarrow> ivp_OnHand p = num_sum (map ivm_Delta (moves_of 1 2 3 (inv_run toy_numeric toy_ids2 [(toy_stock_env, Some 1, PostMovement (BodyJson toy_move))] \<lparr>ivd_positions = [], ivd_movements = []\<rparr>)))"
  using position_is_balance [OF empty_stock_ok, of toy_stock_env 1 2 3 toy_numeric toy_ids2 "[(toy_stock_env, Some 1, PostMovement (BodyJson toy_move))]"]
  by (simp add: toy_stock_env_def split: sum.splits)

theorem stock_tenant_isolated_witness:
  "filter (\<lambda>m. ivm_TenantID m = 2) (ivd_movements (inv_run toy_numeric toy_ids2 [(toy_stock_env, Some 1, PostMovement (BodyJson toy_move))] \<lparr>ivd_positions = [], ivd_movements = []\<rparr>)) = []"
  using stock_tenant_isolated [of "[(toy_stock_env, Some 1, PostMovement (BodyJson toy_move))]" 2 toy_numeric toy_ids2 "\<lparr>ivd_positions = [], ivd_movements = []\<rparr>"] by simp

theorem movement_reads_back_witness:
  "\<exists>m p db'. inv_serve toy_numeric toy_ids2 (toy_stock_env, Some 1, PostMovement (BodyJson toy_move)) \<lparr>ivd_positions = [], ivd_movements = []\<rparr> = (MovementOK m p, db')
    \<and> inv_serve toy_numeric toy_ids2 (toy_stock_env, Some 1, GetPositionReq ''i'' ''l'') db' = (PositionOK p, db') \<and> ivm_Delta m = Num 25000"
proof -
  have n: "toy_numeric (amr_Quantity toy_move) = Some (Num 25000)" 
    by (simp add: toy_move_def fmt_fixed_25000 toy_numeric_def is_digit_def num_fits_def)
  obtain m p db' where s: "inv_serve toy_numeric toy_ids2 (toy_stock_env, Some 1, PostMovement (BodyJson toy_move)) \<lparr>ivd_positions = [], ivd_movements = []\<rparr> = (MovementOK m p, db')"
    using n toy_move_valid by (simp add: append_as_def inv_tenant_def AppendMovement_def toy_stock_env_def opt_numeric_def upsert_position_def toy_move_def)
  have t: "trim_space (amr_Quantity toy_move) = amr_Quantity toy_move"
    by (simp add: toy_move_def fmt_fixed_25000 toy_texts_trimmed)
  have "toy_ids2 ''i'' = Some (amr_ItemID toy_move)" "toy_ids2 ''l'' = Some (amr_LocationID toy_move)" "\<not> ive_fails toy_stock_env GetPositionCall"
    by (simp_all add: toy_ids2_def toy_move_def toy_stock_env_def)
  from movement_reads_back [OF s this] show ?thesis using s n t by auto
qed

end
