(* ===== verification/SaleConsumer.thy ===== *)
theory SaleConsumer
  imports Stock
begin

text \<open>
  The consumer of sold lines (\<open>internal/inventory/consumer.go\<close>): each tick fetches unlinked lines, appends a
  movement for each, links the line to it and signals an empty shelf on the stream of replenishments.  The
  movement and the link are two transactions, so the link may fail alone; the row locks of the fetch end with
  its statement.  A line is the row with the location of its transaction.
\<close>

record SaleLine =
  usl_ID :: uuid
  usl_TenantID :: uuid
  usl_ItemID :: "uuid option"
  usl_LocationID :: uuid
  usl_Quantity :: pg_numeric
  usl_IsReturn :: bool
  usl_IsVoid :: bool
  usl_CostBasis :: "pg_numeric option"
  usl_MovementID :: "uuid option"
  usl_CreatedAt :: gotime

text \<open>What the fetch projects.\<close>

record unlinkedLine =
  ul_lineID :: uuid
  ul_tenantID :: uuid
  ul_itemID :: uuid
  ul_locationID :: uuid
  ul_quantity :: string
  ul_isReturn :: bool
  ul_costBasis :: "string option"

text \<open>The fields of a signal.\<close>

record replenish_msg =
  rpm_tenant_id :: string
  rpm_item_id :: string
  rpm_location_id :: string
  rpm_soh :: string

record shelf_state =
  shs_db :: inv_db
  shs_lines :: "SaleLine list"
  shs_stream :: "replenish_msg stream"

definition eligible :: "SaleLine \<Rightarrow> bool" where
  "eligible l \<longleftrightarrow> usl_MovementID l = None \<and> \<not> usl_IsVoid l \<and> usl_ItemID l \<noteq> None"

definition project_line :: "SaleLine \<Rightarrow> unlinkedLine" where
  "project_line l = \<lparr>ul_lineID = usl_ID l, ul_tenantID = usl_TenantID l, ul_itemID = the (usl_ItemID l), ul_locationID = usl_LocationID l,
     ul_quantity = num_text (usl_Quantity l), ul_isReturn = usl_IsReturn l, ul_costBasis = map_option num_text (usl_CostBasis l)\<rparr>"

definition fetchUnlinked :: "inv_env \<Rightarrow> SaleLine list \<Rightarrow> inv_error + unlinkedLine list" where
  "fetchUnlinked env lines =
     (if ive_fails env FetchUnlinked then Inl (InvFailed FetchUnlinked)
      else Inr (map project_line (take 100 (sort_key usl_CreatedAt (filter eligible lines)))))"

definition line_request :: "unlinkedLine \<Rightarrow> AppendMovementRequest" where
  "line_request l = \<lparr>amr_MerchantID = ul_tenantID l, amr_ItemID = ul_itemID l, amr_LocationID = ul_locationID l, amr_ZoneID = None, amr_LotID = None,
     amr_MovementType = (if ul_isReturn l then ''return'' else ''sale''),
     amr_Quantity = (if ul_isReturn l then ul_quantity l else ''-'' @ ul_quantity l), amr_ReferenceID = None, amr_ReasonCode = None,
     amr_PerformedByUserID = None, amr_SourceDocumentID = None, amr_SourceTransactionID = None, amr_CostBasis = ul_costBasis l,
     amr_Attributes = RawText []\<rparr>"

definition linkMovement :: "inv_env \<Rightarrow> uuid \<Rightarrow> uuid \<Rightarrow> SaleLine list \<Rightarrow> (inv_error + unit) \<times> SaleLine list" where
  "linkMovement env lineID movID lines =
     (if ive_fails env LinkMovement then (Inl (InvFailed LinkMovement), lines)
      else (Inr (), map (\<lambda>l. if usl_ID l = lineID then l\<lparr>usl_MovementID := Some movID\<rparr> else l) lines))"

definition emitReplenish :: "(uuid \<Rightarrow> string) \<Rightarrow> inv_env \<Rightarrow> unlinkedLine \<Rightarrow> string \<Rightarrow> replenish_msg stream \<Rightarrow> replenish_msg stream" where
  "emitReplenish uuid_str env l soh s =
     (if ive_fails env EmitReplenish then s
      else xadd \<lparr>rpm_tenant_id = uuid_str (ul_tenantID l), rpm_item_id = uuid_str (ul_itemID l), rpm_location_id = uuid_str (ul_locationID l), rpm_soh = soh\<rparr> s)"

definition processLine ::
  "(string \<Rightarrow> pg_numeric option) \<Rightarrow> (uuid \<Rightarrow> string) \<Rightarrow> inv_env \<Rightarrow> unlinkedLine \<Rightarrow> shelf_state \<Rightarrow> (inv_error + unit) \<times> shelf_state" where
  "processLine numeric uuid_str env l st =
     (case AppendMovement numeric env (line_request l) (ive_now env) (shs_db st) of
        (Inl e, db) \<Rightarrow> (Inl e, st\<lparr>shs_db := db\<rparr>)
      | (Inr (mov, pos), db) \<Rightarrow>
          (case linkMovement env (ul_lineID l) (ivm_ID mov) (shs_lines st) of
             (Inl e, lines) \<Rightarrow> (Inl e, st\<lparr>shs_db := db, shs_lines := lines\<rparr>)
           | (Inr _, lines) \<Rightarrow>
               (Inr (), st\<lparr>shs_db := db, shs_lines := lines,
                  shs_stream := (if isZeroOrNegative (num_text (ivp_OnHand pos)) \<and> \<not> ul_isReturn l
                     then emitReplenish uuid_str env l (num_text (ivp_OnHand pos)) (shs_stream st) else shs_stream st)\<rparr>)))"

text \<open>A tick; the \<open>k\<close>-th line of the batch is processed in environment \<open>k + 1\<close>.\<close>

fun process_lines ::
  "(string \<Rightarrow> pg_numeric option) \<Rightarrow> (uuid \<Rightarrow> string) \<Rightarrow> (nat \<Rightarrow> inv_env) \<Rightarrow> nat \<Rightarrow> unlinkedLine list \<Rightarrow> shelf_state \<Rightarrow> shelf_state" where
  "process_lines numeric uuid_str envs k [] st = st"
| "process_lines numeric uuid_str envs k (l # ls) st =
     process_lines numeric uuid_str envs (Suc k) ls (snd (processLine numeric uuid_str (envs k) l st))"

definition shelf_tick :: "(string \<Rightarrow> pg_numeric option) \<Rightarrow> (uuid \<Rightarrow> string) \<Rightarrow> (nat \<Rightarrow> inv_env) \<Rightarrow> shelf_state \<Rightarrow> (inv_error + unit) \<times> shelf_state" where
  "shelf_tick numeric uuid_str envs st =
     (case fetchUnlinked (envs 0) (shs_lines st) of
        Inl e \<Rightarrow> (Inl e, st)
      | Inr ls \<Rightarrow> (Inr (), process_lines numeric uuid_str envs 1 ls st))"

section \<open>Each line moves stock once\<close>

text \<open>What the database reads of the texts it prints.\<close>

definition reads_back :: "(string \<Rightarrow> pg_numeric option) \<Rightarrow> bool" where
  "reads_back numeric \<longleftrightarrow> (\<forall>n. num_fits n \<and> 0 \<le> n \<longrightarrow> numeric (num_text (Num n)) = Some (Num n) \<and> numeric (''-'' @ num_text (Num n)) = Some (Num (- n)))"

definition line_delta :: "SaleLine \<Rightarrow> int \<Rightarrow> int" where
  "line_delta l n = (if usl_IsReturn l then n else - n)"

text \<open>The movement of a linked line: of its item at its location, with its quantity taken or returned.\<close>

definition moved_for :: "SaleLine \<Rightarrow> MovementDTO \<Rightarrow> bool" where
  "moved_for l m \<longleftrightarrow> usl_MovementID l = Some (ivm_ID m) \<and> ivm_TenantID m = usl_TenantID l \<and> usl_ItemID l = Some (ivm_ItemID m)
     \<and> ivm_LocationID m = usl_LocationID l \<and> ivm_MovementType m = (if usl_IsReturn l then ''return'' else ''sale'')
     \<and> (\<forall>n. usl_Quantity l = Num n \<longrightarrow> ivm_Delta m = Num (line_delta l n))"

definition linked_lines :: "SaleLine list \<Rightarrow> SaleLine list" where
  "linked_lines ls = filter (\<lambda>l. usl_MovementID l \<noteq> None) ls"

text \<open>The linked lines and the movements are in step: as many movements as before and lines linked since, each
  line with its own.\<close>

definition shelves_ok :: "nat \<Rightarrow> shelf_state \<Rightarrow> bool" where
  "shelves_ok base st \<longleftrightarrow> distinct (map usl_ID (shs_lines st)) \<and> distinct (map ivm_ID (ivd_movements (shs_db st)))
     \<and> length (ivd_movements (shs_db st)) = base + length (linked_lines (shs_lines st))
     \<and> (\<forall>l \<in> set (shs_lines st). \<forall>n. usl_Quantity l = Num n \<longrightarrow> 0 \<le> n \<and> num_fits n)
     \<and> (\<forall>l \<in> set (linked_lines (shs_lines st)). \<exists>m \<in> set (drop base (ivd_movements (shs_db st))). moved_for l m)
     \<and> distinct (map usl_MovementID (linked_lines (shs_lines st)))"


lemma linked_line_split:
  assumes "distinct (map usl_ID lines)" "r \<in> set lines"
  obtains as bs where "lines = as @ r # bs"
    "map (\<lambda>l. if usl_ID l = usl_ID r then l\<lparr>usl_MovementID := x\<rparr> else l) lines = as @ r\<lparr>usl_MovementID := x\<rparr> # bs"
proof -
  obtain as bs where s: "lines = as @ r # bs" using split_list [OF assms(2)] by blast
  have "usl_ID r \<notin> usl_ID ` set as" "usl_ID r \<notin> usl_ID ` set bs" using assms(1) by (auto simp: s)
  then have "usl_ID l \<noteq> usl_ID r" if "l \<in> set as \<or> l \<in> set bs" for l using that by (metis imageI)
  then have "map (\<lambda>l. if usl_ID l = usl_ID r then l\<lparr>usl_MovementID := x\<rparr> else l) lines = as @ r\<lparr>usl_MovementID := x\<rparr> # bs"
    by (auto simp: s intro: map_idI)
  then show ?thesis using that s by blast
qed

lemma line_request_fields [simp]:
  "amr_MerchantID (line_request (project_line r)) = usl_TenantID r" "amr_ItemID (line_request (project_line r)) = the (usl_ItemID r)"
  "amr_LocationID (line_request (project_line r)) = usl_LocationID r" "ul_lineID (project_line r) = usl_ID r"
  "amr_MovementType (line_request (project_line r)) = (if usl_IsReturn r then ''return'' else ''sale'')"
  by (simp_all add: line_request_def project_line_def)

lemma line_request_delta:
  assumes "reads_back numeric" "usl_Quantity r = Num n" "0 \<le> n" "num_fits n" "numeric (amr_Quantity (line_request (project_line r))) = Some d"
  shows "d = Num (line_delta r n)"
  using assms by (auto simp: reads_back_def line_request_def project_line_def line_delta_def split: if_splits)

text \<open>Processing a line changes nothing, or appends its movement and links it.\<close>

lemma processLine_cases:
  assumes "\<not> ive_fails env LinkMovement"
  obtains (failed) "snd (processLine numeric uuid_str env (project_line r) st) = st"
  | (moved) d cost p rows stream where "numeric (amr_Quantity (line_request (project_line r))) = Some d"
      "ive_movement env \<notin> ivm_ID ` set (ivd_movements (shs_db st))"
      "upsert_position env (line_request (project_line r)) d cost (ive_now env) (ivd_positions (shs_db st)) = Some (p, rows)"
      "snd (processLine numeric uuid_str env (project_line r) st) =
        st\<lparr>shs_db := snd (AppendMovement numeric env (line_request (project_line r)) (ive_now env) (shs_db st)),
         shs_lines := map (\<lambda>l. if usl_ID l = usl_ID r then l\<lparr>usl_MovementID := Some (ive_movement env)\<rparr> else l) (shs_lines st), shs_stream := stream\<rparr>"
      "ivd_movements (snd (AppendMovement numeric env (line_request (project_line r)) (ive_now env) (shs_db st)))
        = ivd_movements (shs_db st) @ [movement_row env (line_request (project_line r)) d cost (ive_now env)]"
proof (cases numeric env "line_request (project_line r)" "ive_now env" "shs_db st" rule: AppendMovement_cases)
  case (failed e)
  then show ?thesis using that(1) by (simp add: processLine_def)
next
  case (moved d cost p rows)
  show ?thesis
    by (rule that(2) [OF moved(1,3,4), of "shs_stream (snd (processLine numeric uuid_str env (project_line r) st))"])
      (use moved(5) assms in \<open>auto simp: processLine_def linkMovement_def\<close>)
qed

lemma processLine_shelves:
  fixes uuid_str :: "uuid \<Rightarrow> string"
  assumes "reads_back numeric" "shelves_ok base st" "\<not> ive_fails env LinkMovement" "r \<in> set (shs_lines st)" "eligible r"
  defines "st' \<equiv> snd (processLine numeric uuid_str env (project_line r) st)"
  shows "shelves_ok base st' \<and> (\<forall>l \<in> set (shs_lines st). usl_ID l \<noteq> usl_ID r \<longrightarrow> l \<in> set (shs_lines st'))"
proof (cases rule: processLine_cases [OF assms(3), where numeric = numeric and uuid_str = uuid_str and r = r and st = st])
  case 1
  then show ?thesis using assms(2) by (simp add: st'_def)
next
  case (2 d cost p rows stream)
  let ?m = "movement_row env (line_request (project_line r)) d cost (ive_now env)" and ?ms = "ivd_movements (shs_db st)"
    and ?r = "r\<lparr>usl_MovementID := Some (ive_movement env)\<rparr>"
  obtain as bs where s: "shs_lines st = as @ r # bs" "shs_lines st' = as @ ?r # bs"
    using linked_line_split [of "shs_lines st" r "Some (ive_movement env)"] assms(2,4) 2(4) by (auto simp: shelves_ok_def st'_def)
  have ms: "ivd_movements (shs_db st') = ?ms @ [?m]" using 2(4,5) by (simp add: st'_def)
  have un: "usl_MovementID r = None" "usl_ItemID r \<noteq> None" using assms(5) by (auto simp: eligible_def)
  have old: "linked_lines (as @ r # bs) = linked_lines as @ linked_lines bs" using un by (simp add: linked_lines_def)
  have new: "linked_lines (as @ ?r # bs) = linked_lines as @ ?r # linked_lines bs" by (simp add: linked_lines_def)
  have base: "base \<le> length ?ms" using assms(2) by (simp add: shelves_ok_def)
  have q: "0 \<le> n \<and> num_fits n" if "usl_Quantity r = Num n" for n using assms(2,4) that by (auto simp: shelves_ok_def)
  have own: "moved_for ?r ?m"
    using un(2) line_request_delta [OF assms(1) _ _ _ 2(1)] q
    by (auto simp: moved_for_def movement_row_def line_delta_def)
  have fresh: "Some (ive_movement env) \<notin> usl_MovementID ` set (linked_lines as @ linked_lines bs)"
  proof
    assume "Some (ive_movement env) \<in> usl_MovementID ` set (linked_lines as @ linked_lines bs)"
    then obtain l where l: "l \<in> set (linked_lines (shs_lines st))" "usl_MovementID l = Some (ive_movement env)" unfolding s(1) old by (metis imageE)
    then obtain m where "m \<in> set (drop base ?ms)" "moved_for l m" using assms(2) by (auto simp: shelves_ok_def)
    then have "ive_movement env \<in> ivm_ID ` set ?ms" using l(2) by (auto simp: moved_for_def dest: in_set_dropD)
    then show False using 2(2) by blast
  qed
  have "\<exists>m \<in> set (drop base (?ms @ [?m])). moved_for l m" if "l \<in> set (linked_lines (shs_lines st'))" for l
    using that own assms(2) base unfolding s new shelves_ok_def old by (auto simp: Bex_def)
  moreover have "\<forall>n. usl_Quantity l = Num n \<longrightarrow> 0 \<le> n \<and> num_fits n" if "l \<in> set (shs_lines st')" for l
    using that assms(2) q s by (auto simp: shelves_ok_def)
  ultimately have "shelves_ok base st'"
    using assms(2) fresh 2(2) unfolding shelves_ok_def ms s new old by auto
  then show ?thesis using s by auto
qed

lemma process_lines_shelves:
  assumes "reads_back numeric" "shelves_ok base st" "\<forall>k. \<not> ive_fails (envs k) LinkMovement"
    and "\<forall>r \<in> set rs. r \<in> set (shs_lines st) \<and> eligible r" "distinct (map usl_ID rs)"
  shows "shelves_ok base (process_lines numeric uuid_str envs k (map project_line rs) st)"
  using assms(2,4,5)
proof (induction rs arbitrary: k st)
  case (Cons r rs)
  let ?st = "snd (processLine numeric uuid_str (envs k) (project_line r) st)"
  have s: "shelves_ok base ?st \<and> (\<forall>l \<in> set (shs_lines st). usl_ID l \<noteq> usl_ID r \<longrightarrow> l \<in> set (shs_lines ?st))"
    using processLine_shelves [OF assms(1) Cons.prems(1), of "envs k" r uuid_str] assms(3) Cons.prems(2) by simp
  have "usl_ID r' \<noteq> usl_ID r" if "r' \<in> set rs" for r' using Cons.prems(3) that by (metis distinct.simps(2) image_eqI list.simps(9) set_map)
  then have "\<forall>r' \<in> set rs. r' \<in> set (shs_lines ?st) \<and> eligible r'" using Cons.prems(2) s by auto
  then show ?case using Cons.IH [of ?st "Suc k"] s Cons.prems(3) by simp
qed simp

lemma shelf_tick_shelves:
  assumes "reads_back numeric" "shelves_ok base st" "\<forall>k. \<not> ive_fails (envs k) LinkMovement"
  shows "shelves_ok base (snd (shelf_tick numeric uuid_str envs st))"
proof (cases "ive_fails (envs 0) FetchUnlinked")
  case False
  let ?rs = "take 100 (sort_key usl_CreatedAt (filter eligible (shs_lines st)))"
  have "set ?rs \<subseteq> set (sort_key usl_CreatedAt (filter eligible (shs_lines st)))" by (rule set_take_subset)
  then have "\<forall>r \<in> set ?rs. r \<in> set (shs_lines st) \<and> eligible r" by auto
  moreover have "distinct (map usl_ID (filter eligible (shs_lines st)))" using assms(2) by (simp add: shelves_ok_def distinct_map_filter)
  then have "distinct (map usl_ID (sort_key usl_CreatedAt (filter eligible (shs_lines st))))" by (simp add: distinct_map)
  then have "distinct (map usl_ID ?rs)" by (simp add: take_map [symmetric] distinct_take)
  ultimately have "shelves_ok base (process_lines numeric uuid_str envs 1 (map project_line ?rs) st)"
    by (rule process_lines_shelves [OF assms])
  moreover have "fetchUnlinked (envs 0) (shs_lines st) = Inr (map project_line ?rs)" using False by (simp only: fetchUnlinked_def if_False)
  ultimately show ?thesis by (simp add: shelf_tick_def)
qed (use assms in \<open>simp add: shelf_tick_def fetchUnlinked_def\<close>)


lemma processLine_stock: "stock_ok (shs_db st) \<Longrightarrow> stock_ok (shs_db (snd (processLine numeric uuid_str env l st)))"
  using AppendMovement_stock_ok [of "shs_db st" numeric env "line_request l" "ive_now env"]
  by (auto simp: processLine_def split: prod.split sum.split)

lemma shelf_tick_stock: "stock_ok (shs_db st) \<Longrightarrow> stock_ok (shs_db (snd (shelf_tick numeric uuid_str envs st)))"
proof -
  have "stock_ok (shs_db st) \<Longrightarrow> stock_ok (shs_db (process_lines numeric uuid_str envs k ls st))" for k ls st
    by (induction ls arbitrary: k st) (simp_all add: processLine_stock)
  then show "stock_ok (shs_db st) \<Longrightarrow> ?thesis" by (simp add: shelf_tick_def split: sum.split)
qed

definition shelf_run ::
  "(string \<Rightarrow> pg_numeric option) \<Rightarrow> (uuid \<Rightarrow> string) \<Rightarrow> (nat \<Rightarrow> inv_env) list \<Rightarrow> shelf_state \<Rightarrow> shelf_state" where
  "shelf_run numeric uuid_str ticks st = fold (\<lambda>envs st. snd (shelf_tick numeric uuid_str envs st)) ticks st"

text \<open>C19: Over any ticks of the consumer in which no link fails, whatever else does, the stock moves once for each
  sold or returned line: the new movements are as many as the linked lines, each line has its own, for its item
  and location and with its quantity taken or returned, and the positions stay the balances.\<close>

theorem sold_lines_move_once:
  fixes uuid_str :: "uuid \<Rightarrow> string"
  assumes "reads_back numeric" "\<forall>envs \<in> set ticks. \<forall>k. \<not> ive_fails (envs k) LinkMovement"
    and "distinct (map usl_ID (shs_lines st))" "\<forall>l \<in> set (shs_lines st). usl_MovementID l = None"
    and "\<forall>l \<in> set (shs_lines st). \<forall>n. usl_Quantity l = Num n \<longrightarrow> 0 \<le> n \<and> num_fits n"
    and "distinct (map ivm_ID (ivd_movements (shs_db st)))" "stock_ok (shs_db st)"
  defines "st' \<equiv> shelf_run numeric uuid_str ticks st"
    and "added \<equiv> drop (length (ivd_movements (shs_db st))) (ivd_movements (shs_db (shelf_run numeric uuid_str ticks st)))"
  shows "length added = length (linked_lines (shs_lines st')) \<and> (\<forall>l \<in> set (linked_lines (shs_lines st')). \<exists>m \<in> set added. moved_for l m)
    \<and> distinct (map usl_MovementID (linked_lines (shs_lines st'))) \<and> distinct (map ivm_ID added) \<and> stock_ok (shs_db st')"
proof -
  let ?base = "length (ivd_movements (shs_db st))"
  have "linked_lines (shs_lines st) = []" using assms(4) by (simp add: linked_lines_def filter_empty_conv)
  then have start: "shelves_ok ?base st \<and> stock_ok (shs_db st)" using assms(3,5-7) by (simp add: shelves_ok_def)
  have run: "shelves_ok ?base (shelf_run numeric uuid_str ticks s) \<and> stock_ok (shs_db (shelf_run numeric uuid_str ticks s))"
    if "shelves_ok ?base s \<and> stock_ok (shs_db s)" for s
    using assms(2) that
  proof (induction ticks arbitrary: s)
    case (Cons envs ticks)
    then have "shelves_ok ?base (snd (shelf_tick numeric uuid_str envs s)) \<and> stock_ok (shs_db (snd (shelf_tick numeric uuid_str envs s)))"
      using shelf_tick_shelves [OF assms(1)] shelf_tick_stock by simp
    then show ?case using Cons by (simp add: shelf_run_def)
  qed (simp add: shelf_run_def)
  show ?thesis using run [OF start] unfolding st'_def [symmetric] added_def shelves_ok_def by (auto simp: drop_map [symmetric])
qed

text \<open>The movement and its link are two transactions: when the link fails the line is fetched again, and its
  stock is moved a second time.\<close>

lemma failed_link_moves_again:
  assumes "processLine numeric uuid_str env l st = (Inl (InvFailed LinkMovement), st1)" "processLine numeric uuid_str env' l st1 = (Inr (), st2)"
  shows "shs_lines st1 = shs_lines st \<and> (\<exists>m m'. ivd_movements (shs_db st2) = ivd_movements (shs_db st) @ [m, m'] \<and> ivm_Delta m = ivm_Delta m')"
proof (cases numeric env "line_request l" "ive_now env" "shs_db st" rule: AppendMovement_cases)
  case (failed e)
  then have "e = InvFailed LinkMovement" using assms(1) by (simp add: processLine_def)
  then show ?thesis using failed unfolding AppendMovement_def by (auto split: if_splits option.splits)
next
  case (moved d cost p rows)
  have st1: "st1 = st\<lparr>shs_db := shs_db st\<lparr>ivd_movements := ivd_movements (shs_db st) @ [movement_row env (line_request l) d cost (ive_now env)], ivd_positions := rows\<rparr>\<rparr>"
    using assms(1) moved(5) by (auto simp: processLine_def linkMovement_def split: if_splits)
  show ?thesis
  proof (cases numeric env' "line_request l" "ive_now env'" "shs_db st1" rule: AppendMovement_cases)
    case (failed e)
    then show ?thesis using assms(2) by (simp add: processLine_def)
  next
    case m2: (moved d' cost' p' rows')
    have "shs_db st2 = snd (AppendMovement numeric env' (line_request l) (ive_now env') (shs_db st1))"
      using assms(2) m2(5) by (auto simp: processLine_def linkMovement_def split: if_splits)
    then show ?thesis using m2 st1 moved(1) by simp
  qed
qed


section \<open>A sample shelf\<close>

lemma toy_reads_back: "reads_back toy_numeric"
proof -
  have "toy_numeric (num_text (Num n)) = Some (Num n) \<and> toy_numeric (''-'' @ num_text (Num n)) = Some (Num (- n))" if n: "num_fits n" "0 \<le> n" for n
  proof -
    let ?a = "dec_nat (nat n div 10 ^ 4)" and ?b = "fmt_pad 4 (nat n mod 10 ^ 4)"
    have t: "num_text (Num n) = ?a @ CHR ''.'' # ?b" using n(2) by (simp add: fmt_fixed_def)
    have d: "list_all is_digit ?a" "list_all is_digit ?b" "length ?b = 4" "\<not> is_digit (CHR ''.'')"
      using dec_nat_digits fmt_pad_digits by (simp_all add: length_fmt_pad is_digit_def)
    have tw: "takeWhile is_digit (?a @ CHR ''.'' # ?b) = ?a" "dropWhile is_digit (?a @ CHR ''.'' # ?b) = CHR ''.'' # ?b"
      using d by (auto simp: takeWhile_append list_all_iff)
    have v: "digits_val 0 (?a @ ?b) = nat n"
      unfolding digits_val_append' d(3) digits_val_dec_nat digits_val_fmt_pad by (rule div_mult_mod_eq)
    obtain c cs where c: "?a = c # cs" "is_digit c" using d(1) by (cases ?a) auto
    have neg: "c \<noteq> CHR ''-''" using is_digit_not_special(3) [OF c(2)] .
    have "(case ?a @ CHR ''.'' # ?b of c # t \<Rightarrow> if c = CHR ''-'' then (True, t) else (False, ?a @ CHR ''.'' # ?b) | [] \<Rightarrow> (False, [])) = (False, ?a @ CHR ''.'' # ?b)"
      using c neg by simp
    then show ?thesis using n tw d(2,3) v unfolding toy_numeric_def t by (simp add: Let_def)
  qed
  then show ?thesis by (simp add: reads_back_def)
qed

definition toy_shelf_env :: "nat \<Rightarrow> inv_env" where
  "toy_shelf_env k = \<lparr>ive_now = 5000, ive_db_now = 7000, ive_fails = (\<lambda>c. False), ive_movement = word_of_nat (90 + k), ive_position = 50\<rparr>"

definition toy_line :: SaleLine where
  "toy_line = \<lparr>usl_ID = 11, usl_TenantID = 1, usl_ItemID = Some 2, usl_LocationID = 3, usl_Quantity = Num 20000, usl_IsReturn = False,
     usl_IsVoid = False, usl_CostBasis = None, usl_MovementID = None, usl_CreatedAt = 0\<rparr>"

definition toy_shelf :: shelf_state where
  "toy_shelf = \<lparr>shs_db = \<lparr>ivd_positions = [], ivd_movements = []\<rparr>, shs_lines = [toy_line], shs_stream = \<lparr>st_entries = [], st_delivered = 0, st_pending = []\<rparr>\<rparr>"

text \<open>One tick sells the line: its movement takes two pieces.\<close>

theorem sold_lines_move_once_witness:
  "\<exists>m. ivd_movements (shs_db (shelf_run toy_numeric (\<lambda>u. ''u'') [toy_shelf_env] toy_shelf)) = [m] \<and> ivm_Delta m = Num (- 20000)"
proof -
  let ?st = "shelf_run toy_numeric (\<lambda>u. ''u'') [toy_shelf_env] toy_shelf"
  have num: "toy_numeric (''-'' @ num_text (Num 20000)) = Some (Num (- 20000))" "toy_numeric (CHR ''-'' # fmt_fixed 4 20000) = Some (Num (- 20000))"
    using toy_reads_back unfolding reads_back_def by (simp_all add: num_fits_def)
  have linked: "\<exists>l. linked_lines (shs_lines ?st) = [l] \<and> usl_Quantity l = Num 20000 \<and> \<not> usl_IsReturn l"
    by (simp add: shelf_run_def shelf_tick_def fetchUnlinked_def toy_shelf_def toy_line_def eligible_def project_line_def processLine_def
        line_request_def AppendMovement_def opt_numeric_def toy_shelf_env_def num upsert_position_def linkMovement_def linked_lines_def)
  note once = sold_lines_move_once [OF toy_reads_back, of "[toy_shelf_env]" toy_shelf "\<lambda>u. ''u''"]
  have "length (ivd_movements (shs_db ?st)) = 1 \<and> (\<forall>l \<in> set (linked_lines (shs_lines ?st)). \<exists>m \<in> set (ivd_movements (shs_db ?st)). moved_for l m)"
    using once linked empty_stock_ok by (auto simp: toy_shelf_env_def toy_shelf_def toy_line_def num_fits_def)
  then show ?thesis using linked by (auto simp: length_Suc_conv moved_for_def line_delta_def)
qed

end
