(* ===== verification/Task.thy ===== *)
theory Task
  imports GoTime Sales Lifecycle "HOL-Library.Product_Lexorder"
begin

text \<open>
  The queue of directed tasks (\<open>internal/task\<close>): validation, the store over \<open>app.directed_tasks\<close> and
  \<open>app.task_exceptions\<close>, and the handlers.  Statements on other tables' references may fail, which
  the failing calls cover; parsing a uuid is a parameter.
\<close>

section \<open>Data\<close>

record TaskDTO =
  tk_ID :: uuid
  tk_TenantID :: uuid
  tk_TaskType :: string
  tk_Priority :: int
  tk_Status :: string
  tk_ItemID :: "uuid option"
  tk_LocationID :: "uuid option"
  tk_ZoneID :: "uuid option"
  tk_Quantity :: "string option"
  tk_SourceLocationID :: "uuid option"
  tk_AssigneeID :: "uuid option"
  tk_AssignedAt :: "gotime option"
  tk_StartedAt :: "gotime option"
  tk_CompletedAt :: "gotime option"
  tk_VerifiedAt :: "gotime option"
  tk_EstimatedSeconds :: "int option"
  tk_SkipReason :: "string option"
  tk_SourceRef :: "string option"
  tk_Attributes :: raw_message
  tk_CreatedAt :: gotime
  tk_UpdatedAt :: gotime

record ExceptionDTO =
  te_ID :: uuid
  te_TaskID :: uuid
  te_TenantID :: uuid
  te_ReasonCode :: string
  te_Note :: "string option"
  te_ReportedBy :: "uuid option"
  te_CreatedAt :: gotime

record CreateTaskRequest =
  cq_TenantID :: uuid
  cq_TaskType :: string
  cq_Priority :: int
  cq_ItemID :: "uuid option"
  cq_LocationID :: "uuid option"
  cq_ZoneID :: "uuid option"
  cq_Quantity :: "string option"
  cq_SourceLocationID :: "uuid option"
  cq_EstimatedSeconds :: "int option"
  cq_SourceRef :: "string option"
  cq_Attributes :: raw_message

record ExceptionRequest =
  xq_ReasonCode :: string
  xq_Note :: "string option"
  xq_ReportedBy :: "uuid option"

datatype task_call =
    TaskInsert | TaskSelect | TaskBegin | TaskClaim | TaskAssign | TaskCommit | TaskUpdate | TaskException | TaskExists | TaskList

datatype task_error =
    TaskNotFound | InvalidType | InvalidTransition | InvalidExceptionCode | MissingTenant | BadPriority | TaskFailed task_call

definition validTypes :: "string set" where
  "validTypes = {''receiving'', ''replenishment'', ''cycle_count''}"

definition validExceptionCodes :: "string set" where
  "validExceptionCodes = {''damage'', ''wrong_qty'', ''location_blocked'', ''item_not_found'', ''other''}"

definition ValidateCreate :: "CreateTaskRequest \<Rightarrow> task_error + CreateTaskRequest" where
  "ValidateCreate req =
     (if cq_TenantID req = uuid_nil then Inl MissingTenant
      else if cq_TaskType req \<notin> validTypes then Inl InvalidType
      else
        let req = (if cq_Priority req = 0 then req\<lparr>cq_Priority := 3\<rparr> else req) in
        if cq_Priority req < 1 \<or> 5 < cq_Priority req then Inl BadPriority else Inr req)"

definition allowed_moves :: "string \<rightharpoonup> string set" where
  "allowed_moves =
     [''queued'' \<mapsto> {''assigned'', ''skipped'', ''cancelled''},
      ''assigned'' \<mapsto> {''in_progress'', ''queued'', ''skipped'', ''cancelled''},
      ''in_progress'' \<mapsto> {''complete'', ''skipped'', ''cancelled''},
      ''complete'' \<mapsto> {''verified'', ''cancelled''},
      ''verified'' \<mapsto> {}, ''skipped'' \<mapsto> {}, ''cancelled'' \<mapsto> {}]"

definition ValidateTransition :: "string \<Rightarrow> string \<Rightarrow> bool" where
  "ValidateTransition from to \<longleftrightarrow> (case allowed_moves from of None \<Rightarrow> False | Some moves \<Rightarrow> to \<in> moves)"

section \<open>The store\<close>

record task_db =
  td_tasks :: "TaskDTO list"
  td_exceptions :: "ExceptionDTO list"

record task_env =
  tv_now :: gotime
  tv_fails :: "task_call \<Rightarrow> bool"
  tv_new :: uuid

text \<open>The insert fails on a priority or type the columns refuse, and on an identifier in use.\<close>

definition CreateTask :: "task_env \<Rightarrow> CreateTaskRequest \<Rightarrow> task_db \<Rightarrow> (task_error + TaskDTO) \<times> task_db" where
  "CreateTask env req db =
     (if tv_fails env TaskInsert \<or> cq_TaskType req \<notin> validTypes \<or> cq_Priority req < 1 \<or> 5 < cq_Priority req
         \<or> list_ex (\<lambda>t. tk_ID t = tv_new env) (td_tasks db) then (Inl (TaskFailed TaskInsert), db)
      else
        let t = \<lparr>tk_ID = tv_new env, tk_TenantID = cq_TenantID req, tk_TaskType = cq_TaskType req, tk_Priority = cq_Priority req,
          tk_Status = ''queued'', tk_ItemID = cq_ItemID req, tk_LocationID = cq_LocationID req, tk_ZoneID = cq_ZoneID req,
          tk_Quantity = cq_Quantity req, tk_SourceLocationID = cq_SourceLocationID req, tk_AssigneeID = None, tk_AssignedAt = None,
          tk_StartedAt = None, tk_CompletedAt = None, tk_VerifiedAt = None, tk_EstimatedSeconds = cq_EstimatedSeconds req,
          tk_SkipReason = None, tk_SourceRef = cq_SourceRef req,
          tk_Attributes = (if cq_Attributes req = RawText [] then RawText ''{}'' else cq_Attributes req),
          tk_CreatedAt = tv_now env, tk_UpdatedAt = tv_now env\<rparr> in
        (Inr t, db\<lparr>td_tasks := td_tasks db @ [t]\<rparr>))"

definition task_match :: "uuid \<Rightarrow> uuid \<Rightarrow> TaskDTO \<Rightarrow> bool" where
  "task_match tenantID i t \<longleftrightarrow> tk_ID t = i \<and> tk_TenantID t = tenantID"

definition GetTaskByID :: "task_env \<Rightarrow> uuid \<Rightarrow> uuid \<Rightarrow> task_db \<Rightarrow> task_error + TaskDTO" where
  "GetTaskByID env tenantID i db =
     (if tv_fails env TaskSelect then Inl (TaskFailed TaskSelect)
      else case List.find (task_match tenantID i) (td_tasks db) of None \<Rightarrow> Inl TaskNotFound | Some t \<Rightarrow> Inr t)"

text \<open>An UPDATE with RETURNING on the rows that match; no row is \<open>pgx.ErrNoRows\<close>.\<close>

definition update_tasks :: "task_env \<Rightarrow> (TaskDTO \<Rightarrow> bool) \<Rightarrow> (TaskDTO \<Rightarrow> TaskDTO) \<Rightarrow> task_db \<Rightarrow> (task_error + TaskDTO) \<times> task_db" where
  "update_tasks env P f db =
     (if tv_fails env TaskUpdate then (Inl (TaskFailed TaskUpdate), db)
      else case List.find P (td_tasks db) of
          None \<Rightarrow> (Inl TaskNotFound, db)
        | Some t \<Rightarrow> (Inr (f t), db\<lparr>td_tasks := map (\<lambda>t. if P t then f t else t) (td_tasks db)\<rparr>))"

definition task_queue :: "uuid \<Rightarrow> task_db \<Rightarrow> TaskDTO list" where
  "task_queue tenantID db =
     sort_key (\<lambda>t. (tk_Priority t, tk_CreatedAt t)) (filter (\<lambda>t. tk_TenantID t = tenantID \<and> tk_Status t = ''queued'') (td_tasks db))"

definition assign_task :: "uuid \<Rightarrow> gotime \<Rightarrow> TaskDTO \<Rightarrow> TaskDTO" where
  "assign_task employeeID now t =
     t\<lparr>tk_Status := ''assigned'', tk_AssigneeID := Some employeeID, tk_AssignedAt := Some now, tk_UpdatedAt := now\<rparr>"

text \<open>The claim locks its row until the transaction ends, so the transaction is one step; of claims that
  overlap, one skips the rows locked by the others.\<close>

definition GetNext :: "task_env \<Rightarrow> uuid \<Rightarrow> uuid \<Rightarrow> task_db \<Rightarrow> (task_error + TaskDTO) \<times> task_db" where
  "GetNext env tenantID employeeID db =
     (if tv_fails env TaskBegin then (Inl (TaskFailed TaskBegin), db)
      else if tv_fails env TaskClaim then (Inl (TaskFailed TaskClaim), db)
      else case first_row (task_queue tenantID db) of
          None \<Rightarrow> (Inl TaskNotFound, db)
        | Some best \<Rightarrow>
            if tv_fails env TaskAssign then (Inl (TaskFailed TaskAssign), db)
            else if tv_fails env TaskCommit then (Inl (TaskFailed TaskCommit), db)
            else (Inr (assign_task employeeID (tv_now env) best),
                  db\<lparr>td_tasks := map (\<lambda>t. if tk_ID t = tk_ID best then assign_task employeeID (tv_now env) t else t) (td_tasks db)\<rparr>))"

text \<open>A status change is a read with a check, and an update that does not look at the status again.\<close>

definition check_move :: "task_env \<Rightarrow> uuid \<Rightarrow> uuid \<Rightarrow> string \<Rightarrow> task_db \<Rightarrow> task_error + unit" where
  "check_move env tenantID taskID to db =
     bind_res (GetTaskByID env tenantID taskID db) (\<lambda>current.
       if ValidateTransition (tk_Status current) to then Inr () else Inl InvalidTransition)"

definition set_status :: "gotime \<Rightarrow> string \<Rightarrow> TaskDTO \<Rightarrow> TaskDTO" where
  "set_status now to t =
     (let t = t\<lparr>tk_Status := to, tk_UpdatedAt := now\<rparr> in
      if to = ''in_progress'' then t\<lparr>tk_StartedAt := Some now\<rparr>
      else if to = ''complete'' then t\<lparr>tk_CompletedAt := Some now\<rparr>
      else if to = ''verified'' then t\<lparr>tk_VerifiedAt := Some now\<rparr> else t)"

definition write_status :: "task_env \<Rightarrow> uuid \<Rightarrow> uuid \<Rightarrow> string \<Rightarrow> task_db \<Rightarrow> (task_error + TaskDTO) \<times> task_db" where
  "write_status env tenantID taskID to db = update_tasks env (task_match tenantID taskID) (set_status (tv_now env) to) db"

definition UpdateStatus :: "task_env \<Rightarrow> uuid \<Rightarrow> uuid \<Rightarrow> string \<Rightarrow> task_db \<Rightarrow> (task_error + TaskDTO) \<times> task_db" where
  "UpdateStatus env tenantID taskID to db =
     (case check_move env tenantID taskID to db of Inl e \<Rightarrow> (Inl e, db) | Inr _ \<Rightarrow> write_status env tenantID taskID to db)"

definition write_skip :: "task_env \<Rightarrow> uuid \<Rightarrow> uuid \<Rightarrow> string \<Rightarrow> task_db \<Rightarrow> (task_error + TaskDTO) \<times> task_db" where
  "write_skip env tenantID taskID reason db =
     update_tasks env (task_match tenantID taskID)
       (\<lambda>t. t\<lparr>tk_Status := ''skipped'', tk_SkipReason := Some reason, tk_UpdatedAt := tv_now env\<rparr>) db"

definition SkipTask :: "task_env \<Rightarrow> uuid \<Rightarrow> uuid \<Rightarrow> string \<Rightarrow> task_db \<Rightarrow> (task_error + TaskDTO) \<times> task_db" where
  "SkipTask env tenantID taskID reason db =
     (case check_move env tenantID taskID ''skipped'' db of Inl e \<Rightarrow> (Inl e, db) | Inr _ \<Rightarrow> write_skip env tenantID taskID reason db)"

text \<open>The exception refers to a task by its identifier; the tenant is not compared.\<close>

definition LogException :: "task_env \<Rightarrow> uuid \<Rightarrow> uuid \<Rightarrow> ExceptionRequest \<Rightarrow> task_db \<Rightarrow> (task_error + ExceptionDTO) \<times> task_db" where
  "LogException env tenantID taskID req db =
     (if xq_ReasonCode req \<notin> validExceptionCodes then (Inl InvalidExceptionCode, db)
      else if tv_fails env TaskException \<or> \<not> list_ex (\<lambda>t. tk_ID t = taskID) (td_tasks db)
          \<or> list_ex (\<lambda>x. te_ID x = tv_new env) (td_exceptions db) then (Inl (TaskFailed TaskException), db)
      else
        let x = \<lparr>te_ID = tv_new env, te_TaskID = taskID, te_TenantID = tenantID, te_ReasonCode = xq_ReasonCode req,
          te_Note = xq_Note req, te_ReportedBy = xq_ReportedBy req, te_CreatedAt = tv_now env\<rparr> in
        (Inr x, db\<lparr>td_exceptions := td_exceptions db @ [x]\<rparr>))"

definition open_status :: "string \<Rightarrow> bool" where
  "open_status s \<longleftrightarrow> s \<in> {''queued'', ''assigned'', ''in_progress''}"

definition OpenReplenishmentExists :: "task_env \<Rightarrow> uuid \<Rightarrow> uuid \<Rightarrow> uuid \<Rightarrow> task_db \<Rightarrow> task_error + bool" where
  "OpenReplenishmentExists env tenantID itemID locationID db =
     (if tv_fails env TaskExists then Inl (TaskFailed TaskExists)
      else Inr (list_ex (\<lambda>t. tk_TenantID t = tenantID \<and> tk_ItemID t = Some itemID \<and> tk_LocationID t = Some locationID
                   \<and> tk_TaskType t = ''replenishment'' \<and> open_status (tk_Status t)) (td_tasks db)))"

definition ListByTenant :: "task_env \<Rightarrow> uuid \<Rightarrow> string \<Rightarrow> int \<Rightarrow> task_db \<Rightarrow> task_error + TaskDTO list" where
  "ListByTenant env tenantID status limit db =
     (let limit = (if limit \<le> 0 \<or> 500 < limit then 100 else limit);
          keep = (if status = [] \<or> status = ''all'' then (\<lambda>t. True)
            else if status = ''open'' then (\<lambda>t. open_status (tk_Status t)) else (\<lambda>t. tk_Status t = status)) in
      if tv_fails env TaskList then Inl (TaskFailed TaskList)
      else Inr (take (nat limit) (sort_key (\<lambda>t. (tk_Priority t, tk_CreatedAt t))
             (filter (\<lambda>t. tk_TenantID t = tenantID \<and> keep t) (td_tasks db)))))"

section \<open>The handlers\<close>

datatype task_reply =
    TaskErr nat string
  | TaskOK nat TaskDTO
  | ExceptionOK ExceptionDTO

text \<open>Who asks: the tenant of the claims, if any, and the tenant_id of the query.\<close>

record task_caller =
  tc_claim :: "uuid option"
  tc_query :: string

definition task_requireTenant :: "(string \<Rightarrow> uuid option) \<Rightarrow> task_caller \<Rightarrow> task_reply + uuid" where
  "task_requireTenant parse who =
     (case tc_claim who of
        None \<Rightarrow> Inl (TaskErr 401 ''unauthenticated'')
      | Some tn \<Rightarrow>
          if tn = uuid_nil then Inl (TaskErr 401 ''unauthenticated'')
          else if tc_query who = [] then Inr tn
          else (case parse (tc_query who) of
              None \<Rightarrow> Inl (TaskErr 400 ''invalid_tenant_id'')
            | Some q \<Rightarrow> if q \<noteq> tn then Inl (TaskErr 403 ''tenant_mismatch'') else Inr tn))"

definition task_uuidParam :: "(string \<Rightarrow> uuid option) \<Rightarrow> string \<Rightarrow> bool \<Rightarrow> uuid option" where
  "task_uuidParam parse v required = (if v = [] then (if required then None else Some uuid_nil) else parse v)"

datatype task_request =
    PostTask "CreateTaskRequest req_body"
  | NextTask string
  | GetTask string
  | PatchStatus string "string req_body"
  | PostException string "ExceptionRequest req_body"
  | PostSkip string "string req_body"

text \<open>The answers to a store's result; errors are the last arguments' statuses.\<close>

definition moved_reply :: "task_error + TaskDTO \<Rightarrow> task_reply" where
  "moved_reply r = (case r of Inr t \<Rightarrow> TaskOK 200 t | Inl TaskNotFound \<Rightarrow> TaskErr 404 ''task_not_found''
     | Inl InvalidTransition \<Rightarrow> TaskErr 422 ''invalid_transition'' | Inl _ \<Rightarrow> TaskErr 500 ''store_error'')"

fun createTask :: "task_env \<Rightarrow> (string \<Rightarrow> uuid option) \<Rightarrow> task_caller \<Rightarrow> CreateTaskRequest req_body \<Rightarrow> task_db \<Rightarrow> task_reply \<times> task_db" where
  "createTask env parse who (BodyJson req) db =
     (case task_requireTenant parse who of
        Inl r \<Rightarrow> (r, db)
      | Inr tn \<Rightarrow>
          if cq_TenantID req \<noteq> uuid_nil \<and> cq_TenantID req \<noteq> tn then (TaskErr 403 ''tenant_mismatch'', db)
          else (case ValidateCreate (req\<lparr>cq_TenantID := tn\<rparr>) of
              Inl _ \<Rightarrow> (TaskErr 400 ''validation_failed'', db)
            | Inr clean \<Rightarrow>
                (case CreateTask env clean db of
                   (Inl _, db') \<Rightarrow> (TaskErr 500 ''store_error'', db')
                 | (Inr t, db') \<Rightarrow> (TaskOK 201 t, db'))))"
| "createTask env parse who _ db = (TaskErr 400 ''invalid_json'', db)"

definition getNext :: "task_env \<Rightarrow> (string \<Rightarrow> uuid option) \<Rightarrow> task_caller \<Rightarrow> string \<Rightarrow> task_db \<Rightarrow> task_reply \<times> task_db" where
  "getNext env parse who employee db =
     (case task_requireTenant parse who of
        Inl r \<Rightarrow> (r, db)
      | Inr tn \<Rightarrow>
          (case task_uuidParam parse employee True of
             None \<Rightarrow> (TaskErr 400 ''missing_employee_id'', db)
           | Some emp \<Rightarrow>
               (case GetNext env tn emp db of
                  (Inr t, db') \<Rightarrow> (TaskOK 200 t, db')
                | (Inl TaskNotFound, db') \<Rightarrow> (TaskErr 204 ''no_task'', db')
                | (Inl _, db') \<Rightarrow> (TaskErr 500 ''store_error'', db'))))"

text \<open>The four handlers with an identifier in the path check the tenant, the identifier, the body.\<close>

definition with_task :: "(string \<Rightarrow> uuid option) \<Rightarrow> task_caller \<Rightarrow> string \<Rightarrow> (uuid \<Rightarrow> uuid \<Rightarrow> task_reply \<times> task_db) \<Rightarrow> task_db \<Rightarrow> task_reply \<times> task_db" where
  "with_task parse who i k db =
     (case task_requireTenant parse who of
        Inl r \<Rightarrow> (r, db)
      | Inr tn \<Rightarrow> (case parse i of None \<Rightarrow> (TaskErr 400 ''invalid_id'', db) | Some taskID \<Rightarrow> k tn taskID))"

definition getTask :: "task_env \<Rightarrow> (string \<Rightarrow> uuid option) \<Rightarrow> task_caller \<Rightarrow> string \<Rightarrow> task_db \<Rightarrow> task_reply \<times> task_db" where
  "getTask env parse who i db = with_task parse who i (\<lambda>tn taskID. (moved_reply (GetTaskByID env tn taskID db), db)) db"

definition updateStatus :: "task_env \<Rightarrow> (string \<Rightarrow> uuid option) \<Rightarrow> task_caller \<Rightarrow> string \<Rightarrow> string req_body \<Rightarrow> task_db \<Rightarrow> task_reply \<times> task_db" where
  "updateStatus env parse who i body db =
     with_task parse who i (\<lambda>tn taskID. case body of
         BodyJson to \<Rightarrow> (case UpdateStatus env tn taskID to db of (r, db') \<Rightarrow> (moved_reply r, db'))
       | _ \<Rightarrow> (TaskErr 400 ''invalid_json'', db)) db"

definition logException :: "task_env \<Rightarrow> (string \<Rightarrow> uuid option) \<Rightarrow> task_caller \<Rightarrow> string \<Rightarrow> ExceptionRequest req_body \<Rightarrow> task_db \<Rightarrow> task_reply \<times> task_db" where
  "logException env parse who i body db =
     with_task parse who i (\<lambda>tn taskID. case body of
         BodyJson req \<Rightarrow>
           (case LogException env tn taskID req db of
              (Inr x, db') \<Rightarrow> (ExceptionOK x, db')
            | (Inl InvalidExceptionCode, db') \<Rightarrow> (TaskErr 400 ''invalid_reason_code'', db')
            | (Inl _, db') \<Rightarrow> (TaskErr 500 ''store_error'', db'))
       | _ \<Rightarrow> (TaskErr 400 ''invalid_json'', db)) db"

definition skipHandler :: "task_env \<Rightarrow> (string \<Rightarrow> uuid option) \<Rightarrow> task_caller \<Rightarrow> string \<Rightarrow> string req_body \<Rightarrow> task_db \<Rightarrow> task_reply \<times> task_db" where
  "skipHandler env parse who i body db =
     with_task parse who i (\<lambda>tn taskID. case body of
         BodyJson reason \<Rightarrow>
           if reason = [] then (TaskErr 400 ''missing_reason'', db)
           else (case SkipTask env tn taskID reason db of (r, db') \<Rightarrow> (moved_reply r, db'))
       | _ \<Rightarrow> (TaskErr 400 ''invalid_json'', db)) db"

fun task_serve :: "(string \<Rightarrow> uuid option) \<Rightarrow> task_env \<times> task_caller \<times> task_request \<Rightarrow> task_db \<Rightarrow> task_reply \<times> task_db" where
  "task_serve parse (env, who, PostTask body) db = createTask env parse who body db"
| "task_serve parse (env, who, NextTask employee) db = getNext env parse who employee db"
| "task_serve parse (env, who, GetTask i) db = getTask env parse who i db"
| "task_serve parse (env, who, PatchStatus i body) db = updateStatus env parse who i body db"
| "task_serve parse (env, who, PostException i body) db = logException env parse who i body db"
| "task_serve parse (env, who, PostSkip i body) db = skipHandler env parse who i body db"


section \<open>Properties of the queue\<close>

text \<open>What the other requests of the queue see of a task: whose it is and where it stands.\<close>

definition task_board :: "task_db \<Rightarrow> uuid \<rightharpoonup> uuid \<times> string" where
  "task_board db k = map_option (\<lambda>t. (tk_TenantID t, tk_Status t)) (List.find (\<lambda>t. tk_ID t = k) (td_tasks db))"

inductive board_step :: "uuid \<Rightarrow> (uuid \<rightharpoonup> uuid \<times> string) \<Rightarrow> (uuid \<rightharpoonup> uuid \<times> string) \<Rightarrow> bool" for tn where
  stay: "board_step tn b b"
| create: "b k = None \<Longrightarrow> board_step tn b (b(k \<mapsto> (tn, ''queued'')))"
| move: "b k = Some (tn, x) \<Longrightarrow> ValidateTransition x y \<Longrightarrow> board_step tn b (b(k \<mapsto> (tn, y)))"

text \<open>What the tables promise: keys, the columns' checks and the references of exceptions.\<close>

definition task_row_ok :: "TaskDTO \<Rightarrow> bool" where
  "task_row_ok t \<longleftrightarrow> tk_TaskType t \<in> validTypes \<and> 1 \<le> tk_Priority t \<and> tk_Priority t \<le> 5
     \<and> tk_Status t \<in> dom allowed_moves
     \<and> (tk_Status t \<in> {''in_progress'', ''complete'', ''verified''} \<longrightarrow> tk_StartedAt t \<noteq> None)
     \<and> (tk_Status t \<in> {''complete'', ''verified''} \<longrightarrow> tk_CompletedAt t \<noteq> None)
     \<and> (tk_Status t = ''verified'' \<longrightarrow> tk_VerifiedAt t \<noteq> None)"

definition task_db_ok :: "task_db \<Rightarrow> bool" where
  "task_db_ok db \<longleftrightarrow> distinct (map tk_ID (td_tasks db)) \<and> distinct (map te_ID (td_exceptions db))
     \<and> list_all task_row_ok (td_tasks db)
     \<and> list_all (\<lambda>x. te_ReasonCode x \<in> validExceptionCodes \<and> te_TaskID x \<in> tk_ID ` set (td_tasks db)) (td_exceptions db)"


lemma find_task_Some: "List.find (\<lambda>t. tk_ID t = k) ts = Some t \<Longrightarrow> t \<in> set ts \<and> tk_ID t = k"
  by (auto simp: find_Some_iff)

lemma find_task_None: "List.find (\<lambda>t. tk_ID t = k) ts = None \<longleftrightarrow> k \<notin> tk_ID ` set ts"
  by (auto simp: find_None_iff)

lemma find_task_in: "distinct (map tk_ID ts) \<Longrightarrow> t \<in> set ts \<Longrightarrow> List.find (\<lambda>u. tk_ID u = tk_ID t) ts = Some t"
  by (induction ts) (auto simp: image_iff)

lemma find_task_snoc:
  "List.find (\<lambda>u. tk_ID u = k) (ts @ [t]) =
     (case List.find (\<lambda>u. tk_ID u = k) ts of Some u \<Rightarrow> Some u | None \<Rightarrow> if tk_ID t = k then Some t else None)"
  by (induction ts) auto

lemma find_task_map:
  assumes "\<And>u. tk_ID (g u) = tk_ID u"
  shows "List.find (\<lambda>u. tk_ID u = k) (map g ts) = map_option g (List.find (\<lambda>u. tk_ID u = k) ts)"
  using assms by (induction ts) auto

lemma find_match:
  "List.find (task_match tn i) ts = Some t \<Longrightarrow> t \<in> set ts \<and> tk_ID t = i \<and> tk_TenantID t = tn"
  by (auto simp: find_Some_iff task_match_def)

text \<open>The one task a write of the store changes: a task of the tenant, moved along a legal transition.\<close>

definition task_edit :: "uuid \<Rightarrow> TaskDTO \<Rightarrow> TaskDTO \<Rightarrow> bool" where
  "task_edit tn t t' \<longleftrightarrow> tk_ID t' = tk_ID t \<and> tk_TenantID t = tn \<and> tk_TenantID t' = tn
     \<and> tk_TaskType t' = tk_TaskType t \<and> tk_ItemID t' = tk_ItemID t \<and> tk_LocationID t' = tk_LocationID t
     \<and> ValidateTransition (tk_Status t) (tk_Status t') \<and> (task_row_ok t \<longrightarrow> task_row_ok t')"

definition task_change :: "uuid \<Rightarrow> task_db \<Rightarrow> task_db \<Rightarrow> bool" where
  "task_change tn db db' \<longleftrightarrow> db' = db
     \<or> (\<exists>t. td_tasks db' = td_tasks db @ [t] \<and> td_exceptions db' = td_exceptions db \<and> task_row_ok t
          \<and> tk_Status t = ''queued'' \<and> tk_TenantID t = tn \<and> tk_ID t \<notin> tk_ID ` set (td_tasks db))
     \<or> (\<exists>t \<in> set (td_tasks db). \<exists>t'. task_edit tn t t' \<and> td_exceptions db' = td_exceptions db
          \<and> td_tasks db' = map (\<lambda>u. if tk_ID u = tk_ID t then t' else u) (td_tasks db))
     \<or> (\<exists>x. td_tasks db' = td_tasks db \<and> td_exceptions db' = td_exceptions db @ [x] \<and> te_TenantID x = tn
          \<and> te_ReasonCode x \<in> validExceptionCodes \<and> te_TaskID x \<in> tk_ID ` set (td_tasks db) \<and> te_ID x \<notin> te_ID ` set (td_exceptions db))"

lemma task_change_refl [simp]: "task_change tn db db"
  by (simp add: task_change_def)

lemma task_change_ok: "task_change tn db db' \<Longrightarrow> task_db_ok db \<Longrightarrow> task_db_ok db'"
  unfolding task_change_def
proof (elim disjE bexE exE conjE)
  fix t t' assume t: "t \<in> set (td_tasks db)" "task_edit tn t t'" "td_exceptions db' = td_exceptions db"
    "td_tasks db' = map (\<lambda>u. if tk_ID u = tk_ID t then t' else u) (td_tasks db)" and ok: "task_db_ok db"
  have ids: "map tk_ID (td_tasks db') = map tk_ID (td_tasks db)" using t(2,4) by (auto simp: task_edit_def)
  moreover have "tk_ID ` set (td_tasks db') = tk_ID ` set (td_tasks db)" using ids by (metis set_map)
  moreover have "task_row_ok t'" using t(1,2) ok by (auto simp: task_edit_def task_db_ok_def list_all_iff)
  then have "list_all task_row_ok (td_tasks db')" using ok by (auto simp: t(4) task_db_ok_def list_all_iff)
  ultimately show "task_db_ok db'" using ok t(3) by (simp add: task_db_ok_def)
qed (auto simp: task_db_ok_def list_all_iff)

lemma task_change_board:
  assumes "task_change tn db db'" "distinct (map tk_ID (td_tasks db))"
  shows "board_step tn (task_board db) (task_board db')"
  using assms(1) unfolding task_change_def
proof (elim disjE bexE exE conjE)
  fix t assume t: "td_tasks db' = td_tasks db @ [t]" "tk_Status t = ''queued''" "tk_TenantID t = tn" "tk_ID t \<notin> tk_ID ` set (td_tasks db)"
  have none: "task_board db (tk_ID t) = None" using t(4) by (simp add: task_board_def find_task_None)
  have "task_board db' = (task_board db)(tk_ID t \<mapsto> (tn, ''queued''))"
    using t none by (auto simp: task_board_def fun_eq_iff find_task_snoc split: option.splits)
  then show ?thesis using board_step.create [where b = "task_board db", OF none] by simp
next
  fix t t' assume t: "t \<in> set (td_tasks db)" "task_edit tn t t'"
    "td_tasks db' = map (\<lambda>u. if tk_ID u = tk_ID t then t' else u) (td_tasks db)"
  have at: "task_board db (tk_ID t) = Some (tn, tk_Status t)"
    using t(1,2) assms(2) by (simp add: task_board_def find_task_in task_edit_def)
  have "task_board db' = (task_board db)(tk_ID t \<mapsto> (tn, tk_Status t'))"
  proof
    fix k
    have "task_board db' k = map_option ((\<lambda>t. (tk_TenantID t, tk_Status t)) \<circ> (\<lambda>u. if tk_ID u = tk_ID t then t' else u))
            (List.find (\<lambda>u. tk_ID u = k) (td_tasks db))"
      using t(2) by (simp add: task_board_def t(3) find_task_map task_edit_def option.map_comp)
    then show "task_board db' k = ((task_board db)(tk_ID t \<mapsto> (tn, tk_Status t'))) k"
    proof (cases "k = tk_ID t")
      case True
      then show ?thesis using t(1,2) assms(2) \<open>task_board db' k = _\<close> by (simp add: find_task_in task_edit_def)
    next
      case False
      then have "(if tk_ID u = tk_ID t then t' else u) = u" if "List.find (\<lambda>u. tk_ID u = k) (td_tasks db) = Some u" for u
        using find_task_Some [OF that] by auto
      then show ?thesis using False \<open>task_board db' k = _\<close>
        by (cases "List.find (\<lambda>u. tk_ID u = k) (td_tasks db)") (simp_all add: task_board_def)
    qed
  qed
  then show ?thesis using board_step.move [where b = "task_board db", OF at, of "tk_Status t'"] t(2) by (simp add: task_edit_def)
next
  fix x assume "td_tasks db' = td_tasks db"
  then have "task_board db' = task_board db" by (simp add: task_board_def fun_eq_iff)
  then show ?thesis by (simp add: board_step.stay)
qed (simp add: board_step.stay)


text \<open>Every operation of the store is such a change, and so is every request.\<close>

lemmas transition_defs = ValidateTransition_def allowed_moves_def

lemma CreateTask_change:
  assumes "CreateTask env req db = (r, db')" shows "task_change (cq_TenantID req) db db'"
proof (cases "db' = db")
  case False
  then show ?thesis using assms
    by (auto simp: CreateTask_def Let_def task_change_def task_row_ok_def allowed_moves_def list_ex_key split: if_splits)
qed simp

lemma task_edit_row:
  assumes "distinct (map tk_ID (td_tasks db))" "t \<in> set (td_tasks db)" "task_edit tn t (f t)"
    and "td_tasks db' = map (\<lambda>u. if P u then f u else u) (td_tasks db)" "td_exceptions db' = td_exceptions db"
    and "\<And>u. u \<in> set (td_tasks db) \<Longrightarrow> P u \<longleftrightarrow> tk_ID u = tk_ID t"
  shows "task_change tn db db'"
proof -
  have "u = t" if "u \<in> set (td_tasks db)" "tk_ID u = tk_ID t" for u
    using assms(1,2) that by (simp add: distinct_map inj_on_def)
  then have "td_tasks db' = map (\<lambda>u. if tk_ID u = tk_ID t then f t else u) (td_tasks db)"
    using assms(4,6) by auto
  then show ?thesis using assms(2,3,5) unfolding task_change_def by blast
qed

lemma update_tasks_change:
  assumes "update_tasks env (task_match tn i) f db = (r, db')" "distinct (map tk_ID (td_tasks db))"
    and "\<And>t. t \<in> set (td_tasks db) \<Longrightarrow> task_match tn i t \<Longrightarrow> task_edit tn t (f t)"
  shows "task_change tn db db'"
proof (cases "db' = db")
  case False
  then obtain t where t: "List.find (task_match tn i) (td_tasks db) = Some t"
      "db' = db\<lparr>td_tasks := map (\<lambda>t. if task_match tn i t then f t else t) (td_tasks db)\<rparr>"
    using assms(1) by (auto simp: update_tasks_def split: if_splits option.splits)
  have m: "t \<in> set (td_tasks db)" "tk_ID t = i" "tk_TenantID t = tn" using find_match [OF t(1)] by auto
  have uni: "u = t" if "u \<in> set (td_tasks db)" "tk_ID u = tk_ID t" for u
    using assms(2) m(1) that by (simp add: distinct_map inj_on_def)
  have eq: "task_match tn i u \<longleftrightarrow> tk_ID u = tk_ID t" if "u \<in> set (td_tasks db)" for u
    unfolding task_match_def using m(2,3) uni [OF that] by metis
  have ed: "task_edit tn t (f t)" using assms(3) m by (simp add: task_match_def)
  show ?thesis by (rule task_edit_row [where f = f and P = "task_match tn i", OF assms(2) m(1) ed]) (simp_all add: t(2) eq)
qed simp

lemma check_move_at:
  "check_move env tn i to db = Inr u \<Longrightarrow> \<exists>t. List.find (task_match tn i) (td_tasks db) = Some t \<and> ValidateTransition (tk_Status t) to"
  by (auto simp: check_move_def GetTaskByID_def bind_res_Inr_iff split: if_splits option.splits)

lemma match_unique:
  assumes "distinct (map tk_ID (td_tasks db))" "List.find (task_match tn i) (td_tasks db) = Some t"
    "u \<in> set (td_tasks db)" "task_match tn i u"
  shows "u = t"
  using find_match [OF assms(2)] assms(1,3,4) by (simp add: distinct_map inj_on_def task_match_def)

lemma set_status_edit:
  assumes "tk_TenantID t = tn" "ValidateTransition (tk_Status t) to"
  shows "task_edit tn t (set_status now to t)"
  using assms by (auto simp: task_edit_def set_status_def Let_def task_row_ok_def transition_defs split: if_splits)

lemma UpdateStatus_change:
  assumes "UpdateStatus env tn i to db = (r, db')" "distinct (map tk_ID (td_tasks db))"
  shows "task_change tn db db'"
proof (cases "check_move env tn i to db")
  case (Inr u)
  obtain t where t: "List.find (task_match tn i) (td_tasks db) = Some t" "ValidateTransition (tk_Status t) to"
    using check_move_at [OF Inr] by blast
  have "task_edit tn u (set_status (tv_now env) to u)" if "u \<in> set (td_tasks db)" "task_match tn i u" for u
    using match_unique [OF assms(2) t(1) that] find_match [OF t(1)] t(2) set_status_edit by blast
  then show ?thesis using update_tasks_change assms Inr by (simp add: UpdateStatus_def write_status_def)
qed (use assms in \<open>simp add: UpdateStatus_def\<close>)

lemma SkipTask_change:
  assumes "SkipTask env tn i reason db = (r, db')" "distinct (map tk_ID (td_tasks db))"
  shows "task_change tn db db'"
proof (cases "check_move env tn i ''skipped'' db")
  case (Inr u)
  obtain t where t: "List.find (task_match tn i) (td_tasks db) = Some t" "ValidateTransition (tk_Status t) ''skipped''"
    using check_move_at [OF Inr] by blast
  have "task_edit tn u (u\<lparr>tk_Status := ''skipped'', tk_SkipReason := Some reason, tk_UpdatedAt := tv_now env\<rparr>)"
    if "u \<in> set (td_tasks db)" "task_match tn i u" for u
    using match_unique [OF assms(2) t(1) that] find_match [OF t(1)] t(2)
    by (auto simp: task_edit_def task_row_ok_def transition_defs)
  then show ?thesis using update_tasks_change assms Inr by (simp add: SkipTask_def write_skip_def)
qed (use assms in \<open>simp add: SkipTask_def\<close>)

lemma task_queue_in: "t \<in> set (task_queue tn db) \<longleftrightarrow> t \<in> set (td_tasks db) \<and> tk_TenantID t = tn \<and> tk_Status t = ''queued''"
  by (auto simp: task_queue_def)

lemma GetNext_change:
  assumes "GetNext env tn emp db = (r, db')" "distinct (map tk_ID (td_tasks db))"
  shows "task_change tn db db'"
proof (cases "db' = db")
  case False
  then obtain b where b: "first_row (task_queue tn db) = Some b"
      "db' = db\<lparr>td_tasks := map (\<lambda>t. if tk_ID t = tk_ID b then assign_task emp (tv_now env) t else t) (td_tasks db)\<rparr>"
    using assms(1) by (auto simp: GetNext_def split: if_splits option.splits)
  have m: "b \<in> set (td_tasks db)" "tk_TenantID b = tn" "tk_Status b = ''queued''"
    using first_row_Some_in [OF b(1)] by (auto simp: task_queue_in)
  have "task_edit tn b (assign_task emp (tv_now env) b)"
    using m by (auto simp: task_edit_def assign_task_def task_row_ok_def transition_defs)
  then show ?thesis
    using task_edit_row [of db b tn "assign_task emp (tv_now env)" db' "\<lambda>t. tk_ID t = tk_ID b"] assms(2) m(1) b(2) by simp
qed simp

lemma LogException_change: "LogException env tn i req db = (r, db') \<Longrightarrow> task_change tn db db'"
  by (auto simp: LogException_def Let_def task_change_def list_ex_key split: if_splits)


lemma requireTenant_claim: "task_requireTenant parse who = Inr tn \<Longrightarrow> tc_claim who = Some tn"
  by (auto simp: task_requireTenant_def split: option.splits if_splits)

lemma with_task_change:
  assumes "with_task parse who i k db = (r, db')"
    and "\<And>tn taskID r db'. k tn taskID = (r, db') \<Longrightarrow> task_change tn db db'"
  shows "db' = db \<or> (\<exists>tn. tc_claim who = Some tn \<and> task_change tn db db')"
proof (cases "task_requireTenant parse who")
  case (Inr tn)
  then show ?thesis using assms requireTenant_claim [OF Inr] by (cases "parse i") (auto simp: with_task_def)
qed (use assms(1) in \<open>simp add: with_task_def\<close>)

text \<open>A request without the claim of a tenant changes nothing, one with it makes one change for the tenant.\<close>

lemma task_serve_change:
  assumes "task_serve parse (env, who, req) db = (r, db')" "distinct (map tk_ID (td_tasks db))"
  shows "db' = db \<or> (\<exists>tn. tc_claim who = Some tn \<and> task_change tn db db')"
proof (cases req)
  case (PostTask body)
  show ?thesis
  proof (cases "db' = db")
    case False
    then obtain q tn clean r' where c: "body = BodyJson q" "task_requireTenant parse who = Inr tn"
        "ValidateCreate (q\<lparr>cq_TenantID := tn\<rparr>) = Inr clean" "CreateTask env clean db = (r', db')"
      using assms(1) PostTask by (cases body) (auto split: sum.splits if_splits prod.splits)
    moreover have "cq_TenantID clean = tn" using c(3) by (auto simp: ValidateCreate_def Let_def split: if_splits)
    ultimately show ?thesis using CreateTask_change requireTenant_claim by blast
  qed simp
next
  case (NextTask employee)
  show ?thesis
  proof (cases "db' = db")
    case False
    then obtain tn emp r' where "task_requireTenant parse who = Inr tn" "GetNext env tn emp db = (r', db')"
      using assms(1) NextTask by (auto simp: getNext_def split: sum.splits option.splits prod.splits task_error.splits)
    then show ?thesis using GetNext_change assms(2) requireTenant_claim by blast
  qed simp
next
  case (GetTask i)
  show ?thesis using assms(1) unfolding GetTask task_serve.simps getTask_def by (rule with_task_change) simp
next
  case (PatchStatus i body)
  show ?thesis using assms(1) unfolding PatchStatus task_serve.simps updateStatus_def
    by (rule with_task_change) (auto intro: UpdateStatus_change [OF _ assms(2)] split: req_body.splits prod.splits)
next
  case (PostException i body)
  show ?thesis using assms(1) unfolding PostException task_serve.simps logException_def
    by (rule with_task_change)
      (auto intro: LogException_change split: req_body.splits prod.splits sum.splits task_error.splits)
next
  case (PostSkip i body)
  show ?thesis using assms(1) unfolding PostSkip task_serve.simps skipHandler_def
    by (rule with_task_change) (auto intro: SkipTask_change [OF _ assms(2)] split: req_body.splits prod.splits if_splits)
qed



fun task_run :: "(string \<Rightarrow> uuid option) \<Rightarrow> (task_env \<times> task_caller \<times> task_request) list \<Rightarrow> task_db \<Rightarrow> task_db" where
  "task_run parse [] db = db"
| "task_run parse (e # es) db = task_run parse es (snd (task_serve parse e db))"

lemma task_serve_ok:
  assumes "task_db_ok db" shows "task_db_ok (snd (task_serve parse e db))"
proof -
  obtain env who req where e: "e = (env, who, req)" by (cases e)
  obtain r db' where s: "task_serve parse (env, who, req) db = (r, db')" by fastforce
  show ?thesis using task_serve_change [OF s] task_change_ok assms e s by (auto simp: task_db_ok_def)
qed

text \<open>C32: Over every run of requests the tables stay well-formed: keys are distinct, types, priorities and
  statuses are the ones of the columns, a task in progress has a start time, a complete one a completion
  time and a verified one a verification time, and every exception is of a task that is there.\<close>

theorem task_tables_ok:
  assumes "task_db_ok db" shows "task_db_ok (task_run parse es db)"
  using assms by (induction es arbitrary: db) (simp_all add: task_serve_ok)

text \<open>The statuses of the queue have the lifecycle of the transition table.\<close>

definition task_status :: "task_db \<Rightarrow> uuid \<Rightarrow> string option" where
  "task_status db k = map_option snd (task_board db k)"

lemma board_step_moves:
  "board_step tn b b' \<Longrightarrow> b k = Some (o', x) \<Longrightarrow> \<exists>y. b' k = Some (o', y) \<and> (y = x \<or> o' = tn \<and> ValidateTransition x y)"
  by (cases rule: board_step.cases) auto

lemma task_serve_moves:
  assumes "task_db_ok db" "task_board db k = Some (o', x)"
  shows "\<exists>y. task_board (snd (task_serve parse (env, who, req) db)) k = Some (o', y)
           \<and> (y = x \<or> tc_claim who = Some o' \<and> ValidateTransition x y)"
proof -
  obtain r db' where s: "task_serve parse (env, who, req) db = (r, db')" by fastforce
  show ?thesis
    using task_serve_change [OF s] task_change_board [of _ db db'] board_step_moves [of _ "task_board db" "task_board db'" k o' x] assms s
    by (fastforce simp: task_db_ok_def)
qed

interpretation task_life: lifecycle "\<lambda>e db. snd (task_serve parse e db)" task_status ValidateTransition task_db_ok
proof
  fix s k x and e :: "task_env \<times> task_caller \<times> task_request"
  assume "task_db_ok s" "task_status s k = Some x"
  moreover obtain env who req where "e = (env, who, req)" by (cases e)
  ultimately show "\<exists>y. task_status (snd (task_serve parse e s)) k = Some y \<and> (y = x \<or> ValidateTransition x y)"
    using task_serve_moves [of s k _ x parse env who req] by (fastforce simp: task_status_def)
qed (rule task_serve_ok)

lemma task_run_life: "task_life.life_run parse es db = task_run parse es db"
  by (induction es arbitrary: db) simp_all



section \<open>Claiming the next task\<close>

text \<open>A failing claim takes nothing; one that succeeds takes the first of the queue.\<close>

fun claim_run :: "uuid \<Rightarrow> (task_env \<times> uuid) list \<Rightarrow> task_db \<Rightarrow> TaskDTO list \<times> task_db" where
  "claim_run tn [] db = ([], db)"
| "claim_run tn ((env, emp) # cs) db =
     (case GetNext env tn emp db of
        (Inl _, db') \<Rightarrow> claim_run tn cs db'
      | (Inr t, db') \<Rightarrow> (case claim_run tn cs db' of (ts, db'') \<Rightarrow> (t # ts, db'')))"

definition claim_fails :: "task_env \<Rightarrow> bool" where
  "claim_fails env \<longleftrightarrow> tv_fails env TaskBegin \<or> tv_fails env TaskClaim \<or> tv_fails env TaskAssign \<or> tv_fails env TaskCommit"

lemma distinct_task_queue: "distinct (map tk_ID (td_tasks db)) \<Longrightarrow> distinct (map tk_ID (task_queue tn db))"
  by (auto simp: task_queue_def distinct_map inj_on_def)

lemma filter_claimed:
  "filter (\<lambda>t. tk_TenantID t = tn \<and> tk_Status t = ''queued'')
       (map (\<lambda>t. if tk_ID t = i then assign_task emp now t else t) ts) =
     filter (\<lambda>t. tk_ID t \<noteq> i) (filter (\<lambda>t. tk_TenantID t = tn \<and> tk_Status t = ''queued'') ts)"
  by (induction ts) (auto simp: assign_task_def)

lemma task_queue_claimed:
  assumes d: "distinct (map tk_ID (td_tasks db))" and q: "task_queue tn db = b # q"
    and db': "td_tasks db' = map (\<lambda>t. if tk_ID t = tk_ID b then assign_task emp now t else t) (td_tasks db)"
  shows "task_queue tn db' = q"
proof -
  have "task_queue tn db' = filter (\<lambda>t. tk_ID t \<noteq> tk_ID b) (task_queue tn db)"
    unfolding task_queue_def db' filter_claimed filter_sort ..
  also have "\<dots> = q" using distinct_task_queue [OF d, of tn] q by (auto intro!: filter_True) (metis image_eqI)
  finally show ?thesis .
qed

lemma GetNext_cases:
  assumes "distinct (map tk_ID (td_tasks db))" "GetNext env tn emp db = (r, db')"
  shows "if claim_fails env \<or> task_queue tn db = [] then db' = db \<and> (\<exists>e. r = Inl e)
    else r = Inr (assign_task emp (tv_now env) (hd (task_queue tn db))) \<and> task_queue tn db' = tl (task_queue tn db)"
proof (cases "task_queue tn db")
  case (Cons b q)
  then show ?thesis
    using assms(2) task_queue_claimed [OF assms(1) Cons, of _ emp "tv_now env"]
    by (cases "claim_fails env") (auto simp: GetNext_def claim_fails_def split: if_splits)
qed (use assms in \<open>auto simp: GetNext_def split: if_splits\<close>)


lemma assign_task_ID [simp]: "tk_ID (assign_task emp now t) = tk_ID t"
  by (simp add: assign_task_def)

lemma map_ID_assign: "map tk_ID (map (\<lambda>t. if tk_ID t = i then assign_task emp now t else t) ts) = map tk_ID ts"
  by (induction ts) auto

lemma GetNext_keeps_distinct:
  "distinct (map tk_ID (td_tasks db)) \<Longrightarrow> GetNext env tn emp db = (r, db') \<Longrightarrow> distinct (map tk_ID (td_tasks db'))"
  by (auto simp: GetNext_def map_ID_assign simp del: map_map split: if_splits option.splits)

text \<open>C31: However claims arrive and whichever fail, the claims of one tenant hand out exactly the first tasks of
  its queue, by priority and age: each once, none skipped, as many as there are claims that do not fail
  or tasks to hand out.\<close>

theorem claims_in_order:
  assumes "distinct (map tk_ID (td_tasks db))" "claim_run tn cs db = (served, db')"
  shows "map tk_ID served = map tk_ID (take (length served) (task_queue tn db))
    \<and> task_queue tn db' = drop (length served) (task_queue tn db)
    \<and> length served = min (length (filter (\<lambda>c. \<not> claim_fails (fst c)) cs)) (length (task_queue tn db))
    \<and> list_all (\<lambda>t. tk_Status t = ''assigned'') served"
  using assms
proof (induction cs arbitrary: db served)
  case (Cons c cs)
  obtain env emp where c: "c = (env, emp)" by (cases c)
  obtain r db1 where g: "GetNext env tn emp db = (r, db1)" by fastforce
  have d: "distinct (map tk_ID (td_tasks db1))" using GetNext_keeps_distinct [OF Cons.prems(1) g] .
  show ?case
  proof (cases "claim_fails env \<or> task_queue tn db = []")
    case True
    then obtain e where "r = Inl e" "db1 = db" using GetNext_cases [OF Cons.prems(1) g] by (auto split: if_splits)
    then have "claim_run tn cs db = (served, db')" using Cons.prems(2) c g by simp
    from Cons.IH [OF Cons.prems(1) this] show ?thesis using True c by auto
  next
    case False
    then have r: "r = Inr (assign_task emp (tv_now env) (hd (task_queue tn db)))" "task_queue tn db1 = tl (task_queue tn db)"
      using GetNext_cases [OF Cons.prems(1) g] by auto
    obtain ts where ts: "claim_run tn cs db1 = (ts, db')" "served = assign_task emp (tv_now env) (hd (task_queue tn db)) # ts"
      using Cons.prems(2) c g r(1) by (auto split: prod.splits)
    obtain b q where q: "task_queue tn db = b # q" using False by (cases "task_queue tn db") auto
    from Cons.IH [OF d ts(1)] show ?thesis using False c r(2) ts(2) q by (auto simp: assign_task_def)
  qed
qed auto


text \<open>Two queued tasks of one tenant, the second more urgent.\<close>

definition toy_env :: "gotime \<Rightarrow> task_env" where
  "toy_env now = \<lparr>tv_now = now, tv_fails = (\<lambda>_. False), tv_new = 9\<rparr>"

definition toy_task :: "uuid \<Rightarrow> int \<Rightarrow> TaskDTO" where
  "toy_task i p = \<lparr>tk_ID = i, tk_TenantID = 1, tk_TaskType = ''receiving'', tk_Priority = p, tk_Status = ''queued'', tk_ItemID = None,
     tk_LocationID = None, tk_ZoneID = None, tk_Quantity = None, tk_SourceLocationID = None, tk_AssigneeID = None, tk_AssignedAt = None,
     tk_StartedAt = None, tk_CompletedAt = None, tk_VerifiedAt = None, tk_EstimatedSeconds = None, tk_SkipReason = None,
     tk_SourceRef = None, tk_Attributes = RawText ''{}'', tk_CreatedAt = 0, tk_UpdatedAt = 0\<rparr>"

definition toy_tasks :: task_db where
  "toy_tasks = \<lparr>td_tasks = [toy_task 1 3, toy_task 2 1], td_exceptions = []\<rparr>"

definition toy_caller :: task_caller where
  "toy_caller = \<lparr>tc_claim = Some 1, tc_query = []\<rparr>"

lemma toy_tasks_ok: "task_db_ok toy_tasks"
  by (simp add: task_db_ok_def toy_tasks_def toy_task_def task_row_ok_def validTypes_def allowed_moves_def)

lemma toy_queue: "task_queue 1 toy_tasks = [toy_task 2 1, toy_task 1 3]"
  by (simp add: task_queue_def toy_tasks_def toy_task_def)


theorem task_tables_ok_witness:
  "task_db_ok (task_run (\<lambda>_. Some 5) [(toy_env 7, toy_caller, NextTask ''e'')] toy_tasks)"
  by (rule task_tables_ok [OF toy_tasks_ok])


theorem claims_in_order_witness:
  "map tk_ID (fst (claim_run 1 [(toy_env 7, 5), (toy_env 8, 6), (toy_env 9, 5)] toy_tasks)) = [2, 1]"
proof -
  obtain served db' where c: "claim_run 1 [(toy_env 7, 5), (toy_env 8, 6), (toy_env 9, 5)] toy_tasks = (served, db')" by fastforce
  have "distinct (map tk_ID (td_tasks toy_tasks))" using toy_tasks_ok by (simp add: task_db_ok_def)
  note order = claims_in_order [OF this c, unfolded toy_queue]
  then have "length served = 2" by (simp add: toy_env_def claim_fails_def)
  with order show ?thesis unfolding c by (simp add: toy_task_def)
qed

section \<open>What the check of a transition does not cover\<close>

lemma write_status_row:
  fixes to :: string
  assumes "distinct (map tk_ID (td_tasks db))" "List.find (task_match tn i) (td_tasks db) = Some t" "\<not> tv_fails env TaskUpdate"
  defines "db' \<equiv> snd (write_status env tn i to db)"
  shows "distinct (map tk_ID (td_tasks db'))" "List.find (task_match tn i) (td_tasks db') = Some (set_status (tv_now env) to t)"
    "task_status db' i = Some to"
proof -
  have keep: "tk_ID (set_status n to u) = tk_ID u" "tk_TenantID (set_status n to u) = tk_TenantID u" "tk_Status (set_status n to u) = to" for n u
    by (simp_all add: set_status_def Let_def)
  have rows: "td_tasks db' = map (\<lambda>t. if task_match tn i t then set_status (tv_now env) to t else t) (td_tasks db)"
    using assms(2,3) by (simp add: db'_def write_status_def update_tasks_def)
  have "map tk_ID (td_tasks db') = map tk_ID (td_tasks db)" unfolding rows by (induction "td_tasks db" rule: list.induct) (auto simp: keep)
  then show d: "distinct (map tk_ID (td_tasks db'))" using assms(1) by simp
  have find: "List.find (task_match tn i) (map (\<lambda>t. if task_match tn i t then set_status n to t else t) ts) =
      map_option (set_status n to) (List.find (task_match tn i) ts)" for n ts
    by (induction ts) (auto simp: task_match_def keep)
  then show f: "List.find (task_match tn i) (td_tasks db') = Some (set_status (tv_now env) to t)" by (simp add: rows assms(2))
  show "task_status db' i = Some to"
    using find_match [OF f] find_task_in [OF d, of "set_status (tv_now env) to t"] by (simp add: task_status_def task_board_def keep)
qed

text \<open>Two requests whose checks both run before either's update: the task moves on, and then leaves a
  status that has no way out.\<close>

theorem task_update_race:
  assumes "distinct (map tk_ID (td_tasks db))" "List.find (task_match tn i) (td_tasks db) = Some t" "tk_Status t = ''complete''"
    and "\<not> tv_fails env TaskSelect" "\<not> tv_fails env TaskUpdate"
  defines "db' \<equiv> snd (write_status env tn i ''verified'' db)"
  defines "db'' \<equiv> snd (write_status env tn i ''cancelled'' db')"
  shows "check_move env tn i ''verified'' db = Inr ()" "check_move env tn i ''cancelled'' db = Inr ()"
    "task_status db' i = Some ''verified''" "task_status db'' i = Some ''cancelled''" "\<not> ValidateTransition ''verified'' ''cancelled''"
proof -
  note w = write_status_row [OF assms(1,2,5), of "''verified''", folded db'_def]
  show "task_status db' i = Some ''verified''" "task_status db'' i = Some ''cancelled''"
    using w(3) write_status_row(3) [OF w(1,2) assms(5), of "''cancelled''"] by (simp_all add: db''_def)
qed (use assms(2-4) in \<open>simp_all add: check_move_def GetTaskByID_def transition_defs\<close>)

text \<open>An exception is logged on any tenant's task, under the caller's tenant.\<close>

lemma LogException_any_tenant:
  assumes "xq_ReasonCode req \<in> validExceptionCodes" "\<not> tv_fails env TaskException" "i \<in> tk_ID ` set (td_tasks db)"
    "tv_new env \<notin> te_ID ` set (td_exceptions db)"
  shows "\<exists>x. fst (LogException env tn i req db) = Inr x \<and> te_TaskID x = i \<and> te_TenantID x = tn"
  using assms by (simp add: LogException_def list_ex_key Let_def)

text \<open>A status request takes a task to skipped without a reason, and to assigned without an assignee.\<close>

lemma skipped_without_reason:
  assumes "List.find (task_match tn i) (td_tasks db) = Some t" "tk_Status t = ''queued''" "to \<in> {''skipped'', ''assigned''}"
    "\<not> tv_fails env TaskSelect" "\<not> tv_fails env TaskUpdate"
  shows "\<exists>t'. fst (UpdateStatus env tn i to db) = Inr t' \<and> tk_Status t' = to \<and> tk_SkipReason t' = tk_SkipReason t
    \<and> tk_AssigneeID t' = tk_AssigneeID t"
  using assms by (auto simp: UpdateStatus_def check_move_def GetTaskByID_def transition_defs write_status_def update_tasks_def
      set_status_def Let_def)

end
