(* ===== verification/Replenish.thy ===== *)
theory Replenish
  imports SaleConsumer Task
begin

text \<open>
  The replenishment trigger (\<open>internal/replenishment/trigger.go\<close>): signals of empty shelves are read from the
  stream in the group \<open>replenishment-trigger\<close> and become directed tasks, unless the shelf is above its minimum
  or has an open task.  The recovery from panics has nothing to recover from here.
\<close>

section \<open>The trigger\<close>

record ThresholdRow =
  thr_TenantID :: uuid
  thr_ItemID :: uuid
  thr_LocationID :: uuid
  thr_DisplayMin :: pg_numeric
  thr_DisplayMax :: "pg_numeric option"

record threshold =
  thd_min :: go_float
  thd_max :: "go_float option"

datatype refill_call = ThresholdQuery | ReadGroup | AckMessage

record refill_env =
  rfe_task :: task_env
  rfe_fails :: "refill_call \<Rightarrow> bool"

record refill_state =
  rfs_stream :: "replenish_msg stream"
  rfs_thresholds :: "ThresholdRow list"
  rfs_tasks :: task_db

text \<open>Whatever goes wrong with the query, also a failing database, gives the default.\<close>

definition loadThreshold :: "refill_env \<Rightarrow> uuid \<Rightarrow> uuid \<Rightarrow> uuid \<Rightarrow> ThresholdRow list \<Rightarrow> threshold" where
  "loadThreshold env tn i l rows =
     (if rfe_fails env ThresholdQuery then \<lparr>thd_min = Finite 1, thd_max = None\<rparr>
      else case List.find (\<lambda>r. thr_TenantID r = tn \<and> thr_ItemID r = i \<and> thr_LocationID r = l) rows of
          None \<Rightarrow> \<lparr>thd_min = Finite 1, thd_max = None\<rparr>
        | Some r \<Rightarrow> \<lparr>thd_min = fst (ParseFloat (num_text (thr_DisplayMin r))),
                     thd_max = map_option (\<lambda>v. fst (ParseFloat (num_text v))) (thr_DisplayMax r)\<rparr>)"

definition parseReplenishMsg :: "(string \<Rightarrow> uuid option) \<Rightarrow> replenish_msg \<Rightarrow> (uuid \<times> uuid \<times> uuid \<times> go_float) option" where
  "parseReplenishMsg parse m =
     (case (parse (rpm_tenant_id m), parse (rpm_item_id m), parse (rpm_location_id m), ParseFloat (rpm_soh m)) of
        (Some tn, Some i, Some l, (soh, None)) \<Rightarrow> Some (tn, i, l, soh)
      | _ \<Rightarrow> None)"

definition belowMin :: "go_float \<Rightarrow> go_float \<Rightarrow> bool" where
  "belowMin soh m \<longleftrightarrow> float_less soh m"

definition quantityToPull :: "go_float \<Rightarrow> go_float option \<Rightarrow> go_float \<Rightarrow> string" where
  "quantityToPull soh mx mn =
     (let qty = (case mx of Some m \<Rightarrow> if float_less soh m then float_sub m soh else mn | None \<Rightarrow> mn) in
      FormatFloat 4 (if float_nonpos qty then mn else qty))"

definition refill_request :: "uuid \<Rightarrow> uuid \<Rightarrow> uuid \<Rightarrow> string \<Rightarrow> CreateTaskRequest" where
  "refill_request tn i l qty = \<lparr>cq_TenantID = tn, cq_TaskType = ''replenishment'', cq_Priority = 2, cq_ItemID = Some i, cq_LocationID = Some l,
     cq_ZoneID = None, cq_Quantity = Some qty, cq_SourceLocationID = None, cq_EstimatedSeconds = None, cq_SourceRef = None, cq_Attributes = RawText []\<rparr>"

definition refill_ack :: "refill_env \<Rightarrow> nat \<Rightarrow> refill_state \<Rightarrow> refill_state" where
  "refill_ack env i st = (if rfe_fails env AckMessage then st else st\<lparr>rfs_stream := xack i (rfs_stream st)\<rparr>)"

definition refill_handle :: "(string \<Rightarrow> uuid option) \<Rightarrow> refill_env \<Rightarrow> nat \<times> replenish_msg \<Rightarrow> refill_state \<Rightarrow> refill_state" where
  "refill_handle parse env msg st =
     (case parseReplenishMsg parse (snd msg) of
        None \<Rightarrow> refill_ack env (fst msg) st
      | Some (tn, i, l, soh) \<Rightarrow>
          let th = loadThreshold env tn i l (rfs_thresholds st) in
          if \<not> belowMin soh (thd_min th) then refill_ack env (fst msg) st
          else (case OpenReplenishmentExists (rfe_task env) tn i l (rfs_tasks st) of
              Inl _ \<Rightarrow> st
            | Inr True \<Rightarrow> refill_ack env (fst msg) st
            | Inr False \<Rightarrow>
                (case CreateTask (rfe_task env) (refill_request tn i l (quantityToPull soh (thd_max th) (thd_min th))) (rfs_tasks st) of
                   (Inl _, db) \<Rightarrow> st\<lparr>rfs_tasks := db\<rparr>
                 | (Inr _, db) \<Rightarrow> refill_ack env (fst msg) (st\<lparr>rfs_tasks := db\<rparr>))))"

text \<open>A batch; the \<open>k\<close>-th message of it is handled in environment \<open>k + 1\<close>.\<close>

fun refill_handle_all :: "(string \<Rightarrow> uuid option) \<Rightarrow> (nat \<Rightarrow> refill_env) \<Rightarrow> nat \<Rightarrow> (nat \<times> replenish_msg) list \<Rightarrow> refill_state \<Rightarrow> refill_state" where
  "refill_handle_all parse envs k [] st = st"
| "refill_handle_all parse envs k (m # ms) st = refill_handle_all parse envs (Suc k) ms (refill_handle parse (envs k) m st)"

definition refill_batch :: "(string \<Rightarrow> uuid option) \<Rightarrow> (nat \<Rightarrow> refill_env) \<Rightarrow> refill_state \<Rightarrow> refill_state" where
  "refill_batch parse envs st =
     (if rfe_fails (envs 0) ReadGroup then st
      else (case xreadgroup 20 (rfs_stream st) of (msgs, s) \<Rightarrow> refill_handle_all parse envs 1 msgs (st\<lparr>rfs_stream := s\<rparr>)))"

section \<open>One open task per shelf\<close>

definition open_refill :: "uuid \<Rightarrow> uuid \<Rightarrow> uuid \<Rightarrow> TaskDTO \<Rightarrow> bool" where
  "open_refill tn i l t \<longleftrightarrow> tk_TenantID t = tn \<and> tk_ItemID t = Some i \<and> tk_LocationID t = Some l \<and> tk_TaskType t = ''replenishment'' \<and> open_status (tk_Status t)"

definition open_refills :: "uuid \<Rightarrow> uuid \<Rightarrow> uuid \<Rightarrow> task_db \<Rightarrow> TaskDTO list" where
  "open_refills tn i l db = filter (open_refill tn i l) (td_tasks db)"

lemma OpenReplenishmentExists_iff:
  "\<not> tv_fails env TaskExists \<Longrightarrow> OpenReplenishmentExists env tn i l db = Inr (open_refills tn i l db \<noteq> [])"
  by (auto simp: OpenReplenishmentExists_def open_refills_def open_refill_def filter_empty_conv list_ex_iff)

lemma CreateTask_cases:
  obtains (failed) e where "CreateTask env req db = (Inl e, db)"
  | (created) t where "CreateTask env req db = (Inr t, db\<lparr>td_tasks := td_tasks db @ [t]\<rparr>)" "tk_TenantID t = cq_TenantID req"
      "tk_TaskType t = cq_TaskType req" "tk_ItemID t = cq_ItemID req" "tk_LocationID t = cq_LocationID req" "tk_Status t = ''queued''"
      "tk_Quantity t = cq_Quantity req" "tk_Priority t = cq_Priority req" "tk_ID t = tv_new env" "tk_ID t \<notin> tk_ID ` set (td_tasks db)"
proof (cases "fst (CreateTask env req db)")
  case (Inl e)
  then have "CreateTask env req db = (Inl e, db)" by (auto simp: CreateTask_def Let_def split: if_splits)
  then show ?thesis by (rule failed)
next
  case (Inr t)
  then show ?thesis by (intro created [of t]) (auto simp: CreateTask_def Let_def list_ex_iff split: if_splits)
qed

text \<open>Handling a message settles it or leaves everything as it was: it creates a task exactly for a shelf below
  its minimum without an open one.\<close>

lemma refill_ack_fields [simp]: "rfs_tasks (refill_ack env i st) = rfs_tasks st" "rfs_thresholds (refill_ack env i st) = rfs_thresholds st"
  by (simp_all add: refill_ack_def)

lemma refill_handle_tasks:
  obtains (same) "rfs_tasks (refill_handle parse env msg st) = rfs_tasks st"
  | (created) tn i l t where "td_tasks (rfs_tasks (refill_handle parse env msg st)) = td_tasks (rfs_tasks st) @ [t]"
      "open_refills tn i l (rfs_tasks st) = []" "tk_TenantID t = tn" "tk_ItemID t = Some i" "tk_LocationID t = Some l" "tk_TaskType t = ''replenishment''"
      "tk_ID t \<notin> tk_ID ` set (td_tasks (rfs_tasks st))"
proof (cases "parseReplenishMsg parse (snd msg)")
  case None
  then show ?thesis using same by (simp add: refill_handle_def)
next
  case (Some p)
  obtain tn i l soh where p: "p = (tn, i, l, soh)" using prod_cases4 by blast
  let ?th = "loadThreshold env tn i l (rfs_thresholds st)"
  let ?req = "refill_request tn i l (quantityToPull soh (thd_max ?th) (thd_min ?th))"
  show ?thesis
  proof (cases "belowMin soh (thd_min ?th) \<and> OpenReplenishmentExists (rfe_task env) tn i l (rfs_tasks st) = Inr False")
    case False
    then have "rfs_tasks (refill_handle parse env msg st) = rfs_tasks st"
      using Some p by (auto simp: refill_handle_def Let_def split: sum.split bool.split)
    then show ?thesis by (rule same)
  next
    case True
    then have none: "open_refills tn i l (rfs_tasks st) = []"
      using OpenReplenishmentExists_iff [of "rfe_task env" tn i l "rfs_tasks st"] by (cases "tv_fails (rfe_task env) TaskExists") (auto simp: OpenReplenishmentExists_def)
    show ?thesis
    proof (cases "rfe_task env" ?req "rfs_tasks st" rule: CreateTask_cases)
      case (failed e)
      then have "rfs_tasks (refill_handle parse env msg st) = rfs_tasks st" using Some p True by (simp add: refill_handle_def Let_def)
      then show ?thesis by (rule same)
    next
      case (created t)
      then have "td_tasks (rfs_tasks (refill_handle parse env msg st)) = td_tasks (rfs_tasks st) @ [t]" using Some p True by (simp add: refill_handle_def Let_def)
      then show ?thesis using that(2) none created by (simp add: refill_request_def)
    qed
  qed
qed


text \<open>A request of the task queue that creates no replenishment task: no shelf has more open ones than before.\<close>

fun creates_refill :: "task_request \<Rightarrow> bool" where
  "creates_refill (PostTask (BodyJson q)) = (cq_TaskType q = ''replenishment'')"
| "creates_refill _ = False"

lemma task_serve_length:
  assumes "\<And>body. req \<noteq> PostTask body"
  shows "length (td_tasks (snd (task_serve parse (env, who, req) db))) = length (td_tasks db)"
proof (cases req)
  case (NextTask e)
  then show ?thesis by (auto simp: getNext_def GetNext_def split: sum.split option.split task_error.split prod.split)
next
  case (GetTask i)
  then show ?thesis by (auto simp: getTask_def with_task_def split: sum.split option.split)
next
  case (PatchStatus i body)
  then show ?thesis by (auto simp: updateStatus_def with_task_def UpdateStatus_def write_status_def update_tasks_def split: sum.split option.split req_body.split prod.split)
next
  case (PostException i body)
  then show ?thesis by (auto simp: logException_def with_task_def LogException_def Let_def split: sum.split option.split req_body.split prod.split task_error.split)
next
  case (PostSkip i body)
  then show ?thesis by (auto simp: skipHandler_def with_task_def SkipTask_def write_skip_def update_tasks_def split: sum.split option.split req_body.split prod.split)
qed (use assms in auto)

lemma never_reopened: "ValidateTransition s u \<Longrightarrow> open_status u \<Longrightarrow> open_status s"
proof (rule ccontr)
  assume v: "ValidateTransition s u" and u: "open_status u" and s: "\<not> open_status s"
  then obtain moves where m: "allowed_moves s = Some moves" "u \<in> moves" by (auto simp: ValidateTransition_def split: option.splits)
  have "s \<noteq> ''queued''" "s \<noteq> ''assigned''" "s \<noteq> ''in_progress''" using s by (auto simp: open_status_def)
  then have "moves \<subseteq> {''verified'', ''cancelled''}" using m(1) by (auto simp: allowed_moves_def split: if_splits)
  then show False using m(2) u by (auto simp: open_status_def)
qed

lemma edited_not_opened: "task_edit tn t t' \<Longrightarrow> open_refill tn' i l t' \<Longrightarrow> open_refill tn' i l t"
  unfolding task_edit_def open_refill_def using never_reopened by metis

lemma filter_edit_le:
  assumes "\<And>t. Q (f t) \<Longrightarrow> Q t" shows "length (filter Q (map f ts)) \<le> length (filter Q ts)"
  using assms by (induction ts) auto

lemma task_serve_refills:
  assumes "\<not> creates_refill req" "distinct (map tk_ID (td_tasks db))"
  shows "length (open_refills tn i l (snd (task_serve parse (env, who, req) db))) \<le> length (open_refills tn i l db)"
proof (cases "\<exists>body. req = PostTask body")
  case True
  then obtain body where body: "req = PostTask body" by blast
  show ?thesis
  proof (cases "snd (task_serve parse (env, who, req) db) = db")
    case False
    then obtain q clean where c: "body = BodyJson q" "cq_TaskType clean = cq_TaskType q"
        "snd (task_serve parse (env, who, req) db) = snd (CreateTask env clean db)"
    proof -
      obtain q where q: "body = BodyJson q" using False body by (cases body) auto
      obtain tn' where t: "task_requireTenant parse who = Inr tn'" "\<not> (cq_TenantID q \<noteq> uuid_nil \<and> cq_TenantID q \<noteq> tn')"
        using False body q by (cases "task_requireTenant parse who") (auto split: if_splits)
      obtain clean where v: "ValidateCreate (q\<lparr>cq_TenantID := tn'\<rparr>) = Inr clean"
        using False body q t by (cases "ValidateCreate (q\<lparr>cq_TenantID := tn'\<rparr>)") (auto split: if_splits)
      have "cq_TaskType clean = cq_TaskType q" using v by (auto simp: ValidateCreate_def Let_def split: if_splits)
      moreover have "snd (task_serve parse (env, who, req) db) = snd (CreateTask env clean db)"
        using body q t v by (cases "CreateTask env clean db"; cases "fst (CreateTask env clean db)") auto
      ultimately show ?thesis using that q by blast
    qed
    have "cq_TaskType clean \<noteq> ''replenishment''" using assms(1) body c by simp
    then have "open_refills tn i l (snd (CreateTask env clean db)) = open_refills tn i l db"
      by (cases env clean db rule: CreateTask_cases) (auto simp: open_refills_def open_refill_def)
    then show ?thesis using c(3) by simp
  qed simp
next
  case False
  let ?db = "snd (task_serve parse (env, who, req) db)"
  have len: "length (td_tasks ?db) = length (td_tasks db)" using task_serve_length False by blast
  from task_serve_change [of parse env who req db "fst (task_serve parse (env, who, req) db)" ?db, OF _ assms(2)]
  consider "?db = db" | tn' where "task_change tn' db ?db" by auto
  then show ?thesis
  proof cases
    case 2
    then consider "td_tasks ?db = td_tasks db" | t t' where "task_edit tn' t t'" "td_tasks ?db = map (\<lambda>u. if tk_ID u = tk_ID t then t' else u) (td_tasks db)" "t \<in> set (td_tasks db)"
      using len unfolding task_change_def by fastforce
    then show ?thesis
    proof cases
      case b: 2
      have "td_tasks ?db = map (\<lambda>u. if u = t then t' else u) (td_tasks db)"
        using b assms(2) by (auto simp: distinct_map inj_on_def)
      then show ?thesis unfolding open_refills_def by (simp only:) (rule filter_edit_le, use edited_not_opened [OF b(1)] in \<open>auto split: if_splits\<close>)
    qed (simp add: open_refills_def)
  qed simp
qed


text \<open>The trigger beside the workers of the queue, in any order and whatever fails.\<close>

datatype refill_event = TriggerBatch "nat \<Rightarrow> refill_env" | QueueRequest "task_env \<times> task_caller \<times> task_request" | Signal replenish_msg

fun refill_step :: "(string \<Rightarrow> uuid option) \<Rightarrow> refill_event \<Rightarrow> refill_state \<Rightarrow> refill_state" where
  "refill_step parse (TriggerBatch envs) st = refill_batch parse envs st"
| "refill_step parse (QueueRequest e) st = st\<lparr>rfs_tasks := snd (task_serve parse e (rfs_tasks st))\<rparr>"
| "refill_step parse (Signal m) st = st\<lparr>rfs_stream := xadd m (rfs_stream st)\<rparr>"

definition one_refill :: "task_db \<Rightarrow> bool" where
  "one_refill db \<longleftrightarrow> distinct (map tk_ID (td_tasks db)) \<and> (\<forall>tn i l. length (open_refills tn i l db) \<le> 1)"

lemma refill_handle_one:
  assumes "one_refill (rfs_tasks st)" shows "one_refill (rfs_tasks (refill_handle parse env msg st))"
proof (cases parse env msg st rule: refill_handle_tasks)
  case (created tn i l t)
  have "length (open_refills tn' i' l' (rfs_tasks (refill_handle parse env msg st))) \<le> 1" for tn' i' l'
  proof (cases "(tn', i', l') = (tn, i, l)")
    case True
    then show ?thesis using created by (simp add: open_refills_def)
  next
    case False
    then have "\<not> open_refill tn' i' l' t" using created by (auto simp: open_refill_def)
    then have "open_refills tn' i' l' (rfs_tasks (refill_handle parse env msg st)) = open_refills tn' i' l' (rfs_tasks st)"
      using created by (simp add: open_refills_def)
    then show ?thesis using assms by (simp add: one_refill_def)
  qed
  moreover have "distinct (map tk_ID (td_tasks (rfs_tasks (refill_handle parse env msg st))))"
    using created assms by (simp add: one_refill_def)
  ultimately show ?thesis by (simp add: one_refill_def)
qed (use assms in simp)

lemma refill_batch_one: "one_refill (rfs_tasks st) \<Longrightarrow> one_refill (rfs_tasks (refill_batch parse envs st))"
proof -
  have all: "one_refill (rfs_tasks st) \<Longrightarrow> one_refill (rfs_tasks (refill_handle_all parse envs k ms st))" for k ms st
    by (induction ms arbitrary: k st) (simp_all add: refill_handle_one)
  then show "one_refill (rfs_tasks st) \<Longrightarrow> ?thesis" by (simp add: refill_batch_def split: prod.split)
qed

lemma task_serve_one:
  assumes "one_refill db" "\<not> creates_refill req" shows "one_refill (snd (task_serve parse (env, who, req) db))"
proof -
  have d: "distinct (map tk_ID (td_tasks db))" using assms(1) by (simp add: one_refill_def)
  have "length (open_refills tn i l (snd (task_serve parse (env, who, req) db))) \<le> 1" for tn i l
    using task_serve_refills [OF assms(2) d, of tn i l parse env who] assms(1) unfolding one_refill_def by (meson le_trans)
  moreover have "distinct (map tk_ID (td_tasks (snd (task_serve parse (env, who, req) db))))"
  proof -
    from task_serve_change [of parse env who req db "fst (task_serve parse (env, who, req) db)" "snd (task_serve parse (env, who, req) db)", OF _ d]
    have "snd (task_serve parse (env, who, req) db) = db \<or> (\<exists>tn. task_change tn db (snd (task_serve parse (env, who, req) db)))" by auto
    then show ?thesis using d
    proof (elim disjE exE)
      fix tn assume "task_change tn db (snd (task_serve parse (env, who, req) db))"
      then show ?thesis unfolding task_change_def
      proof (elim disjE exE bexE conjE)
        fix t t' assume "task_edit tn t t'" "td_tasks (snd (task_serve parse (env, who, req) db)) = map (\<lambda>u. if tk_ID u = tk_ID t then t' else u) (td_tasks db)"
        then have "map tk_ID (td_tasks (snd (task_serve parse (env, who, req) db))) = map tk_ID (td_tasks db)" by (auto simp: task_edit_def)
        then show ?thesis using d by simp
      qed (use d in auto)
    qed simp
  qed
  ultimately show ?thesis by (simp add: one_refill_def)
qed

text \<open>C21: A shelf never has two open replenishment tasks, however signals, batches of the trigger and requests of the
  workers that create none follow each other and whatever fails.\<close>

theorem one_open_refill:
  assumes "one_refill (rfs_tasks st)" "\<forall>e env who req. e \<in> set es \<and> e = QueueRequest (env, who, req) \<longrightarrow> \<not> creates_refill req"
  shows "length (open_refills tn i l (rfs_tasks (fold (refill_step parse) es st))) \<le> 1"
proof -
  have "one_refill (rfs_tasks (fold (refill_step parse) es st))"
    using assms
  proof (induction es arbitrary: st)
    case (Cons e es)
    have "one_refill (rfs_tasks (refill_step parse e st))"
    proof (cases e)
      case (QueueRequest q)
      then show ?thesis using Cons.prems task_serve_one by (cases q) auto
    qed (use Cons.prems refill_batch_one in auto)
    then show ?case using Cons by simp
  qed simp
  then show ?thesis by (simp add: one_refill_def)
qed


section \<open>An empty shelf gets its task\<close>

lemma ParseFloat_num_text:
  assumes "num_fits n"
  obtains x where "ParseFloat (num_text (Num n)) = (Finite x, None)" "n \<le> 0 \<Longrightarrow> x \<le> 0" "0 < n \<Longrightarrow> 0 < x"
proof -
  let ?x = "of_int \<bar>n\<bar> / 10 ^ 4 :: rat"
  have a: "(of_int \<bar>n\<bar> :: rat) < of_int (10 ^ 14)" using assms unfolding num_fits_def by (simp only: of_int_less_iff)
  then have b: "0 \<le> ?x" "?x < 10 ^ 10" by simp_all
  have "?x < 2 ^ 34" "?x < 2 ^ 53" using b(2) by (auto elim: less_trans)
  note r = rnd_small [OF b(1) this(2)]
  have "rnd ?x < 2 ^ 34" using r(1) b(2) by simp
  moreover have "(2 :: rat) ^ 34 \<le> 2 ^ 1024" by (intro power_increasing) auto
  ultimately have "rnd ?x < 2 ^ 1024" by linarith
  from ParseFloat_fixed [OF _ this] have p: "ParseFloat (num_text (Num n)) = (Finite (if n < 0 then - rnd ?x else rnd ?x), None)" by simp
  have "0 < rnd ?x" if "0 < n"
  proof (rule rnd_pos)
    have "(1 :: rat) \<le> of_int \<bar>n\<bar>" using that by simp
    then show "1 / 10 ^ 4 \<le> ?x" by (intro divide_right_mono) auto
  qed (rule \<open>?x < 2 ^ 34\<close>)
  moreover have "n = 0 \<Longrightarrow> rnd ?x = 0" by (simp add: rnd_def)
  ultimately show ?thesis using that [OF p] r(2) by (cases "n < 0"; cases "n = 0") simp_all
qed


definition ready :: "refill_env \<Rightarrow> task_db \<Rightarrow> bool" where
  "ready env db \<longleftrightarrow> (\<forall>c. \<not> rfe_fails env c) \<and> (\<forall>c. \<not> tv_fails (rfe_task env) c) \<and> tv_new (rfe_task env) \<notin> tk_ID ` set (td_tasks db)"

lemma CreateTask_ready:
  assumes "\<not> tv_fails env TaskInsert" "tv_new env \<notin> tk_ID ` set (td_tasks db)" "cq_TaskType req \<in> validTypes" "1 \<le> cq_Priority req" "cq_Priority req \<le> 5"
  obtains t where "CreateTask env req db = (Inr t, db\<lparr>td_tasks := td_tasks db @ [t]\<rparr>)" "tk_TenantID t = cq_TenantID req"
    "tk_TaskType t = cq_TaskType req" "tk_ItemID t = cq_ItemID req" "tk_LocationID t = cq_LocationID req" "tk_Status t = ''queued''"
proof -
  have "\<not> list_ex (\<lambda>t. tk_ID t = tv_new env) (td_tasks db)" using assms(2) unfolding list_ex_iff by (metis imageI)
  then obtain t where "CreateTask env req db = (Inr t, db\<lparr>td_tasks := td_tasks db @ [t]\<rparr>)" using assms by (auto simp: CreateTask_def Let_def)
  then show ?thesis using that by (cases env req db rule: CreateTask_cases) auto
qed

text \<open>Without a failing call a signal below the minimum is acknowledged, and its shelf has an open task.\<close>

lemma refill_handle_ready:
  assumes "ready env (rfs_tasks st)" "parseReplenishMsg parse m = Some (tn, i, l, soh)"
    and "belowMin soh (thd_min (loadThreshold env tn i l (rfs_thresholds st)))"
  shows "open_refills tn i l (rfs_tasks (refill_handle parse env (k, m) st)) \<noteq> []
    \<and> rfs_stream (refill_handle parse env (k, m) st) = xack k (rfs_stream st)"
proof -
  let ?th = "loadThreshold env tn i l (rfs_thresholds st)"
  let ?req = "refill_request tn i l (quantityToPull soh (thd_max ?th) (thd_min ?th))"
  have ex: "OpenReplenishmentExists (rfe_task env) tn i l (rfs_tasks st) = Inr (open_refills tn i l (rfs_tasks st) \<noteq> [])"
    using assms(1) by (intro OpenReplenishmentExists_iff) (simp add: ready_def)
  show ?thesis
  proof (cases "open_refills tn i l (rfs_tasks st) = []")
    case True
    obtain t where t: "CreateTask (rfe_task env) ?req (rfs_tasks st) = (Inr t, (rfs_tasks st)\<lparr>td_tasks := td_tasks (rfs_tasks st) @ [t]\<rparr>)"
        "open_refill tn i l t"
      by (rule CreateTask_ready [of "rfe_task env" "rfs_tasks st" ?req])
        (use assms(1) in \<open>auto simp: ready_def refill_request_def validTypes_def open_refill_def open_status_def\<close>)
    have "refill_handle parse env (k, m) st = refill_ack env k (st\<lparr>rfs_tasks := (rfs_tasks st)\<lparr>td_tasks := td_tasks (rfs_tasks st) @ [t]\<rparr>\<rparr>)"
      using assms(2,3) ex True t(1) by (simp add: refill_handle_def Let_def)
    then show ?thesis using t(2) assms(1) by (simp add: open_refills_def refill_ack_def ready_def)
  next
    case False
    then have "refill_handle parse env (k, m) st = refill_ack env k st" using assms(2,3) ex by (simp add: refill_handle_def Let_def)
    then show ?thesis using False assms(1) by (simp add: refill_ack_def ready_def)
  qed
qed

text \<open>Every minimum is a positive number; the default is.\<close>

definition positive_minimums :: "ThresholdRow list \<Rightarrow> bool" where
  "positive_minimums rows \<longleftrightarrow> (\<forall>r \<in> set rows. \<exists>m. thr_DisplayMin r = Num m \<and> 0 < m \<and> num_fits m)"

lemma empty_below_min:
  assumes "positive_minimums rows" "num_fits n" "n \<le> 0"
  shows "belowMin (fst (ParseFloat (num_text (Num n)))) (thd_min (loadThreshold env tn i l rows))"
proof -
  obtain x where x: "fst (ParseFloat (num_text (Num n))) = Finite x" "x \<le> 0" using ParseFloat_num_text [OF assms(2)] assms(3) by (metis fst_conv)
  have "\<exists>y. thd_min (loadThreshold env tn i l rows) = Finite y \<and> 0 < y"
  proof (cases "rfe_fails env ThresholdQuery")
    case False
    show ?thesis
    proof (cases "List.find (\<lambda>r. thr_TenantID r = tn \<and> thr_ItemID r = i \<and> thr_LocationID r = l) rows")
      case (Some r)
      then have "r \<in> set rows" by (auto simp: find_Some_iff)
      then obtain m where m: "thr_DisplayMin r = Num m" "0 < m" "num_fits m" using assms(1) unfolding positive_minimums_def by blast
      obtain y where "ParseFloat (num_text (Num m)) = (Finite y, None)" "0 < y" using ParseFloat_num_text [OF m(3)] m(2) by metis
      then show ?thesis using False Some m(1) by (simp add: loadThreshold_def)
    qed (simp add: loadThreshold_def False)
  qed (simp add: loadThreshold_def)
  then show ?thesis using x by (auto simp: belowMin_def)
qed


text \<open>A sale that leaves nothing on the shelf signals it with the text of the position.\<close>

definition shelf_signal :: "(uuid \<Rightarrow> string) \<Rightarrow> unlinkedLine \<Rightarrow> int \<Rightarrow> replenish_msg" where
  "shelf_signal uuid_str l n = \<lparr>rpm_tenant_id = uuid_str (ul_tenantID l), rpm_item_id = uuid_str (ul_itemID l),
     rpm_location_id = uuid_str (ul_locationID l), rpm_soh = num_text (Num n)\<rparr>"

lemma processLine_signals:
  assumes "processLine numeric uuid_str env l st = (Inr (), st')" "\<not> ul_isReturn l" "\<not> ive_fails env EmitReplenish"
    and "List.find (position_match (ul_tenantID l) (ul_itemID l) (ul_locationID l)) (ivd_positions (shs_db st')) = Some p"
    and "ivp_OnHand p = Num n" "n \<le> 0"
  shows "shs_stream st' = xadd (shelf_signal uuid_str l n) (shs_stream st)"
proof (cases numeric env "line_request l" "ive_now env" "shs_db st" rule: AppendMovement_cases)
  case (failed e)
  then show ?thesis using assms(1) by (simp add: processLine_def)
next
  case (moved d cost p' rows)
  have k: "amr_MerchantID (line_request l) = ul_tenantID l" "amr_ItemID (line_request l) = ul_itemID l" "amr_LocationID (line_request l) = ul_locationID l"
    by (simp_all add: line_request_def)
  have "ivd_positions (shs_db st') = rows" using assms(1) moved(5) by (auto simp: processLine_def linkMovement_def split: if_splits)
  then have p: "p' = p" using upsert_position_at [OF moved(4)] assms(4) unfolding k by simp
  have "isZeroOrNegative (num_text (ivp_OnHand p))" using isZeroOrNegative_correct [of n] assms(5,6) by simp
  then show ?thesis using assms(1-3,5) moved(5) p
    by (auto simp: processLine_def linkMovement_def emitReplenish_def shelf_signal_def split: if_splits)
qed


text \<open>A signal that was delivered and not acknowledged is never handled again: every batch reads new ones only.\<close>

lemma refill_batch_pending:
  assumes "k \<in> set (st_pending (rfs_stream st))" "stream_ok (rfs_stream st)"
  shows "k \<in> set (st_pending (rfs_stream (refill_batch parse envs st)))"
proof (cases "xreadgroup 20 (rfs_stream st)")
  case (Pair msgs s)
  have new: "k \<notin> fst ` set msgs" "k \<in> set (st_pending s)"
    using assms(1) stream_ok_xreadgroup [OF assms(2) Pair] by auto
  have ack: "k \<in> set (st_pending (rfs_stream (refill_ack env i st)))" if "k \<in> set (st_pending (rfs_stream st))" "i \<noteq> k" for env i st
    using that by (simp add: refill_ack_def xack_def)
  have handle: "k \<in> set (st_pending (rfs_stream (refill_handle parse env m st)))" if "k \<in> set (st_pending (rfs_stream st))" "fst m \<noteq> k" for env m st
    using ack that by (auto simp: refill_handle_def Let_def split: option.split sum.split bool.split prod.split)
  have "k \<in> set (st_pending (rfs_stream (refill_handle_all parse envs j ms st)))"
    if "k \<in> set (st_pending (rfs_stream st))" "k \<notin> fst ` set ms" for j ms st
    using that by (induction ms arbitrary: j st) (auto simp: handle)
  then show ?thesis using new assms(1) Pair by (simp add: refill_batch_def)
qed


section \<open>A sample shelf and its trigger\<close>

definition toy_uuid_str :: "uuid \<Rightarrow> string" where
  "toy_uuid_str u = dec_nat (unat u)"

definition toy_parse :: "string \<Rightarrow> uuid option" where
  "toy_parse s = Some (word_of_nat (digits_val 0 s))"

lemma toy_parse_str: "toy_parse (toy_uuid_str u) = Some u"
  by (simp add: toy_parse_def toy_uuid_str_def digits_val_dec_nat)

definition toy_refill_env :: "uuid \<Rightarrow> refill_env" where
  "toy_refill_env u = \<lparr>rfe_task = \<lparr>tv_now = 8000, tv_fails = (\<lambda>c. False), tv_new = u\<rparr>, rfe_fails = (\<lambda>c. False)\<rparr>"

definition toy_refill :: "replenish_msg stream \<Rightarrow> refill_state" where
  "toy_refill s = \<lparr>rfs_stream = s, rfs_thresholds = [], rfs_tasks = \<lparr>td_tasks = [], td_exceptions = []\<rparr>\<rparr>"

definition no_stream :: "replenish_msg stream" where
  "no_stream = \<lparr>st_entries = [], st_delivered = 0, st_pending = []\<rparr>"

text \<open>Two signals of one shelf in a batch, and a worker claiming in between.\<close>

theorem one_open_refill_witness:
  "length (open_refills 1 2 3 (rfs_tasks (fold (refill_step toy_parse)
     [Signal (shelf_signal toy_uuid_str (project_line toy_line) 0), TriggerBatch (\<lambda>k. toy_refill_env 70),
      QueueRequest (toy_env 7, toy_caller, NextTask ''5''),
      Signal (shelf_signal toy_uuid_str (project_line toy_line) 0), TriggerBatch (\<lambda>k. toy_refill_env 71)] (toy_refill no_stream)))) \<le> 1"
  by (rule one_open_refill) (auto simp: one_refill_def open_refills_def toy_refill_def)


end
