(* ===== verification/JsonDoc.thy ===== *)
theory JsonDoc
  imports GoFloat Hmac
begin

text \<open>
  JSON documents with their number literals, as \<open>encoding/json\<close> decodes them into structures: a member goes to
  the field whose name it is up to the folding of letters, later members replace earlier ones, \<open>null\<close> leaves a
  field alone, and a value of another type is an error of the whole decoding.
\<close>

datatype jdoc =
    DNull
  | DBool bool
  | DNum string
  | DStr string
  | DArr "jdoc list"
  | DObj "(string \<times> jdoc) list"

text \<open>Names are compared after folding: ASCII letters, the long s and the Kelvin sign.\<close>

fun fold_name :: "string \<Rightarrow> string" where
  "fold_name [] = []"
| "fold_name (c # s) =
     (if c = CHR 0xC5 \<and> take 1 s = [CHR 0xBF] then CHR ''s'' # fold_name (drop 1 s)
      else if c = CHR 0xE2 \<and> take 2 s = [CHR 0x84, CHR 0xAA] then CHR ''k'' # fold_name (drop 2 s)
      else lower c # fold_name s)"

definition field_docs :: "string \<Rightarrow> (string \<times> jdoc) list \<Rightarrow> jdoc list" where
  "field_docs name kvs = map snd (filter (\<lambda>kv. fold_name (fst kv) = name) kvs)"

text \<open>Decoding the values a field receives, in their order, on top of what it holds; \<open>None\<close> is an error.\<close>

fun decode_field :: "(jdoc \<Rightarrow> 'a option) \<Rightarrow> 'a \<Rightarrow> jdoc list \<Rightarrow> 'a option" where
  "decode_field dec x [] = Some x"
| "decode_field dec x (DNull # ds) = decode_field dec x ds"
| "decode_field dec x (d # ds) = (case dec d of None \<Rightarrow> None | Some y \<Rightarrow> decode_field dec y ds)"

fun dec_string :: "jdoc \<Rightarrow> string option" where
  "dec_string (DStr s) = Some s"
| "dec_string _ = None"

fun dec_int64 :: "jdoc \<Rightarrow> go_int64 option" where
  "dec_int64 (DNum t) = parse_int64 t"
| "dec_int64 _ = None"

text \<open>A literal of JSON is never an infinity or NaN.\<close>

fun dec_float :: "jdoc \<Rightarrow> go_float option" where
  "dec_float (DNum t) = (case ParseFloat t of (Finite x, None) \<Rightarrow> Some (Finite x) | _ \<Rightarrow> None)"
| "dec_float _ = None"

text \<open>The members of the object a structure is decoded from; \<open>null\<close> has none.\<close>

fun struct_members :: "jdoc \<Rightarrow> (string \<times> jdoc) list option" where
  "struct_members (DObj kvs) = Some kvs"
| "struct_members DNull = Some []"
| "struct_members _ = None"

definition decode_one :: "string \<Rightarrow> (jdoc \<Rightarrow> 'a option) \<Rightarrow> 'a \<Rightarrow> jdoc \<Rightarrow> 'a option" where
  "decode_one name dec x d = Option.bind (struct_members d) (\<lambda>kvs. decode_field dec x (field_docs name kvs))"

end
