(* ===== verification/Evaluators.thy ===== *)
theory Evaluators
  imports JsonDoc GoTime Sales
begin

text \<open>
  The detection rules of loss prevention (\<open>internal/chirp/rule.go\<close> and \<open>internal/chirp/rules\<close>): a rule is a row
  with a definition in JSON, an evaluator looks at a transaction with its context and returns the detections it
  matches.  Parameters are \<open>zone\<close>, the time zone database (offset and bounds of the zone in force at a second of
  Unix time), and \<open>order\<close>, the order in which Go walks over a map.
\<close>

section \<open>Rows and contexts\<close>

record DetectionRule =
  dr_ID :: uuid
  dr_TenantID :: uuid
  dr_RuleCode :: string
  dr_Name :: string
  dr_Description :: "string option"
  dr_RuleCategory :: string
  dr_RuleDefinition :: "jdoc option"
  dr_Severity :: string
  dr_Status :: string
  dr_EvaluationFrequency :: string
  dr_Attributes :: raw_message
  dr_CreatedAt :: gotime
  dr_UpdatedAt :: gotime

text \<open>Rows as they are read, with the columns that the database fills in.\<close>

record LineItem = TransactionLineItem +
  li_ExtendedPrice :: string
  li_ExtendedTax :: string
  li_LineTotal :: string
  li_Margin :: string
  li_CreatedAt :: gotime

record DrawerEvent = CashDrawerEvent +
  cd_Variance :: "string option"
  cd_CreatedAt :: gotime

record EvalContext =
  ec_TenantID :: uuid
  ec_Transaction :: Transaction
  ec_LineItems :: "LineItem list"
  ec_Discounts :: "TransactionDiscount list"
  ec_CashierActions :: "CashierAction list"
  ec_DrawerEvents :: "DrawerEvent list"
  ec_OperatingHours :: "jdoc option"
  ec_Timezone :: string

text \<open>Evidence is a map that \<open>json.Marshal\<close> renders, unless a float is not finite.\<close>

datatype ev_value =
    EvNull
  | EvBool bool
  | EvInt int
  | EvFloat go_float
  | EvStr string
  | EvUuid uuid
  | EvTime gotime
  | EvMaps "(string \<times> ev_value) list list"

type_synonym evidence = "(string \<times> ev_value) list"

fun ev_renders :: "ev_value \<Rightarrow> bool" where
  "ev_renders (EvFloat f) = (case f of Finite x \<Rightarrow> True | _ \<Rightarrow> False)"
| "ev_renders (EvMaps ms) = list_all (list_all (\<lambda>kv. ev_renders (snd kv))) ms"
| "ev_renders _ = True"

definition marshal :: "evidence \<Rightarrow> evidence option" where
  "marshal kvs = (if list_all (\<lambda>kv. ev_renders (snd kv)) kvs then Some kvs else None)"

definition ev_opt_uuid :: "uuid option \<Rightarrow> ev_value" where
  "ev_opt_uuid u = (case u of None \<Rightarrow> EvNull | Some x \<Rightarrow> EvUuid x)"

record MatchedDetection =
  md_Severity :: string
  md_SignalStrength :: "string option"
  md_Evidence :: "evidence option"
  md_LocationID :: "uuid option"
  md_CashierEmployeeID :: "uuid option"
  md_CustomerID :: "uuid option"

datatype rule_error = RuleTypeMissing | MalformedDefinition | MalformedParameters | MalformedLine int

type_synonym evaluator = "DetectionRule \<Rightarrow> EvalContext \<Rightarrow> rule_error + MatchedDetection list"

section \<open>The definition of a rule\<close>

definition envelope :: "DetectionRule \<Rightarrow> (string \<times> jdoc list) option" where
  "envelope rule = Option.bind (dr_RuleDefinition rule) (\<lambda>d. Option.bind (struct_members d) (\<lambda>kvs.
     map_option (\<lambda>t. (t, field_docs ''parameters'' kvs)) (decode_field dec_string [] (field_docs ''rule_type'' kvs))))"

definition RuleType :: "DetectionRule \<Rightarrow> rule_error + string" where
  "RuleType rule =
     (if dr_RuleDefinition rule = None then Inl RuleTypeMissing
      else case envelope rule of
          None \<Rightarrow> Inl MalformedDefinition
        | Some (t, _) \<Rightarrow> if t = [] then Inl RuleTypeMissing else Inr t)"

definition Params :: "(jdoc \<Rightarrow> 'a option) \<Rightarrow> 'a \<Rightarrow> DetectionRule \<Rightarrow> rule_error + 'a" where
  "Params dec zero rule =
     (case envelope rule of
        None \<Rightarrow> Inl MalformedDefinition
      | Some (_, ps) \<Rightarrow>
          if ps = [] then Inr zero
          else (case dec (last ps) of None \<Rightarrow> Inl MalformedParameters | Some p \<Rightarrow> Inr p))"

section \<open>Amounts and strengths\<close>

definition numericStringToCents :: "string \<Rightarrow> go_int64 option" where
  "numericStringToCents s =
     (if s = [] then Some 0
      else case ParseFloat s of
          (f, Some _) \<Rightarrow> None
        | (f, None) \<Rightarrow>
            if f \<noteq> NotANumber \<and> \<not> float_less f (Finite 0) then Some (float_int64 (float_add (float_mul f (Finite 100)) (Finite (1 / 2))))
            else Some (float_int64 (float_sub (float_mul f (Finite 100)) (Finite (1 / 2)))))"

definition strengthFromRatio :: "go_float \<Rightarrow> string" where
  "strengthFromRatio ratio =
     (if float_nonpos ratio then ''0.0000''
      else let v = float_mul (Finite (1 / 2)) ratio in
        FormatFloat 4 (if float_less (Finite 1) v then Finite 1 else v))"

definition plain_match :: "DetectionRule \<Rightarrow> string \<Rightarrow> evidence \<Rightarrow> MatchedDetection" where
  "plain_match rule signal ev = \<lparr>md_Severity = dr_Severity rule, md_SignalStrength = Some signal, md_Evidence = marshal ev,
     md_LocationID = None, md_CashierEmployeeID = None, md_CustomerID = None\<rparr>"

section \<open>The evaluators\<close>

text \<open>\<open>void_threshold\<close>: the voided lines of a transaction.\<close>

fun void_loop :: "LineItem list \<Rightarrow> go_int64 \<Rightarrow> int \<Rightarrow> rule_error + go_int64 \<times> int" where
  "void_loop [] cents n = Inr (cents, n)"
| "void_loop (li # lis) cents n =
     (if \<not> li_IsVoid li then void_loop lis cents n
      else case numericStringToCents (li_LineTotal li) of
          None \<Rightarrow> Inl (MalformedLine (li_LineNumber li))
        | Some c \<Rightarrow> void_loop lis (wrap64 (cents + (if c < 0 then wrap64 (- c) else c))) (n + 1))"

definition VoidThreshold :: evaluator where
  "VoidThreshold rule ec =
     (case Params (decode_one ''threshold_cents'' dec_int64 0) 0 rule of
        Inl e \<Rightarrow> Inl e
      | Inr p \<Rightarrow>
          let th = (if p \<le> 0 then 5000 else p) in
          (case void_loop (ec_LineItems ec) 0 0 of
             Inl e \<Rightarrow> Inl e
           | Inr (cents, n) \<Rightarrow>
               if cents < th then Inr []
               else Inr [plain_match rule (strengthFromRatio (float_div (int_float cents) (int_float th)))
                 [(''voided_total_cents'', EvInt cents), (''voided_count'', EvInt n), (''threshold_cents'', EvInt th),
                  (''transaction_number'', EvStr (tx_TransactionNumber (ec_Transaction ec)))]]))"

text \<open>\<open>no_sale_frequency\<close> and \<open>manager_override_frequency\<close>: counts in the window of the cashier.\<close>

definition dec_frequency :: "jdoc \<Rightarrow> (go_int64 \<times> go_int64) option" where
  "dec_frequency d = Option.bind (decode_one ''threshold_count'' dec_int64 0 d) (\<lambda>n.
     map_option (\<lambda>m. (n, m)) (decode_one ''window_minutes'' dec_int64 0 d))"

definition no_sale :: "CashierAction \<Rightarrow> bool" where
  "no_sale a \<longleftrightarrow> ca_ActionType a = ''no_sale'' \<or> ca_ActionType a = ''drawer_open_no_sale''"

definition NoSaleFrequency :: evaluator where
  "NoSaleFrequency rule ec =
     (case Params dec_frequency (0, 0) rule of
        Inl e \<Rightarrow> Inl e
      | Inr (p, w) \<Rightarrow>
          let th = (if p \<le> 0 then 5 else p); n = int (length (filter no_sale (ec_CashierActions ec))) in
          if tx_CashierEmployeeID (ec_Transaction ec) = None \<or> n < th then Inr []
          else Inr [(plain_match rule (strengthFromRatio (float_div (int_float n) (int_float th)))
              [(''no_sale_count'', EvInt n), (''threshold_count'', EvInt th), (''window_minutes'', EvInt w)])
              \<lparr>md_CashierEmployeeID := tx_CashierEmployeeID (ec_Transaction ec)\<rparr>])"

definition override_types :: "string set" where
  "override_types = {''manager_override'', ''price_override'', ''refund_override'', ''void_override''}"

definition override_by :: "CashierAction \<Rightarrow> uuid option" where
  "override_by a = (if ca_ActionType a \<in> override_types then ca_AuthorizedByEmployeeID a else None)"

definition override_count :: "CashierAction list \<Rightarrow> uuid \<Rightarrow> int" where
  "override_count as m = int (length (filter (\<lambda>a. override_by a = Some m) as))"

definition ManagerOverrideFrequency :: "(uuid list \<Rightarrow> uuid list) \<Rightarrow> evaluator" where
  "ManagerOverrideFrequency order rule ec =
     (case Params dec_frequency (0, 0) rule of
        Inl e \<Rightarrow> Inl e
      | Inr (p, w) \<Rightarrow>
          let th = (if p \<le> 0 then 3 else p); count = override_count (ec_CashierActions ec) in
          Inr (map (\<lambda>m. (plain_match rule (strengthFromRatio (float_div (int_float (count m)) (int_float th)))
                 [(''manager_employee_id'', EvUuid m), (''override_count'', EvInt (count m)), (''threshold_count'', EvInt th), (''window_minutes'', EvInt w)])
                 \<lparr>md_CashierEmployeeID := Some m\<rparr>)
             (filter (\<lambda>m. th \<le> count m) (order (remdups (List.map_filter override_by (ec_CashierActions ec)))))))"

text \<open>\<open>refund_no_receipt\<close>: it has no parameters and does not look at them.\<close>

definition RefundNoReceipt :: evaluator where
  "RefundNoReceipt rule ec =
     (let tx = ec_Transaction ec;
          header = (tx_TransactionType tx = ''refund'' \<or> tx_TransactionType tx = ''return'');
          line = list_ex li_IsReturn (ec_LineItems ec) in
      if \<not> header \<and> \<not> line then Inr []
      else if tx_ParentTransactionID tx \<noteq> None then Inr []
      else Inr [plain_match rule ''0.7500''
        [(''transaction_type'', EvStr (tx_TransactionType tx)), (''has_return_line'', EvBool line), (''grand_total'', EvStr (tx_GrandTotal tx)),
         (''transaction_number'', EvStr (tx_TransactionNumber tx)), (''reason'', EvStr ''no parent_transaction_id link'')]])"

text \<open>\<open>large_discount_pct\<close>: a detection per line.\<close>

definition positive_float :: "string \<Rightarrow> go_float option" where
  "positive_float s = (case ParseFloat s of (f, None) \<Rightarrow> if float_nonpos f then None else Some f | _ \<Rightarrow> None)"

definition discount_match :: "go_float \<Rightarrow> DetectionRule \<Rightarrow> LineItem \<Rightarrow> MatchedDetection option" where
  "discount_match th rule li =
     (if li_IsVoid li then None
      else case (positive_float (li_UnitPrice li), positive_float (li_UnitDiscount li)) of
          (Some price, Some disc) \<Rightarrow>
            let pct = float_mul (float_div disc price) (Finite 100) in
            if float_less pct th then None
            else Some (plain_match rule (strengthFromRatio (float_div pct th))
              [(''line_number'', EvInt (li_LineNumber li)), (''item_id'', ev_opt_uuid (li_ItemID li)), (''unit_price'', EvStr (li_UnitPrice li)),
               (''unit_discount'', EvStr (li_UnitDiscount li)), (''discount_pct'', EvFloat pct), (''threshold_pct'', EvFloat th),
               (''description'', EvStr (li_Description li))])
        | _ \<Rightarrow> None)"

definition LargeDiscountPct :: evaluator where
  "LargeDiscountPct rule ec =
     (case Params (decode_one ''threshold_pct'' dec_float (Finite 0)) (Finite 0) rule of
        Inl e \<Rightarrow> Inl e
      | Inr p \<Rightarrow> Inr (List.map_filter (discount_match (if float_nonpos p then Finite 50 else p) rule) (ec_LineItems ec)))"

text \<open>\<open>cash_drawer_variance\<close>: a detection per drawer event.\<close>

definition drawer_match :: "go_int64 \<Rightarrow> DetectionRule \<Rightarrow> DrawerEvent \<Rightarrow> MatchedDetection option" where
  "drawer_match th rule e =
     (case Option.bind (cd_Variance e) numericStringToCents of
        None \<Rightarrow> None
      | Some cents \<Rightarrow>
          if (if cents < 0 then wrap64 (- cents) else cents) < th then None
          else Some ((plain_match rule (strengthFromRatio (float_div (Finite \<bar>int64_to_float cents\<bar>) (int_float th)))
            [(''drawer_event_id'', EvUuid (cd_ID e)), (''event_type'', EvStr (cd_EventType e)), (''variance_cents'', EvInt cents),
             (''threshold_cents'', EvInt th), (''event_at'', EvTime (cd_EventAt e)), (''pos_terminal_id'', EvStr (cd_POSTerminalID e))])
            \<lparr>md_CashierEmployeeID := cd_CashierEmployeeID e\<rparr>))"

definition CashDrawerVariance :: evaluator where
  "CashDrawerVariance rule ec =
     (case Params (decode_one ''threshold_cents'' dec_int64 0) 0 rule of
        Inl e \<Rightarrow> Inl e
      | Inr p \<Rightarrow> Inr (List.map_filter (drawer_match (if p \<le> 0 then 500 else p) rule) (ec_DrawerEvents ec)))"


text \<open>\<open>sweetheart_deal\<close>: the first discount the cashier authorized for itself.\<close>

definition sweetheart_match :: "go_float \<Rightarrow> go_int64 \<Rightarrow> uuid \<Rightarrow> DetectionRule \<Rightarrow> Transaction \<Rightarrow> TransactionDiscount \<Rightarrow> MatchedDetection option" where
  "sweetheart_match th subtotal cashier rule tx d =
     (if dc_AuthorizedByEmployeeID d \<noteq> Some cashier then None
      else case numericStringToCents (dc_Amount d) of
          None \<Rightarrow> None
        | Some cents \<Rightarrow>
            let pct = float_mul (float_div (int_float cents) (int_float subtotal)) (Finite 100) in
            if float_less pct th then None
            else Some ((plain_match rule (strengthFromRatio (float_div pct th))
              [(''transaction_id'', EvUuid (tx_ID tx)), (''discount_id'', EvUuid (dc_ID d)), (''discount_type'', EvStr (dc_DiscountType d)),
               (''discount_amount'', EvStr (dc_Amount d)), (''subtotal'', EvStr (tx_Subtotal tx)), (''discount_pct'', EvFloat pct),
               (''min_discount_pct_threshold'', EvFloat th), (''cashier_employee_id'', EvUuid cashier),
               (''authorized_by_employee_id'', EvUuid cashier), (''detection_pattern'', EvStr ''self_authorized_discount'')])
              \<lparr>md_CashierEmployeeID := Some cashier, md_CustomerID := tx_CustomerID tx\<rparr>))"

definition SweetheartDeal :: evaluator where
  "SweetheartDeal rule ec =
     (case Params (decode_one ''min_discount_pct'' dec_float (Finite 0)) (Finite 0) rule of
        Inl e \<Rightarrow> Inl e
      | Inr p \<Rightarrow>
          let th = (if float_nonpos p then Finite 20 else p); tx = ec_Transaction ec in
          (case (tx_CashierEmployeeID tx, numericStringToCents (tx_Subtotal tx)) of
             (Some cashier, Some subtotal) \<Rightarrow>
               if subtotal \<le> 0 then Inr []
               else Inr (take 1 (List.map_filter (sweetheart_match th subtotal cashier rule tx) (ec_Discounts ec)))
           | _ \<Rightarrow> Inr []))"

text \<open>\<open>markdown_abuse\<close>: the lines of a return below their list price.\<close>

definition markdown_line :: "go_float \<Rightarrow> LineItem \<Rightarrow> evidence option" where
  "markdown_line th li =
     (case (Option.bind (li_ListPrice li) numericStringToCents, numericStringToCents (li_UnitPrice li)) of
        (Some list, Some paid) \<Rightarrow>
          if list \<le> 0 \<or> paid \<le> 0 \<or> list \<le> paid then None
          else
            let pct = float_mul (float_div (int_float (wrap64 (list - paid))) (int_float list)) (Finite 100) in
            if float_less pct th then None
            else Some [(''line_item_id'', EvUuid (li_ID li)), (''line_number'', EvInt (li_LineNumber li)), (''item_id'', ev_opt_uuid (li_ItemID li)),
              (''unit_price'', EvStr (li_UnitPrice li)), (''list_price'', EvStr (the (li_ListPrice li))), (''markdown_pct'', EvFloat pct),
              (''description'', EvStr (li_Description li))]
      | _ \<Rightarrow> None)"

definition MarkdownAbuse :: evaluator where
  "MarkdownAbuse rule ec =
     (case Params (decode_one ''min_markdown_pct'' dec_float (Finite 0)) (Finite 0) rule of
        Inl e \<Rightarrow> Inl e
      | Inr p \<Rightarrow>
          let th = (if float_nonpos p then Finite 30 else p); tx = ec_Transaction ec;
              matches = List.map_filter (markdown_line th) (ec_LineItems ec) in
          if tx_TransactionType tx \<noteq> ''return'' \<or> matches = [] then Inr []
          else Inr [(plain_match rule (strengthFromRatio (float_div (int_float (int (length matches))) (int_float (max (int (length (ec_LineItems ec))) 1))))
            [(''transaction_id'', EvUuid (tx_ID tx)), (''transaction_type'', EvStr (tx_TransactionType tx)), (''matched_lines'', EvMaps matches),
             (''min_markdown_pct_threshold'', EvFloat th), (''detection_pattern'', EvStr ''return_below_list_price'')])
            \<lparr>md_CashierEmployeeID := tx_CashierEmployeeID tx, md_CustomerID := tx_CustomerID tx\<rparr>])"

section \<open>Opening hours\<close>

text \<open>A time zone: for a second of Unix time the offset in force and the bounds within which it is.\<close>

type_synonym location = "int \<Rightarrow> int \<times> int \<times> int"

definition UTC :: location where
  "UTC u = (0, - (2 ^ 63), 2 ^ 63 - 1)"

text \<open>Seconds of local time, as if it were UTC.\<close>

definition local_seconds :: "location \<Rightarrow> gotime \<Rightarrow> int" where
  "local_seconds loc t = t div second + fst (loc (t div second))"

definition weekdays :: "string list" where
  "weekdays = [''sunday'', ''monday'', ''tuesday'', ''wednesday'', ''thursday'', ''friday'', ''saturday'']"

definition weekday_key :: "int \<Rightarrow> string" where
  "weekday_key local = weekdays ! nat ((local div 86400 + 4) mod 7)"

text \<open>\<open>time.Date\<close>: the instant of a local time, with the offset of the zone before or after a transition.\<close>

definition date_in :: "location \<Rightarrow> int \<Rightarrow> gotime" where
  "date_in loc unix =
     (case loc unix of (offset, start, finish) \<Rightarrow>
        if offset = 0 then unix * second
        else
          let utc = unix - offset in
          if utc < start \<or> finish \<le> utc then (unix - fst (loc utc)) * second else utc * second)"

text \<open>\<open>time.Parse("15:04", s)\<close>: one or two digits of the hour, two of the minute.\<close>

definition digit_val :: "char \<Rightarrow> int" where
  "digit_val c = int (of_char c) - 48"

fun clock_minutes :: "string \<Rightarrow> int option" where
  "clock_minutes [c, a, b] = (if is_digit a \<and> is_digit b \<and> c = CHR '':'' then Some (10 * digit_val a + digit_val b) else None)"
| "clock_minutes _ = None"

definition read_clock :: "string \<Rightarrow> (int \<times> int) option" where
  "read_clock s =
     (let (h, rest) = (case s of
            a # b # t \<Rightarrow> if is_digit a \<and> is_digit b then (10 * digit_val a + digit_val b, t)
              else if is_digit a then (digit_val a, b # t) else (24, [])
          | _ \<Rightarrow> (24, [])) in
      case clock_minutes rest of None \<Rightarrow> None | Some m \<Rightarrow> if h < 24 \<and> m < 60 then Some (h, m) else None)"

definition parseClock :: "string \<Rightarrow> int \<Rightarrow> location \<Rightarrow> gotime option" where
  "parseClock s local loc =
     map_option (\<lambda>(h, m). date_in loc (local div 86400 * 86400 + h * 3600 + m * 60)) (read_clock s)"

fun dec_interval :: "jdoc \<Rightarrow> (string \<times> string) option" where
  "dec_interval d = Option.bind (struct_members d) (\<lambda>kvs. Option.bind (decode_field dec_string [] (field_docs ''open'' kvs)) (\<lambda>a.
     map_option (\<lambda>b. (a, b)) (decode_field dec_string [] (field_docs ''close'' kvs))))"

fun dec_intervals :: "jdoc \<Rightarrow> (string \<times> string) list option" where
  "dec_intervals (DArr ds) = those (map dec_interval ds)"
| "dec_intervals DNull = Some []"
| "dec_intervals _ = None"

text \<open>Operating hours as a map from days to intervals.\<close>

definition dec_hours :: "jdoc \<Rightarrow> (string \<rightharpoonup> (string \<times> string) list) option" where
  "dec_hours d = Option.bind (struct_members d) (\<lambda>kvs.
     map_option (\<lambda>vs. map_of (rev (zip (map fst kvs) vs))) (those (map (\<lambda>kv. dec_intervals (snd kv)) kvs)))"

definition matchedAfterHours :: "DetectionRule \<Rightarrow> EvalContext \<Rightarrow> string \<Rightarrow> string \<Rightarrow> go_int64 \<Rightarrow> MatchedDetection" where
  "matchedAfterHours rule ec reason dayKey tol = plain_match rule ''0.7000''
     [(''reason'', EvStr reason), (''weekday'', EvStr dayKey), (''started_at'', EvTime (tx_StartedAt (ec_Transaction ec))), (''tolerance_minutes'', EvInt tol)]"

definition within_interval :: "location \<Rightarrow> gotime \<Rightarrow> go_int64 \<Rightarrow> string \<times> string \<Rightarrow> bool" where
  "within_interval loc t tolerance iv =
     (case (parseClock (fst iv) (local_seconds loc t) loc, parseClock (snd iv) (local_seconds loc t) loc) of
        (Some a, Some b) \<Rightarrow> a + wrap64 (- tolerance) \<le> t \<and> t \<le> b + tolerance
      | _ \<Rightarrow> False)"

definition AfterHoursTransaction :: "(string \<Rightarrow> location option) \<Rightarrow> evaluator" where
  "AfterHoursTransaction zone rule ec =
     (case Params (decode_one ''tolerance_minutes'' dec_int64 0) 0 rule of
        Inl e \<Rightarrow> Inl e
      | Inr p \<Rightarrow>
          (case Option.bind (ec_OperatingHours ec) dec_hours of
             None \<Rightarrow> Inr []
           | Some hours \<Rightarrow>
               let loc = (if ec_Timezone ec = [] then UTC else case zone (ec_Timezone ec) of None \<Rightarrow> UTC | Some l \<Rightarrow> l);
                   t = tx_StartedAt (ec_Transaction ec); dayKey = weekday_key (local_seconds loc t) in
               (case hours dayKey of
                  None \<Rightarrow> Inr [matchedAfterHours rule ec ''closed_all_day'' dayKey p]
                | Some ivs \<Rightarrow>
                    if ivs = [] then Inr [matchedAfterHours rule ec ''closed_all_day'' dayKey p]
                    else if list_ex (within_interval loc t (wrap64 (p * minute))) ivs then Inr []
                    else Inr [matchedAfterHours rule ec ''outside_intervals'' dayKey p])))"

text \<open>The evaluators the service registers.\<close>

definition registerBaseline :: "(uuid list \<Rightarrow> uuid list) \<Rightarrow> (string \<Rightarrow> location option) \<Rightarrow> string \<rightharpoonup> evaluator" where
  "registerBaseline order zone =
     [''void_threshold'' \<mapsto> VoidThreshold, ''no_sale_frequency'' \<mapsto> NoSaleFrequency, ''refund_no_receipt'' \<mapsto> RefundNoReceipt,
      ''manager_override_frequency'' \<mapsto> ManagerOverrideFrequency order, ''after_hours_transaction'' \<mapsto> AfterHoursTransaction zone,
      ''large_discount_pct'' \<mapsto> LargeDiscountPct, ''cash_drawer_variance'' \<mapsto> CashDrawerVariance]"

end
