(* ===== verification/AllowList.thy ===== *)
theory AllowList
  imports GoTime Json
begin

text \<open>
  The allow list of loss prevention (\<open>internal/lp/substrate.go\<close>): entries with a pattern in JSON, scoped to a
  tenant and perhaps a rule, in force until they expire.  The discriminators of a pattern are strings.
\<close>

record AllowListRow =
  al_ID :: uuid
  al_TenantID :: uuid
  al_RuleID :: "uuid option"
  al_Pattern :: raw_json
  al_Reason :: "string option"
  al_ExpiresAt :: "gotime option"
  al_CreatedAt :: gotime
  al_CreatedBy :: "uuid option"
  al_UpdatedAt :: gotime
  al_UpdatedBy :: "uuid option"

datatype allow_call = AllowList | AllowByRule | AllowByPattern | AllowCreate | AllowUpdate | AllowDelete | AllowGet

datatype allow_error = AllowListNotFound | PatternRequired | IDRequired | AllowFailed allow_call

record allow_env =
  ale_now :: gotime
  ale_fails :: "allow_call \<Rightarrow> bool"
  ale_new :: uuid

definition in_force :: "gotime \<Rightarrow> AllowListRow \<Rightarrow> bool" where
  "in_force now r \<longleftrightarrow> (case al_ExpiresAt r of None \<Rightarrow> True | Some t \<Rightarrow> now < t)"

definition capped :: "int \<Rightarrow> nat" where
  "capped limit = nat (if limit \<le> 0 \<or> 500 < limit then 100 else limit)"

definition newest_first :: "int \<Rightarrow> AllowListRow list \<Rightarrow> AllowListRow list" where
  "newest_first limit rows = take (capped limit) (sort_desc al_CreatedAt rows)"

definition List_entries :: "allow_env \<Rightarrow> uuid \<Rightarrow> int \<Rightarrow> AllowListRow list \<Rightarrow> allow_error + AllowListRow list" where
  "List_entries env tenantID limit rows =
     (if ale_fails env AllowList then Inl (AllowFailed AllowList)
      else Inr (newest_first limit (filter (\<lambda>r. al_TenantID r = tenantID \<and> in_force (ale_now env) r) rows)))"

definition ListByRuleID :: "allow_env \<Rightarrow> uuid \<Rightarrow> uuid \<Rightarrow> int \<Rightarrow> AllowListRow list \<Rightarrow> allow_error + AllowListRow list" where
  "ListByRuleID env tenantID ruleID limit rows =
     (if ale_fails env AllowByRule then Inl (AllowFailed AllowByRule)
      else Inr (newest_first limit (filter (\<lambda>r. al_TenantID r = tenantID \<and> al_RuleID r = Some ruleID \<and> in_force (ale_now env) r) rows)))"

text \<open>\<open>pattern->>'k'\<close> compared with a string.\<close>

definition pattern_is :: "raw_json \<Rightarrow> string \<Rightarrow> string \<Rightarrow> bool" where
  "pattern_is p k v \<longleftrightarrow> raw_field p k = Some (JStr v)"

definition ListByPattern :: "allow_env \<Rightarrow> uuid \<Rightarrow> string \<Rightarrow> string \<Rightarrow> int \<Rightarrow> AllowListRow list \<Rightarrow> allow_error + AllowListRow list" where
  "ListByPattern env tenantID patternType kind limit rows =
     (if ale_fails env AllowByPattern then Inl (AllowFailed AllowByPattern)
      else Inr (newest_first limit (filter (\<lambda>r. al_TenantID r = tenantID \<and> pattern_is (al_Pattern r) ''type'' patternType
             \<and> pattern_is (al_Pattern r) ''kind'' kind \<and> in_force (ale_now env) r) rows)))"

record CreateInput =
  cin_TenantID :: uuid
  cin_RuleID :: "uuid option"
  cin_Pattern :: raw_json
  cin_Reason :: "string option"
  cin_ExpiresAt :: "gotime option"
  cin_CreatedBy :: "uuid option"

definition allow_create :: "allow_env \<Rightarrow> CreateInput \<Rightarrow> AllowListRow list \<Rightarrow> (allow_error + AllowListRow) \<times> AllowListRow list" where
  "allow_create env inp rows =
     (if cin_Pattern inp = None then (Inl PatternRequired, rows)
      else if ale_fails env AllowCreate \<or> list_ex (\<lambda>r. al_ID r = ale_new env) rows then (Inl (AllowFailed AllowCreate), rows)
      else
        let r = \<lparr>al_ID = ale_new env, al_TenantID = cin_TenantID inp, al_RuleID = cin_RuleID inp, al_Pattern = cin_Pattern inp,
          al_Reason = cin_Reason inp, al_ExpiresAt = map_option trunc_us (cin_ExpiresAt inp), al_CreatedAt = ale_now env,
          al_CreatedBy = cin_CreatedBy inp, al_UpdatedAt = ale_now env, al_UpdatedBy = cin_CreatedBy inp\<rparr> in
        (Inr r, rows @ [r]))"

record UpdateInput =
  uin_ID :: uuid
  uin_TenantID :: uuid
  uin_Pattern :: raw_json
  uin_Reason :: "string option"
  uin_ExpiresAt :: "gotime option"
  uin_UpdatedBy :: "uuid option"

definition coalesce :: "'a option \<Rightarrow> 'a option \<Rightarrow> 'a option" where
  "coalesce x y = (case x of None \<Rightarrow> y | Some v \<Rightarrow> Some v)"

definition updated_entry :: "gotime \<Rightarrow> UpdateInput \<Rightarrow> AllowListRow \<Rightarrow> AllowListRow" where
  "updated_entry now inp r = r\<lparr>al_Pattern := coalesce (uin_Pattern inp) (al_Pattern r), al_Reason := coalesce (uin_Reason inp) (al_Reason r),
     al_ExpiresAt := coalesce (map_option trunc_us (uin_ExpiresAt inp)) (al_ExpiresAt r), al_UpdatedBy := coalesce (uin_UpdatedBy inp) (al_UpdatedBy r),
     al_UpdatedAt := now\<rparr>"

definition allow_match :: "uuid \<Rightarrow> uuid \<Rightarrow> AllowListRow \<Rightarrow> bool" where
  "allow_match tenantID i r \<longleftrightarrow> al_TenantID r = tenantID \<and> al_ID r = i"

definition allow_update :: "allow_env \<Rightarrow> UpdateInput \<Rightarrow> AllowListRow list \<Rightarrow> (allow_error + AllowListRow) \<times> AllowListRow list" where
  "allow_update env inp rows =
     (let here = allow_match (uin_TenantID inp) (uin_ID inp) in
      if uin_ID inp = uuid_nil then (Inl IDRequired, rows)
      else if ale_fails env AllowUpdate then (Inl (AllowFailed AllowUpdate), rows)
      else case List.find here rows of
          None \<Rightarrow> (Inl AllowListNotFound, rows)
        | Some r \<Rightarrow> (Inr (updated_entry (ale_now env) inp r), map (\<lambda>r. if here r then updated_entry (ale_now env) inp r else r) rows))"

definition allow_delete :: "allow_env \<Rightarrow> uuid \<Rightarrow> uuid \<Rightarrow> AllowListRow list \<Rightarrow> (allow_error + unit) \<times> AllowListRow list" where
  "allow_delete env tenantID i rows =
     (if i = uuid_nil then (Inl IDRequired, rows)
      else if ale_fails env AllowDelete then (Inl (AllowFailed AllowDelete), rows)
      else if \<not> list_ex (allow_match tenantID i) rows then (Inl AllowListNotFound, rows)
      else (Inr (), filter (\<lambda>r. \<not> allow_match tenantID i r) rows))"

definition allow_get :: "allow_env \<Rightarrow> uuid \<Rightarrow> uuid \<Rightarrow> AllowListRow list \<Rightarrow> allow_error + AllowListRow" where
  "allow_get env tenantID i rows =
     (if ale_fails env AllowGet then Inl (AllowFailed AllowGet)
      else case List.find (allow_match tenantID i) rows of None \<Rightarrow> Inl AllowListNotFound | Some r \<Rightarrow> Inr r)"

text \<open>Patterns: the discriminators and what is given beside them, a map whose keys may be in any order.\<close>

definition NewPattern :: "string \<Rightarrow> string \<Rightarrow> (string \<times> json) list \<Rightarrow> json" where
  "NewPattern patternType kind extra =
     JObj ((''type'', JStr patternType) # (''kind'', JStr kind) # filter (\<lambda>kv. fst kv \<noteq> ''type'' \<and> fst kv \<noteq> ''kind'') extra)"

definition DecodePattern :: "raw_json \<Rightarrow> (string \<rightharpoonup> json) option option" where
  "DecodePattern raw = (case raw of None \<Rightarrow> Some None | Some j \<Rightarrow> map_option Some (unmarshal_map j))"


text \<open>A pattern decodes to its discriminators and its other fields.\<close>

theorem pattern_roundtrip:
  assumes "distinct (map fst extra)"
  shows "DecodePattern (Some (NewPattern t k extra)) = Some (Some ((map_of extra)(''type'' \<mapsto> JStr t, ''kind'' \<mapsto> JStr k)))"
proof -
  let ?rest = "filter (\<lambda>kv. fst kv \<noteq> ''type'' \<and> fst kv \<noteq> ''kind'') extra"
  have "map_of (rev ?rest) = map_of ?rest" 
    using assms by (subst map_of_inject_set) (simp_all add: distinct_map_filter rev_map [symmetric])
  moreover have "map_of ?rest x = (if x = ''type'' \<or> x = ''kind'' then None else map_of extra x)" for x
    by (induction extra) auto
  ultimately show ?thesis
    by (auto simp: DecodePattern_def NewPattern_def unmarshal_map_def map_add_def fun_eq_iff split: option.split)
qed

text \<open>What is created is listed for its rule until it expires, and an entry of a rule suppresses nothing of another
  tenant.\<close>

lemma ListByRuleID_in:
  "ListByRuleID env tn rule limit rows = Inr es \<Longrightarrow> e \<in> set es \<Longrightarrow> e \<in> set rows \<and> al_TenantID e = tn \<and> al_RuleID e = Some rule \<and> in_force (ale_now env) e"
  unfolding ListByRuleID_def newest_first_def by (auto split: if_splits dest: in_set_takeD)

end
