(* ===== verification/Chirp.thy ===== *)
theory Chirp
  imports Evaluators AllowList "HOL-Library.Char_ord" "HOL-Library.List_Lexorder"
begin

text \<open>
  The detection service (\<open>internal/chirp\<close>): its store (\<open>store.go\<close>), the engine that runs a tenant's rules over a
  transaction (\<open>evaluator.go\<close>), suppression by the allow list (\<open>suppression.go\<close>) and the routes (\<open>handler.go\<close>).
  Rule codes are ordered byte by byte.  Within an evaluation the calls for the \<open>n\<close>-th match are numbered \<open>n\<close>.  The rendering of a uuid is a parameter.
\<close>

section \<open>State\<close>

record StoredTransaction = Transaction +
  tx_CreatedAt :: gotime

record LocationConfig =
  lc_ID :: uuid
  lc_OperatingHours :: "jdoc option"
  lc_Timezone :: string

record SuppressionReason =
  sr_EntryID :: uuid
  sr_Kind :: string
  sr_Reason :: string

text \<open>The attributes of a detection are empty or hold why it was suppressed.\<close>

record DetectionRow =
  dw_ID :: uuid
  dw_TenantID :: uuid
  dw_RuleID :: uuid
  dw_DetectedAt :: gotime
  dw_SourceEntityType :: string
  dw_SourceEntityID :: uuid
  dw_LocationID :: "uuid option"
  dw_CashierEmployeeID :: "uuid option"
  dw_CustomerID :: "uuid option"
  dw_Severity :: string
  dw_SignalStrength :: "string option"
  dw_Evidence :: evidence
  dw_CaseID :: "uuid option"
  dw_Status :: string
  dw_AcknowledgedAt :: "gotime option"
  dw_AcknowledgedBy :: "uuid option"
  dw_Suppression :: "SuppressionReason option"
  dw_CreatedAt :: gotime

record chirp_db =
  chd_rules :: "DetectionRule list"
  chd_transactions :: "StoredTransaction list"
  chd_lines :: "LineItem list"
  chd_discounts :: "TransactionDiscount list"
  chd_actions :: "CashierAction list"
  chd_drawers :: "DrawerEvent list"
  chd_locations :: "LocationConfig list"
  chd_allow :: "AllowListRow list"
  chd_detections :: "DetectionRow list"

datatype chirp_call =
    LoadTransactionCall | LoadRulesCall | LoadLinesCall | LoadDiscountsCall | LoadActionsCall | LoadDrawersCall | LoadLocationCall
  | ListByRuleCall | InsertDetectionCall | ListSinceCall | ListRulesCall | ListDetectionsCall | GetRuleCall | GetDetectionCall

datatype chirp_error = TransactionNotFound | RuleNotFound | DetectionNotFound | ChirpFailed chirp_call

record chirp_env =
  che_now :: gotime
  che_db_now :: gotime
  che_fails :: "chirp_call \<Rightarrow> nat \<Rightarrow> bool"
  che_new :: "nat \<Rightarrow> uuid"

record engine =
  eng_registry :: "string \<rightharpoonup> evaluator"
  eng_allowList :: bool
  eng_uuid_str :: "uuid \<Rightarrow> string"

section \<open>The store\<close>

definition LoadRules :: "chirp_env \<Rightarrow> uuid \<Rightarrow> string \<Rightarrow> chirp_db \<Rightarrow> chirp_error + DetectionRule list" where
  "LoadRules env tenantID frequency db =
     (if che_fails env LoadRulesCall 0 then Inl (ChirpFailed LoadRulesCall)
      else Inr (sort_key dr_RuleCode (filter (\<lambda>r. dr_TenantID r = tenantID \<and> dr_Status r = ''active''
             \<and> (frequency = [] \<or> dr_EvaluationFrequency r = frequency)) (chd_rules db))))"

definition ListRules :: "chirp_env \<Rightarrow> uuid \<Rightarrow> chirp_db \<Rightarrow> chirp_error + DetectionRule list" where
  "ListRules env tenantID db =
     (if che_fails env ListRulesCall 0 then Inl (ChirpFailed ListRulesCall)
      else Inr (sort_key dr_RuleCode (filter (\<lambda>r. dr_TenantID r = tenantID) (chd_rules db))))"

definition GetRuleByID :: "chirp_env \<Rightarrow> uuid \<Rightarrow> uuid \<Rightarrow> chirp_db \<Rightarrow> chirp_error + DetectionRule" where
  "GetRuleByID env tenantID i db =
     (if che_fails env GetRuleCall 0 then Inl (ChirpFailed GetRuleCall)
      else case List.find (\<lambda>r. dr_TenantID r = tenantID \<and> dr_ID r = i) (chd_rules db) of None \<Rightarrow> Inl RuleNotFound | Some r \<Rightarrow> Inr r)"

definition LoadTransaction :: "chirp_env \<Rightarrow> uuid \<Rightarrow> chirp_db \<Rightarrow> chirp_error + StoredTransaction option" where
  "LoadTransaction env i db =
     (if che_fails env LoadTransactionCall 0 then Inl (ChirpFailed LoadTransactionCall)
      else Inr (List.find (\<lambda>t. tx_ID t = i) (chd_transactions db)))"

text \<open>Rows of a call that may fail.\<close>

definition query :: "chirp_env \<Rightarrow> chirp_call \<Rightarrow> 'a \<Rightarrow> chirp_error + 'a" where
  "query env c rows = (if che_fails env c 0 then Inl (ChirpFailed c) else Inr rows)"

definition loadLineItems :: "chirp_env \<Rightarrow> uuid \<Rightarrow> chirp_db \<Rightarrow> chirp_error + LineItem list" where
  "loadLineItems env txID db = query env LoadLinesCall (sort_key li_LineNumber (filter (\<lambda>l. li_TransactionID l = txID) (chd_lines db)))"

definition loadDiscounts :: "chirp_env \<Rightarrow> uuid \<Rightarrow> chirp_db \<Rightarrow> chirp_error + TransactionDiscount list" where
  "loadDiscounts env txID db = query env LoadDiscountsCall (sort_key dc_DiscountSequence (filter (\<lambda>d. dc_TransactionID d = txID) (chd_discounts db)))"

definition LoadCashierWindow :: "chirp_env \<Rightarrow> uuid \<Rightarrow> gotime \<Rightarrow> gotime \<Rightarrow> chirp_db \<Rightarrow> chirp_error + CashierAction list" where
  "LoadCashierWindow env employeeID windowStart windowEnd db = query env LoadActionsCall
     (sort_key ca_PerformedAt (filter (\<lambda>a. ca_CashierEmployeeID a = employeeID \<and> windowStart \<le> ca_PerformedAt a \<and> ca_PerformedAt a \<le> windowEnd)
        (chd_actions db)))"

definition loadDrawerEvents :: "chirp_env \<Rightarrow> uuid \<Rightarrow> string option \<Rightarrow> gotime \<Rightarrow> gotime \<Rightarrow> chirp_db \<Rightarrow> chirp_error + DrawerEvent list" where
  "loadDrawerEvents env locationID terminal windowStart windowEnd db = query env LoadDrawersCall
     (sort_key cd_EventAt (filter (\<lambda>e. cd_LocationID e = locationID \<and> (terminal = None \<or> terminal = Some (cd_POSTerminalID e))
        \<and> windowStart \<le> cd_EventAt e \<and> cd_EventAt e \<le> windowEnd) (chd_drawers db)))"

definition loadLocationConfig :: "chirp_env \<Rightarrow> uuid \<Rightarrow> chirp_db \<Rightarrow> chirp_error + jdoc option \<times> string" where
  "loadLocationConfig env locationID db = query env LoadLocationCall
     (case List.find (\<lambda>c. lc_ID c = locationID) (chd_locations db) of None \<Rightarrow> (None, []) | Some c \<Rightarrow> (lc_OperatingHours c, lc_Timezone c))"

definition defaultCashierWindow :: duration where
  "defaultCashierWindow = 60 * minute"

definition LoadEvalContext :: "chirp_env \<Rightarrow> StoredTransaction \<Rightarrow> chirp_db \<Rightarrow> chirp_error + EvalContext" where
  "LoadEvalContext env tx db =
     (let windowEnd = tx_EndedAt tx; windowStart = windowEnd - defaultCashierWindow in
      case loadLineItems env (tx_ID tx) db of
        Inl e \<Rightarrow> Inl e
      | Inr lines \<Rightarrow>
          (case loadDiscounts env (tx_ID tx) db of
             Inl e \<Rightarrow> Inl e
           | Inr discounts \<Rightarrow>
               (case (case tx_CashierEmployeeID tx of None \<Rightarrow> Inr [] | Some c \<Rightarrow> LoadCashierWindow env c windowStart windowEnd db) of
                  Inl e \<Rightarrow> Inl e
                | Inr actions \<Rightarrow>
                    (case loadDrawerEvents env (tx_LocationID tx) (tx_POSTerminalID tx) windowStart windowEnd db of
                       Inl e \<Rightarrow> Inl e
                     | Inr drawers \<Rightarrow>
                         (case loadLocationConfig env (tx_LocationID tx) db of
                            Inl e \<Rightarrow> Inl e
                          | Inr (hours, tz) \<Rightarrow>
                              Inr \<lparr>ec_TenantID = tx_TenantID tx, ec_Transaction = Transaction.truncate tx, ec_LineItems = lines, ec_Discounts = discounts,
                                ec_CashierActions = actions, ec_DrawerEvents = drawers, ec_OperatingHours = hours, ec_Timezone = tz\<rparr>)))))"

text \<open>The insert returns the detection with its identifier and creation time; the row holds its time in
  microseconds.\<close>

definition InsertDetection :: "chirp_env \<Rightarrow> nat \<Rightarrow> DetectionRow \<Rightarrow> chirp_db \<Rightarrow> (chirp_error + DetectionRow) \<times> chirp_db" where
  "InsertDetection env n det db =
     (if che_fails env InsertDetectionCall n \<or> list_ex (\<lambda>d. dw_ID d = che_new env n) (chd_detections db) then (Inl (ChirpFailed InsertDetectionCall), db)
      else
        let d = det\<lparr>dw_ID := che_new env n, dw_CreatedAt := che_db_now env\<rparr> in
        (Inr d, db\<lparr>chd_detections := chd_detections db @ [d\<lparr>dw_DetectedAt := trunc_us (dw_DetectedAt d)\<rparr>]\<rparr>))"

definition ListTransactionsSince :: "chirp_env \<Rightarrow> uuid \<Rightarrow> gotime \<Rightarrow> chirp_db \<Rightarrow> chirp_error + uuid list" where
  "ListTransactionsSince env tenantID since db = query env ListSinceCall
     (map tx_ID (sort_key tx_CreatedAt (filter (\<lambda>t. tx_TenantID t = tenantID \<and> trunc_us since \<le> tx_CreatedAt t) (chd_transactions db))))"

record DetectionQuery =
  dqy_TenantID :: uuid
  dqy_From :: "gotime option"
  dqy_To :: "gotime option"
  dqy_Limit :: int
  dqy_Offset :: int

definition ListDetections :: "chirp_env \<Rightarrow> DetectionQuery \<Rightarrow> chirp_db \<Rightarrow> chirp_error + DetectionRow list" where
  "ListDetections env q db =
     (let limit = (if dqy_Limit q \<le> 0 then 50 else dqy_Limit q) in
      if dqy_Offset q < 0 then Inl (ChirpFailed ListDetectionsCall)
      else query env ListDetectionsCall (take (nat limit) (drop (nat (dqy_Offset q)) (sort_desc dw_DetectedAt
        (filter (\<lambda>d. dw_TenantID d = dqy_TenantID q \<and> (case dqy_From q of None \<Rightarrow> True | Some t \<Rightarrow> trunc_us t \<le> dw_DetectedAt d)
           \<and> (case dqy_To q of None \<Rightarrow> True | Some t \<Rightarrow> dw_DetectedAt d \<le> trunc_us t)) (chd_detections db))))))"

definition GetDetectionByID :: "chirp_env \<Rightarrow> uuid \<Rightarrow> uuid \<Rightarrow> chirp_db \<Rightarrow> chirp_error + DetectionRow" where
  "GetDetectionByID env tenantID i db =
     (if che_fails env GetDetectionCall 0 then Inl (ChirpFailed GetDetectionCall)
      else case List.find (\<lambda>d. dw_TenantID d = tenantID \<and> dw_ID d = i) (chd_detections db) of None \<Rightarrow> Inl DetectionNotFound | Some d \<Rightarrow> Inr d)"


section \<open>Suppression\<close>

definition evidenceReasonCode :: "evidence option \<Rightarrow> string" where
  "evidenceReasonCode ev =
     (case ev of None \<Rightarrow> [] | Some kvs \<Rightarrow> (case map_of (rev kvs) ''reason_code'' of Some (EvStr s) \<Rightarrow> s | _ \<Rightarrow> []))"

text \<open>A string of a decoded map; anything else reads as empty.\<close>

definition map_string :: "(string \<rightharpoonup> json) \<Rightarrow> string \<Rightarrow> string" where
  "map_string m k = (case m k of Some (JStr s) \<Rightarrow> s | _ \<Rightarrow> [])"

definition matchesPattern :: "(uuid \<Rightarrow> string) \<Rightarrow> string \<Rightarrow> (string \<rightharpoonup> json) \<Rightarrow> MatchedDetection \<Rightarrow> bool" where
  "matchesPattern uuid_str kind pat m =
     (if kind = ''dead_count'' then
        (let cashier = map_string pat ''cashier_id'' in
         case md_CashierEmployeeID m of None \<Rightarrow> False | Some c \<Rightarrow> cashier \<noteq> [] \<and> uuid_str c = cashier)
      else if kind = ''discounts'' \<or> kind = ''voids'' \<or> kind = ''comps'' then
        (let code = map_string pat ''reason_code''; evCode = evidenceReasonCode (md_Evidence m) in code \<noteq> [] \<and> evCode \<noteq> [] \<and> evCode = code)
      else False)"

definition suppresses :: "(uuid \<Rightarrow> string) \<Rightarrow> MatchedDetection \<Rightarrow> AllowListRow \<Rightarrow> SuppressionReason option" where
  "suppresses uuid_str m row =
     (case Option.bind (al_Pattern row) unmarshal_map of
        None \<Rightarrow> None
      | Some pat \<Rightarrow>
          let kind = map_string pat ''kind'' in
          if matchesPattern uuid_str kind pat m
          then Some \<lparr>sr_EntryID = al_ID row, sr_Kind = kind, sr_Reason = (case al_Reason row of None \<Rightarrow> [] | Some r \<Rightarrow> r)\<rparr> else None)"

fun first_some :: "('a \<Rightarrow> 'b option) \<Rightarrow> 'a list \<Rightarrow> 'b option" where
  "first_some f [] = None"
| "first_some f (x # xs) = (case f x of None \<Rightarrow> first_some f xs | Some y \<Rightarrow> Some y)"

definition allow_env_of :: "chirp_env \<Rightarrow> nat \<Rightarrow> allow_env" where
  "allow_env_of env n = \<lparr>ale_now = che_db_now env, ale_fails = (\<lambda>c. che_fails env ListByRuleCall n), ale_new = uuid_nil\<rparr>"

definition CheckSuppression :: "engine \<Rightarrow> chirp_env \<Rightarrow> nat \<Rightarrow> DetectionRule \<Rightarrow> MatchedDetection \<Rightarrow> chirp_db \<Rightarrow> allow_error + SuppressionReason option" where
  "CheckSuppression eng env n rule m db =
     (if \<not> eng_allowList eng then Inr None
      else case ListByRuleID (allow_env_of env n) (dr_TenantID rule) (dr_ID rule) 200 (chd_allow db) of
          Inl e \<Rightarrow> Inl e
        | Inr rows \<Rightarrow> Inr (first_some (suppresses (eng_uuid_str eng) m) rows))"

section \<open>The engine\<close>

definition evaluateOne :: "engine \<Rightarrow> DetectionRule \<Rightarrow> EvalContext \<Rightarrow> rule_error + MatchedDetection list" where
  "evaluateOne eng rule ec =
     (case RuleType rule of
        Inl e \<Rightarrow> Inl e
      | Inr t \<Rightarrow> (case eng_registry eng t of None \<Rightarrow> Inr [] | Some ev \<Rightarrow> ev rule ec))"

definition buildDetection :: "chirp_env \<Rightarrow> DetectionRule \<Rightarrow> EvalContext \<Rightarrow> MatchedDetection \<Rightarrow> DetectionRow" where
  "buildDetection env rule ec m =
     (let tx = ec_Transaction ec in
      \<lparr>dw_ID = uuid_nil, dw_TenantID = dr_TenantID rule, dw_RuleID = dr_ID rule, dw_DetectedAt = che_now env,
       dw_SourceEntityType = ''transaction'', dw_SourceEntityID = tx_ID tx,
       dw_LocationID = (case md_LocationID m of Some l \<Rightarrow> Some l | None \<Rightarrow> Some (tx_LocationID tx)),
       dw_CashierEmployeeID = (case md_CashierEmployeeID m of Some c \<Rightarrow> Some c | None \<Rightarrow> tx_CashierEmployeeID tx),
       dw_CustomerID = (case md_CustomerID m of Some c \<Rightarrow> Some c | None \<Rightarrow> tx_CustomerID tx),
       dw_Severity = (if md_Severity m = [] then dr_Severity rule else md_Severity m), dw_SignalStrength = md_SignalStrength m,
       dw_Evidence = (case md_Evidence m of None \<Rightarrow> [] | Some kvs \<Rightarrow> kvs), dw_CaseID = None, dw_Status = ''new'',
       dw_AcknowledgedAt = None, dw_AcknowledgedBy = None, dw_Suppression = None,
       dw_CreatedAt = che_now env\<rparr>)"

text \<open>The detection of a match: dismissed when an entry of the allow list matches, and new when the list cannot be
  read.\<close>

definition detection_for :: "engine \<Rightarrow> chirp_env \<Rightarrow> nat \<Rightarrow> DetectionRule \<Rightarrow> EvalContext \<Rightarrow> MatchedDetection \<Rightarrow> chirp_db \<Rightarrow> DetectionRow" where
  "detection_for eng env n rule ec m db =
     (case CheckSuppression eng env n rule m db of
        Inr (Some why) \<Rightarrow> (buildDetection env rule ec m)\<lparr>dw_Status := ''dismissed'', dw_Suppression := Some why\<rparr>
      | _ \<Rightarrow> buildDetection env rule ec m)"

fun insert_matches ::
  "engine \<Rightarrow> chirp_env \<Rightarrow> DetectionRule \<Rightarrow> EvalContext \<Rightarrow> MatchedDetection list \<Rightarrow> nat \<Rightarrow> DetectionRow list \<Rightarrow> chirp_db
     \<Rightarrow> nat \<times> DetectionRow list \<times> chirp_db" where
  "insert_matches eng env rule ec [] n acc db = (n, acc, db)"
| "insert_matches eng env rule ec (m # ms) n acc db =
     (case InsertDetection env n (detection_for eng env n rule ec m db) db of
        (Inl _, db') \<Rightarrow> insert_matches eng env rule ec ms (Suc n) acc db'
      | (Inr d, db') \<Rightarrow> insert_matches eng env rule ec ms (Suc n) (acc @ [d]) db')"

fun run_rules ::
  "engine \<Rightarrow> chirp_env \<Rightarrow> EvalContext \<Rightarrow> DetectionRule list \<Rightarrow> nat \<Rightarrow> DetectionRow list \<Rightarrow> chirp_db \<Rightarrow> DetectionRow list \<times> chirp_db" where
  "run_rules eng env ec [] n acc db = (acc, db)"
| "run_rules eng env ec (r # rs) n acc db =
     (case evaluateOne eng r ec of
        Inl _ \<Rightarrow> run_rules eng env ec rs n acc db
      | Inr ms \<Rightarrow> (case insert_matches eng env r ec ms n acc db of (n', acc', db') \<Rightarrow> run_rules eng env ec rs n' acc' db'))"

definition EvaluateTransaction ::
  "engine \<Rightarrow> chirp_env \<Rightarrow> uuid \<Rightarrow> uuid \<Rightarrow> chirp_db \<Rightarrow> (chirp_error + DetectionRow list) \<times> chirp_db" where
  "EvaluateTransaction eng env expectedTenantID transactionID db =
     (case LoadTransaction env transactionID db of
        Inl e \<Rightarrow> (Inl e, db)
      | Inr None \<Rightarrow> (Inl TransactionNotFound, db)
      | Inr (Some tx) \<Rightarrow>
          if expectedTenantID \<noteq> uuid_nil \<and> tx_TenantID tx \<noteq> expectedTenantID then (Inl TransactionNotFound, db)
          else (case LoadRules env (tx_TenantID tx) ''on_event'' db of
              Inl e \<Rightarrow> (Inl e, db)
            | Inr rules \<Rightarrow>
                if rules = [] then (Inr [], db)
                else (case LoadEvalContext env tx db of
                    Inl e \<Rightarrow> (Inl e, db)
                  | Inr ec \<Rightarrow> (case run_rules eng env ec rules 0 [] db of (acc, db') \<Rightarrow> (Inr acc, db')))))"

text \<open>A batch; the \<open>k\<close>-th transaction is evaluated in environment \<open>k + 1\<close>.\<close>

fun evaluate_all :: "engine \<Rightarrow> (nat \<Rightarrow> chirp_env) \<Rightarrow> nat \<Rightarrow> uuid list \<Rightarrow> int \<Rightarrow> chirp_db \<Rightarrow> int \<times> chirp_db" where
  "evaluate_all eng envs k [] n db = (n, db)"
| "evaluate_all eng envs k (t # ts) n db =
     (case EvaluateTransaction eng (envs k) uuid_nil t db of
        (Inl _, db') \<Rightarrow> evaluate_all eng envs (Suc k) ts n db'
      | (Inr ds, db') \<Rightarrow> evaluate_all eng envs (Suc k) ts (n + int (length ds)) db')"

record BatchResult =
  br_TenantID :: uuid
  br_Since :: gotime
  br_TransactionsEvaluated :: int
  br_DetectionsInserted :: int

definition EvaluateBatch_engine :: "engine \<Rightarrow> (nat \<Rightarrow> chirp_env) \<Rightarrow> uuid \<Rightarrow> gotime \<Rightarrow> chirp_db \<Rightarrow> (chirp_error + BatchResult) \<times> chirp_db" where
  "EvaluateBatch_engine eng envs tenantID since db =
     (case ListTransactionsSince (envs 0) tenantID since db of
        Inl e \<Rightarrow> (Inl e, db)
      | Inr ids \<Rightarrow>
          (case evaluate_all eng envs 1 ids 0 db of (n, db') \<Rightarrow>
             (Inr \<lparr>br_TenantID = tenantID, br_Since = since, br_TransactionsEvaluated = int (length ids), br_DetectionsInserted = n\<rparr>, db')))"


section \<open>The routes\<close>

text \<open>A time of a request: absent, not RFC 3339, or read.\<close>

datatype stamp_arg = NoStamp | BadStamp | StampAt gotime

record evaluateBatchRequest =
  ebr_MerchantID :: string
  ebr_Since :: stamp_arg

datatype chirp_request =
    PostEvaluate "string req_body"
  | PostEvaluateBatch "evaluateBatchRequest req_body"
  | GetRules
  | GetDetections stamp_arg stamp_arg string string

datatype chirp_reply =
    ChirpErr nat string
  | Evaluated uuid "DetectionRow list"
  | BatchDone BatchResult
  | RuleList uuid "DetectionRule list"
  | DetectionList uuid "DetectionRow list"

definition chirp_tenant :: "uuid option \<Rightarrow> chirp_reply + uuid" where
  "chirp_tenant claim = (case claim of None \<Rightarrow> Inl (ChirpErr 401 ''unauthenticated'')
     | Some tn \<Rightarrow> if tn = uuid_nil then Inl (ChirpErr 401 ''unauthenticated'') else Inr tn)"

definition Evaluate :: "(string \<Rightarrow> uuid option) \<Rightarrow> engine \<Rightarrow> chirp_env \<Rightarrow> uuid \<Rightarrow> string req_body \<Rightarrow> chirp_db \<Rightarrow> chirp_reply \<times> chirp_db" where
  "Evaluate parse eng env tn body db =
     (case body of
        BodyJson s \<Rightarrow>
          (case parse s of
             None \<Rightarrow> (ChirpErr 400 ''malformed_transaction_id'', db)
           | Some i \<Rightarrow>
               (case EvaluateTransaction eng env tn i db of
                  (Inl TransactionNotFound, db') \<Rightarrow> (ChirpErr 404 ''transaction_not_found'', db')
                | (Inl _, db') \<Rightarrow> (ChirpErr 500 ''evaluate_failed'', db')
                | (Inr ds, db') \<Rightarrow> (Evaluated i ds, db')))
      | _ \<Rightarrow> (ChirpErr 400 ''malformed_request'', db))"

definition EvaluateBatch ::
  "(string \<Rightarrow> uuid option) \<Rightarrow> engine \<Rightarrow> (nat \<Rightarrow> chirp_env) \<Rightarrow> uuid \<Rightarrow> evaluateBatchRequest req_body \<Rightarrow> chirp_db \<Rightarrow> chirp_reply \<times> chirp_db" where
  "EvaluateBatch parse eng envs tn body db =
     (case body of
        BodyJson req \<Rightarrow>
          let go = (case ebr_Since req of
                StampAt t \<Rightarrow> (case EvaluateBatch_engine eng envs tn t db of
                    (Inl _, db') \<Rightarrow> (ChirpErr 500 ''batch_failed'', db')
                  | (Inr r, db') \<Rightarrow> (BatchDone r, db'))
              | _ \<Rightarrow> (ChirpErr 400 ''malformed_since'', db)) in
          if ebr_MerchantID req = [] then go
          else (case parse (ebr_MerchantID req) of
              None \<Rightarrow> (ChirpErr 400 ''malformed_merchant_id'', db)
            | Some m \<Rightarrow> if m \<noteq> uuid_nil \<and> m \<noteq> tn then (ChirpErr 403 ''tenant_mismatch'', db) else go)
      | _ \<Rightarrow> (ChirpErr 400 ''malformed_request'', db))"

definition ListRules_handler :: "chirp_env \<Rightarrow> uuid \<Rightarrow> chirp_db \<Rightarrow> chirp_reply" where
  "ListRules_handler env tn db = (case ListRules env tn db of Inl _ \<Rightarrow> ChirpErr 500 ''list_rules_failed'' | Inr rs \<Rightarrow> RuleList tn rs)"

definition stamp_opt :: "stamp_arg \<Rightarrow> gotime option" where
  "stamp_opt a = (case a of StampAt t \<Rightarrow> Some t | _ \<Rightarrow> None)"

definition ListDetections_handler :: "chirp_env \<Rightarrow> uuid \<Rightarrow> stamp_arg \<Rightarrow> stamp_arg \<Rightarrow> string \<Rightarrow> string \<Rightarrow> chirp_db \<Rightarrow> chirp_reply" where
  "ListDetections_handler env tn t1 t2 limit offset db =
     (if t1 = BadStamp then ChirpErr 400 ''malformed_from''
      else if t2 = BadStamp then ChirpErr 400 ''malformed_to''
      else case ListDetections env \<lparr>dqy_TenantID = tn, dqy_From = stamp_opt t1, dqy_To = stamp_opt t2,
             dqy_Limit = (case parse_int64 limit of Some n \<Rightarrow> if 0 < n \<and> n \<le> 500 then n else 0 | None \<Rightarrow> 0),
             dqy_Offset = (case parse_int64 offset of Some n \<Rightarrow> if 0 \<le> n then n else 0 | None \<Rightarrow> 0)\<rparr> db of
          Inl _ \<Rightarrow> ChirpErr 500 ''list_detections_failed''
        | Inr ds \<Rightarrow> DetectionList tn ds)"

fun chirp_serve ::
  "(string \<Rightarrow> uuid option) \<Rightarrow> engine \<Rightarrow> (nat \<Rightarrow> chirp_env) \<times> uuid option \<times> chirp_request \<Rightarrow> chirp_db \<Rightarrow> chirp_reply \<times> chirp_db" where
  "chirp_serve parse eng (envs, claim, req) db =
     (case chirp_tenant claim of
        Inl r \<Rightarrow> (r, db)
      | Inr tn \<Rightarrow>
          (case req of
             PostEvaluate body \<Rightarrow> Evaluate parse eng (envs 0) tn body db
           | PostEvaluateBatch body \<Rightarrow> EvaluateBatch parse eng envs tn body db
           | GetRules \<Rightarrow> (ListRules_handler (envs 0) tn db, db)
           | GetDetections t1 t2 limit offset \<Rightarrow> (ListDetections_handler (envs 0) tn t1 t2 limit offset db, db)))"

end
