(* ===== verification/RuleLaws.thy ===== *)
theory RuleLaws
  imports Evaluators
begin

text \<open>
  What the evaluators compute: amounts of whole cents are read exactly, signal strengths stay between zero and one,
  and when each rule fires.
\<close>

section \<open>Rounding errors\<close>

lemma round_even_close: "\<bar>of_int (round_even y) - y\<bar> \<le> 1 / 2"
proof -
  have "of_int \<lfloor>y\<rfloor> \<le> y" "y < of_int \<lfloor>y\<rfloor> + 1" by linarith+
  then show ?thesis unfolding round_even_def Let_def by (auto simp: abs_le_iff)
qed

lemma rat_log2_less:
  assumes "0 < x" "x < 2 ^ k" shows "rat_log2 x < int k"
proof (rule ccontr)
  assume n: "\<not> rat_log2 x < int k"
  then have "2 ^ nat (rat_log2 x) \<le> x" using rat_log2_le [OF assms(1)] by simp
  moreover have "(2 :: rat) ^ k \<le> 2 ^ nat (rat_log2 x)" using n by (intro power_increasing) auto
  ultimately show False using assms(2) by linarith
qed

lemma rnd_close:
  assumes "0 \<le> x" "x < 2 ^ k" "k \<le> 53"
  shows "\<bar>rnd x - x\<bar> \<le> 1 / 2 ^ (54 - k)"
proof (cases "x = 0")
  case False
  then have x: "0 < x" using assms(1) by simp
  define e where "e = max (- 1074) (rat_log2 \<bar>x\<bar> - 52)"
  have e: "e \<le> int k - 53" using rat_log2_less [OF x assms(2)] x assms(3) by (simp add: e_def)
  define p :: rat where "p = 2 ^ nat (- e)"
  have p: "0 < p" by (simp add: p_def)
  have r: "rnd x = of_int (round_even (x * p)) / p"
    using e assms(3) False unfolding rnd_def e_def [symmetric] Let_def scale2_def p_def by auto
  have "(2 :: rat) ^ (53 - k) \<le> p" unfolding p_def using e by (intro power_increasing) auto
  have "rnd x - x = (of_int (round_even (x * p)) - x * p) / p" using p by (simp add: r diff_divide_distrib)
  then have "\<bar>rnd x - x\<bar> = \<bar>of_int (round_even (x * p)) - x * p\<bar> / p" using p by simp
  moreover have "\<bar>of_int (round_even (x * p)) - x * p\<bar> / p \<le> (1 / 2) / p" using round_even_close p by (intro divide_right_mono) auto
  moreover have "(1 / 2) / p \<le> (1 / 2) / 2 ^ (53 - k)" using p \<open>2 ^ (53 - k) \<le> p\<close> by (intro divide_left_mono) auto
  ultimately have "\<bar>rnd x - x\<bar> \<le> (1 / 2) / 2 ^ (53 - k)" by linarith
  moreover have "54 - k = Suc (53 - k)" using assms(3) by simp
  ultimately show ?thesis by simp
qed (simp add: rnd_def)

section \<open>Cents\<close>

lemma float_of_small:
  assumes "0 \<le> x" "x < 2 ^ k" "k \<le> 53"
  shows "float_of x = Finite (rnd x)" "0 \<le> rnd x" "\<bar>rnd x - x\<bar> \<le> 1 / 2 ^ (54 - k)"
proof -
  have "x < 2 ^ 53" using assms(2,3) power_increasing [of k 53 "2 :: rat"] by simp
  note r = rnd_small [OF assms(1) this]
  have "rnd x < 2 ^ 54" using r(1) \<open>x < 2 ^ 53\<close> by simp
  moreover have "(2 :: rat) ^ 54 \<le> 2 ^ 1024" by (intro power_increasing) auto
  ultimately have "\<bar>rnd x\<bar> < 2 ^ 1024" using r(2) by simp
  then show "float_of x = Finite (rnd x)" by (simp add: float_of_def)
qed (use rnd_small [OF assms(1)] rnd_close [OF assms] assms power_increasing [of k 53 "2 :: rat"] in auto)

text \<open>The float of an amount of whole cents, times a hundred and a half more, has the cents as its whole part.\<close>

lemma cents_of_float:
  assumes "c < 2 ^ 40"
  defines "f \<equiv> rnd (of_nat c / 100)"
  shows "float_of (f * 100) = Finite (rnd (f * 100))" "float_of (rnd (f * 100) + 1 / 2) = Finite (rnd (rnd (f * 100) + 1 / 2))"
    "\<lfloor>rnd (rnd (f * 100) + 1 / 2)\<rfloor> = int c" "0 \<le> f" "0 \<le> rnd (rnd (f * 100) + 1 / 2)"
proof -
  let ?c = "of_nat c :: rat"
  have "(of_nat c :: rat) < of_nat (2 ^ 40)" using assms(1) by (simp only: of_nat_less_iff)
  then have c: "0 \<le> ?c" "?c < 2 ^ 40" by simp_all
  have "0 \<le> ?c / 100" "?c / 100 < 2 ^ 40" using c by simp_all
  note f = float_of_small [OF this, folded f_def]
  have f1: "0 \<le> f" "\<bar>f - ?c / 100\<bar> \<le> 1 / 2 ^ 14" using f by simp_all
  have f2: "f \<le> ?c / 100 + 1 / 2 ^ 14" "?c / 100 - 1 / 2 ^ 14 \<le> f" using f1(2) unfolding abs_le_iff by linarith+
  have g: "0 \<le> f * 100" "f * 100 < 2 ^ 41" "\<bar>f * 100 - ?c\<bar> \<le> 100 / 2 ^ 14"
    using f1(1) f2 c unfolding abs_le_iff by simp_all
  note h = float_of_small [OF g(1,2)]
  let ?y = "rnd (f * 100)"
  have h1: "0 \<le> ?y" "\<bar>?y - f * 100\<bar> \<le> 1 / 2 ^ 13" using h by simp_all
  have h2: "?y \<le> f * 100 + 1 / 2 ^ 13" "f * 100 - 1 / 2 ^ 13 \<le> ?y" using h1(2) unfolding abs_le_iff by linarith+
  have k: "0 \<le> ?y + 1 / 2" "?y + 1 / 2 < 2 ^ 42" using h1(1) h2 g(2) by simp_all
  note z = float_of_small [OF k]
  have z1: "\<bar>rnd (?y + 1 / 2) - (?y + 1 / 2)\<bar> \<le> 1 / 2 ^ 12" using z by simp
  show "float_of (f * 100) = Finite ?y" "float_of (?y + 1 / 2) = Finite (rnd (?y + 1 / 2))" "0 \<le> f" "0 \<le> rnd (?y + 1 / 2)" using h z f by simp_all
  have "rnd (?y + 1 / 2) \<le> ?y + 1 / 2 + 1 / 2 ^ 12" "?y + 1 / 2 - 1 / 2 ^ 12 \<le> rnd (?y + 1 / 2)" using z1 unfolding abs_le_iff by linarith+
  then have "of_int (int c) \<le> rnd (?y + 1 / 2)" "rnd (?y + 1 / 2) < of_int (int c) + 1" using h2 f2 by simp_all
  then show "\<lfloor>rnd (?y + 1 / 2)\<rfloor> = int c" by (simp add: floor_eq_iff)
qed


text \<open>Rounding is symmetric.\<close>

lemma round_even_uminus: "round_even (- y) = - round_even y"
proof (cases "y = of_int \<lfloor>y\<rfloor>")
  case True
  then have "- y = of_int (- \<lfloor>y\<rfloor>)" by simp
  then show ?thesis using True round_even_of_int by metis
next
  case False
  define f where "f = \<lfloor>y\<rfloor>"
  have "of_int f \<le> y" "y < of_int f + 1" unfolding f_def by linarith+
  then have f: "of_int f < y" "y < of_int f + 1" using False f_def by linarith+
  then have "\<lfloor>- y\<rfloor> = - f - 1" by (simp add: floor_eq_iff)
  then show ?thesis using f unfolding round_even_def Let_def f_def [symmetric] by auto
qed

lemma scale2_uminus: "scale2 (- x) e = - scale2 x e"
  by (simp add: scale2_def)

lemma rnd_uminus [simp]: "rnd (- x) = - rnd x"
  unfolding rnd_def Let_def by (simp only: abs_minus_cancel scale2_uminus round_even_uminus of_int_minus neg_equal_0_iff_equal) simp

lemma float_of_uminus: "float_of x = Finite y \<Longrightarrow> float_of (- x) = Finite (- y)"
  by (auto simp: float_of_def split: if_splits)

lemma fmt_fixed_ne: "fmt_fixed prec n \<noteq> []"
  by (simp add: fmt_fixed_def)

text \<open>An amount of a numeric column that is whole cents is read as them.\<close>

theorem numericStringToCents_exact:
  assumes "\<bar>c\<bar> < 2 ^ 40"
  shows "numericStringToCents (fmt_fixed 4 (100 * c)) = Some c"
proof -
  define n where "n = nat \<bar>c\<bar>"
  have n: "\<bar>c\<bar> = int n" "n < 2 ^ 40" using assms by (simp_all add: n_def nat_less_iff)
  define f :: rat where "f = rnd (of_nat n / 100)"
  note cents = cents_of_float [OF n(2), folded f_def]
  have q: "of_int \<bar>100 * c\<bar> / 10 ^ 4 = (of_nat n / 100 :: rat)" using n(1) by (simp add: abs_mult flip: of_int_abs)
  have "(of_nat n :: rat) < of_nat (2 ^ 40)" using n(2) by (simp only: of_nat_less_iff)
  then have r: "0 \<le> (of_nat n / 100 :: rat)" "of_nat n / 100 < (2 ^ 40 :: rat)" by simp_all
  have b: "f \<le> of_nat n / 100 + 1 / 2 ^ 14" "of_nat n / 100 - 1 / 2 ^ 14 \<le> f"
    using float_of_small(3) [OF r] unfolding f_def abs_le_iff by simp_all
  then have "f < 2 ^ 41" using r by simp
  moreover have "(2 :: rat) ^ 41 \<le> 2 ^ 1024" by (intro power_increasing) auto
  ultimately have "f < 2 ^ 1024" by linarith
  then have p: "ParseFloat (fmt_fixed 4 (100 * c)) = (Finite (if c < 0 then - f else f), None)"
    using ParseFloat_fixed [of 4 "100 * c"] unfolding q f_def by simp
  have i: "is_int64 (int n)" using n by (simp add: is_int64_def)
  let ?z = "rnd (rnd (f * 100) + 1 / 2)"
  have z: "float_to_int64 ?z = int n" "float_to_int64 (- ?z) = - int n"
    using cents(3,5) i n(2) by (auto simp: float_to_int64_def Let_def is_int64_def)
  show ?thesis
  proof (cases "c < 0")
    case False
    then show ?thesis using p fmt_fixed_ne cents(1,2,4) z(1) n(1) by (simp add: numericStringToCents_def)
  next
    case True
    have "(1 :: rat) \<le> of_nat n" using True n(1) by simp
    then have "0 < f" using b(2) by simp
    have "float_of (- f * 100) = Finite (- rnd (f * 100))" "float_of (- rnd (f * 100) + - (1 / 2)) = Finite (- ?z)"
      using float_of_uminus [OF cents(1)] float_of_uminus [OF cents(2)] by simp_all
    then show ?thesis using True p fmt_fixed_ne \<open>0 < f\<close> z(2) n(1) by (simp add: numericStringToCents_def float_sub_def)
  qed
qed


section \<open>Strengths\<close>

lemma round_even_mono_bounds:
  assumes "0 \<le> y" "y \<le> of_int n"
  shows "0 \<le> round_even y" "round_even y \<le> n"
proof -
  have f: "0 \<le> \<lfloor>y\<rfloor>" "\<lfloor>y\<rfloor> \<le> n" using assms by (simp_all add: floor_le_iff)
  have "y - of_int \<lfloor>y\<rfloor> = 0" if "\<lfloor>y\<rfloor> = n" using that assms(2) of_int_floor_le [of y] by simp
  moreover have "\<lfloor>y\<rfloor> = n \<or> \<lfloor>y\<rfloor> + 1 \<le> n" using f(2) by linarith
  ultimately show "0 \<le> round_even y" "round_even y \<le> n" using f unfolding round_even_def Let_def by (auto split: if_splits)
qed

lemma rnd_nonneg: "0 \<le> x \<Longrightarrow> 0 \<le> rnd x"
proof -
  assume x: "0 \<le> x"
  have "0 \<le> round_even y" if "0 \<le> y" for y using round_even_mono_bounds(1) [OF that, of "\<lceil>y\<rceil>"] by simp
  then show ?thesis using x by (auto simp: rnd_def Let_def scale2_def)
qed

definition strength_text :: "string \<Rightarrow> bool" where
  "strength_text s \<longleftrightarrow> (\<exists>n. 0 \<le> n \<and> n \<le> 10000 \<and> s = fmt_fixed 4 n)"

lemma strength_textI: "fmt_fixed 4 n = s \<Longrightarrow> 0 \<le> n \<Longrightarrow> n \<le> 10000 \<Longrightarrow> strength_text s"
  unfolding strength_text_def by blast

lemma strength_text_literals: "strength_text ''0.0000''" "strength_text ''0.7500''" "strength_text ''0.7000''"
proof -
  have "fmt_fixed 4 0 = ''0.0000''" "fmt_fixed 4 7500 = ''0.7500''" "fmt_fixed 4 7000 = ''0.7000''"
    by (simp_all add: fmt_fixed_def fmt_pad_def dec_nat.simps digit_char_def char_of_def bit_iff_odd numeral_3_eq_3)
  then show "strength_text ''0.0000''" "strength_text ''0.7500''" "strength_text ''0.7000''"
    using strength_textI [of 0] strength_textI [of 7500] strength_textI [of 7000] by simp_all
qed

lemma strength_of_unit:
  assumes "0 \<le> v" "v \<le> 1" shows "strength_text (FormatFloat 4 (Finite v))"
proof -
  have "0 \<le> \<bar>v\<bar> * 10 ^ 4" "\<bar>v\<bar> * 10 ^ 4 \<le> of_int 10000" using assms by simp_all
  note b = round_even_mono_bounds [OF this]
  then show ?thesis using assms unfolding strength_text_def by (intro exI [of _ "round_even (\<bar>v\<bar> * 10 ^ 4)"]) simp
qed

theorem strengthFromRatio_bounded:
  assumes "ratio \<noteq> NotANumber" shows "strength_text (strengthFromRatio ratio)"
proof (cases "float_nonpos ratio")
  case False
  let ?v = "float_mul (Finite (1 / 2)) ratio"
  have "float_less (Finite 1) ?v \<or> (\<exists>v. ?v = Finite v \<and> 0 \<le> v \<and> v \<le> 1)"
    using assms False by (cases ratio) (auto simp: float_of_def not_less intro!: rnd_nonneg)
  then show ?thesis using False strength_of_unit [of 1] strength_of_unit unfolding strengthFromRatio_def Let_def by auto
qed (simp add: strengthFromRatio_def strength_text_literals)

lemma float_of_number: "float_of x \<noteq> NotANumber"
  by (simp add: float_of_def)

lemma int_ratio_number: "float_div (int_float a) (int_float b) \<noteq> NotANumber"
  by (simp add: int_float_def float_of_number)


lemma in_map_filter: "y \<in> set (List.map_filter f xs) \<longleftrightarrow> (\<exists>x \<in> set xs. f x = Some y)"
  by (induction xs) (auto simp: List.map_filter_simps split: option.split)

lemma decode_field_keeps:
  assumes "decode_field dec x ds = Some y" "Q x" "\<And>d z. dec d = Some z \<Longrightarrow> Q z" shows "Q y"
  using assms by (induction dec x ds rule: decode_field.induct) (auto split: option.splits)

lemma decode_one_keeps:
  assumes "decode_one name dec x d = Some y" "Q x" "\<And>d z. dec d = Some z \<Longrightarrow> Q z" shows "Q y"
  using assms by (auto simp: decode_one_def bind_eq_Some_conv intro: decode_field_keeps)

lemma Params_keeps:
  assumes "Params (decode_one name dec x) x rule = Inr y" "Q x" "\<And>d z. dec d = Some z \<Longrightarrow> Q z" shows "Q y"
  using assms decode_one_keeps [of name dec x _ y Q] by (auto simp: Params_def split: option.splits if_splits)

lemma Params_float:
  assumes "Params (decode_one name dec_float (Finite 0)) (Finite 0) rule = Inr p"
  obtains x where "p = Finite x"
proof -
  have "\<exists>x. z = Finite x" if "dec_float d = Some z" for d z
    using that by (cases d) (auto split: prod.splits go_float.splits option.splits)
  then have "\<exists>x. p = Finite x" using Params_keeps [OF assms, of "\<lambda>p. \<exists>x. p = Finite x"] by blast
  then show ?thesis using that by blast
qed

definition finite_text :: "string \<Rightarrow> bool" where
  "finite_text s \<longleftrightarrow> (\<exists>x e. ParseFloat s = (Finite x, e))"

lemma positive_float_finite: "finite_text s \<Longrightarrow> positive_float s = Some f \<Longrightarrow> \<exists>x. f = Finite x \<and> 0 < x"
  by (auto simp: finite_text_def positive_float_def split: option.splits if_splits)

lemma percent_number: "float_mul (float_div (Finite x) (Finite y)) (Finite 100) \<noteq> NotANumber"
  by (simp add: float_of_def)

lemma percent_ratio_number: "f \<noteq> NotANumber \<Longrightarrow> float_div f (Finite th) \<noteq> NotANumber"
  by (cases f) (simp_all add: float_of_number)

lemma plain_match_fields [simp]:
  "md_SignalStrength (plain_match rule s ev) = Some s" "md_Severity (plain_match rule s ev) = dr_Severity rule"
  "md_Evidence (plain_match rule s ev) = marshal ev" "md_CashierEmployeeID (plain_match rule s ev) = None"
  by (simp_all add: plain_match_def)

definition strong :: "MatchedDetection \<Rightarrow> bool" where
  "strong m \<longleftrightarrow> (\<exists>s. md_SignalStrength m = Some s \<and> strength_text s)"

lemma strong_plain [simp]: "strong (plain_match rule s ev) = strength_text s" "strong (m\<lparr>md_CashierEmployeeID := c\<rparr>) = strong m"
  by (simp_all add: strong_def)

lemma VoidThreshold_strong: "VoidThreshold rule ec = Inr ms \<Longrightarrow> m \<in> set ms \<Longrightarrow> strong m"
  by (auto simp: VoidThreshold_def Let_def int_ratio_number intro!: strengthFromRatio_bounded split: sum.splits prod.splits if_splits)

lemma NoSaleFrequency_strong: "NoSaleFrequency rule ec = Inr ms \<Longrightarrow> m \<in> set ms \<Longrightarrow> strong m"
  by (auto simp: NoSaleFrequency_def Let_def int_ratio_number intro!: strengthFromRatio_bounded split: sum.splits prod.splits if_splits)

lemma ManagerOverrideFrequency_strong: "ManagerOverrideFrequency order rule ec = Inr ms \<Longrightarrow> m \<in> set ms \<Longrightarrow> strong m"
  by (auto simp: ManagerOverrideFrequency_def Let_def int_ratio_number intro!: strengthFromRatio_bounded split: sum.splits prod.splits)

lemma RefundNoReceipt_strong: "RefundNoReceipt rule ec = Inr ms \<Longrightarrow> m \<in> set ms \<Longrightarrow> strong m"
  by (auto simp: RefundNoReceipt_def Let_def strength_text_literals split: if_splits)

lemma AfterHoursTransaction_strong: "AfterHoursTransaction zone rule ec = Inr ms \<Longrightarrow> m \<in> set ms \<Longrightarrow> strong m"
  by (auto simp: AfterHoursTransaction_def Let_def matchedAfterHours_def strength_text_literals split: sum.splits option.splits if_splits)

lemma CashDrawerVariance_strong:
  assumes "CashDrawerVariance rule ec = Inr ms" "m \<in> set ms" shows "strong m"
proof -
  have "strong m" if "drawer_match th rule e = Some m" for th e
    using that by (auto simp: drawer_match_def int_float_def float_of_number intro!: strengthFromRatio_bounded split: option.splits if_splits)
  then show ?thesis using assms by (auto simp: CashDrawerVariance_def in_map_filter split: sum.splits)
qed

lemma LargeDiscountPct_strong:
  assumes "LargeDiscountPct rule ec = Inr ms" "m \<in> set ms"
    and "\<forall>l \<in> set (ec_LineItems ec). finite_text (li_UnitPrice l) \<and> finite_text (li_UnitDiscount l)"
  shows "strong m"
proof -
  obtain p where p: "Params (decode_one ''threshold_pct'' dec_float (Finite 0)) (Finite 0) rule = Inr p"
    using assms(1) by (auto simp: LargeDiscountPct_def split: sum.splits)
  then obtain x where "p = Finite x" by (rule Params_float)
  then obtain th where th: "(if float_nonpos p then Finite 50 else p) = Finite th" by (cases "float_nonpos p") auto
  obtain l where l: "l \<in> set (ec_LineItems ec)" "discount_match (Finite th) rule l = Some m"
    using assms(1,2) p by (auto simp: LargeDiscountPct_def th in_map_filter)
  then obtain price disc where f: "positive_float (li_UnitPrice l) = Some price" "positive_float (li_UnitDiscount l) = Some disc"
    by (auto simp: discount_match_def split: if_splits option.splits)
  obtain a b where ab: "price = Finite a" "disc = Finite b" using positive_float_finite f assms(3) l(1) by blast
  show ?thesis using l(2) f unfolding discount_match_def ab
    by (auto simp: Let_def simp del: float_div.simps float_mul.simps split: if_splits intro!: strengthFromRatio_bounded percent_ratio_number dest: percent_number [THEN notE])
qed

text \<open>C17: Every detection of a registered rule has a signal strength between 0.0000 and 1.0000, when the prices of
  the lines are numbers.\<close>

theorem signal_strengths_bounded:
  assumes "registerBaseline order zone t = Some ev" "ev rule ec = Inr ms" "m \<in> set ms"
    and "\<forall>l \<in> set (ec_LineItems ec). finite_text (li_UnitPrice l) \<and> finite_text (li_UnitDiscount l)"
  shows "\<exists>n. 0 \<le> n \<and> n \<le> 10000 \<and> md_SignalStrength m = Some (fmt_fixed 4 n)"
proof -
  have "ev \<in> {VoidThreshold, NoSaleFrequency, RefundNoReceipt, ManagerOverrideFrequency order, AfterHoursTransaction zone, LargeDiscountPct, CashDrawerVariance}"
    using assms(1) by (auto simp: registerBaseline_def split: if_splits)
  then have "strong m" using assms(2-4)
    by (auto dest: VoidThreshold_strong NoSaleFrequency_strong RefundNoReceipt_strong ManagerOverrideFrequency_strong AfterHoursTransaction_strong
        CashDrawerVariance_strong LargeDiscountPct_strong)
  then show ?thesis by (auto simp: strong_def strength_text_def)
qed


section \<open>The void rule\<close>

lemma void_loop_exact:
  assumes "\<forall>l \<in> set ls. li_IsVoid l \<longrightarrow> li_LineTotal l = fmt_fixed 4 (100 * amount l) \<and> \<bar>amount l\<bar> < 2 ^ 40"
    and "0 \<le> t" "t + int (length ls) * 2 ^ 40 < 2 ^ 63"
  shows "void_loop ls t n = Inr (t + (\<Sum>l \<leftarrow> filter li_IsVoid ls. \<bar>amount l\<bar>), n + int (length (filter li_IsVoid ls)))"
  using assms
proof (induction ls arbitrary: t n)
  case (Cons l ls)
  show ?case
  proof (cases "li_IsVoid l")
    case True
    have a: "\<bar>amount l\<bar> < 2 ^ 40" "numericStringToCents (li_LineTotal l) = Some (amount l)"
      using Cons.prems(1) True numericStringToCents_exact by auto
    have "(if amount l < 0 then wrap64 (- amount l) else amount l) = \<bar>amount l\<bar>" using a(1) by (simp add: wrap64_id is_int64_def)
    moreover have "wrap64 (t + \<bar>amount l\<bar>) = t + \<bar>amount l\<bar>" using a(1) Cons.prems by (intro wrap64_id) (simp add: is_int64_def)
    ultimately have "void_loop (l # ls) t n = void_loop ls (t + \<bar>amount l\<bar>) (n + 1)" using True a(2) by simp
    also have "\<dots> = Inr (t + \<bar>amount l\<bar> + (\<Sum>l \<leftarrow> filter li_IsVoid ls. \<bar>amount l\<bar>), n + 1 + int (length (filter li_IsVoid ls)))"
      using Cons.prems a(1) by (intro Cons.IH) (auto simp: algebra_simps)
    finally show ?thesis using True by simp
  next
    case False
    then show ?thesis using Cons.prems by (simp add: Cons.IH)
  qed
qed simp

text \<open>On lines whose totals are whole cents the rule for voids is exact: it fires, once, when the voided amounts
  add up to the threshold.\<close>

theorem void_rule_exact:
  fixes amount :: "LineItem \<Rightarrow> int"
  assumes "Params (decode_one ''threshold_cents'' dec_int64 0) 0 rule = Inr p"
    and "\<forall>l \<in> set (ec_LineItems ec). li_IsVoid l \<longrightarrow> li_LineTotal l = fmt_fixed 4 (100 * amount l) \<and> \<bar>amount l\<bar> < 2 ^ 40"
    and "length (ec_LineItems ec) < 2 ^ 20"
  shows "\<exists>ms. VoidThreshold rule ec = Inr ms
    \<and> length ms = (if (if p \<le> 0 then 5000 else p) \<le> (\<Sum>l \<leftarrow> filter li_IsVoid (ec_LineItems ec). \<bar>amount l\<bar>) then 1 else 0)"
proof -
  have "int (length (ec_LineItems ec)) * 2 ^ 40 < 2 ^ 20 * 2 ^ 40" using assms(3) by (intro mult_strict_right_mono) auto
  then have "void_loop (ec_LineItems ec) 0 0 = Inr (\<Sum>l \<leftarrow> filter li_IsVoid (ec_LineItems ec). \<bar>amount l\<bar>, int (length (filter li_IsVoid (ec_LineItems ec))))"
    using void_loop_exact [OF assms(2), of 0 0] by simp
  then show ?thesis using assms(1) by (simp add: VoidThreshold_def Let_def)
qed

text \<open>An amount of half a cent is read as less: 1.005 becomes 100 cents, not 101.\<close>

lemma half_cent_lost: "numericStringToCents ''1.0050'' = Some 100"
proof -
  let ?f = "1131529406376837 / 1125899906842624 :: rat" and ?y = "7072058789855231 / 70368744177664 :: rat" and ?z = "7107243161944063 / 70368744177664 :: rat"
  have "replicate 2 CHR ''0'' = ''00''" by (simp add: numeral_2_eq_2)
  then have t: "''1.0050'' = fmt_fixed 4 10050"
    by (simp add: fmt_fixed_def fmt_pad_def dec_nat.simps digit_char_def char_of_def bit_iff_odd)
  have r: "rnd (10050 / 10 ^ 4) = ?f" "rnd (?f * 100) = ?y" "rnd (?y + 1 / 2) = ?z" by code_simp+
  have m: "(2 :: rat) ^ 60 \<le> 2 ^ 1024" by (intro power_increasing) auto
  have big: "x < 2 ^ 1024" if "x < 2 ^ 60" for x :: rat using that m by (rule less_le_trans)
  have p: "ParseFloat (fmt_fixed 4 10050) = (Finite ?f, None)"
    using ParseFloat_fixed [of 4 10050] big [of ?f] r(1) by simp
  have "float_of (?f * 100) = Finite ?y" "float_of (?y + 1 / 2) = Finite ?z"
    unfolding float_of_def r(2,3) using big [of ?y] big [of ?z] by simp_all
  then have "float_add (float_mul (Finite ?f) (Finite 100)) (Finite (1 / 2)) = Finite ?z" by (simp only: float_mul.simps float_add.simps)
  moreover have "float_to_int64 ?z = 100" by code_simp
  ultimately show ?thesis using p unfolding t numericStringToCents_def by (simp add: fmt_fixed_ne)
qed

text \<open>A price that is NaN, which a numeric column may hold, gives a strength that is no number.\<close>

lemma nan_strength: "strengthFromRatio NotANumber = ''NaN''"
  by (simp add: strengthFromRatio_def)


section \<open>A sample rule\<close>

definition toy_rule :: DetectionRule where
  "toy_rule = \<lparr>dr_ID = 5, dr_TenantID = 1, dr_RuleCode = ''R1'', dr_Name = ''n'', dr_Description = None, dr_RuleCategory = ''fraud'',
     dr_RuleDefinition = Some (DObj []), dr_Severity = ''high'', dr_Status = ''active'', dr_EvaluationFrequency = ''on_event'',
     dr_Attributes = RawText ''{}'', dr_CreatedAt = 0, dr_UpdatedAt = 0\<rparr>"

definition toy_return :: Transaction where
  "toy_return = \<lparr>tx_ID = 7, tx_TenantID = 1, tx_TransactionNumber = ''t'', tx_TransactionType = ''return'', tx_ParentTransactionID = None,
     tx_LocationID = 3, tx_POSTerminalID = None, tx_CashierEmployeeID = Some 4, tx_CustomerID = None, tx_LoyaltyMembershipID = None,
     tx_BusinessDate = 0, tx_StartedAt = 0, tx_EndedAt = 0, tx_Status = ''completed'', tx_TicketNumber = None, tx_ItemCount = 0,
     tx_Subtotal = ''0'', tx_TaxTotal = ''0'', tx_DiscountTotal = ''0'', tx_GrandTotal = ''0'', tx_Currency = ''USD'', tx_Channel = ''pos'',
     tx_POSSoftwareVersion = None, tx_IsTrainingMode = False, tx_IsOffline = False, tx_IsReentered = False, tx_IsSuspended = False,
     tx_VoidReason = None, tx_Attributes = RawText ''{}'', tx_ExternalIDs = RawText ''{}''\<rparr>"

definition toy_void :: LineItem where
  "toy_void = \<lparr>li_ID = 8, li_TenantID = 1, li_TransactionID = 7, li_LineNumber = 1, li_ItemID = None, li_BarcodeScanned = None,
     li_Description = ''d'', li_Quantity = ''1'', li_UnitOfMeasure = ''each'', li_UnitPrice = ''60'', li_ListPrice = None, li_UnitDiscount = ''0'',
     li_UnitTax = ''0'', li_CostBasis = None, li_CategoryID = None, li_ZoneID = None, li_LotID = None, li_InventoryMovementID = None,
     li_IsVoid = True, li_VoidReason = None, li_IsReturn = False, li_ReturnReason = None, li_IsWeighable = False, li_IsFoodStampEligible = False,
     li_Attributes = RawText ''{}'', li_ExtendedPrice = ''60'', li_ExtendedTax = ''0'', li_LineTotal = fmt_fixed 4 (- 600000),
     li_Margin = ''0'', li_CreatedAt = 0\<rparr>"

definition toy_context :: "LineItem list \<Rightarrow> EvalContext" where
  "toy_context lines = \<lparr>ec_TenantID = 1, ec_Transaction = toy_return, ec_LineItems = lines, ec_Discounts = [], ec_CashierActions = [],
     ec_DrawerEvents = [], ec_OperatingHours = None, ec_Timezone = []\<rparr>"

lemma toy_params: "Params dec x toy_rule = Inr x"
  by (simp add: Params_def envelope_def toy_rule_def field_docs_def)

text \<open>A voided line of sixty dollars is over the default of fifty.\<close>

theorem void_rule_exact_witness: "\<exists>m. VoidThreshold toy_rule (toy_context [toy_void]) = Inr [m]"
  using void_rule_exact [OF toy_params, of "toy_context [toy_void]" "\<lambda>l. - 6000"]
  by (auto simp: toy_context_def toy_void_def length_Suc_conv)

theorem signal_strengths_bounded_witness:
  "\<exists>m n. RefundNoReceipt toy_rule (toy_context []) = Inr [m] \<and> 0 \<le> n \<and> n \<le> 10000 \<and> md_SignalStrength m = Some (fmt_fixed 4 n)"
proof -
  obtain m where m: "RefundNoReceipt toy_rule (toy_context []) = Inr [m]" by (simp add: RefundNoReceipt_def toy_context_def toy_return_def)
  have "registerBaseline (\<lambda>xs. xs) (\<lambda>_. None) ''refund_no_receipt'' = Some RefundNoReceipt" by (simp add: registerBaseline_def)
  from signal_strengths_bounded [OF this m, of m] m show ?thesis by (auto simp: toy_context_def)
qed

theorem numericStringToCents_exact_witness: "numericStringToCents (fmt_fixed 4 (100 * (- 6000))) = Some (- 6000)"
  by (rule numericStringToCents_exact) simp

end
