(* ===== verification/ChirpLaws.thy ===== *)
theory ChirpLaws
  imports Chirp RuleLaws
begin

text \<open>
  What the engine records: the matches of a tenant's rules, each once and whatever the other rules do, and nothing of
  another tenant.
\<close>

section \<open>The matches of a transaction\<close>

text \<open>Every match of the rules with its rule; a rule that fails to evaluate has none.\<close>

definition rule_matches :: "engine \<Rightarrow> EvalContext \<Rightarrow> DetectionRule \<Rightarrow> (DetectionRule \<times> MatchedDetection) list" where
  "rule_matches eng ec r = (case evaluateOne eng r ec of Inl _ \<Rightarrow> [] | Inr ms \<Rightarrow> map (Pair r) ms)"

definition all_matches :: "engine \<Rightarrow> EvalContext \<Rightarrow> DetectionRule list \<Rightarrow> (DetectionRule \<times> MatchedDetection) list" where
  "all_matches eng ec rules = concat (map (rule_matches eng ec) rules)"

text \<open>The detection of the \<open>n\<close>-th match as it is returned, and as it is stored.\<close>

definition recorded :: "engine \<Rightarrow> chirp_env \<Rightarrow> EvalContext \<Rightarrow> chirp_db \<Rightarrow> nat \<times> DetectionRule \<times> MatchedDetection \<Rightarrow> DetectionRow" where
  "recorded eng env ec db p = (case p of (n, r, m) \<Rightarrow>
     (detection_for eng env n r ec m db)\<lparr>dw_ID := che_new env n, dw_CreatedAt := che_db_now env\<rparr>)"

definition stored :: "DetectionRow \<Rightarrow> DetectionRow" where
  "stored d = d\<lparr>dw_DetectedAt := trunc_us (dw_DetectedAt d)\<rparr>"

text \<open>The matches from number \<open>n\<close> on whose insert does not fail.\<close>

definition inserts :: "engine \<Rightarrow> chirp_env \<Rightarrow> EvalContext \<Rightarrow> chirp_db \<Rightarrow> nat \<Rightarrow> (DetectionRule \<times> MatchedDetection) list \<Rightarrow> DetectionRow list" where
  "inserts eng env ec db n ps = map (recorded eng env ec db) (filter (\<lambda>p. \<not> che_fails env InsertDetectionCall (fst p)) (enumerate n ps))"

lemma inserts_simps [simp]:
  "inserts eng env ec db n [] = []"
  "inserts eng env ec db n (p # ps) =
     (if che_fails env InsertDetectionCall n then [] else [recorded eng env ec db (n, p)]) @ inserts eng env ec db (Suc n) ps"
  by (simp_all add: inserts_def)

lemma inserts_append: "inserts eng env ec db n (ps @ qs) = inserts eng env ec db n ps @ inserts eng env ec db (n + length ps) qs"
  by (induction ps arbitrary: n) simp_all

text \<open>The first identifiers the database draws are new.\<close>

definition fresh_ids :: "chirp_env \<Rightarrow> nat \<Rightarrow> chirp_db \<Rightarrow> bool" where
  "fresh_ids env k db \<longleftrightarrow> inj_on (che_new env) {..<k} \<and> (\<forall>n < k. che_new env n \<notin> dw_ID ` set (chd_detections db))"

definition grown :: "chirp_db \<Rightarrow> DetectionRow list \<Rightarrow> chirp_db" where
  "grown db ds = db\<lparr>chd_detections := chd_detections db @ map stored ds\<rparr>"

lemma grown_simps [simp]:
  "grown db [] = db" "grown (grown db ds) es = grown db (ds @ es)" "chd_allow (grown db ds) = chd_allow db"
  "chd_detections (grown db ds) = chd_detections db @ map stored ds" "chd_rules (grown db ds) = chd_rules db"
  "chd_transactions (grown db ds) = chd_transactions db"
  by (simp_all add: grown_def)

lemma detection_for_grown [simp]: "detection_for eng env n r ec m (grown db ds) = detection_for eng env n r ec m db"
  by (simp add: detection_for_def CheckSuppression_def)

lemma recorded_grown [simp]: "recorded eng env ec (grown db ds) = recorded eng env ec db"
  by (simp add: recorded_def fun_eq_iff)

lemma inserts_grown [simp]: "inserts eng env ec (grown db ds) n ps = inserts eng env ec db n ps"
  by (simp add: inserts_def)

text \<open>The rows since the start have numbers below the current one.\<close>

definition rows_below :: "chirp_env \<Rightarrow> nat \<Rightarrow> DetectionRow list \<Rightarrow> bool" where
  "rows_below env n ds \<longleftrightarrow> dw_ID ` set ds \<subseteq> che_new env ` {..<n}"

lemma InsertDetection_fresh:
  assumes "fresh_ids env k db" "n < k" "rows_below env n ds"
  shows "InsertDetection env n (detection_for eng env n r ec m db) (grown db ds) =
    (if che_fails env InsertDetectionCall n then (Inl (ChirpFailed InsertDetectionCall), grown db ds)
     else (Inr (recorded eng env ec db (n, r, m)), grown db (ds @ [recorded eng env ec db (n, r, m)])))"
proof -
  have "dw_ID d \<noteq> che_new env n" if "d \<in> set (chd_detections (grown db ds))" for d
  proof -
    have "dw_ID d \<in> dw_ID ` set (chd_detections db) \<or> dw_ID d \<in> dw_ID ` set ds" using that by (auto simp: stored_def)
    moreover have "che_new env n \<notin> che_new env ` {..<n}"
    proof
      assume "che_new env n \<in> che_new env ` {..<n}"
      then obtain j where "j < n" "che_new env n = che_new env j" by auto
      then show False using assms(1,2) inj_onD [of "che_new env" "{..<k}" n j] by (auto simp: fresh_ids_def)
    qed
    ultimately show ?thesis using assms unfolding fresh_ids_def rows_below_def by (metis subsetD)
  qed
  then show ?thesis by (auto simp: InsertDetection_def list_ex_iff recorded_def Let_def grown_def stored_def)
qed

lemma rows_below_step:
  "rows_below env n ds \<Longrightarrow> rows_below env (Suc n) (ds @ (if b then [] else [recorded eng env ec db (n, p)]))"
  by (auto simp: rows_below_def recorded_def lessThan_Suc split: prod.split)

lemma insert_matches_run:
  assumes "fresh_ids env k db" "n + length ms \<le> k" "rows_below env n ds"
  shows "insert_matches eng env r ec ms n acc (grown db ds) =
      (n + length ms, acc @ inserts eng env ec db n (map (Pair r) ms), grown db (ds @ inserts eng env ec db n (map (Pair r) ms)))
    \<and> rows_below env (n + length ms) (ds @ inserts eng env ec db n (map (Pair r) ms))"
  using assms(2,3)
proof (induction ms arbitrary: n acc ds)
  case (Cons m ms)
  let ?new = "if che_fails env InsertDetectionCall n then [] else [recorded eng env ec db (n, r, m)]"
  have "rows_below env (Suc n) (ds @ ?new)" using rows_below_step [OF Cons.prems(2)] .
  moreover have "n < k" "Suc n + length ms \<le> k" using Cons.prems(1) by simp_all
  ultimately show ?case using Cons.IH [of "Suc n" "ds @ ?new" "acc @ ?new"]
    by (simp add: InsertDetection_fresh [OF assms(1) _ Cons.prems(2)] split: if_splits)
qed simp

lemma run_rules_run:
  assumes "fresh_ids env k db" "n + length (all_matches eng ec rs) \<le> k" "rows_below env n ds"
  shows "run_rules eng env ec rs n acc (grown db ds) =
    (acc @ inserts eng env ec db n (all_matches eng ec rs), grown db (ds @ inserts eng env ec db n (all_matches eng ec rs)))"
  using assms(2,3)
proof (induction rs arbitrary: n acc ds)
  case (Cons r rs)
  show ?case
  proof (cases "evaluateOne eng r ec")
    case (Inl e)
    then show ?thesis using Cons by (simp add: all_matches_def rule_matches_def)
  next
    case (Inr ms)
    have "n + length ms \<le> k" "n + length ms + length (all_matches eng ec rs) \<le> k"
      using Cons.prems(1) Inr by (simp_all add: all_matches_def rule_matches_def)
    with insert_matches_run [OF assms(1) _ Cons.prems(2), of ms eng r ec acc] Cons.IH
    show ?thesis using Inr by (simp add: all_matches_def rule_matches_def inserts_append)
  qed
qed (simp add: all_matches_def)

text \<open>The rules of a tenant for events, and the detections of all matches on a transaction, numbered.\<close>

definition event_rules :: "uuid \<Rightarrow> chirp_db \<Rightarrow> DetectionRule list" where
  "event_rules tn db = sort_key dr_RuleCode
     (filter (\<lambda>r. dr_TenantID r = tn \<and> dr_Status r = ''active'' \<and> dr_EvaluationFrequency r = ''on_event'') (chd_rules db))"

definition expected :: "engine \<Rightarrow> chirp_env \<Rightarrow> uuid \<Rightarrow> chirp_db \<Rightarrow> DetectionRow list" where
  "expected eng env i db =
     (case List.find (\<lambda>t. tx_ID t = i) (chd_transactions db) of
        None \<Rightarrow> []
      | Some tx \<Rightarrow> (case LoadEvalContext env tx db of
            Inl _ \<Rightarrow> []
          | Inr ec \<Rightarrow> map (recorded eng env ec db) (enumerate 0 (all_matches eng ec (event_rules (tx_TenantID tx) db)))))"

lemma recorded_fresh:
  fixes ps :: "(DetectionRule \<times> MatchedDetection) list"
  assumes "ds = map (recorded eng env ec db) (enumerate 0 ps)" "distinct (map dw_ID ds)" "dw_ID ` set ds \<inter> dw_ID ` set (chd_detections db) = {}"
  shows "fresh_ids env (length ps) db"
proof -
  have "map dw_ID ds = map (che_new env) [0..<length ps]"
    by (rule nth_equalityI) (simp_all add: assms(1) recorded_def nth_enumerate_eq split: prod.split)
  then have ids: "distinct (map (che_new env) [0..<length ps])" "set (map dw_ID ds) = che_new env ` {..<length ps}"
    using assms(2) by (auto simp: atLeast0LessThan)
  then show ?thesis using assms(3) by (auto simp: fresh_ids_def distinct_map atLeast0LessThan)
qed

lemma inserts_filter:
  "inserts eng env ec db 0 ps = map snd (filter (\<lambda>p. \<not> che_fails env InsertDetectionCall (fst p)) (enumerate 0 (map (recorded eng env ec db) (enumerate 0 ps))))"
proof -
  have "inserts eng env ec db k ps = map snd (filter (\<lambda>p. \<not> che_fails env InsertDetectionCall (fst p)) (enumerate k (map (recorded eng env ec db) (enumerate k ps))))" for k
    by (induction ps arbitrary: k) simp_all
  then show ?thesis .
qed

text \<open>C14: Evaluating a transaction records exactly the matches of the active rules of its tenant for events, in the
  order of their codes and each once; a rule that cannot be evaluated and an insert that fails take away their own
  detections and no others.\<close>

theorem evaluation_records_matches:
  assumes "EvaluateTransaction eng env tn i db = (Inr ds, db')"
    and "distinct (map dw_ID (expected eng env i db))" "dw_ID ` set (expected eng env i db) \<inter> dw_ID ` set (chd_detections db) = {}"
  shows "ds = map snd (filter (\<lambda>p. \<not> che_fails env InsertDetectionCall (fst p)) (enumerate 0 (expected eng env i db)))
    \<and> db' = db\<lparr>chd_detections := chd_detections db @ map stored ds\<rparr>"
proof -
  obtain tx where tx: "List.find (\<lambda>t. tx_ID t = i) (chd_transactions db) = Some tx" "\<not> (tn \<noteq> uuid_nil \<and> tx_TenantID tx \<noteq> tn)"
      "\<not> che_fails env LoadTransactionCall 0"
    using assms(1) by (auto simp: EvaluateTransaction_def LoadTransaction_def split: if_splits option.splits)
  have rules: "LoadRules env (tx_TenantID tx) ''on_event'' db = Inr (event_rules (tx_TenantID tx) db)"
    using assms(1) tx by (auto simp: EvaluateTransaction_def LoadTransaction_def LoadRules_def event_rules_def split: if_splits)
  have "ds = map snd (filter (\<lambda>p. \<not> che_fails env InsertDetectionCall (fst p)) (enumerate 0 (expected eng env i db))) \<and> db' = grown db ds"
  proof (cases "event_rules (tx_TenantID tx) db = []")
    case True
    then have "ds = []" "db' = db" using assms(1) tx rules by (auto simp: EvaluateTransaction_def LoadTransaction_def)
    moreover have "expected eng env i db = []" using tx(1) True by (simp add: expected_def all_matches_def split: sum.split)
    ultimately show ?thesis by simp
  next
    case False
    then obtain ec where ec: "LoadEvalContext env tx db = Inr ec"
      using assms(1) tx rules by (auto simp: EvaluateTransaction_def LoadTransaction_def split: sum.splits)
    let ?ps = "all_matches eng ec (event_rules (tx_TenantID tx) db)"
    have x: "expected eng env i db = map (recorded eng env ec db) (enumerate 0 ?ps)" using tx(1) ec by (simp add: expected_def)
    have "run_rules eng env ec (event_rules (tx_TenantID tx) db) 0 [] db = (inserts eng env ec db 0 ?ps, grown db (inserts eng env ec db 0 ?ps))"
      using run_rules_run [OF recorded_fresh [OF x assms(2,3)], of 0 eng ec _ "[]" "[]"] by (simp add: rows_below_def)
    then show ?thesis using assms(1) tx rules ec False unfolding x inserts_filter [symmetric]
      by (auto simp: EvaluateTransaction_def LoadTransaction_def)
  qed
  then show ?thesis by (simp add: grown_def)
qed

section \<open>Tenants\<close>

text \<open>A detection of a tenant: by a rule of it that is active for events, of a transaction of it.\<close>

definition scoped :: "uuid \<Rightarrow> chirp_db \<Rightarrow> DetectionRow \<Rightarrow> bool" where
  "scoped tn db d \<longleftrightarrow> dw_TenantID d = tn
     \<and> (\<exists>r \<in> set (chd_rules db). dr_ID r = dw_RuleID d \<and> dr_TenantID r = tn \<and> dr_Status r = ''active'' \<and> dr_EvaluationFrequency r = ''on_event'')
     \<and> (\<exists>t \<in> set (chd_transactions db). tx_ID t = dw_SourceEntityID d \<and> tx_TenantID t = tn)"

definition extends :: "uuid \<Rightarrow> chirp_db \<Rightarrow> chirp_db \<Rightarrow> bool" where
  "extends tn db db' \<longleftrightarrow> (\<exists>added. db' = db\<lparr>chd_detections := chd_detections db @ added\<rparr> \<and> (\<forall>d \<in> set added. scoped tn db d))"

lemma extends_refl [simp]: "extends tn db db"
  unfolding extends_def by (rule exI [of _ "[]"]) simp

lemma extends_trans: "extends tn db db1 \<Longrightarrow> extends tn db1 db2 \<Longrightarrow> extends tn db db2"
  unfolding extends_def by (elim exE conjE) (rule exI, rule conjI, simp, auto simp: scoped_def)

lemma extends_tables: "extends tn db db' \<Longrightarrow> chd_rules db' = chd_rules db \<and> chd_transactions db' = chd_transactions db"
  by (auto simp: extends_def)

lemma InsertDetection_extends:
  assumes "scoped tn db d" shows "extends tn db (snd (InsertDetection env n d db))"
proof -
  have "scoped tn db (d\<lparr>dw_ID := i, dw_CreatedAt := c, dw_DetectedAt := t\<rparr>)" for i c t using assms by (simp add: scoped_def)
  then show ?thesis unfolding InsertDetection_def extends_def Let_def by (auto intro: exI [of _ "[]"])
qed

lemma detection_for_fields:
  "dw_TenantID (detection_for eng env n r ec m db) = dr_TenantID r" "dw_RuleID (detection_for eng env n r ec m db) = dr_ID r"
  "dw_SourceEntityID (detection_for eng env n r ec m db) = tx_ID (ec_Transaction ec)"
  by (simp_all add: detection_for_def buildDetection_def Let_def split: sum.split option.split)

text \<open>A context of one of the tenant's transactions.\<close>

definition context_of :: "uuid \<Rightarrow> chirp_db \<Rightarrow> EvalContext \<Rightarrow> bool" where
  "context_of tn db ec \<longleftrightarrow> (\<exists>t \<in> set (chd_transactions db). tx_ID t = tx_ID (ec_Transaction ec) \<and> tx_TenantID t = tn)"

definition event_rule :: "uuid \<Rightarrow> chirp_db \<Rightarrow> DetectionRule \<Rightarrow> bool" where
  "event_rule tn db r \<longleftrightarrow> r \<in> set (chd_rules db) \<and> dr_TenantID r = tn \<and> dr_Status r = ''active'' \<and> dr_EvaluationFrequency r = ''on_event''"

lemma insert_matches_extends:
  assumes "event_rule tn db r" "context_of tn db ec"
  shows "extends tn db (snd (snd (insert_matches eng env r ec ms n acc db)))"
  using assms
proof (induction ms arbitrary: n acc db)
  case (Cons m ms)
  let ?db = "snd (InsertDetection env n (detection_for eng env n r ec m db) db)"
  have s: "scoped tn db (detection_for eng env n r ec m db)"
    using Cons.prems by (auto simp: scoped_def detection_for_fields event_rule_def context_of_def)
  note e = InsertDetection_extends [OF s, of env n]
  have "event_rule tn ?db r" "context_of tn ?db ec" using Cons.prems extends_tables [OF e] by (simp_all add: event_rule_def context_of_def)
  from extends_trans [OF e Cons.IH [OF this]] show ?case
    by (cases "InsertDetection env n (detection_for eng env n r ec m db) db"; cases "fst (InsertDetection env n (detection_for eng env n r ec m db) db)") simp_all
qed simp

lemma run_rules_extends:
  assumes "\<forall>r \<in> set rs. event_rule tn db r" "context_of tn db ec"
  shows "extends tn db (snd (run_rules eng env ec rs n acc db))"
  using assms
proof (induction rs arbitrary: n acc db)
  case (Cons r rs)
  show ?case
  proof (cases "evaluateOne eng r ec")
    case (Inr ms)
    obtain n' acc' db' where i: "insert_matches eng env r ec ms n acc db = (n', acc', db')" using prod_cases3 by blast
    have e: "extends tn db db'" using insert_matches_extends [of tn db r ec eng env ms n acc] Cons.prems i by simp
    then have "\<forall>r \<in> set rs. event_rule tn db' r" "context_of tn db' ec"
      using Cons.prems extends_tables [OF e] by (simp_all add: event_rule_def context_of_def)
    from extends_trans [OF e Cons.IH [OF this]] show ?thesis using Inr i by simp
  qed (use Cons in simp)
qed simp

lemma LoadEvalContext_transaction:
  "LoadEvalContext env tx db = Inr ec \<Longrightarrow> tx_ID (ec_Transaction ec) = tx_ID tx"
  by (auto simp: LoadEvalContext_def Let_def Transaction.truncate_def split: sum.splits)

lemma EvaluateTransaction_extends:
  assumes "\<And>tx. List.find (\<lambda>t. tx_ID t = i) (chd_transactions db) = Some tx \<Longrightarrow> claimed = uuid_nil \<Longrightarrow> tx_TenantID tx = tn"
    and "claimed \<noteq> uuid_nil \<Longrightarrow> claimed = tn"
  shows "extends tn db (snd (EvaluateTransaction eng env claimed i db))"
proof (cases "snd (EvaluateTransaction eng env claimed i db) = db")
  case False
  then obtain tx rules ec where t: "List.find (\<lambda>t. tx_ID t = i) (chd_transactions db) = Some tx" "\<not> (claimed \<noteq> uuid_nil \<and> tx_TenantID tx \<noteq> claimed)"
      "LoadRules env (tx_TenantID tx) ''on_event'' db = Inr rules" "LoadEvalContext env tx db = Inr ec"
      "snd (EvaluateTransaction eng env claimed i db) = snd (run_rules eng env ec rules 0 [] db)"
    unfolding EvaluateTransaction_def LoadTransaction_def by (auto split: if_splits option.splits sum.splits prod.splits)
  have tn: "tx_TenantID tx = tn" using assms t(1,2) by blast
  have "\<forall>r \<in> set rules. event_rule tn db r" using t(3) tn by (auto simp: LoadRules_def event_rule_def split: if_splits)
  moreover have "tx \<in> set (chd_transactions db)" using t(1) by (auto simp: find_Some_iff)
  then have "context_of tn db ec" using tn LoadEvalContext_transaction [OF t(4)] unfolding context_of_def by auto
  ultimately show ?thesis unfolding t(5) by (rule run_rules_extends)
qed simp


lemma evaluate_all_extends:
  assumes "\<forall>i \<in> set ids. \<exists>t \<in> set (chd_transactions db). tx_ID t = i \<and> tx_TenantID t = tn" "distinct (map tx_ID (chd_transactions db))"
  shows "extends tn db (snd (evaluate_all eng envs k ids n db))"
  using assms
proof (induction ids arbitrary: k n db)
  case (Cons i ids)
  obtain t where t: "t \<in> set (chd_transactions db)" "tx_ID t = i" "tx_TenantID t = tn" using Cons.prems(1) by auto
  have "tx = t" if "List.find (\<lambda>t. tx_ID t = i) (chd_transactions db) = Some tx" for tx
    using that t Cons.prems(2) by (auto simp: find_Some_iff distinct_map inj_on_def)
  then have e: "extends tn db (snd (EvaluateTransaction eng (envs k) uuid_nil i db))" using t(3) by (intro EvaluateTransaction_extends) auto
  let ?db = "snd (EvaluateTransaction eng (envs k) uuid_nil i db)"
  have "extends tn ?db (snd (evaluate_all eng envs (Suc k) ids n' ?db))" for n'
    using Cons.IH [of ?db] Cons.prems extends_tables [OF e] by simp
  then show ?case using extends_trans [OF e]
    by (cases "EvaluateTransaction eng (envs k) uuid_nil i db"; cases "fst (EvaluateTransaction eng (envs k) uuid_nil i db)") auto
qed simp

lemma EvaluateBatch_engine_extends:
  assumes "distinct (map tx_ID (chd_transactions db))" shows "extends tn db (snd (EvaluateBatch_engine eng envs tn since db))"
proof (cases "ListTransactionsSince (envs 0) tn since db")
  case (Inr ids)
  then have "\<forall>i \<in> set ids. \<exists>t \<in> set (chd_transactions db). tx_ID t = i \<and> tx_TenantID t = tn"
    by (auto simp: ListTransactionsSince_def query_def split: if_splits)
  from evaluate_all_extends [OF this assms, of eng envs 1 0] show ?thesis
    using Inr by (cases "evaluate_all eng envs 1 ids 0 db") (simp add: EvaluateBatch_engine_def)
qed (simp add: EvaluateBatch_engine_def)

definition reply_of :: "uuid \<Rightarrow> chirp_reply \<Rightarrow> bool" where
  "reply_of tn r = (case r of RuleList t rs \<Rightarrow> t = tn \<and> (\<forall>x \<in> set rs. dr_TenantID x = tn)
     | DetectionList t ds \<Rightarrow> t = tn \<and> (\<forall>d \<in> set ds. dw_TenantID d = tn) | BatchDone b \<Rightarrow> br_TenantID b = tn | _ \<Rightarrow> True)"

lemma ListDetections_tenant: "ListDetections env q db = Inr ds \<Longrightarrow> d \<in> set ds \<Longrightarrow> dw_TenantID d = dqy_TenantID q"
  by (auto simp: ListDetections_def query_def Let_def split: if_splits dest!: in_set_takeD in_set_dropD)

lemma chirp_serve_reply:
  assumes "chirp_tenant claim = Inr tn" shows "reply_of tn (fst (chirp_serve parse eng (envs, claim, req) db))"
proof (cases req)
  case (PostEvaluate body)
  then show ?thesis using assms
    by (auto simp: Evaluate_def reply_of_def split: req_body.split option.split prod.split sum.split chirp_error.split)
next
  case (PostEvaluateBatch body)
  have "br_TenantID b = tn" if "EvaluateBatch_engine eng envs tn t db = (Inr b, db')" for t b db'
    using that by (auto simp: EvaluateBatch_engine_def split: sum.splits prod.splits)
  then show ?thesis using assms PostEvaluateBatch
    by (auto simp: EvaluateBatch_def reply_of_def Let_def split: req_body.split option.split prod.split sum.split stamp_arg.split)
next
  case GetRules
  then show ?thesis using assms by (auto simp: ListRules_handler_def ListRules_def reply_of_def split: sum.split if_splits)
next
  case (GetDetections t1 t2 limit offset)
  then show ?thesis using assms ListDetections_tenant
    by (auto simp: ListDetections_handler_def reply_of_def split: sum.split)
qed



section \<open>Suppression\<close>

lemma first_some_iff: "first_some f xs = Some y \<Longrightarrow> \<exists>x \<in> set xs. f x = Some y"
  by (induction xs) (auto split: option.splits)

lemma first_some_None: "first_some f xs = None \<longleftrightarrow> (\<forall>x \<in> set xs. f x = None)"
  by (induction xs) (auto split: option.split)

text \<open>A detection is dismissed exactly when an entry for its rule that is in force, among the newest two hundred,
  matches it.\<close>

theorem dismissed_exactly_when_listed:
  assumes "eng_allowList eng" "\<not> che_fails env ListByRuleCall n"
  shows "dw_Status (detection_for eng env n r ec m db) = (if \<exists>e \<in> set (newest_first 200 (filter (\<lambda>e. al_TenantID e = dr_TenantID r
      \<and> al_RuleID e = Some (dr_ID r) \<and> in_force (che_db_now env) e) (chd_allow db))). suppresses (eng_uuid_str eng) m e \<noteq> None
    then ''dismissed'' else ''new'')"
proof -
  let ?rows = "newest_first 200 (filter (\<lambda>e. al_TenantID e = dr_TenantID r \<and> al_RuleID e = Some (dr_ID r) \<and> in_force (che_db_now env) e) (chd_allow db))"
  have c: "CheckSuppression eng env n r m db = Inr (first_some (suppresses (eng_uuid_str eng) m) ?rows)"
    using assms by (simp add: CheckSuppression_def ListByRuleID_def allow_env_of_def)
  have e: "(\<exists>e \<in> set ?rows. suppresses (eng_uuid_str eng) m e \<noteq> None) = (first_some (suppresses (eng_uuid_str eng) m) ?rows \<noteq> None)"
    unfolding first_some_None by simp
  show ?thesis unfolding e detection_for_def c
    by (cases "first_some (suppresses (eng_uuid_str eng) m) ?rows") (simp_all add: buildDetection_def Let_def)
qed

text \<open>No registered evaluator puts a reason code into its evidence.\<close>

definition quiet :: "MatchedDetection \<Rightarrow> bool" where
  "quiet m \<longleftrightarrow> evidenceReasonCode (md_Evidence m) = []"

lemma quiet_plain [simp]:
  "''reason_code'' \<notin> fst ` set ev \<Longrightarrow> quiet (plain_match rule s ev)" "quiet (m\<lparr>md_CashierEmployeeID := c\<rparr>) = quiet m"
proof -
  assume "''reason_code'' \<notin> fst ` set ev"
  then have "map_of (rev ev) ''reason_code'' = None" by (simp add: map_of_eq_None_iff)
  then show "quiet (plain_match rule s ev)" by (simp add: quiet_def evidenceReasonCode_def marshal_def)
qed (simp add: quiet_def)

lemma baseline_quiet:
  assumes "registerBaseline order zone t = Some ev" "ev rule ec = Inr ms" "m \<in> set ms" shows "quiet m"
proof -
  have d: "quiet m" if "drawer_match th rule e = Some m" for th e
    using that by (auto simp: drawer_match_def split: option.splits if_splits)
  have l: "quiet m" if "discount_match th rule l = Some m" for th l
    using that by (auto simp: discount_match_def Let_def split: option.splits if_splits)
  have "ev \<in> {VoidThreshold, NoSaleFrequency, RefundNoReceipt, ManagerOverrideFrequency order, AfterHoursTransaction zone, LargeDiscountPct, CashDrawerVariance}"
    using assms(1) by (auto simp: registerBaseline_def split: if_splits)
  then show ?thesis
  proof (elim insertE emptyE)
    assume "ev = VoidThreshold" then show ?thesis using assms(2,3) by (auto simp: VoidThreshold_def Let_def split: sum.splits prod.splits if_splits)
  next
    assume "ev = NoSaleFrequency" then show ?thesis using assms(2,3) by (auto simp: NoSaleFrequency_def Let_def split: sum.splits prod.splits if_splits)
  next
    assume "ev = RefundNoReceipt" then show ?thesis using assms(2,3) by (auto simp: RefundNoReceipt_def Let_def split: if_splits)
  next
    assume "ev = ManagerOverrideFrequency order" then show ?thesis using assms(2,3) by (auto simp: ManagerOverrideFrequency_def Let_def split: sum.splits prod.splits)
  next
    assume "ev = AfterHoursTransaction zone" then show ?thesis using assms(2,3)
      by (auto simp: AfterHoursTransaction_def Let_def matchedAfterHours_def split: sum.splits option.splits if_splits)
  next
    assume "ev = LargeDiscountPct" then show ?thesis using assms(2,3) l by (auto simp: LargeDiscountPct_def in_map_filter split: sum.splits)
  next
    assume "ev = CashDrawerVariance" then show ?thesis using assms(2,3) d by (auto simp: CashDrawerVariance_def in_map_filter split: sum.splits)
  qed
qed


text \<open>Two of the nine evaluators are not registered, so their rules never match.\<close>

lemma unregistered_rules_silent:
  assumes "eng_registry eng = registerBaseline order zone" "RuleType r = Inr ''sweetheart_deal'' \<or> RuleType r = Inr ''markdown_abuse''"
  shows "evaluateOne eng r ec = Inr []"
  using assms by (auto simp: evaluateOne_def registerBaseline_def)


section \<open>A sample service\<close>

definition toy_engine :: engine where
  "toy_engine = \<lparr>eng_registry = registerBaseline (\<lambda>xs. xs) (\<lambda>_. None), eng_allowList = True, eng_uuid_str = (\<lambda>u. dec_nat (unat u))\<rparr>"

definition toy_chirp_env :: chirp_env where
  "toy_chirp_env = \<lparr>che_now = 5500, che_db_now = 6000, che_fails = (\<lambda>c n. False), che_new = (\<lambda>n. word_of_nat n)\<rparr>"

definition toy_stored :: StoredTransaction where
  "toy_stored = Transaction.extend toy_return \<lparr>tx_CreatedAt = 10\<rparr>"

definition toy_entry :: AllowListRow where
  "toy_entry = \<lparr>al_ID = 60, al_TenantID = 1, al_RuleID = Some 5, al_Pattern = Some (JObj [(''kind'', JStr ''dead_count''), (''cashier_id'', JStr ''4'')]),
     al_Reason = None, al_ExpiresAt = None, al_CreatedAt = 0, al_CreatedBy = None, al_UpdatedAt = 0, al_UpdatedBy = None\<rparr>"

definition toy_chirp :: chirp_db where
  "toy_chirp = \<lparr>chd_rules = [toy_rule], chd_transactions = [toy_stored], chd_lines = [], chd_discounts = [], chd_actions = [], chd_drawers = [],
     chd_locations = [], chd_allow = [toy_entry], chd_detections = []\<rparr>"

theorem dismissed_exactly_when_listed_witness:
  "dw_Status (detection_for toy_engine toy_chirp_env 0 toy_rule (toy_context []) ((plain_match toy_rule ''0.5000'' [])\<lparr>md_CashierEmployeeID := Some 4\<rparr>) toy_chirp)
     = ''dismissed''"
proof -
  let ?m = "(plain_match toy_rule ''0.5000'' [])\<lparr>md_CashierEmployeeID := Some 4\<rparr>"
  have d: "dec_nat 4 = ''4''" by (simp add: dec_nat.simps digit_char_def char_of_def bit_iff_odd)
  have "toy_entry \<in> set (newest_first 200 (filter (\<lambda>e. al_TenantID e = dr_TenantID toy_rule \<and> al_RuleID e = Some (dr_ID toy_rule) \<and> in_force (che_db_now toy_chirp_env) e) (chd_allow toy_chirp)))"
    by (simp add: toy_chirp_def toy_entry_def toy_rule_def in_force_def newest_first_def capped_def sort_desc_def)
  moreover have "suppresses (eng_uuid_str toy_engine) ?m toy_entry \<noteq> None"
    by (simp add: suppresses_def toy_entry_def toy_engine_def matchesPattern_def map_string_def unmarshal_map_def d plain_match_def)
  ultimately show ?thesis
    using dismissed_exactly_when_listed [of toy_engine toy_chirp_env 0 toy_rule "toy_context []" ?m toy_chirp]
    by (auto simp: toy_engine_def toy_chirp_env_def)
qed

definition toy_refund_rule :: DetectionRule where
  "toy_refund_rule = toy_rule\<lparr>dr_RuleDefinition := Some (DObj [(''rule_type'', DStr ''refund_no_receipt'')])\<rparr>"

definition toy_refunds :: chirp_db where
  "toy_refunds = toy_chirp\<lparr>chd_rules := [toy_refund_rule]\<rparr>"

lemma toy_refund_type: "RuleType toy_refund_rule = Inr ''refund_no_receipt''"
proof -
  have "fold_name ''rule_type'' = ''rule_type''" by code_simp
  then show ?thesis by (simp add: RuleType_def envelope_def toy_refund_rule_def toy_rule_def field_docs_def)
qed

lemma toy_context_loaded:
  "LoadEvalContext toy_chirp_env toy_stored toy_refunds = Inr (toy_context [])"
  by (simp add: LoadEvalContext_def loadLineItems_def loadDiscounts_def LoadCashierWindow_def loadDrawerEvents_def loadLocationConfig_def query_def
      toy_chirp_env_def toy_refunds_def toy_chirp_def toy_stored_def toy_return_def Transaction.extend_def Transaction.truncate_def Let_def toy_context_def)

text \<open>A return without a receipt is detected once.\<close>

theorem evaluation_records_matches_witness:
  "\<exists>d db'. EvaluateTransaction toy_engine toy_chirp_env 1 7 toy_refunds = (Inr [d], db') \<and> chd_detections db' = [stored d]"
proof -
  let ?x = "expected toy_engine toy_chirp_env 7 toy_refunds"
  have f: "List.find (\<lambda>t. tx_ID t = 7) (chd_transactions toy_refunds) = Some toy_stored" "tx_TenantID toy_stored = 1"
    by (simp_all add: toy_refunds_def toy_chirp_def toy_stored_def toy_return_def Transaction.extend_def)
  have r: "event_rules 1 toy_refunds = [toy_refund_rule]" by (simp add: event_rules_def toy_refunds_def toy_refund_rule_def toy_rule_def)
  obtain m where m: "RefundNoReceipt toy_refund_rule (toy_context []) = Inr [m]" by (simp add: RefundNoReceipt_def toy_context_def toy_return_def)
  then have "all_matches toy_engine (toy_context []) [toy_refund_rule] = [(toy_refund_rule, m)]"
    by (simp add: all_matches_def rule_matches_def evaluateOne_def toy_refund_type toy_engine_def registerBaseline_def)
  then have x: "?x = [recorded toy_engine toy_chirp_env (toy_context []) toy_refunds (0, toy_refund_rule, m)]"
    using f r toy_context_loaded by (simp add: expected_def)
  have d: "chd_detections toy_refunds = []" "\<not> che_fails toy_chirp_env c n" for c n by (simp_all add: toy_refunds_def toy_chirp_def toy_chirp_env_def)
  obtain ds db' where e: "EvaluateTransaction toy_engine toy_chirp_env 1 7 toy_refunds = (Inr ds, db')"
    using f toy_context_loaded d(2) r
    by (cases "run_rules toy_engine toy_chirp_env (toy_context []) [toy_refund_rule] 0 [] toy_refunds")
      (simp add: EvaluateTransaction_def LoadTransaction_def LoadRules_def event_rules_def)
  from evaluation_records_matches [OF e] show ?thesis using x d e by simp
qed



definition toy_no_sale :: CashierAction where
  "toy_no_sale = \<lparr>ca_ID = 9, ca_TenantID = 1, ca_TransactionID = None, ca_LocationID = 3, ca_CashierEmployeeID = 4, ca_POSTerminalID = None,
     ca_ActionType = ''no_sale'', ca_PerformedAt = 0, ca_AuthorizedByEmployeeID = None, ca_Details = RawText ''{}'', ca_Attributes = RawText ''{}''\<rparr>"

definition toy_drawer_rule :: DetectionRule where
  "toy_drawer_rule = toy_rule\<lparr>dr_RuleDefinition := Some (DObj [(''rule_type'', DStr ''no_sale_frequency'')])\<rparr>"


end
