(* ===== verification/Spec2Isabelle.thy ===== *)
theory Spec2Isabelle
  imports Webhook Resolver Keystore ApiKey SessionLaws Validate Lnurl Adapters Dlq Intake FoxLaws Documents Replenish ChirpLaws
begin

text \<open>
  A verification library for the canary-go retail platform.

  The platform ingests point-of-sale events over signed webhooks, seals them into per-merchant
  hash chains, anchors batches of seals in Merkle trees inscribed on Bitcoin, prices carts against
  promotions and tax rates, and guards all of it by API keys, logins and rate limits.  Paths below
  are relative to \<open>src/internal\<close>.

  \<^bold>\<open>Foundations.\<close>  \<open>Prelude\<close> has the result and option combinators, int64 wrap-around, the SQL
  idioms (first row, ORDER BY DESC) and the \<open>codec\<close> locale; \<open>GoText\<close>, \<open>GoTime\<close>, \<open>GoRat\<close>,
  \<open>Float64\<close>, \<open>Json\<close> and \<open>Base64\<close> are the parts of Go's standard library the code depends on
  (strings, fmt, hex, base64, base32, time, big.Rat, float64, encoding/json); \<open>Streams\<close> and \<open>Valkey\<close>
  are the Redis streams and the keys with an expiry; \<open>Chain\<close> is the abstract hash chain.

  \<^bold>\<open>Protocol.\<close>  \<open>Hmac\<close> (\<open>protocol/hmac/hmac.go\<close>) parses, signs and verifies requests, with the
  nonce store of \<open>protocol/publisher\<close>; \<open>Webhook\<close> (\<open>protocol/webhook/handler.go\<close>) is the gateway in
  front of the stream.  \<open>Seal\<close> (\<open>protocol/sub1\<close>) consumes the stream and writes the evidence rows of
  a merchant's chain; \<open>Sub2\<close> (\<open>protocol/sub2\<close>, rows in \<open>Sales\<close>) consumes it beside Sub 1, has the
  adapter of the source parse the event (\<open>Adapters\<close>: \<open>adapters/square\<close>, \<open>counterpoint\<close>, \<open>clover\<close>) and
  writes the sale; \<open>Merkle\<close> and \<open>Anchor\<close> (\<open>protocol/sub3\<close>) build the trees and run the anchor
  cycles over unanchored rows; \<open>Validate\<close> (\<open>protocol/validate\<close>) sells proofs for them, one per paid
  token.  The properties of this part: linear chains for in-order events and the forks of late
  ones, the sale tables as a refinement of a log that has every sale once, soundness of the
  anchors whatever fails, completeness of the trees and unforgeability of their proofs, no replay
  within the window and the replays outside it, what the gateway publishes, and what a paid proof
  is a proof of.

  \<^bold>\<open>Pricing.\<close>  \<open>Money\<close>, \<open>Promotions\<close> and \<open>Resolver\<close> (\<open>pricing/money.go\<close>, \<open>promotions.go\<close>,
  \<open>resolver.go\<close>, \<open>store.go\<close>, \<open>tax.go\<close>): fixed-point amounts in int64 with big.Rat products,
  the evaluation and choice of promotions, lines and carts.  Their properties are the round trips
  of amounts, half-up rounding, the bounds of discounts, the choice of the best promotions, the
  totals of a cart, and the inputs on which rendering an amount never returns.

  \<^bold>\<open>Identity.\<close>  \<open>RateLimit\<close> (\<open>identity/ratelimit.go\<close>) counts failures and requests over Valkey;
  \<open>Families\<close> (\<open>identity/refreshfamily/store.go\<close>) is the ledger of refresh tokens; \<open>Keystore\<close>
  (\<open>identity/keystore/keystore.go\<close>) the signing keys; \<open>Credentials\<close> the stored forms of keys and
  passwords; \<open>ApiKey\<close> (\<open>identity/apikey.go\<close>, \<open>scopemw.go\<close>, \<open>context.go\<close>, \<open>lastused.go\<close>) the key
  middleware; \<open>Session\<close> and \<open>SessionLaws\<close> (\<open>identity/auth\<close>, \<open>mint\<close>, \<open>tokenverify\<close>) login, refresh,
  minting and verification; \<open>Lnurl\<close> (\<open>auth/lnurl\<close>) login with a Lightning wallet.  The properties say who is admitted and who is locked out: thresholds
  of the lockouts, the per-minute throttle, single use of refresh tokens and of wallet challenges,
  the life of signing keys, admission by key and scope, and the round trip from login over refresh
  to reuse.

  \<^bold>\<open>Interfaces.\<close>  Six locales state what one part relies on of another, each interpreted on the
  model: \<open>codec\<close> (rendering and parsing), \<open>once_store\<close> (the nonce store), \<open>window_counter\<close> (counters
  with an expiry), \<open>linked_log\<close> (links of a chain), \<open>family_ledger\<close> (rotation of tokens) and \<open>one_shot\<close>
  (\<open>OneShot\<close>: things used at most once, for payment tokens and for wallet challenges).

  \<^bold>\<open>How the code is rendered.\<close>  A uuid is a 128-bit word, a time is the integer of its nanoseconds
  since the epoch, a duration and an int64 are integers with the wrap-around written out, a string
  is its list of bytes.  A database table is the list or map of its rows, with its constraints in
  the inserting operation; every call to the database or to Valkey may fail, chosen by an argument
  that names the call sites, and a failed transaction leaves the state as it was.  A handler runs
  at one instant, which is an argument like the fresh identifiers it draws.  Errors are values of a
  sum.  Loops that may not end return \<open>None\<close> through \<open>partial_function\<close>; everything else is total
  by its termination proof.

  \<^bold>\<open>Parameters.\<close>  Not under \<open>src\<close> and therefore arguments: SHA-256, HMAC and argon2id, the parser
  and printer of google/uuid, golang-jwt with its key parsers, the OrdinalsBot client, the case
  tables of package unicode outside ASCII, secp256k1 and bech32, the decoding of JSON into the
  structures of an adapter, and which texts PostgreSQL reads as a numeric.  What a theorem needs of them is a hypothesis.

  \<^bold>\<open>Not modelled.\<close>  Code generated by sqlc and the table types, HTML pages of the console, process
  wiring under \<open>cmd\<close>, HTTP plumbing and logging; adapters, pollers and clients of external services;
  CRUD services that pass a decoded request to one SQL statement.  Concurrency is modelled as the
  order of whole transactions or of the steps of a stream consumer.
\<close>

end
